(* ===== verification/Xbox_Prelude.thy ===== *)
theory Xbox_Prelude
  imports Main "HOL-Library.Word"
begin

text \<open>
  The prelude of the development: the C integer types as words, failing C code as values of a sum
  type, byte buffers with their bounds, byte-addressed memory with little-endian accesses, and the
  register-field macros \<open>GET_MASK\<close> and \<open>SET_MASK\<close> that the NV2A and the APU share.
  The lemmas here are the ones more than one component uses.
\<close>

unbundle bit_operations_syntax

section \<open>Types\<close>

type_synonym u8 = "8 word"
type_synonym u16 = "16 word"
type_synonym u32 = "32 word"
type_synonym u64 = "64 word"
type_synonym hwaddr = u64

named_theorems res_simps \<open>rewriting of computations that may fail\<close>
named_theorems bus_simps \<open>symbolic execution of one bus transfer\<close>
named_theorems reg_defs \<open>register numbers and register masks\<close>

section \<open>Words and naturals\<close>

lemma unat_of_nat_small: "n < 2 ^ LENGTH('a::len) \<Longrightarrow> unat (of_nat n :: 'a word) = n"
  by (simp add: unat_of_nat)

lemma unat_two_power: "n < LENGTH('a::len) \<Longrightarrow> unat (2 ^ n :: 'a word) = 2 ^ n"
  using unat_of_nat_small [of "2 ^ n", where 'a = 'a] by simp

lemma unat_of_nat_u32: "n < 2 ^ 32 \<Longrightarrow> unat (of_nat n :: u32) = n"
  by (rule unat_of_nat_small) simp

lemma unat_less_two_powerD: "unat (x :: u32) < 2 ^ a \<Longrightarrow> a \<le> n \<Longrightarrow> \<not> bit x n"
  by (metis bit_take_bit_iff not_le take_bit_nat_eq_self_iff unsigned_take_bit_eq word_unat_eq_iff)

lemma unat_less_two_powerI:
  assumes "\<And>n. a \<le> n \<Longrightarrow> n < 32 \<Longrightarrow> \<not> bit (x :: u32) n"
  shows "unat x < 2 ^ a"
proof -
  have "x = take_bit a x"
  proof (rule bit_word_eqI)
    fix n :: nat
    assume "n < LENGTH(32)"
    with assms [of n] show "bit x n = bit (take_bit a x) n"
      by (cases "n < a") (auto simp: bit_simps)
  qed
  then show ?thesis
    by (metis take_bit_nat_less_exp unsigned_take_bit_eq)
qed

lemma unat_ucast_u64: "unat (ucast (x :: u32) :: u64) = unat x"
  using unsigned_less [of x, where ?'a = nat] by (simp add: unsigned_ucast_eq take_bit_nat_eq_self_iff)

text \<open>Testing one bit.\<close>

lemma and_one_nonzero: "x AND 1 \<noteq> 0 \<longleftrightarrow> bit x 0" for x :: "'a::len word"
  by (simp add: and_one_eq bit_0 odd_iff_mod_2_eq_one)

section \<open>Computations that may fail\<close>

text \<open>
  A failed \<open>assert\<close>, an access outside of an array, a division by zero and a call of \<open>exit\<close> end the program,
  and a shift by the width of its operand or more has no defined result. They are the left summand of a
  result.
\<close>

datatype fault = Assertion_failed | Out_of_bounds | Division_by_zero | Exit_called | Undefined_shift

type_synonym 'a res = "fault + 'a"

definition res_bind :: "'a res \<Rightarrow> ('a \<Rightarrow> 'b res) \<Rightarrow> 'b res" where
  "res_bind r k = (case r of Inl e \<Rightarrow> Inl e | Inr x \<Rightarrow> k x)"

lemma res_bind_simps [simp, res_simps]:
  "res_bind (Inr x) k = k x"
  "res_bind (Inl e) k = Inl e"
  by (simp_all add: res_bind_def)

lemma res_bind_Inr_iff [res_simps]:
  "res_bind r k = Inr y \<longleftrightarrow> (\<exists>x. r = Inr x \<and> k x = Inr y)"
  by (cases r) simp_all

lemma res_bind_assoc:
  "res_bind (res_bind r f) g = res_bind r (\<lambda>x. res_bind (f x) g)"
  by (cases r) simp_all

definition assert_res :: "bool \<Rightarrow> unit res" where
  "assert_res b = (if b then Inr () else Inl Assertion_failed)"

lemma assert_res_simps [simp, res_simps]:
  "assert_res True = Inr ()"
  "assert_res False = Inl Assertion_failed"
  "assert_res b = Inr u \<longleftrightarrow> b"
  by (simp_all add: assert_res_def)

text \<open>The computation succeeds with a result that has the property \<open>P\<close>; the rules follow its structure.\<close>

definition res_ok :: "('a \<Rightarrow> bool) \<Rightarrow> 'a res \<Rightarrow> bool" where
  "res_ok P r \<longleftrightarrow> (\<exists>x. r = Inr x \<and> P x)"

lemma res_ok_Inr: "P x \<Longrightarrow> res_ok P (Inr x)"
  by (simp add: res_ok_def)

lemma res_ok_if: "(c \<Longrightarrow> res_ok P r) \<Longrightarrow> (\<not> c \<Longrightarrow> res_ok P r') \<Longrightarrow> res_ok P (if c then r else r')"
  by simp

lemma res_ok_bind: "res_ok Q r \<Longrightarrow> (\<And>x. Q x \<Longrightarrow> res_ok P (k x)) \<Longrightarrow> res_ok P (res_bind r k)"
  by (auto simp: res_ok_def)

lemma res_ok_assert: "b \<Longrightarrow> (b \<Longrightarrow> res_ok P (k ())) \<Longrightarrow> res_ok P (res_bind (assert_res b) k)"
  by simp

lemmas res_ok_rules = res_ok_Inr res_ok_if res_ok_assert

lemma res_okE: "res_ok P r \<Longrightarrow> (\<And>x. r = Inr x \<Longrightarrow> P x \<Longrightarrow> thesis) \<Longrightarrow> thesis"
  by (auto simp: res_ok_def)

text \<open>If the computation succeeds, its result has the property \<open>P\<close>.\<close>

definition res_all :: "('a \<Rightarrow> bool) \<Rightarrow> 'a res \<Rightarrow> bool" where
  "res_all P r \<longleftrightarrow> (\<forall>x. r = Inr x \<longrightarrow> P x)"

lemma res_all_Inr: "P x \<Longrightarrow> res_all P (Inr x)"
  by (simp add: res_all_def)

lemma res_all_Inl: "res_all P (Inl e)"
  by (simp add: res_all_def)

lemma res_all_if: "(c \<Longrightarrow> res_all P r) \<Longrightarrow> (\<not> c \<Longrightarrow> res_all P r') \<Longrightarrow> res_all P (if c then r else r')"
  by simp

lemma res_all_bind: "(\<And>x. r = Inr x \<Longrightarrow> res_all P (k x)) \<Longrightarrow> res_all P (res_bind r k)"
  by (cases r) (simp_all add: res_all_def)

lemmas res_all_rules = res_all_Inr res_all_Inl res_all_if res_all_bind

lemma res_allD: "res_all P r \<Longrightarrow> r = Inr x \<Longrightarrow> P x"
  by (simp add: res_all_def)

text \<open>The computation does not end in the fault \<open>bad\<close>, and if it succeeds its result has the property \<open>P\<close>.\<close>

definition res_safe :: "fault \<Rightarrow> ('a \<Rightarrow> bool) \<Rightarrow> 'a res \<Rightarrow> bool" where
  "res_safe bad P r \<longleftrightarrow> (case r of Inl e \<Rightarrow> e \<noteq> bad | Inr x \<Rightarrow> P x)"

lemma res_safe_Inr: "P x \<Longrightarrow> res_safe bad P (Inr x)"
  by (simp add: res_safe_def)

lemma res_safe_if: "(c \<Longrightarrow> res_safe bad P r) \<Longrightarrow> (\<not> c \<Longrightarrow> res_safe bad P r') \<Longrightarrow> res_safe bad P (if c then r else r')"
  by simp

lemma res_safe_bind: "res_safe bad Q r \<Longrightarrow> (\<And>x. Q x \<Longrightarrow> res_safe bad P (k x)) \<Longrightarrow> res_safe bad P (res_bind r k)"
  by (cases r) (simp_all add: res_safe_def)

lemma res_safe_mono: "res_safe bad Q r \<Longrightarrow> (\<And>x. Q x \<Longrightarrow> P x) \<Longrightarrow> res_safe bad P r"
  by (cases r) (simp_all add: res_safe_def)

lemmas res_safe_rules = res_safe_Inr res_safe_if

text \<open>A \<open>for\<close> loop whose body may fail, over the list of the values its counter takes.\<close>

primrec fold_res :: "('a \<Rightarrow> 's \<Rightarrow> 's res) \<Rightarrow> 'a list \<Rightarrow> 's \<Rightarrow> 's res" where
  "fold_res f [] s = Inr s"
| "fold_res f (x # xs) s = res_bind (f x s) (fold_res f xs)"

lemma fold_res_append:
  "fold_res f (xs @ ys) s = res_bind (fold_res f xs s) (fold_res f ys)"
  by (induction xs arbitrary: s) (simp_all add: res_bind_def split: sum.splits)

lemma res_bind_fold_Nil [simp]: "res_bind r (fold_res f []) = r"
  by (cases r) simp_all

lemma fold_res_map: "fold_res f (map g xs) s = fold_res (\<lambda>x. f (g x)) xs s"
  by (induction xs arbitrary: s) (simp_all add: res_bind_def split: sum.splits)

text \<open>Two nested loops are one loop over the pairs of the counters.\<close>

lemma fold_res_nested:
  "fold_res (\<lambda>y. fold_res (\<lambda>x. f x y) (g y)) ys s
     = fold_res (\<lambda>(x, y). f x y) (concat (map (\<lambda>y. map (\<lambda>x. (x, y)) (g y)) ys)) s"
  by (induction ys arbitrary: s)
    (simp_all add: fold_res_append fold_res_map res_bind_def split: sum.splits)

lemma fold_res_total:
  assumes "\<And>x s. x \<in> set xs \<Longrightarrow> P s \<Longrightarrow> \<exists>s'. f x s = Inr s' \<and> P s'" and "P s"
  shows "\<exists>s'. fold_res f xs s = Inr s' \<and> P s'"
  using assms
proof (induction xs arbitrary: s)
  case Nil
  then show ?case by simp
next
  case (Cons x xs)
  from Cons.prems obtain s1 where "f x s = Inr s1" "P s1" by fastforce
  with Cons.IH [of s1] Cons.prems(1) show ?case by fastforce
qed

lemma fold_res_safe:
  assumes "\<And>x s. x \<in> set xs \<Longrightarrow> P s \<Longrightarrow> res_safe bad P (f x s)" and "P s"
  shows "res_safe bad P (fold_res f xs s)"
  using assms
proof (induction xs arbitrary: s)
  case (Cons x xs)
  show ?case
    unfolding fold_res.simps by (rule res_safe_bind [of _ P]) (use Cons in auto)
qed (simp add: res_safe_def)

section \<open>Byte buffers\<close>

text \<open>\<open>memcpy\<close> from and to an array of bytes, with the array's bounds.\<close>

definition buf_read :: "u8 list \<Rightarrow> nat \<Rightarrow> nat \<Rightarrow> u8 list res" where
  "buf_read buf off n =
     (if off + n \<le> length buf then Inr (take n (drop off buf)) else Inl Out_of_bounds)"

definition buf_write :: "u8 list \<Rightarrow> nat \<Rightarrow> u8 list \<Rightarrow> u8 list res" where
  "buf_write buf off bs =
     (if off + length bs \<le> length buf
      then Inr (take off buf @ bs @ drop (off + length bs) buf) else Inl Out_of_bounds)"

definition arr_get :: "'a list \<Rightarrow> nat \<Rightarrow> 'a res" where
  "arr_get xs i = (if i < length xs then Inr (xs ! i) else Inl Out_of_bounds)"

definition arr_set :: "'a list \<Rightarrow> nat \<Rightarrow> 'a \<Rightarrow> 'a list res" where
  "arr_set xs i v = (if i < length xs then Inr (xs[i := v]) else Inl Out_of_bounds)"

lemma arr_get_ok [simp]: "i < length xs \<Longrightarrow> arr_get xs i = Inr (xs ! i)"
  by (simp add: arr_get_def)

lemma arr_set_ok [simp]: "i < length xs \<Longrightarrow> arr_set xs i v = Inr (xs[i := v])"
  by (simp add: arr_set_def)

lemma buf_write_length: "buf_write buf off bs = Inr buf' \<Longrightarrow> length buf' = length buf"
  by (auto simp: buf_write_def split: if_splits)

lemma buf_read_length: "buf_read buf off n = Inr bs \<Longrightarrow> length bs = n"
  by (auto simp: buf_read_def split: if_splits)

lemma buf_write_nth:
  assumes "buf_write buf off bs = Inr buf'" and "i < length buf"
  shows "buf' ! i = (if off \<le> i \<and> i < off + length bs then bs ! (i - off) else buf ! i)"
proof -
  from assms(1) have le: "off + length bs \<le> length buf"
    and buf': "buf' = take off buf @ bs @ drop (off + length bs) buf"
    by (auto simp: buf_write_def split: if_splits)
  consider "i < off" | "off \<le> i" "i < off + length bs" | "off + length bs \<le> i" by linarith
  then show ?thesis
    using le assms(2) by cases (auto simp: buf' nth_append)
qed

lemma buf_read_nth: "buf_read buf off n = Inr bs \<Longrightarrow> i < n \<Longrightarrow> bs ! i = buf ! (off + i)"
  by (auto simp: buf_read_def split: if_splits)

section \<open>Byte-addressed memory\<close>

type_synonym mem = "u64 \<Rightarrow> u8"

definition le32 :: "u8 \<Rightarrow> u8 \<Rightarrow> u8 \<Rightarrow> u8 \<Rightarrow> u32" where
  "le32 b0 b1 b2 b3 =
     ucast b0 OR push_bit 8 (ucast b1) OR push_bit 16 (ucast b2) OR push_bit 24 (ucast b3)"

definition byte_of :: "nat \<Rightarrow> u32 \<Rightarrow> u8" where
  "byte_of i v = ucast (drop_bit (8 * i) v)"

text \<open>\<open>ldl_le_p\<close> and \<open>stl_le_p\<close>: a little-endian 32-bit load and store.\<close>

definition ldl_le :: "mem \<Rightarrow> u64 \<Rightarrow> u32" where
  "ldl_le m a = le32 (m a) (m (a + 1)) (m (a + 2)) (m (a + 3))"

definition stl_le :: "mem \<Rightarrow> u64 \<Rightarrow> u32 \<Rightarrow> mem" where
  "stl_le m a v =
     m(a := byte_of 0 v, a + 1 := byte_of 1 v, a + 2 := byte_of 2 v, a + 3 := byte_of 3 v)"

lemma le32_byte_of [simp]:
  "le32 (byte_of 0 v) (byte_of (Suc 0) v) (byte_of 2 v) (byte_of 3 v) = v"
proof (rule bit_word_eqI)
  fix n :: nat
  assume "n < LENGTH(32)"
  then show "bit (le32 (byte_of 0 v) (byte_of (Suc 0) v) (byte_of 2 v) (byte_of 3 v)) n = bit v n"
    by (cases "n < 8"; cases "n < 16"; cases "n < 24") (auto simp: le32_def byte_of_def bit_simps)
qed

lemma bit_le32:
  "n < 32 \<Longrightarrow> bit (le32 b0 b1 b2 b3) n
     = bit (if n < 8 then b0 else if n < 16 then b1 else if n < 24 then b2 else b3) (n mod 8)"
  by (auto simp: le32_def bit_simps mod_if dest: bit_imp_le_length)

lemma byte_of_le32:
  "byte_of 0 (le32 b0 b1 b2 b3) = b0" "byte_of 1 (le32 b0 b1 b2 b3) = b1"
  "byte_of 2 (le32 b0 b1 b2 b3) = b2" "byte_of 3 (le32 b0 b1 b2 b3) = b3"
  by (rule bit_word_eqI; auto simp: byte_of_def le32_def bit_simps dest: bit_imp_le_length)+

lemma ldl_stl_same: "ldl_le (stl_le m a v) a = v"
  by (simp add: ldl_le_def stl_le_def le32_byte_of)

lemma stl_le_other:
  "b \<noteq> a \<Longrightarrow> b \<noteq> a + 1 \<Longrightarrow> b \<noteq> a + 2 \<Longrightarrow> b \<noteq> a + 3 \<Longrightarrow> stl_le m a v b = m b"
  by (simp add: stl_le_def)

text \<open>Two accesses are apart when each starts at least four bytes after the other.\<close>

definition apart4 :: "u64 \<Rightarrow> u64 \<Rightarrow> bool" where
  "apart4 a b \<longleftrightarrow> 4 \<le> a - b \<and> 4 \<le> b - a"

lemma ldl_stl_apart:
  assumes "apart4 a b"
  shows "ldl_le (stl_le m a v) b = ldl_le m b"
proof -
  have *: "b + i \<noteq> a + j" if "i < 4" "j < 4" for i j
  proof
    assume eq: "b + i = a + j"
    show False
    proof (cases "i \<le> j")
      case True
      from eq have "b - a = j - i" by (simp add: algebra_simps)
      moreover have "j - i \<le> j" using True by (simp add: word_sub_le)
      ultimately show False using assms \<open>j < 4\<close> by (auto simp: apart4_def)
    next
      case False
      then have "j \<le> i" by simp
      from eq have "a - b = i - j" by (simp add: algebra_simps)
      moreover have "i - j \<le> i" using \<open>j \<le> i\<close> by (simp add: word_sub_le)
      ultimately show False using assms \<open>i < 4\<close> by (auto simp: apart4_def)
    qed
  qed
  show ?thesis
    using *[of 0 0] *[of 0 1] *[of 0 2] *[of 0 3] *[of 1 0] *[of 1 1] *[of 1 2] *[of 1 3]
      *[of 2 0] *[of 2 1] *[of 2 2] *[of 2 3] *[of 3 0] *[of 3 1] *[of 3 2] *[of 3 3]
    by (simp add: ldl_le_def stl_le_def)
qed

end
