(* ===== verification/Swizzle.thy ===== *)
theory Swizzle
  imports Xbox_Prelude
begin

text \<open>
  Texture swizzling, \<open>src/hw/xbox/swizzle.h\<close>. The NV2A stores a texture in Z order: the low bits
  of the two coordinates are interleaved, and what is left of the longer side follows above them.
  \<open>get_swizzled_offset\<close> computes the place of a pixel, \<open>flip_and_swizzle\<close> and
  \<open>unswizzle_and_flip\<close> copy whole images. Shown here: on power-of-two sizes the offset is a
  bijection between the pixels and their places, both copies stay inside of the buffers, and one
  undoes the other.
\<close>

section \<open>The code\<close>

function log2i_loop :: "u32 \<Rightarrow> u32 \<Rightarrow> u32" where
  "log2i_loop i r = (if drop_bit 1 i \<noteq> 0 then log2i_loop (drop_bit 1 i) (r + 1) else r)"
  by pat_completeness auto

termination
proof (relation "measure (\<lambda>(i, r). unat i)")
  fix i r :: u32
  assume "drop_bit 1 i \<noteq> 0"
  moreover have "unat (drop_bit 1 i) = unat i div 2"
    by (simp add: drop_bit_eq_div unat_div)
  ultimately have "0 < unat i div 2"
    by (metis gr0I unat_eq_zero)
  then show "((drop_bit 1 i, r + 1), (i, r)) \<in> measure (\<lambda>(i, r). unat i)"
    using \<open>unat (drop_bit 1 i) = unat i div 2\<close> by (simp del: drop_bit_Suc)
qed simp

declare log2i_loop.simps [simp del]

definition log2i :: "u32 \<Rightarrow> u32" where
  "log2i i = log2i_loop i 0"

definition swizzle_u :: "u32 \<Rightarrow> u32" where
  "swizzle_u x =
     push_bit 0 (x AND 0x001) OR
     push_bit 1 (x AND 0x002) OR
     push_bit 2 (x AND 0x004) OR
     push_bit 3 (x AND 0x008) OR
     push_bit 4 (x AND 0x010) OR
     push_bit 5 (x AND 0x020) OR
     push_bit 6 (x AND 0x040) OR
     push_bit 7 (x AND 0x080) OR
     push_bit 8 (x AND 0x100) OR
     push_bit 9 (x AND 0x200) OR
     push_bit 10 (x AND 0x400) OR
     push_bit 11 (x AND 0x800)"

definition swizzle_v :: "u32 \<Rightarrow> u32" where
  "swizzle_v y =
     push_bit 1 (y AND 0x001) OR
     push_bit 2 (y AND 0x002) OR
     push_bit 3 (y AND 0x004) OR
     push_bit 4 (y AND 0x008) OR
     push_bit 5 (y AND 0x010) OR
     push_bit 6 (y AND 0x020) OR
     push_bit 7 (y AND 0x040) OR
     push_bit 8 (y AND 0x080) OR
     push_bit 9 (y AND 0x100) OR
     push_bit 10 (y AND 0x200) OR
     push_bit 11 (y AND 0x400) OR
     push_bit 12 (y AND 0x800)"

definition get_swizzled_offset :: "u32 \<Rightarrow> u32 \<Rightarrow> u32 \<Rightarrow> u32 \<Rightarrow> u32 \<Rightarrow> u32" where
  "get_swizzled_offset x y width height bytes_per_pixel =
     (let k = log2i (min width height);
          u = swizzle_u x;
          v = swizzle_v y
      in bytes_per_pixel *
           (((u OR v) AND NOT (push_bit (unat (2 * k)) (NOT 0))) OR
            push_bit (unat k) (x AND push_bit (unat k) (NOT 0)) OR
            push_bit (unat k) (y AND push_bit (unat k) (NOT 0))))"

text \<open>The offset of a pixel in the linear image, whose rows are stored bottom up.\<close>

definition linear_offset :: "u32 \<Rightarrow> u32 \<Rightarrow> u32 \<Rightarrow> u32 \<Rightarrow> u32 \<Rightarrow> u32" where
  "linear_offset x y height pitch bytes_per_pixel =
     (height - y - 1) * pitch + x * bytes_per_pixel"

text \<open>\<open>memcpy(dst_buf + d, src_buf + s, n)\<close>\<close>

definition copy_bytes :: "u8 list \<Rightarrow> nat \<Rightarrow> nat \<Rightarrow> nat \<Rightarrow> u8 list \<Rightarrow> u8 list res" where
  "copy_bytes src n s d dst = res_bind (buf_read src s n) (\<lambda>bs. buf_write dst d bs)"

definition flip_and_swizzle ::
  "u8 list \<Rightarrow> u32 \<Rightarrow> u32 \<Rightarrow> u8 list \<Rightarrow> u32 \<Rightarrow> u32 \<Rightarrow> u8 list res" where
  "flip_and_swizzle src_buf width height dst_buf src_pitch bytes_per_pixel =
     fold_res (\<lambda>y. fold_res (\<lambda>x.
         copy_bytes src_buf (unat bytes_per_pixel)
           (unat (linear_offset (of_nat x) (of_nat y) height src_pitch bytes_per_pixel))
           (unat (get_swizzled_offset (of_nat x) (of_nat y) width height bytes_per_pixel)))
       [0..<unat width]) [0..<unat height] dst_buf"

definition unswizzle_and_flip ::
  "u8 list \<Rightarrow> u32 \<Rightarrow> u32 \<Rightarrow> u8 list \<Rightarrow> u32 \<Rightarrow> u32 \<Rightarrow> u8 list res" where
  "unswizzle_and_flip src_buf width height dst_buf dst_pitch bytes_per_pixel =
     fold_res (\<lambda>y. fold_res (\<lambda>x.
         copy_bytes src_buf (unat bytes_per_pixel)
           (unat (get_swizzled_offset (of_nat x) (of_nat y) width height bytes_per_pixel))
           (unat (linear_offset (of_nat x) (of_nat y) height dst_pitch bytes_per_pixel)))
       [0..<unat width]) [0..<unat height] dst_buf"

section \<open>The bits of the offset\<close>

lemma bit_spread:
  "i + i < 32 \<Longrightarrow> bit (push_bit i (x AND push_bit i 1) :: u32) n \<longleftrightarrow> n = i + i \<and> bit x i"
  by (auto simp: bit_simps)

lemma swizzle_u_alt:
  "swizzle_u x = foldr (OR) (map (\<lambda>i. push_bit i (x AND push_bit i 1)) [0..<12]) 0"
  by (simp add: swizzle_u_def upt_rec numeral_eq_Suc or.assoc)

lemma bit_foldr_or:
  "bit (foldr (OR) (map f xs) (0 :: u32)) n \<longleftrightarrow> (\<exists>i \<in> set xs. bit (f i) n)"
  by (induction xs) (auto simp: bit_simps)

lemma bit_swizzle_u: "bit (swizzle_u x) n \<longleftrightarrow> even n \<and> n < 24 \<and> bit x (n div 2)"
proof -
  have "bit (swizzle_u x) n \<longleftrightarrow> (\<exists>i \<in> set [0..<12]. n = i + i \<and> bit x i)"
    unfolding swizzle_u_alt bit_foldr_or by (intro bex_cong refl bit_spread) simp
  then show ?thesis by (auto elim!: evenE)
qed

lemma bit_spread_Suc:
  "Suc (i + i) < 32 \<Longrightarrow>
     bit (push_bit (Suc i) (x AND push_bit i 1) :: u32) n \<longleftrightarrow> n = Suc (i + i) \<and> bit x i"
  by (auto simp: bit_simps simp del: push_bit_Suc)

lemma swizzle_v_alt:
  "swizzle_v y = foldr (OR) (map (\<lambda>i. push_bit (Suc i) (y AND push_bit i 1)) [0..<12]) 0"
  by (simp add: swizzle_v_def upt_rec numeral_eq_Suc or.assoc)

lemma bit_swizzle_v: "bit (swizzle_v y) n \<longleftrightarrow> odd n \<and> n < 24 \<and> bit y (n div 2)"
proof -
  have "bit (swizzle_v y) n \<longleftrightarrow> (\<exists>i \<in> set [0..<12]. n = Suc (i + i) \<and> bit y i)"
    unfolding swizzle_v_alt bit_foldr_or by (intro bex_cong refl bit_spread_Suc) simp
  then show ?thesis by (auto elim!: oddE)
qed

text \<open>\<open>log2i\<close> of a power of two is its exponent.\<close>

lemma log2i_loop_two_power: "n < 32 \<Longrightarrow> log2i_loop (2 ^ n) r = r + of_nat n"
proof (induction n arbitrary: r)
  case 0
  then show ?case by (subst log2i_loop.simps) simp
next
  case (Suc n)
  have "drop_bit 1 (2 ^ Suc n :: u32) = 2 ^ n"
    using Suc.prems by (auto intro!: bit_word_eqI simp: bit_simps)
  moreover have "(2 ^ n :: u32) \<noteq> 0"
    using Suc.prems by (simp add: exp_eq_zero_iff)
  ultimately show ?case
    using Suc by (subst log2i_loop.simps) (simp only: if_True not_False_eq_True, simp)
qed

lemma log2i_two_power: "n < 32 \<Longrightarrow> log2i (2 ^ n) = of_nat n"
  by (simp add: log2i_def log2i_loop_two_power)

text \<open>The place of a pixel in an image of \<open>2 ^ a \<times> 2 ^ b\<close>, in units of pixels, and its bits.\<close>

definition swizzled_index :: "nat \<Rightarrow> u32 \<Rightarrow> u32 \<Rightarrow> u32" where
  "swizzled_index k x y =
     ((swizzle_u x OR swizzle_v y) AND NOT (push_bit (k + k) (NOT 0))) OR
     push_bit k (x AND push_bit k (NOT 0)) OR
     push_bit k (y AND push_bit k (NOT 0))"

lemma get_swizzled_offset_eq:
  assumes "a < 32" "b < 32"
  shows "get_swizzled_offset x y (2 ^ a) (2 ^ b) bpp = bpp * swizzled_index (min a b) x y"
proof -
  have "min (2 ^ a) (2 ^ b) = (2 ^ min a b :: u32)"
  proof (cases "a \<le> b")
    case True
    then have "(2 ^ a :: u32) \<le> 2 ^ b"
      using assms by (simp add: word_le_nat_alt unat_two_power)
    with True show ?thesis by (simp add: min_def)
  next
    case False
    then have "(2 ^ b :: u32) \<le> 2 ^ a"
      using assms by (simp add: word_le_nat_alt unat_two_power)
    with False show ?thesis by (auto simp: min_def dest: order_antisym)
  qed
  moreover have "unat (of_nat (min a b) :: u32) = min a b"
    using assms by (intro unat_of_nat_u32) (auto simp: min_def)
  moreover have "unat (2 * of_nat (min a b) :: u32) = min a b + min a b"
  proof -
    have "(2 * of_nat (min a b) :: u32) = of_nat (min a b + min a b)" by simp
    moreover have "unat (of_nat (min a b + min a b) :: u32) = min a b + min a b"
      using assms by (intro unat_of_nat_u32) (auto simp: min_def)
    ultimately show ?thesis by simp
  qed
  ultimately show ?thesis
    using assms by (simp add: get_swizzled_offset_def swizzled_index_def Let_def log2i_two_power)
qed

lemma bit_swizzled_index:
  assumes "n < 32" "k \<le> 12"
  shows "bit (swizzled_index k x y) n \<longleftrightarrow>
     (if n < k + k then (if even n then bit x (n div 2) else bit y (n div 2))
      else bit x (n - k) \<or> bit y (n - k))"
proof (cases "n < k + k")
  case True
  then have "n < 24" using assms(2) by simp
  have "\<not> (k \<le> n \<and> k \<le> n - k)" using True by linarith
  with True \<open>n < 24\<close> assms(1) show ?thesis
    by (auto simp: swizzled_index_def bit_simps bit_swizzle_u bit_swizzle_v)
next
  case False
  then show ?thesis
    using assms(1) by (auto simp: swizzled_index_def bit_simps bit_swizzle_u bit_swizzle_v)
qed

section \<open>The offset is a bijection\<close>

lemma swizzled_index_less:
  assumes "a \<le> 12" "b \<le> 12" "unat x < 2 ^ a" "unat y < 2 ^ b"
  shows "unat (swizzled_index (min a b) x y) < 2 ^ (a + b)"
proof (rule unat_less_two_powerI)
  fix n
  assume n: "a + b \<le> n" "n < 32"
  have "min a b + min a b \<le> a + b" "a \<le> n - min a b" "b \<le> n - min a b"
    using n(1) by (auto simp: min_def)
  with n assms show "\<not> bit (swizzled_index (min a b) x y) n"
    by (simp add: bit_swizzled_index unat_less_two_powerD)
qed

lemma swizzled_index_inj:
  assumes ab: "a \<le> 12" "b \<le> 12"
    and x: "unat x < 2 ^ a" "unat x' < 2 ^ a" and y: "unat y < 2 ^ b" "unat y' < 2 ^ b"
    and eq: "swizzled_index (min a b) x y = swizzled_index (min a b) x' y'"
  shows "x = x' \<and> y = y'"
proof -
  define k where "k = min a b"
  have k: "k \<le> 12" "k = a \<or> k = b" using ab by (auto simp: k_def min_def)
  note eq = eq [folded k_def]
  have low: "bit x i = bit x' i \<and> bit y i = bit y' i" if "i < k" for i
  proof -
    have "i + i < 24" using that k(1) by simp
    have "bit (swizzled_index k x y) (i + i) = bit (swizzled_index k x' y') (i + i)"
      and "bit (swizzled_index k x y) (Suc (i + i)) = bit (swizzled_index k x' y') (Suc (i + i))"
      by (simp_all add: eq)
    with that \<open>i + i < 24\<close> k(1) show ?thesis
      by (simp add: bit_swizzled_index split: if_splits)
  qed
  have high: "bit x i \<or> bit y i \<longleftrightarrow> bit x' i \<or> bit y' i" if "k \<le> i" for i
  proof (cases "i < 12")
    case True
    have "bit (swizzled_index k x y) (i + k) = bit (swizzled_index k x' y') (i + k)"
      by (simp add: eq)
    with that True k(1) show ?thesis
      by (simp add: bit_swizzled_index)
  next
    case False
    with ab x y show ?thesis by (simp add: unat_less_two_powerD)
  qed
  have "bit x i = bit x' i \<and> bit y i = bit y' i" for i
  proof (cases "i < k")
    case False
    then consider "a \<le> i" | "b \<le> i" using k(2) by linarith
    then show ?thesis
      using high [of i] False x y by cases (auto dest: unat_less_two_powerD)
  qed (rule low)
  then show ?thesis by (simp add: bit_eq_iff)
qed

definition pixel_place :: "nat \<Rightarrow> nat \<Rightarrow> nat \<times> nat \<Rightarrow> nat" where
  "pixel_place a b = (\<lambda>(x, y). unat (swizzled_index (min a b) (of_nat x) (of_nat y)))"

lemma two_power_12: "a \<le> 12 \<Longrightarrow> (2 :: nat) ^ a \<le> 4096"
  using power_increasing [of a 12 "2 :: nat"] by simp

lemma pixel_place_inj:
  assumes "a \<le> 12" "b \<le> 12"
  shows "inj_on (pixel_place a b) ({..<2 ^ a} \<times> {..<2 ^ b})"
proof (rule inj_onI)
  fix p q
  assume p: "p \<in> {..<2 ^ a} \<times> {..<2 ^ b}" and q: "q \<in> {..<2 ^ a} \<times> {..<2 ^ b}"
    and eq: "pixel_place a b p = pixel_place a b q"
  obtain x y x' y' where xy: "p = (x, y)" "q = (x', y')" by fastforce
  have "z < 2 ^ 32" if "z < 2 ^ a \<or> z < 2 ^ b" for z :: nat
    using that two_power_12 [OF assms(1)] two_power_12 [OF assms(2)] by auto
  then have u: "unat (of_nat x :: u32) = x" "unat (of_nat y :: u32) = y"
    "unat (of_nat x' :: u32) = x'" "unat (of_nat y' :: u32) = y'"
    using p q xy by (auto intro!: unat_of_nat_u32)
  have "(of_nat x :: u32) = of_nat x' \<and> (of_nat y :: u32) = of_nat y'"
    using p q eq u by (intro swizzled_index_inj [OF assms]) (simp_all add: xy pixel_place_def word_unat_eq_iff)
  then show "p = q" using u xy by metis
qed

lemma pixel_place_less:
  assumes "a \<le> 12" "b \<le> 12" "x < 2 ^ a" "y < 2 ^ b"
  shows "pixel_place a b (x, y) < 2 ^ (a + b)"
proof -
  have "unat (of_nat x :: u32) = x" "unat (of_nat y :: u32) = y"
    using assms two_power_12 [OF assms(1)] two_power_12 [OF assms(2)]
    by (auto intro!: unat_of_nat_u32)
  then show ?thesis
    using swizzled_index_less [OF assms(1,2), of "of_nat x" "of_nat y"] assms(3,4)
    by (simp add: pixel_place_def)
qed

lemma pixel_place_bij:
  assumes "a \<le> 12" "b \<le> 12"
  shows "bij_betw (pixel_place a b) ({..<2 ^ a} \<times> {..<2 ^ b}) {..<2 ^ (a + b)}"
proof -
  have "pixel_place a b ` ({..<2 ^ a} \<times> {..<2 ^ b}) \<subseteq> {..<2 ^ (a + b)}"
    using pixel_place_less [OF assms] by auto
  then have "pixel_place a b ` ({..<2 ^ a} \<times> {..<2 ^ b}) = {..<2 ^ (a + b)}"
    by (rule card_subset_eq [rotated])
      (simp_all add: card_image [OF pixel_place_inj [OF assms]] card_cartesian_product power_add)
  then show ?thesis
    using pixel_place_inj [OF assms] by (simp add: bij_betw_def)
qed

section \<open>Copies of equally sized blocks\<close>

definition apart :: "nat \<Rightarrow> nat \<Rightarrow> nat \<Rightarrow> bool" where
  "apart n d e \<longleftrightarrow> d + n \<le> e \<or> e + n \<le> d"

lemma apart_mult: "i \<noteq> j \<Longrightarrow> apart n (n * i) (n * j)"
proof -
  assume "i \<noteq> j"
  then have "Suc i \<le> j \<or> Suc j \<le> i" by linarith
  then have "n * Suc i \<le> n * j \<or> n * Suc j \<le> n * i" by (meson mult_le_mono2)
  then show ?thesis by (simp add: apart_def algebra_simps)
qed

text \<open>
  A sequence of copies to places that are apart: every block arrives, and nothing else changes.
\<close>

lemma copy_blocks:
  assumes "\<And>s d. (s, d) \<in> set ops \<Longrightarrow> s + n \<le> length src \<and> d + n \<le> length dst"
    and "distinct (map snd ops)"
    and "\<And>d e. d \<in> snd ` set ops \<Longrightarrow> e \<in> snd ` set ops \<Longrightarrow> d \<noteq> e \<Longrightarrow> apart n d e"
  shows "\<exists>dst'. fold_res (\<lambda>(s, d). copy_bytes src n s d) ops dst = Inr dst'
    \<and> length dst' = length dst
    \<and> (\<forall>(s, d) \<in> set ops. \<forall>j < n. dst' ! (d + j) = src ! (s + j))
    \<and> (\<forall>i < length dst. (\<forall>d \<in> snd ` set ops. \<not> (d \<le> i \<and> i < d + n)) \<longrightarrow> dst' ! i = dst ! i)"
  using assms
proof (induction ops arbitrary: dst)
  case Nil
  then show ?case by simp
next
  case (Cons op ops)
  obtain s d where op: "op = (s, d)" by fastforce
  from Cons.prems(1) [of s d] have le: "s + n \<le> length src" "d + n \<le> length dst"
    by (auto simp: op)
  then obtain bs dst1 where bs: "buf_read src s n = Inr bs" and dst1: "buf_write dst d bs = Inr dst1"
    by (auto simp: buf_read_def buf_write_def)
  have len: "length bs = n" "length dst1 = length dst"
    using buf_read_length [OF bs] buf_write_length [OF dst1] by auto
  have "\<exists>dst'. fold_res (\<lambda>(s, d). copy_bytes src n s d) ops dst1 = Inr dst'
    \<and> length dst' = length dst1
    \<and> (\<forall>(s, d) \<in> set ops. \<forall>j < n. dst' ! (d + j) = src ! (s + j))
    \<and> (\<forall>i < length dst1. (\<forall>d \<in> snd ` set ops. \<not> (d \<le> i \<and> i < d + n)) \<longrightarrow> dst' ! i = dst1 ! i)"
    using Cons.prems len by (intro Cons.IH) auto
  then obtain dst' where run: "fold_res (\<lambda>(s, d). copy_bytes src n s d) ops dst1 = Inr dst'"
    and len': "length dst' = length dst"
    and blocks: "\<And>s d j. (s, d) \<in> set ops \<Longrightarrow> j < n \<Longrightarrow> dst' ! (d + j) = src ! (s + j)"
    and rest: "\<And>i. i < length dst \<Longrightarrow> \<forall>d \<in> snd ` set ops. \<not> (d \<le> i \<and> i < d + n) \<Longrightarrow>
      dst' ! i = dst1 ! i"
    using len by fastforce
  have step: "copy_bytes src n s d dst = Inr dst1" by (simp add: copy_bytes_def bs dst1)
  have here: "dst' ! (d + j) = src ! (s + j)" if "j < n" for j
  proof -
    have "\<not> (e \<le> d + j \<and> d + j < e + n)" if e: "e \<in> snd ` set ops" for e
    proof -
      have "e \<noteq> d" using Cons.prems(2) e by (auto simp: op)
      then have "apart n d e" using Cons.prems(3) [of d e] e by (auto simp: op)
      with \<open>j < n\<close> show ?thesis by (auto simp: apart_def)
    qed
    then have "dst' ! (d + j) = dst1 ! (d + j)" using le that by (intro rest) auto
    also have "\<dots> = bs ! j" using buf_write_nth [OF dst1, of "d + j"] le len that by simp
    also have "\<dots> = src ! (s + j)" using buf_read_nth [OF bs that] .
    finally show ?thesis .
  qed
  have "dst' ! i = dst ! i"
    if "i < length dst" "\<forall>e \<in> snd ` set (op # ops). \<not> (e \<le> i \<and> i < e + n)" for i
    using that rest [of i] buf_write_nth [OF dst1 that(1)] len by (auto simp: op)
  with run len' blocks here show ?case
    by (intro exI [of _ dst']) (auto simp: op step)
qed

section \<open>The image copies\<close>

text \<open>
  The images the copies are used on: power-of-two sides of up to 4096 pixels, rows that do not
  overlap, and a total size that an \<open>unsigned int\<close> can count.
\<close>

definition image_ok :: "nat \<Rightarrow> nat \<Rightarrow> u32 \<Rightarrow> u32 \<Rightarrow> bool" where
  "image_ok a b pitch bpp \<longleftrightarrow> a \<le> 12 \<and> b \<le> 12 \<and> bpp \<noteq> 0 \<and> unat bpp * 2 ^ a \<le> unat pitch
     \<and> unat pitch * 2 ^ b < 2 ^ 32"

definition pixels :: "nat \<Rightarrow> nat \<Rightarrow> (nat \<times> nat) list" where
  "pixels w h = concat (map (\<lambda>y. map (\<lambda>x. (x, y)) [0..<w]) [0..<h])"

definition linear_place :: "nat \<Rightarrow> nat \<Rightarrow> nat \<Rightarrow> nat \<times> nat \<Rightarrow> nat" where
  "linear_place h pitch n = (\<lambda>(x, y). (h - y - 1) * pitch + x * n)"

lemma set_pixels: "set (pixels w h) = {..<w} \<times> {..<h}"
  by (auto simp: pixels_def)

lemma distinct_pixels: "distinct (pixels w h)"
proof -
  have "distinct (map fst (pixels w 1))" for w by (simp add: pixels_def comp_def)
  have *: "distinct (concat (map (\<lambda>y. map (\<lambda>x. (x, y)) [0..<w]) ys))" if "distinct ys" for ys :: "nat list"
    using that by (induction ys) (auto simp: distinct_map inj_on_def)
  show ?thesis unfolding pixels_def by (rule *) simp
qed

lemma image_ok_total:
  assumes "image_ok a b pitch bpp"
  shows "unat bpp * 2 ^ (a + b) < 2 ^ 32"
proof -
  have "unat bpp * 2 ^ a * 2 ^ b \<le> unat pitch * 2 ^ b"
    using assms by (intro mult_le_mono1) (simp add: image_ok_def)
  also have "\<dots> < 2 ^ 32" using assms by (simp add: image_ok_def)
  finally show ?thesis by (simp add: power_add mult.assoc)
qed

lemma unat_of_nat_coord: "a \<le> 12 \<Longrightarrow> x < 2 ^ a \<Longrightarrow> unat (of_nat x :: u32) = x"
  using two_power_12 [of a] by (intro unat_of_nat_u32) simp

lemma unat_get_swizzled_offset:
  assumes ok: "image_ok a b pitch bpp" and xy: "x < 2 ^ a" "y < 2 ^ b"
  shows "unat (get_swizzled_offset (of_nat x) (of_nat y) (2 ^ a) (2 ^ b) bpp)
    = unat bpp * pixel_place a b (x, y)"
proof -
  have ab: "a \<le> 12" "b \<le> 12" using ok by (auto simp: image_ok_def)
  have "unat bpp * pixel_place a b (x, y) \<le> unat bpp * 2 ^ (a + b)"
    using pixel_place_less [OF ab xy] by (intro mult_le_mono2) simp
  also have "\<dots> < 2 ^ LENGTH(32)" using image_ok_total [OF ok] by simp
  finally have "unat bpp * unat (swizzled_index (min a b) (of_nat x) (of_nat y)) < 2 ^ LENGTH(32)"
    by (simp add: pixel_place_def)
  then have "unat (bpp * swizzled_index (min a b) (of_nat x) (of_nat y))
    = unat bpp * unat (swizzled_index (min a b) (of_nat x) (of_nat y))"
    by (rule unat_mult_lem [THEN iffD1])
  with ab show ?thesis by (simp add: get_swizzled_offset_eq pixel_place_def)
qed

lemma linear_place_end:
  assumes "x < w" "y < h" "n * w \<le> pitch"
  shows "linear_place h pitch n (x, y) + n \<le> pitch * h"
proof -
  have "x * n + n \<le> pitch"
    using assms(1,3) mult_le_mono1 [of "Suc x" w n] by (simp add: algebra_simps)
  moreover have "(h - y - 1) * pitch + pitch = (h - y) * pitch"
    using less_imp_Suc_add [OF assms(2)] by auto
  moreover have "(h - y) * pitch \<le> h * pitch" by simp
  ultimately show ?thesis by (simp add: linear_place_def algebra_simps)
qed

lemma unat_linear_offset:
  assumes ok: "image_ok a b pitch bpp" and xy: "x < 2 ^ a" "y < 2 ^ b"
  shows "unat (linear_offset (of_nat x) (of_nat y) (2 ^ b) pitch bpp)
    = linear_place (2 ^ b) (unat pitch) (unat bpp) (x, y)"
proof -
  have ab: "a \<le> 12" "b \<le> 12" using ok by (auto simp: image_ok_def)
  have "(2 ^ b :: u32) - of_nat y - 1 = of_nat (2 ^ b - y - 1)"
    using xy(2) by (simp add: of_nat_diff)
  then have "linear_offset (of_nat x) (of_nat y) (2 ^ b) pitch bpp
    = of_nat (linear_place (2 ^ b) (unat pitch) (unat bpp) (x, y))"
    by (simp add: linear_offset_def linear_place_def)
  moreover have "linear_place (2 ^ b) (unat pitch) (unat bpp) (x, y) < 2 ^ 32"
    using linear_place_end [OF xy, of "unat bpp" "unat pitch"] ok by (simp add: image_ok_def)
  ultimately show ?thesis by (simp add: unat_of_nat_u32)
qed

lemma linear_place_apart:
  assumes "p \<in> {..<w} \<times> {..<h}" "q \<in> {..<w} \<times> {..<h}" "p \<noteq> q" "n * w \<le> pitch"
  shows "apart n (linear_place h pitch n p) (linear_place h pitch n q)"
proof -
  obtain x y x' y' where pq: "p = (x, y)" "q = (x', y')" by fastforce
  have row: "linear_place h pitch n (u, v) + n \<le> linear_place h pitch n (u', v')"
    if "u < w" "v' < v" "v < h" for u v u' v'
  proof -
    have "linear_place h pitch n (u, v) + n \<le> (h - v) * pitch"
      using linear_place_end [of u w 0 "h - v" n pitch] that assms(4)
      by (simp add: linear_place_def mult.commute)
    also have "\<dots> \<le> (h - v' - 1) * pitch" using that by (intro mult_le_mono1) simp
    finally show ?thesis by (simp add: linear_place_def)
  qed
  show ?thesis
  proof (cases "y = y'")
    case True
    then have "apart n (n * x) (n * x')" using assms(3) pq by (intro apart_mult) simp
    then show ?thesis by (auto simp: apart_def pq True linear_place_def mult.commute)
  next
    case False
    then consider "y' < y" | "y < y'" by linarith
    then show ?thesis
      using row assms(1,2) by cases (auto simp: apart_def pq)
  qed
qed

text \<open>Both copies are one loop over the pixels that moves a block per pixel.\<close>

lemma fold_pixels:
  assumes "\<And>p. p \<in> {..<w} \<times> {..<h} \<Longrightarrow> f p = F p \<and> g p = G p"
  shows "fold_res (\<lambda>y. fold_res (\<lambda>x. copy_bytes src n (f (x, y)) (g (x, y))) [0..<w]) [0..<h] dst
    = fold_res (\<lambda>(s, d). copy_bytes src n s d) (map (\<lambda>p. (F p, G p)) (pixels w h)) dst"
proof -
  have *: "fold_res (\<lambda>p. copy_bytes src n (f p) (g p)) ps dst
    = fold_res (\<lambda>p. copy_bytes src n (F p) (G p)) ps dst" if "set ps \<subseteq> {..<w} \<times> {..<h}" for ps dst
    using that assms
    by (induction ps arbitrary: dst) (simp_all add: res_bind_def split: sum.splits)
  have "fold_res (\<lambda>y. fold_res (\<lambda>x. copy_bytes src n (f (x, y)) (g (x, y))) [0..<w]) [0..<h] dst
    = fold_res (\<lambda>p. copy_bytes src n (f p) (g p)) (pixels w h) dst"
    unfolding pixels_def by (subst fold_res_nested) (simp add: case_prod_unfold)
  also have "\<dots> = fold_res (\<lambda>p. copy_bytes src n (F p) (G p)) (pixels w h) dst"
    by (rule *) (simp add: set_pixels)
  finally show ?thesis by (simp add: fold_res_map)
qed

lemma flip_and_swizzle_eq:
  assumes "image_ok a b pitch bpp"
  shows "flip_and_swizzle src (2 ^ a) (2 ^ b) dst pitch bpp
    = fold_res (\<lambda>(s, d). copy_bytes src (unat bpp) s d)
        (map (\<lambda>p. (linear_place (2 ^ b) (unat pitch) (unat bpp) p, unat bpp * pixel_place a b p))
          (pixels (2 ^ a) (2 ^ b))) dst"
proof -
  have "a < 32" "b < 32" using assms by (auto simp: image_ok_def)
  then show ?thesis
    unfolding flip_and_swizzle_def unat_two_power [where 'a = 32, simplified, OF \<open>a < 32\<close>]
      unat_two_power [where 'a = 32, simplified, OF \<open>b < 32\<close>]
    by (subst fold_pixels [where
        f = "\<lambda>(x, y). unat (linear_offset (of_nat x) (of_nat y) (2 ^ b) pitch bpp)" and
        g = "\<lambda>(x, y). unat (get_swizzled_offset (of_nat x) (of_nat y) (2 ^ a) (2 ^ b) bpp)", symmetric])
      (auto simp: unat_linear_offset [OF assms] unat_get_swizzled_offset [OF assms])
qed

lemma unswizzle_and_flip_eq:
  assumes "image_ok a b pitch bpp"
  shows "unswizzle_and_flip src (2 ^ a) (2 ^ b) dst pitch bpp
    = fold_res (\<lambda>(s, d). copy_bytes src (unat bpp) s d)
        (map (\<lambda>p. (unat bpp * pixel_place a b p, linear_place (2 ^ b) (unat pitch) (unat bpp) p))
          (pixels (2 ^ a) (2 ^ b))) dst"
proof -
  have "a < 32" "b < 32" using assms by (auto simp: image_ok_def)
  then show ?thesis
    unfolding unswizzle_and_flip_def unat_two_power [where 'a = 32, simplified, OF \<open>a < 32\<close>]
      unat_two_power [where 'a = 32, simplified, OF \<open>b < 32\<close>]
    by (subst fold_pixels [where
        g = "\<lambda>(x, y). unat (linear_offset (of_nat x) (of_nat y) (2 ^ b) pitch bpp)" and
        f = "\<lambda>(x, y). unat (get_swizzled_offset (of_nat x) (of_nat y) (2 ^ a) (2 ^ b) bpp)", symmetric])
      (auto simp: unat_linear_offset [OF assms] unat_get_swizzled_offset [OF assms])
qed

text \<open>
  A copy of all pixels from places \<open>S\<close> to places \<open>D\<close>: every pixel arrives, and the bytes of the
  destination that belong to no pixel are kept.
\<close>

lemma copy_pixels:
  assumes n: "0 < n"
    and S: "\<And>p. p \<in> {..<w} \<times> {..<h} \<Longrightarrow> S p + n \<le> length src"
    and D: "\<And>p. p \<in> {..<w} \<times> {..<h} \<Longrightarrow> D p + n \<le> length dst"
    and apart: "\<And>p q. p \<in> {..<w} \<times> {..<h} \<Longrightarrow> q \<in> {..<w} \<times> {..<h} \<Longrightarrow> p \<noteq> q \<Longrightarrow> apart n (D p) (D q)"
  shows "\<exists>dst'. fold_res (\<lambda>(s, d). copy_bytes src n s d) (map (\<lambda>p. (S p, D p)) (pixels w h)) dst = Inr dst'
    \<and> length dst' = length dst
    \<and> (\<forall>p \<in> {..<w} \<times> {..<h}. \<forall>j < n. dst' ! (D p + j) = src ! (S p + j))
    \<and> (\<forall>i < length dst. (\<forall>p \<in> {..<w} \<times> {..<h}. \<not> (D p \<le> i \<and> i < D p + n)) \<longrightarrow> dst' ! i = dst ! i)"
proof -
  have "inj_on D ({..<w} \<times> {..<h})"
  proof (rule inj_onI, rule ccontr)
    fix p q
    assume "p \<in> {..<w} \<times> {..<h}" "q \<in> {..<w} \<times> {..<h}" "D p = D q" "p \<noteq> q"
    with apart [of p q] n show False by (simp add: apart_def)
  qed
  then have "distinct (map snd (map (\<lambda>p. (S p, D p)) (pixels w h)))"
    by (simp add: comp_def distinct_map distinct_pixels set_pixels)
  from copy_blocks [OF _ this, of n src dst] S D apart show ?thesis
    by (fastforce simp: set_pixels)
qed

lemma pixel_place_apart:
  assumes "a \<le> 12" "b \<le> 12" "p \<in> {..<2 ^ a} \<times> {..<2 ^ b}" "q \<in> {..<2 ^ a} \<times> {..<2 ^ b}" "p \<noteq> q"
  shows "apart n (n * pixel_place a b p) (n * pixel_place a b q)"
  using inj_onD [OF pixel_place_inj [OF assms(1,2)] _ assms(3,4)] assms(5)
  by (intro apart_mult) auto

lemma pixel_place_end:
  assumes "a \<le> 12" "b \<le> 12" "p \<in> {..<2 ^ a} \<times> {..<2 ^ b}"
  shows "n * pixel_place a b p + n \<le> n * 2 ^ (a + b)"
proof -
  have "Suc (pixel_place a b p) \<le> 2 ^ (a + b)"
    using pixel_place_less [OF assms(1,2)] assms(3) by (auto simp: Suc_le_eq)
  then have "n * Suc (pixel_place a b p) \<le> n * 2 ^ (a + b)" by (rule mult_le_mono2)
  then show ?thesis by simp
qed

lemma linear_place_end':
  assumes "image_ok a b pitch bpp" "p \<in> {..<2 ^ a} \<times> {..<2 ^ b}"
  shows "linear_place (2 ^ b) (unat pitch) (unat bpp) p + unat bpp \<le> unat pitch * 2 ^ b"
  using assms linear_place_end [of "fst p" "2 ^ a" "snd p" "2 ^ b" "unat bpp" "unat pitch"]
  by (auto simp: image_ok_def)

lemma flip_and_swizzle_pixels:
  assumes ok: "image_ok a b pitch bpp"
    and "length src = unat pitch * 2 ^ b" "length dst = unat bpp * 2 ^ (a + b)"
  shows "\<exists>dst'. flip_and_swizzle src (2 ^ a) (2 ^ b) dst pitch bpp = Inr dst'
    \<and> length dst' = length dst
    \<and> (\<forall>p \<in> {..<2 ^ a} \<times> {..<2 ^ b}. \<forall>j < unat bpp. dst' ! (unat bpp * pixel_place a b p + j)
         = src ! (linear_place (2 ^ b) (unat pitch) (unat bpp) p + j))"
proof -
  have ab: "a \<le> 12" "b \<le> 12" "0 < unat bpp" using ok by (auto simp: image_ok_def unat_gt_0)
  show ?thesis
    unfolding flip_and_swizzle_eq [OF ok]
    using copy_pixels [OF ab(3), of "2 ^ a" "2 ^ b" "linear_place (2 ^ b) (unat pitch) (unat bpp)" src
        "\<lambda>p. unat bpp * pixel_place a b p" dst]
      linear_place_end' [OF ok] pixel_place_end [OF ab(1,2)] pixel_place_apart [OF ab(1,2)] assms(2,3)
    by fastforce
qed

lemma unswizzle_and_flip_pixels:
  assumes ok: "image_ok a b pitch bpp"
    and "length src = unat bpp * 2 ^ (a + b)" "length dst = unat pitch * 2 ^ b"
  shows "\<exists>dst'. unswizzle_and_flip src (2 ^ a) (2 ^ b) dst pitch bpp = Inr dst'
    \<and> length dst' = length dst
    \<and> (\<forall>p \<in> {..<2 ^ a} \<times> {..<2 ^ b}. \<forall>j < unat bpp.
         dst' ! (linear_place (2 ^ b) (unat pitch) (unat bpp) p + j)
         = src ! (unat bpp * pixel_place a b p + j))
    \<and> (\<forall>i < length dst. (\<forall>p \<in> {..<2 ^ a} \<times> {..<2 ^ b}.
         \<not> (linear_place (2 ^ b) (unat pitch) (unat bpp) p \<le> i
            \<and> i < linear_place (2 ^ b) (unat pitch) (unat bpp) p + unat bpp)) \<longrightarrow> dst' ! i = dst ! i)"
proof -
  have ab: "a \<le> 12" "b \<le> 12" "0 < unat bpp" using ok by (auto simp: image_ok_def unat_gt_0)
  have "apart (unat bpp) (linear_place (2 ^ b) (unat pitch) (unat bpp) p)
      (linear_place (2 ^ b) (unat pitch) (unat bpp) q)"
    if "p \<in> {..<2 ^ a} \<times> {..<2 ^ b}" "q \<in> {..<2 ^ a} \<times> {..<2 ^ b}" "p \<noteq> q" for p q
    using linear_place_apart [OF that] ok by (simp add: image_ok_def)
  then show ?thesis
    unfolding unswizzle_and_flip_eq [OF ok]
    using linear_place_end' [OF ok] pixel_place_end [OF ab(1,2)] assms(2,3)
    by (intro copy_pixels ab(3)) auto
qed

text \<open>A byte of the linear image belongs to a pixel exactly when it is not in the padding of its row.\<close>

lemma linear_place_cover:
  assumes "0 < n" "n * w \<le> pitch" "i < pitch * h"
  shows "(\<exists>p \<in> {..<w} \<times> {..<h}. linear_place h pitch n p \<le> i \<and> i < linear_place h pitch n p + n)
    \<longleftrightarrow> i mod pitch < n * w"
proof
  assume "\<exists>p \<in> {..<w} \<times> {..<h}. linear_place h pitch n p \<le> i \<and> i < linear_place h pitch n p + n"
  then obtain x y where xy: "x < w" "y < h"
    and i: "(h - y - 1) * pitch + x * n \<le> i" "i < (h - y - 1) * pitch + x * n + n"
    by (auto simp: linear_place_def)
  have le: "x * n + n \<le> n * w" using mult_le_mono1 [of "Suc x" w n] xy(1) by (simp add: mult.commute)
  define k where "k = i - (h - y - 1) * pitch"
  have k: "i = (h - y - 1) * pitch + k" "k < n * w" using i le by (auto simp: k_def)
  then show "i mod pitch < n * w" using assms(2) by simp
next
  assume pad: "i mod pitch < n * w"
  define x y where "x = i mod pitch div n" and "y = h - 1 - i div pitch"
  have "i div pitch < h" using assms(3) by (simp add: less_mult_imp_div_less mult.commute)
  then have row: "h - y - 1 = i div pitch" "y < h" by (auto simp: y_def)
  have "x < w" using pad assms(1) by (simp add: x_def less_mult_imp_div_less mult.commute)
  moreover have "x * n \<le> i mod pitch" "i mod pitch < x * n + n"
    using assms(1) by (auto simp: x_def dividend_less_div_times add.commute)
  then have "linear_place h pitch n (x, y) \<le> i \<and> i < linear_place h pitch n (x, y) + n"
    using div_mult_mod_eq [of i pitch] by (simp only: linear_place_def row prod.case) linarith
  ultimately show "\<exists>p \<in> {..<w} \<times> {..<h}. linear_place h pitch n p \<le> i \<and> i < linear_place h pitch n p + n"
    using row(2) by (intro bexI [of _ "(x, y)"]) auto
qed

section \<open>Properties\<close>

text \<open>
  C1. On a texture of \<open>2 ^ a \<times> 2 ^ b\<close> pixels, each side at most 4096 (twelve coordinate bits are
  interleaved), \<open>get_swizzled_offset\<close> maps the pixels one-to-one onto the offsets
  \<open>0, \<dots>, 2 ^ (a + b) - 1\<close>: no two pixels share a place and no place is left over.
\<close>

theorem get_swizzled_offset_bij:
  assumes "a \<le> 12" "b \<le> 12"
  shows "bij_betw (\<lambda>(x, y). unat (get_swizzled_offset (of_nat x) (of_nat y) (2 ^ a) (2 ^ b) 1))
    ({..<2 ^ a} \<times> {..<2 ^ b}) {..<2 ^ (a + b)}"
proof -
  have "(\<lambda>(x, y). unat (get_swizzled_offset (of_nat x) (of_nat y) (2 ^ a) (2 ^ b) 1)) = pixel_place a b"
    using assms by (simp add: fun_eq_iff get_swizzled_offset_eq pixel_place_def)
  with pixel_place_bij [OF assms] show ?thesis by simp
qed

theorem get_swizzled_offset_bij_witness:
  "bij_betw (\<lambda>(x, y). unat (get_swizzled_offset (of_nat x) (of_nat y) (2 ^ 2) (2 ^ 1) 1))
    ({..<2 ^ 2} \<times> {..<2 ^ 1}) {..<2 ^ (2 + 1)}"
  by (rule get_swizzled_offset_bij) simp_all

text \<open>
  C2. \<open>flip_and_swizzle\<close> followed by \<open>unswizzle_and_flip\<close> gives the image back. Neither copy leaves
  its buffers; after both, every byte that belongs to a pixel is the byte of the source image, and
  the padding at the end of each row of the destination is untouched.
\<close>

theorem swizzle_roundtrip:
  assumes ok: "image_ok a b pitch bpp"
    and src: "length src = unat pitch * 2 ^ b" and tex: "length tex = unat bpp * 2 ^ (a + b)"
    and dst: "length dst = unat pitch * 2 ^ b"
  shows "\<exists>tex' dst'. flip_and_swizzle src (2 ^ a) (2 ^ b) tex pitch bpp = Inr tex'
    \<and> unswizzle_and_flip tex' (2 ^ a) (2 ^ b) dst pitch bpp = Inr dst'
    \<and> length dst' = length src
    \<and> (\<forall>i < length src. dst' ! i = (if i mod unat pitch < unat bpp * 2 ^ a then src ! i else dst ! i))"
proof -
  let ?L = "linear_place (2 ^ b) (unat pitch) (unat bpp)" and ?P = "{..<2 ^ a} \<times> {..<2 ^ b} :: (nat \<times> nat) set"
  obtain tex' where tex': "flip_and_swizzle src (2 ^ a) (2 ^ b) tex pitch bpp = Inr tex'" "length tex' = length tex"
    "\<And>p j. p \<in> ?P \<Longrightarrow> j < unat bpp \<Longrightarrow> tex' ! (unat bpp * pixel_place a b p + j) = src ! (?L p + j)"
    using flip_and_swizzle_pixels [OF ok src tex] by blast
  obtain dst' where dst': "unswizzle_and_flip tex' (2 ^ a) (2 ^ b) dst pitch bpp = Inr dst'" "length dst' = length dst"
    "\<And>p j. p \<in> ?P \<Longrightarrow> j < unat bpp \<Longrightarrow> dst' ! (?L p + j) = tex' ! (unat bpp * pixel_place a b p + j)"
    "\<And>i. i < length dst \<Longrightarrow> \<forall>p \<in> ?P. \<not> (?L p \<le> i \<and> i < ?L p + unat bpp) \<Longrightarrow> dst' ! i = dst ! i"
    using unswizzle_and_flip_pixels [OF ok tex'(2) [unfolded tex] dst] by blast
  have "dst' ! i = (if i mod unat pitch < unat bpp * 2 ^ a then src ! i else dst ! i)" if "i < length src" for i
  proof (cases "\<exists>p \<in> ?P. ?L p \<le> i \<and> i < ?L p + unat bpp")
    case True
    then obtain p where p: "p \<in> ?P" "?L p \<le> i" "i < ?L p + unat bpp" by blast
    have "dst' ! i = src ! i"
      using dst'(3) [OF p(1), of "i - ?L p"] tex'(3) [OF p(1), of "i - ?L p"] p(2,3) by simp
    moreover have "i mod unat pitch < unat bpp * 2 ^ a"
      using True that ok src by (subst linear_place_cover [symmetric]) (auto simp: image_ok_def unat_gt_0)
    ultimately show ?thesis by simp
  next
    case False
    then have "\<not> i mod unat pitch < unat bpp * 2 ^ a"
      using that ok src by (subst linear_place_cover [symmetric]) (auto simp: image_ok_def unat_gt_0)
    with False dst'(4) [of i] that src dst show ?thesis by auto
  qed
  with tex' dst' src dst show ?thesis by auto
qed

theorem swizzle_roundtrip_witness:
  "\<exists>tex' dst'. flip_and_swizzle [1, 2, 3, 4, 5, 6] (2 ^ 1) (2 ^ 1) [0, 0, 0, 0] 3 1 = Inr tex'
    \<and> unswizzle_and_flip tex' (2 ^ 1) (2 ^ 1) [0, 0, 9, 0, 0, 9] 3 1 = Inr dst'
    \<and> dst' ! 4 = 5 \<and> dst' ! 5 = 9"
  using swizzle_roundtrip [of 1 1 3 1 "[1, 2, 3, 4, 5, 6]" "[0, 0, 0, 0]" "[0, 0, 9, 0, 0, 9]"]
  by (force simp: image_ok_def)

end
