(* ===== verification/RC4.thy ===== *)
theory RC4
  imports Xbox_Prelude "HOL-Library.Multiset"
begin

text \<open>
  The RC4 cipher of \<open>src/hw/xbox/rc4.h\<close>, which the boot ROM uses to decrypt the second boot loader
  in place. The state is the permutation of the 256 bytes and two indices; \<open>rc4_crypt\<close> works on
  memory, so that its input and output buffers may be the same. Shown here: the state stays a
  permutation and no access leaves it; the cipher is a stream cipher (interface \<open>stream_cipher\<close>), so
  a message may be cut into pieces; decrypting what was encrypted in place gives the memory back.
\<close>

section \<open>The code\<close>

record rc4_state =
  perm :: "u8 list"
  index1 :: u8
  index2 :: u8

definition swap_bytes :: "u8 list \<Rightarrow> nat \<Rightarrow> nat \<Rightarrow> u8 list res" where
  "swap_bytes p a b =
     res_bind (arr_get p a) (\<lambda>temp.
     res_bind (arr_get p b) (\<lambda>vb.
     res_bind (arr_set p a vb) (\<lambda>p. arr_set p b temp)))"

text \<open>One round of the key schedule: \<open>j += perm[i] + key[i % keylen]\<close>, and the swap.\<close>

definition rc4_init_round :: "u8 list \<Rightarrow> nat \<Rightarrow> nat \<Rightarrow> u8 list \<times> u8 \<Rightarrow> (u8 list \<times> u8) res" where
  "rc4_init_round key keylen i = (\<lambda>(p, j).
     res_bind (arr_get p i) (\<lambda>pi.
     res_bind (if keylen = 0 then Inl Division_by_zero else arr_get key (i mod keylen)) (\<lambda>k.
     let j = j + (pi + k)
     in res_bind (swap_bytes p i (unat j)) (\<lambda>p. Inr (p, j)))))"

definition rc4_init :: "u8 list \<Rightarrow> nat \<Rightarrow> rc4_state res" where
  "rc4_init key keylen =
     res_bind (fold_res (rc4_init_round key keylen) [0..<256] (map of_nat [0..<256], 0)) (\<lambda>(p, j).
       Inr \<lparr>perm = p, index1 = 0, index2 = 0\<rparr>)"

text \<open>The next byte of the key stream.\<close>

definition rc4_byte :: "rc4_state \<Rightarrow> (u8 \<times> rc4_state) res" where
  "rc4_byte st =
     (let i1 = index1 st + 1
      in res_bind (arr_get (perm st) (unat i1)) (\<lambda>p1.
     let i2 = index2 st + p1
      in res_bind (swap_bytes (perm st) (unat i1) (unat i2)) (\<lambda>p.
         res_bind (arr_get p (unat i1)) (\<lambda>q1.
         res_bind (arr_get p (unat i2)) (\<lambda>q2.
         let j = q1 + q2
      in res_bind (arr_get p (unat j)) (\<lambda>k.
           Inr (k, \<lparr>perm = p, index1 = i1, index2 = i2\<rparr>)))))))"

text \<open>\<open>outbuf[i] = inbuf[i] ^ state->perm[j]\<close> for one \<open>i\<close>.\<close>

definition rc4_crypt_step :: "u64 \<Rightarrow> u64 \<Rightarrow> nat \<Rightarrow> rc4_state \<times> mem \<Rightarrow> (rc4_state \<times> mem) res" where
  "rc4_crypt_step inbuf outbuf i = (\<lambda>(st, m).
     res_bind (rc4_byte st) (\<lambda>(k, st).
       Inr (st, m(outbuf + of_nat i := m (inbuf + of_nat i) XOR k))))"

definition rc4_crypt :: "rc4_state \<Rightarrow> mem \<Rightarrow> u64 \<Rightarrow> u64 \<Rightarrow> nat \<Rightarrow> (rc4_state \<times> mem) res" where
  "rc4_crypt st m inbuf outbuf buflen =
     fold_res (rc4_crypt_step inbuf outbuf) [0..<buflen] (st, m)"

section \<open>The interface of a stream cipher\<close>

text \<open>
  A stream cipher produces key bytes from a state that it never leaves. A state is good when \<open>inv\<close>
  holds of it.
\<close>

locale stream_cipher =
  fixes inv :: "'s \<Rightarrow> bool" and next_byte :: "'s \<Rightarrow> (u8 \<times> 's) res"
  assumes next_ok: "inv st \<Longrightarrow> \<exists>k st'. next_byte st = Inr (k, st') \<and> inv st'"
begin

definition key_byte :: "'s \<Rightarrow> u8" where
  "key_byte st = (case next_byte st of Inr (k, _) \<Rightarrow> k | Inl _ \<Rightarrow> 0)"

definition next_state :: "'s \<Rightarrow> 's" where
  "next_state st = (case next_byte st of Inr (_, st') \<Rightarrow> st' | Inl _ \<Rightarrow> st)"

definition stream :: "'s \<Rightarrow> nat \<Rightarrow> u8" where
  "stream st i = key_byte ((next_state ^^ i) st)"

lemma next_byte_eq: "inv st \<Longrightarrow> next_byte st = Inr (key_byte st, next_state st)"
  using next_ok [of st] by (auto simp: key_byte_def next_state_def)

lemma inv_next: "inv st \<Longrightarrow> inv (next_state st)"
  using next_ok [of st] by (auto simp: next_state_def)

lemma inv_iterate: "inv st \<Longrightarrow> inv ((next_state ^^ i) st)"
  by (induction i) (simp_all add: inv_next)

text \<open>A loop that xors the bytes at \<open>src\<close> with the key stream and puts them at \<open>dst\<close>.\<close>

definition crypt_step :: "u64 \<Rightarrow> u64 \<Rightarrow> nat \<Rightarrow> 's \<times> mem \<Rightarrow> ('s \<times> mem) res" where
  "crypt_step src dst i = (\<lambda>(st, m).
     res_bind (next_byte st) (\<lambda>(k, st). Inr (st, m(dst + of_nat i := m (src + of_nat i) XOR k))))"

definition crypted :: "'s \<Rightarrow> mem \<Rightarrow> u64 \<Rightarrow> u64 \<Rightarrow> nat \<Rightarrow> mem" where
  "crypted st m src dst n = (\<lambda>a. if unat (a - dst) < n
     then m (src + (a - dst)) XOR stream st (unat (a - dst)) else m a)"

text \<open>
  Buffers that are the same or do not overlap: the loop has the state advance by \<open>n\<close> and puts each
  byte, xored with its key byte, into its place.
\<close>

definition buffers_ok :: "u64 \<Rightarrow> u64 \<Rightarrow> nat \<Rightarrow> bool" where
  "buffers_ok src dst n \<longleftrightarrow> n < 2 ^ 64 \<and>
     (src = dst \<or> (\<forall>i < n. \<forall>j < n. src + of_nat i \<noteq> dst + of_nat j))"

lemma crypt_loop:
  assumes "inv st" "buffers_ok src dst n"
  shows "fold_res (crypt_step src dst) [0..<n] (st, m)
    = Inr ((next_state ^^ n) st, crypted st m src dst n)"
  using assms(2)
proof (induction n)
  case 0
  then show ?case by (simp add: crypted_def)
next
  case (Suc n)
  then have ok: "buffers_ok src dst n" and n: "Suc n < 2 ^ 64" by (auto simp: buffers_ok_def)
  have un: "unat (of_nat n :: u64) = n" using n by (intro unat_of_nat_small) simp
  let ?m = "crypted st m src dst n" and ?s = "(next_state ^^ n) st"
  have src: "?m (src + of_nat n) = m (src + of_nat n)"
  proof (cases "src = dst")
    case True
    then show ?thesis using un by (simp add: crypted_def)
  next
    case False
    have "\<not> unat (src + of_nat n - dst) < n"
    proof
      assume lt: "unat (src + of_nat n - dst) < n"
      have "src + of_nat n = dst + of_nat (unat (src + of_nat n - dst))" by simp
      with Suc.prems False lt show False
        unfolding buffers_ok_def by (metis lessI less_SucI)
    qed
    then show ?thesis by (simp add: crypted_def)
  qed
  have "fold_res (crypt_step src dst) [0..<Suc n] (st, m) = crypt_step src dst n (?s, ?m)"
    by (simp add: fold_res_append Suc.IH [OF ok] res_bind_def split: sum.splits)
  also have "\<dots> = Inr (next_state ?s, ?m(dst + of_nat n := m (src + of_nat n) XOR key_byte ?s))"
    by (simp add: crypt_step_def next_byte_eq [OF inv_iterate [OF assms(1)]] src)
  also have "?m(dst + of_nat n := m (src + of_nat n) XOR key_byte ?s) = crypted st m src dst (Suc n)"
  proof
    fix a
    have "a = dst + of_nat n \<longleftrightarrow> a - dst = of_nat n" by (auto simp: algebra_simps)
    then have "a = dst + of_nat n \<longleftrightarrow> unat (a - dst) = n" by (simp add: word_unat_eq_iff un)
    then show "(?m(dst + of_nat n := m (src + of_nat n) XOR key_byte ?s)) a
      = crypted st m src dst (Suc n) a"
      by (auto simp: crypted_def stream_def un less_Suc_eq)
  qed
  finally show ?case by simp
qed

lemma crypted_back:
  assumes "src = dst"
  shows "crypted st (crypted st m src dst n) dst dst n = m"
  using assms by (auto simp: crypted_def fun_eq_iff xor.assoc)

end

section \<open>The state is a permutation\<close>

declare upt_rec_numeral [simp del]

definition rc4_ok :: "rc4_state \<Rightarrow> bool" where
  "rc4_ok st \<longleftrightarrow> mset (perm st) = mset (map of_nat [0..<256])"

lemma perm_length: "mset p = mset (map of_nat [0..<256] :: u8 list) \<Longrightarrow> length p = 256"
  using mset_eq_length by fastforce

lemma unat_u8_less: "unat (x :: u8) < 256"
  using unsigned_less [of x] by simp

lemma swap_bytes_ok:
  assumes "a < length p" "b < length p"
  shows "\<exists>p'. swap_bytes p a b = Inr p' \<and> mset p' = mset p"
  using assms by (auto simp: swap_bytes_def mset_swap)

lemma rc4_init_round_ok:
  assumes "keylen \<le> length key" "0 < keylen" "i < 256" "mset p = mset (map of_nat [0..<256])"
  shows "\<exists>p' j'. rc4_init_round key keylen i (p, j) = Inr (p', j') \<and> mset p' = mset (map of_nat [0..<256])"
proof -
  have len: "length p = 256" using assms(4) by (rule perm_length)
  have "i mod keylen < length key" using assms(1) mod_less_divisor [OF assms(2), of i] by linarith
  then show ?thesis
    using swap_bytes_ok [of i p "unat (j + (p ! i + key ! (i mod keylen)))"] assms(2,3,4) len unat_u8_less
    by (auto simp: rc4_init_round_def Let_def)
qed

lemma rc4_init_ok:
  assumes "keylen \<le> length key" "0 < keylen"
  shows "\<exists>st. rc4_init key keylen = Inr st \<and> rc4_ok st"
proof -
  have "\<exists>s. fold_res (rc4_init_round key keylen) [0..<256] (map of_nat [0..<256], 0) = Inr s
    \<and> mset (fst s) = mset (map of_nat [0..<256])"
    using rc4_init_round_ok [OF assms] by (intro fold_res_total) (fastforce simp del: mset_map)+
  then show ?thesis by (auto simp: rc4_init_def rc4_ok_def simp del: mset_map)
qed

lemma rc4_byte_ok: "rc4_ok st \<Longrightarrow> \<exists>k st'. rc4_byte st = Inr (k, st') \<and> rc4_ok st'"
proof -
  assume ok: "rc4_ok st"
  let ?i1 = "index1 st + 1" and ?i2 = "index2 st + perm st ! unat (index1 st + 1)"
  have len: "length (perm st) = 256" using ok by (auto simp: rc4_ok_def intro: perm_length)
  then obtain p' where p': "swap_bytes (perm st) (unat ?i1) (unat ?i2) = Inr p'" "mset p' = mset (perm st)"
    using swap_bytes_ok [of "unat ?i1" "perm st" "unat ?i2"] unat_u8_less by auto
  then have "length p' = 256" using ok len by (metis mset_eq_length)
  with p' len ok show ?thesis using unat_u8_less by (auto simp: rc4_byte_def Let_def rc4_ok_def)
qed

interpretation rc4: stream_cipher rc4_ok rc4_byte
  by unfold_locales (rule rc4_byte_ok)

lemma rc4_crypt_eq:
  assumes "rc4_ok st" "rc4.buffers_ok inbuf outbuf buflen"
  shows "rc4_crypt st m inbuf outbuf buflen
    = Inr ((rc4.next_state ^^ buflen) st, rc4.crypted st m inbuf outbuf buflen)"
proof -
  have "rc4_crypt_step inbuf outbuf = rc4.crypt_step inbuf outbuf"
    by (simp add: fun_eq_iff rc4_crypt_step_def rc4.crypt_step_def)
  with rc4.crypt_loop [OF assms] show ?thesis by (simp add: rc4_crypt_def)
qed

section \<open>Properties\<close>

text \<open>
  C34. With a key of at least one byte, \<open>rc4_init\<close> and \<open>rc4_crypt\<close> never leave their arrays, the
  permutation holds each of the 256 bytes exactly once afterwards, and decrypting a message in place
  that was encrypted in place under the same key restores the memory, whatever it held.
\<close>

theorem rc4_roundtrip:
  assumes "keylen \<le> length key" "0 < keylen" "n < 2 ^ 31"
  shows "\<exists>st st' m'. rc4_init key keylen = Inr st
    \<and> rc4_crypt st m buf buf n = Inr (st', m')
    \<and> rc4_crypt st m' buf buf n = Inr (st', m)
    \<and> rc4_ok st'"
proof -
  obtain st where st: "rc4_init key keylen = Inr st" "rc4_ok st"
    using rc4_init_ok [OF assms(1,2)] by blast
  have "rc4.buffers_ok buf buf n" using assms(3) by (simp add: rc4.buffers_ok_def)
  note run = rc4_crypt_eq [OF st(2) this]
  have "rc4_ok ((rc4.next_state ^^ n) st)" using st(2) by (rule rc4.inv_iterate)
  with st(1) show ?thesis by (simp add: run rc4.crypted_back)
qed

theorem rc4_roundtrip_witness:
  "\<exists>st st' m'. rc4_init [0x4B, 0x65, 0x79] 3 = Inr st
    \<and> rc4_crypt st (\<lambda>_. 7) 0x90000 0x90000 0x6000 = Inr (st', m')
    \<and> rc4_crypt st m' 0x90000 0x90000 0x6000 = Inr (st', \<lambda>_. 7)"
  using rc4_roundtrip [where keylen = 3 and key = "[0x4B, 0x65, 0x79]" and n = "0x6000" and m = "\<lambda>_. 7"
      and buf = "0x90000"] by auto

text \<open>
  RC4 is a stream cipher: crypting a message in two pieces, the second with the state the first
  left behind, is crypting it in one go, whatever the two buffers are.
\<close>

lemma rc4_crypt_append:
  "rc4_crypt st m inbuf outbuf (n + k)
    = res_bind (rc4_crypt st m inbuf outbuf n) (\<lambda>(st', m').
        rc4_crypt st' m' (inbuf + of_nat n) (outbuf + of_nat n) k)"
proof -
  have shift: "fold_res (rc4_crypt_step inbuf outbuf) [n..<n + k] s
    = fold_res (rc4_crypt_step (inbuf + of_nat n) (outbuf + of_nat n)) [0..<k] s" for s
  proof -
    have "[n..<n + k] = map (\<lambda>i. i + n) [0..<k]" using map_add_upt [of n k] by (simp add: add.commute)
    moreover have "(\<lambda>i. rc4_crypt_step inbuf outbuf (i + n))
      = rc4_crypt_step (inbuf + of_nat n) (outbuf + of_nat n)"
      by (simp add: fun_eq_iff rc4_crypt_step_def algebra_simps)
    ultimately show ?thesis by (simp add: fold_res_map)
  qed
  show ?thesis
    unfolding rc4_crypt_def upt_add_eq_append [OF le0, of n k] fold_res_append
    by (simp add: shift res_bind_def split: sum.splits)
qed

declare upt_rec_numeral [simp]

end
