(* ===== verification/XXHash.thy ===== *)
theory XXHash
  imports Xbox_Prelude
begin

text \<open>
  The hash of \<open>src/hw/xbox/xxhash.c\<close>, which the GPU uses for the keys of its object caches. The
  one-shot \<open>XXH32\<close> and the streaming \<open>XXH32_init\<close>, \<open>XXH32_update\<close>, \<open>XXH32_digest\<close> are both modelled,
  for both endiannesses of the host. Shown here: feeding a message in any pieces gives the hash of
  the whole message (interface \<open>streaming_digest\<close>), the 16-byte buffer is never overrun, and the
  value does not depend on the endianness.
\<close>

section \<open>Constants and memory reads\<close>

definition PRIME32_1 :: u32 where "PRIME32_1 = 2654435761"
definition PRIME32_2 :: u32 where "PRIME32_2 = 2246822519"
definition PRIME32_3 :: u32 where "PRIME32_3 = 3266489917"
definition PRIME32_4 :: u32 where "PRIME32_4 = 668265263"
definition PRIME32_5 :: u32 where "PRIME32_5 = 374761393"

lemmas primes = PRIME32_1_def PRIME32_2_def PRIME32_3_def PRIME32_4_def PRIME32_5_def

definition XXH_rotl32 :: "u32 \<Rightarrow> nat \<Rightarrow> u32" where
  "XXH_rotl32 x r = push_bit r x OR drop_bit (32 - r) x"

definition XXH_swap32 :: "u32 \<Rightarrow> u32" where
  "XXH_swap32 x =
     (push_bit 24 x AND 0xff000000) OR
     (push_bit 8 x AND 0x00ff0000) OR
     (drop_bit 8 x AND 0x0000ff00) OR
     (drop_bit 24 x AND 0x000000ff)"

datatype XXH_endianess = XXH_bigEndian | XXH_littleEndian

text \<open>A 32-bit load of the host, from the first four bytes at \<open>p\<close>.\<close>

definition A32 :: "XXH_endianess \<Rightarrow> u8 list \<Rightarrow> u32" where
  "A32 host p = (case host of
       XXH_littleEndian \<Rightarrow> le32 (p ! 0) (p ! 1) (p ! 2) (p ! 3)
     | XXH_bigEndian \<Rightarrow> le32 (p ! 3) (p ! 2) (p ! 1) (p ! 0))"

definition XXH_readLE32 :: "u8 list \<Rightarrow> XXH_endianess \<Rightarrow> u32" where
  "XXH_readLE32 p endian =
     (if endian = XXH_littleEndian then A32 endian p else XXH_swap32 (A32 endian p))"

section \<open>The hash of one buffer\<close>

text \<open>The four accumulators \<open>v1\<close> to \<open>v4\<close>.\<close>

record lanes =
  v1 :: u32
  v2 :: u32
  v3 :: u32
  v4 :: u32

definition xxh_lane :: "u32 \<Rightarrow> u32 \<Rightarrow> u32" where
  "xxh_lane v w = XXH_rotl32 (v + w * PRIME32_2) 13 * PRIME32_1"

definition xxh_stripe :: "XXH_endianess \<Rightarrow> lanes \<Rightarrow> u8 list \<Rightarrow> lanes" where
  "xxh_stripe endian v p =
     \<lparr>v1 = xxh_lane (v1 v) (XXH_readLE32 p endian),
      v2 = xxh_lane (v2 v) (XXH_readLE32 (drop 4 p) endian),
      v3 = xxh_lane (v3 v) (XXH_readLE32 (drop 8 p) endian),
      v4 = xxh_lane (v4 v) (XXH_readLE32 (drop 12 p) endian)\<rparr>"

text \<open>The \<open>do ... while (p <= limit)\<close> loop; the pointer \<open>p\<close> is the list of the bytes before \<open>bEnd\<close>.\<close>

function xxh_stripes :: "XXH_endianess \<Rightarrow> lanes \<Rightarrow> u8 list \<Rightarrow> lanes \<times> u8 list" where
  "xxh_stripes endian v p =
     (let v = xxh_stripe endian v p; p = drop 16 p
      in if 16 \<le> length p then xxh_stripes endian v p else (v, p))"
  by pat_completeness auto

termination
  by (relation "measure (\<lambda>(_, _, p). length p)") auto

declare xxh_stripes.simps [simp del]

definition xxh_init_lanes :: "u32 \<Rightarrow> lanes" where
  "xxh_init_lanes seed =
     \<lparr>v1 = seed + PRIME32_1 + PRIME32_2, v2 = seed + PRIME32_2, v3 = seed + 0, v4 = seed - PRIME32_1\<rparr>"

definition xxh_converge :: "lanes \<Rightarrow> u32" where
  "xxh_converge v = XXH_rotl32 (v1 v) 1 + XXH_rotl32 (v2 v) 7 + XXH_rotl32 (v3 v) 12 + XXH_rotl32 (v4 v) 18"

function xxh_words :: "XXH_endianess \<Rightarrow> u32 \<Rightarrow> u8 list \<Rightarrow> u32 \<times> u8 list" where
  "xxh_words endian h32 p =
     (if 4 \<le> length p
      then xxh_words endian (XXH_rotl32 (h32 + XXH_readLE32 p endian * PRIME32_3) 17 * PRIME32_4) (drop 4 p)
      else (h32, p))"
  by pat_completeness auto

termination
  by (relation "measure (\<lambda>(_, _, p). length p)") auto

declare xxh_words.simps [simp del]

primrec xxh_bytes :: "u32 \<Rightarrow> u8 list \<Rightarrow> u32" where
  "xxh_bytes h32 [] = h32"
| "xxh_bytes h32 (b # p) = xxh_bytes (XXH_rotl32 (h32 + ucast b * PRIME32_5) 11 * PRIME32_1) p"

definition xxh_avalanche :: "u32 \<Rightarrow> u32" where
  "xxh_avalanche h32 =
     (let h32 = h32 XOR drop_bit 15 h32;
          h32 = h32 * PRIME32_2;
          h32 = h32 XOR drop_bit 13 h32;
          h32 = h32 * PRIME32_3
      in h32 XOR drop_bit 16 h32)"

definition XXH32_endian_align :: "u8 list \<Rightarrow> u32 \<Rightarrow> XXH_endianess \<Rightarrow> u32" where
  "XXH32_endian_align input seed endian =
     (let (h32, p) =
        (if 16 \<le> length input
         then (let (v, p) = xxh_stripes endian (xxh_init_lanes seed) input in (xxh_converge v, p))
         else (seed + PRIME32_5, input));
          h32 = h32 + of_nat (length input);
          (h32, p) = xxh_words endian h32 p;
          h32 = xxh_bytes h32 p
      in xxh_avalanche h32)"

definition XXH32 :: "XXH_endianess \<Rightarrow> u8 list \<Rightarrow> u32 \<Rightarrow> u32" where
  "XXH32 endian_detected input seed =
     (if endian_detected = XXH_littleEndian then XXH32_endian_align input seed XXH_littleEndian
      else XXH32_endian_align input seed XXH_bigEndian)"

section \<open>The streaming hash\<close>

record XXH_state32_t =
  total_len :: u64
  seed :: u32
  acc :: lanes
  memsize :: nat
  memory :: "u8 list"

text \<open>\<open>garbage\<close> is what \<open>malloc\<close> left in the 16 bytes of \<open>memory\<close>.\<close>

definition XXH32_init :: "u8 list \<Rightarrow> u32 \<Rightarrow> XXH_state32_t" where
  "XXH32_init garbage s =
     \<lparr>total_len = 0, seed = s, acc = xxh_init_lanes s, memsize = 0, memory = garbage\<rparr>"

text \<open>Data left from the previous update is filled up to a stripe from the input.\<close>

definition xxh_update_head ::
  "XXH_endianess \<Rightarrow> XXH_state32_t \<Rightarrow> u8 list \<Rightarrow> (XXH_state32_t \<times> u8 list) res" where
  "xxh_update_head endian state input =
     (if memsize state \<noteq> 0 then
        res_bind (buf_read input 0 (16 - memsize state)) (\<lambda>head.
        res_bind (buf_write (memory state) (memsize state) head) (\<lambda>m.
          Inr (state\<lparr>memory := m, acc := xxh_stripe endian (acc state) m, memsize := 0\<rparr>,
               drop (16 - memsize state) input)))
      else Inr (state, input))"

text \<open>Whole stripes are hashed from the input, and the rest is kept in the buffer.\<close>

definition xxh_update_tail :: "XXH_endianess \<Rightarrow> XXH_state32_t \<Rightarrow> u8 list \<Rightarrow> XXH_state32_t res" where
  "xxh_update_tail endian state p =
     (let (state, p) =
        (if 16 \<le> length p
         then (let (v, p) = xxh_stripes endian (acc state) p in (state\<lparr>acc := v\<rparr>, p))
         else (state, p))
      in if p \<noteq> [] then
           res_bind (buf_write (memory state) 0 p) (\<lambda>m. Inr (state\<lparr>memory := m, memsize := length p\<rparr>))
         else Inr state)"

definition XXH32_update_endian :: "XXH_state32_t \<Rightarrow> u8 list \<Rightarrow> XXH_endianess \<Rightarrow> XXH_state32_t res" where
  "XXH32_update_endian state input endian =
     (let state = state\<lparr>total_len := total_len state + of_nat (length input)\<rparr>
      in if memsize state + length input < 16 then
           res_bind (buf_write (memory state) (memsize state) input) (\<lambda>m.
             Inr (state\<lparr>memory := m, memsize := memsize state + length input\<rparr>))
         else res_bind (xxh_update_head endian state input) (\<lambda>(state, p). xxh_update_tail endian state p))"

definition XXH32_update :: "XXH_endianess \<Rightarrow> XXH_state32_t \<Rightarrow> u8 list \<Rightarrow> XXH_state32_t res" where
  "XXH32_update endian_detected state input =
     (if endian_detected = XXH_littleEndian then XXH32_update_endian state input XXH_littleEndian
      else XXH32_update_endian state input XXH_bigEndian)"

definition XXH32_intermediateDigest_endian :: "XXH_state32_t \<Rightarrow> XXH_endianess \<Rightarrow> u32" where
  "XXH32_intermediateDigest_endian state endian =
     (let p = take (memsize state) (memory state);
          h32 = (if 16 \<le> total_len state then xxh_converge (acc state) else seed state + PRIME32_5);
          h32 = h32 + ucast (total_len state);
          (h32, p) = xxh_words endian h32 p;
          h32 = xxh_bytes h32 p
      in xxh_avalanche h32)"

definition XXH32_digest :: "XXH_endianess \<Rightarrow> XXH_state32_t \<Rightarrow> u32" where
  "XXH32_digest endian_detected state =
     (if endian_detected = XXH_littleEndian
      then XXH32_intermediateDigest_endian state XXH_littleEndian
      else XXH32_intermediateDigest_endian state XXH_bigEndian)"

section \<open>The interface of a streaming digest\<close>

text \<open>
  A digest that is fed in pieces: \<open>fed s xs\<close> says that the state has taken the message \<open>xs\<close>, of at
  most \<open>bound\<close> elements. Whatever the pieces, the digest is the hash of their concatenation.
\<close>

locale streaming_digest =
  fixes fed :: "'s \<Rightarrow> 'a list \<Rightarrow> bool" and start :: 's
    and feed :: "'s \<Rightarrow> 'a list \<Rightarrow> 's res" and digest :: "'s \<Rightarrow> 'h"
    and hash :: "'a list \<Rightarrow> 'h" and bound :: nat
  assumes fed_start: "fed start []"
    and fed_feed: "fed s xs \<Longrightarrow> length xs + length ys < bound \<Longrightarrow>
      \<exists>s'. feed s ys = Inr s' \<and> fed s' (xs @ ys)"
    and digest_fed: "fed s xs \<Longrightarrow> length xs < bound \<Longrightarrow> digest s = hash xs"
begin

lemma feed_pieces:
  "fed s xs \<Longrightarrow> length xs + length (concat yss) < bound \<Longrightarrow>
     \<exists>s'. fold_res (\<lambda>ys s. feed s ys) yss s = Inr s' \<and> fed s' (xs @ concat yss)"
proof (induction yss arbitrary: s xs)
  case Nil
  then show ?case by simp
next
  case (Cons ys yss)
  obtain s1 where "feed s ys = Inr s1" "fed s1 (xs @ ys)"
    using fed_feed [OF Cons.prems(1), of ys] Cons.prems(2) by auto
  with Cons.IH [of s1 "xs @ ys"] Cons.prems(2) show ?case by auto
qed

lemma digest_pieces:
  assumes "length (concat yss) < bound"
  shows "\<exists>s. fold_res (\<lambda>ys s. feed s ys) yss start = Inr s \<and> digest s = hash (concat yss)"
proof -
  obtain s where "fold_res (\<lambda>ys s. feed s ys) yss start = Inr s" "fed s (concat yss)"
    using feed_pieces [OF fed_start, of yss] assms by auto
  with digest_fed assms show ?thesis by blast
qed

end

section \<open>Consuming a message stripe by stripe\<close>

function consume :: "XXH_endianess \<Rightarrow> lanes \<Rightarrow> u8 list \<Rightarrow> lanes \<times> u8 list" where
  "consume endian v p = (if 16 \<le> length p then consume endian (xxh_stripe endian v p) (drop 16 p) else (v, p))"
  by pat_completeness auto

termination
  by (relation "measure (\<lambda>(_, _, p). length p)") auto

declare consume.simps [simp del]

lemma xxh_stripes_consume: "16 \<le> length p \<Longrightarrow> xxh_stripes endian v p = consume endian v p"
  by (induction endian v p rule: xxh_stripes.induct)
    (subst xxh_stripes.simps, subst consume.simps, auto simp: Let_def consume.simps)

lemma consume_short: "length p < 16 \<Longrightarrow> consume endian v p = (v, p)"
  by (subst consume.simps) simp

lemma consume_rest: "consume endian v p = (v', r) \<Longrightarrow> length r < 16 \<and> length r \<le> length p"
proof (induction endian v p rule: consume.induct)
  case (1 endian v p)
  then show ?case
    by (cases "16 \<le> length p") (auto simp: consume.simps [of endian v p])
qed

lemma xxh_stripe_append:
  assumes "16 \<le> length p"
  shows "xxh_stripe endian v (p @ q) = xxh_stripe endian v p"
proof -
  have "p \<noteq> []" using assms by auto
  with assms show ?thesis
    by (cases endian) (auto simp: xxh_stripe_def XXH_readLE32_def A32_def nth_append)
qed

lemma consume_append:
  "consume endian v p = (v', r) \<Longrightarrow> consume endian v (p @ q) = consume endian v' (r @ q)"
proof (induction endian v p rule: consume.induct)
  case (1 endian v p)
  show ?case
  proof (cases "16 \<le> length p")
    case True
    then have "consume endian v (p @ q) = consume endian (xxh_stripe endian v p) (drop 16 p @ q)"
      by (subst consume.simps) (simp add: xxh_stripe_append)
    moreover have "consume endian (xxh_stripe endian v p) (drop 16 p) = (v', r)"
      using "1.prems" True by (simp add: consume.simps [of endian v p])
    ultimately show ?thesis using "1.IH" True by simp
  next
    case False
    with "1.prems" show ?thesis by (simp add: consume.simps [of endian v p])
  qed
qed

lemma consume_block: "length b = 16 \<Longrightarrow> consume endian v (b @ q) = consume endian (xxh_stripe endian v b) q"
  by (subst consume.simps) (simp add: xxh_stripe_append)

text \<open>The state has taken the message \<open>xs\<close>.\<close>

definition xxh_fed :: "XXH_endianess \<Rightarrow> u32 \<Rightarrow> XXH_state32_t \<Rightarrow> u8 list \<Rightarrow> bool" where
  "xxh_fed endian s st xs \<longleftrightarrow>
     total_len st = of_nat (length xs) \<and> seed st = s \<and> length (memory st) = 16 \<and> memsize st < 16 \<and>
     consume endian (xxh_init_lanes s) xs = (acc st, take (memsize st) (memory st))"

lemma xxh_fed_init: "length garbage = 16 \<Longrightarrow> xxh_fed endian s (XXH32_init garbage s) []"
  by (simp add: xxh_fed_def XXH32_init_def consume_short)

text \<open>The tail of an update: whole stripes from the input, and what is left into the buffer.\<close>

lemma xxh_stripes_cases:
  "(if 16 \<le> length p then (let (v, p) = xxh_stripes endian (acc st) p in (st\<lparr>acc := v\<rparr>, p)) else (st, p))
     = (let (v, p) = consume endian (acc st) p in (st\<lparr>acc := v\<rparr>, p))"
  by (auto simp: xxh_stripes_consume consume_short split: prod.splits)

lemma take_buf_write: "buf_write m 0 p = Inr m' \<Longrightarrow> take (length p) m' = p"
  by (auto simp: buf_write_def split: if_splits)

lemma xxh_update_head_ok:
  assumes "length (memory st) = 16" "memsize st < 16" "16 \<le> memsize st + length ys"
  shows "\<exists>st1 p. xxh_update_head endian st ys = Inr (st1, p)
    \<and> total_len st1 = total_len st \<and> seed st1 = seed st \<and> length (memory st1) = 16 \<and> memsize st1 = 0
    \<and> consume endian (acc st) (take (memsize st) (memory st) @ ys) = consume endian (acc st1) p"
proof (cases "memsize st = 0")
  case True
  then show ?thesis using assms by (simp add: xxh_update_head_def)
next
  case False
  let ?m = "take (memsize st) (memory st) @ take (16 - memsize st) ys"
  have m16: "length ?m = 16" using assms by simp
  have "take (memsize st) (memory st) @ ys = ?m @ drop (16 - memsize st) ys" by simp
  then have "consume endian (acc st) (take (memsize st) (memory st) @ ys)
    = consume endian (xxh_stripe endian (acc st) ?m) (drop (16 - memsize st) ys)"
    using consume_block [OF m16, of endian "acc st" "drop (16 - memsize st) ys"] by simp
  with False assms show ?thesis by (simp add: xxh_update_head_def buf_read_def buf_write_def)
qed

lemma xxh_update_tail_ok:
  assumes "length (memory st) = 16" "memsize st = 0"
  shows "\<exists>st' v r. xxh_update_tail endian st p = Inr st'
    \<and> total_len st' = total_len st \<and> seed st' = seed st \<and> length (memory st') = 16 \<and> memsize st' < 16
    \<and> consume endian (acc st) p = (acc st', take (memsize st') (memory st'))"
proof -
  obtain v r where vr: "consume endian (acc st) p = (v, r)" by fastforce
  then have "length r < 16" using consume_rest by blast
  with assms vr show ?thesis
    unfolding xxh_update_tail_def xxh_stripes_cases by (auto simp: buf_write_def)
qed

lemma xxh_fed_update:
  assumes "xxh_fed endian s st xs"
  shows "\<exists>st'. XXH32_update_endian st ys endian = Inr st' \<and> xxh_fed endian s st' (xs @ ys)"
proof -
  let ?st = "st\<lparr>total_len := total_len st + of_nat (length ys)\<rparr>"
  have fed: "total_len st = of_nat (length xs)" "seed st = s" "length (memory st) = 16" "memsize st < 16"
    "consume endian (xxh_init_lanes s) xs = (acc st, take (memsize st) (memory st))"
    using assms by (auto simp: xxh_fed_def)
  note both = consume_append [OF fed(5), of ys]
  show ?thesis
  proof (cases "memsize st + length ys < 16")
    case True
    then have "consume endian (acc st) (take (memsize st) (memory st) @ ys)
      = (acc st, take (memsize st) (memory st) @ ys)"
      using fed(3,4) by (intro consume_short) simp
    with True fed both show ?thesis
      by (auto simp: XXH32_update_endian_def buf_write_def xxh_fed_def)
  next
    case False
    obtain st1 p where st1: "xxh_update_head endian ?st ys = Inr (st1, p)"
      "total_len st1 = total_len ?st" "seed st1 = s" "length (memory st1) = 16" "memsize st1 = 0"
      "consume endian (acc st) (take (memsize st) (memory st) @ ys) = consume endian (acc st1) p"
      using xxh_update_head_ok [of ?st ys endian] fed False by auto
    obtain st' where "xxh_update_tail endian st1 p = Inr st'" "total_len st' = total_len st1" "seed st' = s"
      "length (memory st') = 16" "memsize st' < 16"
      "consume endian (acc st1) p = (acc st', take (memsize st') (memory st'))"
      using xxh_update_tail_ok [of st1 endian p] st1 by auto
    with False st1 fed both show ?thesis
      by (auto simp: XXH32_update_endian_def xxh_fed_def)
  qed
qed

lemma total_len_ge: "n < 2 ^ 31 \<Longrightarrow> 16 \<le> (of_nat n :: u64) \<longleftrightarrow> 16 \<le> n"
  by (simp add: word_le_nat_alt unat_of_nat_small)

lemma ucast_total_len: "(ucast (of_nat n :: u64) :: u32) = of_nat n"
  by (rule bit_word_eqI) (simp add: bit_simps)

lemma xxh_fed_digest:
  assumes "xxh_fed endian s st xs" "length xs < 2 ^ 31"
  shows "XXH32_intermediateDigest_endian st endian = XXH32_endian_align xs s endian"
proof -
  have fed: "total_len st = of_nat (length xs)" "seed st = s"
    "consume endian (xxh_init_lanes s) xs = (acc st, take (memsize st) (memory st))"
    using assms(1) by (auto simp: xxh_fed_def)
  have "xs = take (memsize st) (memory st)" if "\<not> 16 \<le> length xs"
    using fed(3) that by (simp add: consume_short)
  then show ?thesis
    using fed total_len_ge [OF assms(2)]
    by (auto simp: XXH32_intermediateDigest_endian_def XXH32_endian_align_def ucast_total_len
        xxh_stripes_consume)
qed

lemma xxh_streaming:
  assumes "length garbage = 16"
  shows "streaming_digest (xxh_fed endian s) (XXH32_init garbage s) (XXH32_update endian)
    (XXH32_digest endian) (\<lambda>xs. XXH32 endian xs s) (2 ^ 31)"
proof
  fix st xs ys
  assume "xxh_fed endian s st xs"
  then show "\<exists>s'. XXH32_update endian st ys = Inr s' \<and> xxh_fed endian s s' (xs @ ys)"
    using xxh_fed_update by (cases endian) (auto simp: XXH32_update_def)
next
  fix st xs
  assume "xxh_fed endian s st xs" "length xs < 2 ^ 31"
  then show "XXH32_digest endian st = XXH32 endian xs s"
    using xxh_fed_digest by (cases endian) (auto simp: XXH32_digest_def XXH32_def)
qed (rule xxh_fed_init [OF assms])

text \<open>The model's own instance: a fresh state on the little-endian host.\<close>

interpretation xxh32: streaming_digest "xxh_fed endian s" "XXH32_init (replicate 16 0) s"
  "XXH32_update endian" "XXH32_digest endian" "\<lambda>xs. XXH32 endian xs s" "2 ^ 31"
  for endian s
  by (rule xxh_streaming) simp

section \<open>Endianness\<close>

lemma byte_masks:
  "(0xff000000 :: u32) = push_bit 24 (mask 8)" "(0x00ff0000 :: u32) = push_bit 16 (mask 8)"
  "(0x0000ff00 :: u32) = push_bit 8 (mask 8)" "(0x000000ff :: u32) = mask 8"
  by (simp_all add: mask_eq_exp_minus_1 push_bit_eq_mult)

lemma bit_XXH_swap32:
  assumes "n < 32"
  shows "bit (XXH_swap32 x) n
    = bit x (if n < 8 then n + 24 else if n < 16 then n + 8 else if n < 24 then n - 8 else n - 24)"
  unfolding XXH_swap32_def byte_masks bit_or_iff bit_and_iff bit_push_bit_iff bit_drop_bit_eq bit_mask_iff
    comp_def
  using assms by (auto simp: add.commute dest: bit_imp_le_length)

lemma XXH_readLE32_endian: "XXH_readLE32 p XXH_bigEndian = XXH_readLE32 p XXH_littleEndian"
proof (rule bit_word_eqI)
  fix n :: nat
  assume "n < LENGTH(32)"
  then show "bit (XXH_readLE32 p XXH_bigEndian) n = bit (XXH_readLE32 p XXH_littleEndian) n"
    by (auto simp: XXH_readLE32_def A32_def bit_XXH_swap32 bit_le32 mod_if)
qed

lemma xxh_stripes_endian: "xxh_stripes XXH_bigEndian v p = xxh_stripes XXH_littleEndian v p"
proof (induction "XXH_bigEndian" v p rule: xxh_stripes.induct)
  case (1 v p)
  have "xxh_stripe XXH_bigEndian v p = xxh_stripe XXH_littleEndian v p"
    by (simp add: xxh_stripe_def XXH_readLE32_endian)
  with 1 show ?case
    by (subst (1 2) xxh_stripes.simps) (simp add: Let_def)
qed

lemma xxh_words_endian: "xxh_words XXH_bigEndian h p = xxh_words XXH_littleEndian h p"
proof (induction "XXH_bigEndian" h p rule: xxh_words.induct)
  case (1 h p)
  then show ?case by (subst (1 2) xxh_words.simps) (simp add: XXH_readLE32_endian)
qed

section \<open>Properties\<close>

text \<open>
  C10. Hashing in pieces is hashing in one go. For every way to cut a message of less than \<open>2 ^ 31\<close>
  bytes into pieces, empty ones included, feeding them one after the other to \<open>XXH32_update\<close>
  succeeds without leaving the 16-byte buffer, and \<open>XXH32_digest\<close> then returns the value that
  \<open>XXH32\<close> returns for the whole message.
\<close>

theorem XXH32_streaming:
  assumes "length garbage = 16" "length (concat pieces) < 2 ^ 31"
  shows "\<exists>state. fold_res (\<lambda>piece state. XXH32_update endian state piece) pieces (XXH32_init garbage s)
      = Inr state
    \<and> XXH32_digest endian state = XXH32 endian (concat pieces) s"
  using streaming_digest.digest_pieces [OF xxh_streaming [OF assms(1)] assms(2)] .

theorem XXH32_streaming_witness:
  "\<exists>state. fold_res (\<lambda>piece state. XXH32_update XXH_littleEndian state piece)
      [[1, 2, 3], [], replicate 20 4, [5]] (XXH32_init (replicate 16 0xCC) 7) = Inr state
    \<and> XXH32_digest XXH_littleEndian state = XXH32 XXH_littleEndian (concat [[1, 2, 3], [], replicate 20 4, [5]]) 7"
  by (rule XXH32_streaming) simp_all

text \<open>
  The hash of a message is the same on a big-endian and on a little-endian host.
\<close>

lemma XXH32_endian_independent: "XXH32 XXH_bigEndian input s = XXH32 XXH_littleEndian input s"
  by (simp add: XXH32_def XXH32_endian_align_def xxh_stripes_endian xxh_words_endian)

text \<open>The value for the empty message is the published one.\<close>

lemma XXH32_empty: "XXH32 XXH_littleEndian [] 0 = 0x02CC5D05"
  by code_simp

end
