(* ===== verification/I2C.thy ===== *)
theory I2C
  imports Xbox_Prelude
begin

text \<open>
  The I2C bus of \<open>src/hw/i2c/core.c\<close>: a list of slaves, of which one may be addressed at a time. The
  callbacks of a slave are those of its class. A slave is the state it has for its class, and the
  pointer \<open>current_dev\<close> is the position of the slave in the list.
\<close>

section \<open>Data\<close>

datatype i2c_event = I2C_START_RECV | I2C_START_SEND | I2C_FINISH | I2C_NACK

record 's I2CSlaveClass =
  sc_event :: "('s \<Rightarrow> i2c_event \<Rightarrow> 's res) option"
  sc_recv :: "('s \<Rightarrow> (int \<times> 's) res) option"
  sc_send :: "('s \<Rightarrow> u8 \<Rightarrow> (int \<times> 's) res) option"

record 's I2CSlave =
  i2c_address :: u8
  slave :: 's

record 's I2CBus =
  children :: "'s I2CSlave list"
  current_dev :: "nat option"
  saved_address :: u8

definition set_slave :: "'s I2CBus \<Rightarrow> nat \<Rightarrow> 's \<Rightarrow> 's I2CBus" where
  "set_slave bus i s = bus\<lparr>children := (children bus)[i := (children bus ! i)\<lparr>slave := s\<rparr>]\<rparr>"

section \<open>Operations\<close>

definition i2c_set_slave_address :: "'s I2CSlave \<Rightarrow> u8 \<Rightarrow> 's I2CSlave" where
  "i2c_set_slave_address dev addr = dev\<lparr>i2c_address := addr\<rparr>"

definition i2c_bus_busy :: "'s I2CBus \<Rightarrow> bool" where
  "i2c_bus_busy bus \<longleftrightarrow> current_dev bus \<noteq> None"

text \<open>The search over the children stops at the first one with the address.\<close>

primrec find_slave :: "u8 \<Rightarrow> 's I2CSlave list \<Rightarrow> nat option" where
  "find_slave addr [] = None"
| "find_slave addr (candidate # rest) =
     (if i2c_address candidate = addr then Some 0 else map_option Suc (find_slave addr rest))"

text \<open>A call of the event callback of slave \<open>i\<close>, if its class has one.\<close>

definition slave_event ::
  "('s \<Rightarrow> 's I2CSlaveClass) \<Rightarrow> 's I2CBus \<Rightarrow> nat \<Rightarrow> i2c_event \<Rightarrow> 's I2CBus res" where
  "slave_event cls bus i ev =
     res_bind (arr_get (children bus) i) (\<lambda>dev.
       case sc_event (cls (slave dev)) of
         None \<Rightarrow> Inr bus
       | Some f \<Rightarrow> res_bind (f (slave dev) ev) (\<lambda>s. Inr (set_slave bus i s)))"

definition i2c_start_transfer ::
  "('s \<Rightarrow> 's I2CSlaveClass) \<Rightarrow> 's I2CBus \<Rightarrow> u8 \<Rightarrow> bool \<Rightarrow> (int \<times> 's I2CBus) res" where
  "i2c_start_transfer cls bus addr rcv =
     (case find_slave addr (children bus) of
        None \<Rightarrow> Inr (1, bus)
      | Some i \<Rightarrow>
          res_bind (slave_event cls (bus\<lparr>current_dev := Some i\<rparr>) i
              (if rcv then I2C_START_RECV else I2C_START_SEND))
            (\<lambda>bus. Inr (0, bus)))"

definition i2c_end_transfer :: "('s \<Rightarrow> 's I2CSlaveClass) \<Rightarrow> 's I2CBus \<Rightarrow> 's I2CBus res" where
  "i2c_end_transfer cls bus =
     (case current_dev bus of
        None \<Rightarrow> Inr bus
      | Some i \<Rightarrow> res_bind (slave_event cls bus i I2C_FINISH) (\<lambda>bus. Inr (bus\<lparr>current_dev := None\<rparr>)))"

definition i2c_send :: "('s \<Rightarrow> 's I2CSlaveClass) \<Rightarrow> 's I2CBus \<Rightarrow> u8 \<Rightarrow> (int \<times> 's I2CBus) res" where
  "i2c_send cls bus data =
     (case current_dev bus of
        None \<Rightarrow> Inr (-1, bus)
      | Some i \<Rightarrow> res_bind (arr_get (children bus) i) (\<lambda>dev.
          case sc_send (cls (slave dev)) of
            None \<Rightarrow> Inr (-1, bus)
          | Some f \<Rightarrow> res_bind (f (slave dev) data) (\<lambda>(r, s). Inr (r, set_slave bus i s))))"

definition i2c_recv :: "('s \<Rightarrow> 's I2CSlaveClass) \<Rightarrow> 's I2CBus \<Rightarrow> (int \<times> 's I2CBus) res" where
  "i2c_recv cls bus =
     (case current_dev bus of
        None \<Rightarrow> Inr (-1, bus)
      | Some i \<Rightarrow> res_bind (arr_get (children bus) i) (\<lambda>dev.
          case sc_recv (cls (slave dev)) of
            None \<Rightarrow> Inr (-1, bus)
          | Some f \<Rightarrow> res_bind (f (slave dev)) (\<lambda>(r, s). Inr (r, set_slave bus i s))))"

definition i2c_nack :: "('s \<Rightarrow> 's I2CSlaveClass) \<Rightarrow> 's I2CBus \<Rightarrow> 's I2CBus res" where
  "i2c_nack cls bus =
     (case current_dev bus of
        None \<Rightarrow> Inr bus
      | Some i \<Rightarrow> slave_event cls bus i I2C_NACK)"

section \<open>Saving and loading\<close>

definition i2c_bus_pre_save :: "'s I2CBus \<Rightarrow> 's I2CBus res" where
  "i2c_bus_pre_save bus =
     (case current_dev bus of
        None \<Rightarrow> Inr (bus\<lparr>saved_address := -1\<rparr>)
      | Some i \<Rightarrow> res_bind (arr_get (children bus) i) (\<lambda>dev. Inr (bus\<lparr>saved_address := i2c_address dev\<rparr>)))"

definition i2c_bus_post_load :: "'s I2CBus \<Rightarrow> 's I2CBus" where
  "i2c_bus_post_load bus = bus\<lparr>current_dev := None\<rparr>"

definition i2c_slave_post_load :: "nat \<Rightarrow> 's I2CBus \<Rightarrow> 's I2CBus res" where
  "i2c_slave_post_load i bus =
     res_bind (arr_get (children bus) i) (\<lambda>dev.
       Inr (if saved_address bus = i2c_address dev then bus\<lparr>current_dev := Some i\<rparr> else bus))"

text \<open>Loading a machine: the bus first, then every slave on it.\<close>

definition i2c_load :: "'s I2CBus \<Rightarrow> 's I2CBus res" where
  "i2c_load bus = fold_res i2c_slave_post_load [0..<length (children bus)] (i2c_bus_post_load bus)"

section \<open>Lemmas\<close>

lemma find_slave_Some:
  "find_slave addr cs = Some i \<Longrightarrow> i < length cs \<and> i2c_address (cs ! i) = addr"
  by (induction cs arbitrary: i) (auto split: if_splits)

lemma find_slave_first: "find_slave addr cs = Some i \<Longrightarrow> j < i \<Longrightarrow> i2c_address (cs ! j) \<noteq> addr"
proof (induction cs arbitrary: i j)
  case (Cons c cs)
  then show ?case by (cases j) (auto split: if_splits)
qed simp

lemma find_slave_None: "find_slave addr cs = None \<longleftrightarrow> addr \<notin> i2c_address ` set cs"
  by (induction cs) auto

lemma find_slave_distinct:
  "distinct (map i2c_address cs) \<Longrightarrow> i < length cs \<Longrightarrow> find_slave (i2c_address (cs ! i)) cs = Some i"
proof (induction cs arbitrary: i)
  case (Cons c cs)
  then show ?case by (cases i) auto
qed simp

lemma find_slave_update [simp]:
  "find_slave addr (cs[i := (cs ! i)\<lparr>slave := s\<rparr>]) = find_slave addr cs"
proof (induction cs arbitrary: i)
  case (Cons c cs)
  then show ?case by (cases i) auto
qed simp

lemma set_slave_simps [simp]:
  "current_dev (set_slave bus i s) = current_dev bus"
  "saved_address (set_slave bus i s) = saved_address bus"
  "length (children (set_slave bus i s)) = length (children bus)"
  "find_slave addr (children (set_slave bus i s)) = find_slave addr (children bus)"
  "set_slave (set_slave bus i s) i s' = set_slave bus i s'"
  by (cases "i < length (children bus)"; simp add: set_slave_def list_update_beyond)+

lemma set_slave_nth:
  "i < length (children bus) \<Longrightarrow> children (set_slave bus i s) ! j
     = (if j = i then (children bus ! i)\<lparr>slave := s\<rparr> else children bus ! j)"
  by (auto simp: set_slave_def nth_list_update_eq)

lemma set_slave_nth_same [simp]:
  "i < length (children bus) \<Longrightarrow> slave (children (set_slave bus i s) ! i) = s"
  by (simp add: set_slave_nth)

lemma set_slave_id: "s = slave (children bus ! i) \<Longrightarrow> set_slave bus i s = bus"
  by (simp add: set_slave_def)

lemma set_slave_current_dev:
  "set_slave (bus\<lparr>current_dev := c\<rparr>) i s = (set_slave bus i s)\<lparr>current_dev := c\<rparr>"
  by (simp add: set_slave_def)

lemma i2c_load_slaves:
  assumes "n \<le> length (children bus)"
    and "distinct (map i2c_address (children bus))"
    and "current_dev bus = None"
  shows "fold_res i2c_slave_post_load [0..<n] bus
    = Inr (bus\<lparr>current_dev := (case find_slave (saved_address bus) (children bus) of
        Some i \<Rightarrow> if i < n then Some i else None | None \<Rightarrow> None)\<rparr>)"
  using assms(1)
proof (induction n)
  case 0
  then show ?case using assms(3) by (auto split: option.splits)
next
  case (Suc n)
  have "saved_address bus = i2c_address (children bus ! n)
    \<longleftrightarrow> find_slave (saved_address bus) (children bus) = Some n"
  proof
    assume "saved_address bus = i2c_address (children bus ! n)"
    then show "find_slave (saved_address bus) (children bus) = Some n"
      using find_slave_distinct [OF assms(2), of n] Suc.prems by simp
  qed (auto dest: find_slave_Some)
  with Suc show ?case
    by (auto simp: fold_res_append i2c_slave_post_load_def less_Suc_eq split: option.splits)
qed

section \<open>Properties\<close>

text \<open>
  A machine that is saved in the middle of a transfer and loaded again goes on with the same
  slave: after \<open>i2c_bus_pre_save\<close>, \<open>i2c_bus_post_load\<close> and the \<open>i2c_slave_post_load\<close> of every slave,
  \<open>current_dev\<close> is what it was, if the slaves have different addresses and none of them is
  \<open>0xff\<close>, which stands for an idle bus in the saved state.
\<close>

lemma i2c_save_load:
  assumes "distinct (map i2c_address (children bus))" "-1 \<notin> i2c_address ` set (children bus)"
    and "\<And>i. current_dev bus = Some i \<Longrightarrow> i < length (children bus)"
  shows "\<exists>saved bus'. i2c_bus_pre_save bus = Inr saved \<and> i2c_load saved = Inr bus'
    \<and> current_dev bus' = current_dev bus \<and> children bus' = children bus"
proof (cases "current_dev bus")
  case None
  then show ?thesis
    using assms i2c_load_slaves [of _ "i2c_bus_post_load (bus\<lparr>saved_address := -1\<rparr>)"]
    by (auto simp: i2c_bus_pre_save_def i2c_load_def i2c_bus_post_load_def find_slave_None [THEN iffD2])
next
  case (Some i)
  then have i: "i < length (children bus)" by (rule assms(3))
  let ?a = "i2c_address (children bus ! i)"
  have "find_slave ?a (children bus) = Some i" using find_slave_distinct [OF assms(1) i] .
  with Some i show ?thesis
    using assms(1) i2c_load_slaves [of _ "i2c_bus_post_load (bus\<lparr>saved_address := ?a\<rparr>)"]
    by (auto simp: i2c_bus_pre_save_def i2c_load_def i2c_bus_post_load_def)
qed

lemma i2c_save_load_witness:
  "\<exists>saved bus'. i2c_bus_pre_save \<lparr>children = [\<lparr>i2c_address = 0x10, slave = ()\<rparr>, \<lparr>i2c_address = 0x54, slave = ()\<rparr>],
      current_dev = Some 1, saved_address = 0\<rparr> = Inr saved
    \<and> i2c_load saved = Inr bus' \<and> current_dev bus' = Some 1"
  using i2c_save_load [of "\<lparr>children = [\<lparr>i2c_address = 0x10, slave = ()\<rparr>, \<lparr>i2c_address = 0x54, slave = ()\<rparr>],
      current_dev = Some 1, saved_address = 0\<rparr>"]
  by auto

end
