(* ===== verification/SMBus.thy ===== *)
theory SMBus
  imports I2C
begin

text \<open>
  SMBus on top of I2C, \<open>src/hw/i2c/smbus.c\<close>: the slave side is a state machine that turns bus events
  into calls of the device's class (\<open>smbus_i2c_event\<close>, \<open>smbus_i2c_recv\<close>, \<open>smbus_i2c_send\<close>), the master
  side are the commands a host controller issues. A device has private state \<open>priv\<close>, and its class is
  a function of that state. Shown here: from an idle bus every master command calls the device's
  class as the SMBus protocol says and leaves the bus idle, so that the 34-byte buffer of a device is
  never overrun; a command to an address without a device changes nothing and reads as all ones.
\<close>

section \<open>Data\<close>

datatype smbus_mode =
  SMBUS_IDLE | SMBUS_WRITE_DATA | SMBUS_RECV_BYTE | SMBUS_READ_DATA | SMBUS_DONE | SMBUS_CONFUSED

text \<open>
  The callbacks of \<open>SMBusDeviceClass\<close>; one that is \<open>NULL\<close> is \<open>None\<close>. The buffer and the length that
  \<open>write_data\<close> gets are one list.
\<close>

record 'd SMBusDeviceClass =
  quick_cmd :: "('d \<Rightarrow> u8 \<Rightarrow> 'd res) option"
  send_byte :: "('d \<Rightarrow> u8 \<Rightarrow> 'd res) option"
  receive_byte :: "('d \<Rightarrow> (u8 \<times> 'd) res) option"
  write_data :: "('d \<Rightarrow> u8 \<Rightarrow> u8 list \<Rightarrow> 'd res) option"
  read_data :: "('d \<Rightarrow> u8 \<Rightarrow> nat \<Rightarrow> (u8 \<times> 'd) res) option"

record 'd SMBusDevice =
  smb_mode :: smbus_mode
  data_len :: nat
  data_buf :: "u8 list"
  smb_command :: u8
  priv :: 'd

section \<open>The slave side\<close>

definition smbus_do_quick_cmd ::
  "('d \<Rightarrow> 'd SMBusDeviceClass) \<Rightarrow> 'd SMBusDevice \<Rightarrow> u8 \<Rightarrow> 'd SMBusDevice res" where
  "smbus_do_quick_cmd sc dev rcv =
     (case quick_cmd (sc (priv dev)) of
        None \<Rightarrow> Inr dev
      | Some f \<Rightarrow> res_bind (f (priv dev) rcv) (\<lambda>d. Inr (dev\<lparr>priv := d\<rparr>)))"

definition smbus_do_write :: "('d \<Rightarrow> 'd SMBusDeviceClass) \<Rightarrow> 'd SMBusDevice \<Rightarrow> 'd SMBusDevice res" where
  "smbus_do_write sc dev =
     (if data_len dev = 0 then smbus_do_quick_cmd sc dev 0
      else if data_len dev = 1 then
        (case send_byte (sc (priv dev)) of
           None \<Rightarrow> Inr dev
         | Some f \<Rightarrow> res_bind (arr_get (data_buf dev) 0) (\<lambda>b.
             res_bind (f (priv dev) b) (\<lambda>d. Inr (dev\<lparr>priv := d\<rparr>))))
      else
        res_bind (arr_get (data_buf dev) 0) (\<lambda>c.
        let dev = dev\<lparr>smb_command := c\<rparr>
        in case write_data (sc (priv dev)) of
             None \<Rightarrow> Inr dev
           | Some f \<Rightarrow> res_bind (buf_read (data_buf dev) 1 (data_len dev - 1)) (\<lambda>bs.
               res_bind (f (priv dev) (smb_command dev) bs) (\<lambda>d. Inr (dev\<lparr>priv := d\<rparr>)))))"

definition smbus_i2c_event ::
  "('d \<Rightarrow> 'd SMBusDeviceClass) \<Rightarrow> 'd SMBusDevice \<Rightarrow> i2c_event \<Rightarrow> 'd SMBusDevice res" where
  "smbus_i2c_event sc dev ev =
     (case ev of
        I2C_START_SEND \<Rightarrow>
          (case smb_mode dev of
             SMBUS_IDLE \<Rightarrow> Inr (dev\<lparr>smb_mode := SMBUS_WRITE_DATA\<rparr>)
           | _ \<Rightarrow> Inr (dev\<lparr>smb_mode := SMBUS_CONFUSED\<rparr>))
      | I2C_START_RECV \<Rightarrow>
          (case smb_mode dev of
             SMBUS_IDLE \<Rightarrow> Inr (dev\<lparr>smb_mode := SMBUS_RECV_BYTE\<rparr>)
           | SMBUS_WRITE_DATA \<Rightarrow>
               if data_len dev = 0 then Inr (dev\<lparr>smb_mode := SMBUS_CONFUSED\<rparr>)
               else
                 res_bind
                   (if data_len dev > 1 then smbus_do_write sc dev
                    else res_bind (arr_get (data_buf dev) 0) (\<lambda>c. Inr (dev\<lparr>smb_command := c\<rparr>)))
                   (\<lambda>dev. Inr (dev\<lparr>data_len := 0, smb_mode := SMBUS_READ_DATA\<rparr>))
           | _ \<Rightarrow> Inr (dev\<lparr>smb_mode := SMBUS_CONFUSED\<rparr>))
      | I2C_FINISH \<Rightarrow>
          res_bind
            (case smb_mode dev of
               SMBUS_WRITE_DATA \<Rightarrow> smbus_do_write sc dev
             | SMBUS_RECV_BYTE \<Rightarrow> smbus_do_quick_cmd sc dev 1
             | _ \<Rightarrow> Inr dev)
            (\<lambda>dev. Inr (dev\<lparr>smb_mode := SMBUS_IDLE, data_len := 0\<rparr>))
      | I2C_NACK \<Rightarrow>
          (case smb_mode dev of
             SMBUS_DONE \<Rightarrow> Inr dev
           | SMBUS_READ_DATA \<Rightarrow> Inr (dev\<lparr>smb_mode := SMBUS_DONE\<rparr>)
           | _ \<Rightarrow> Inr (dev\<lparr>smb_mode := SMBUS_CONFUSED\<rparr>)))"

definition smbus_i2c_recv ::
  "('d \<Rightarrow> 'd SMBusDeviceClass) \<Rightarrow> 'd SMBusDevice \<Rightarrow> (int \<times> 'd SMBusDevice) res" where
  "smbus_i2c_recv sc dev =
     (case smb_mode dev of
        SMBUS_RECV_BYTE \<Rightarrow>
          res_bind
            (case receive_byte (sc (priv dev)) of
               None \<Rightarrow> Inr (0, priv dev)
             | Some f \<Rightarrow> f (priv dev))
            (\<lambda>(b, d). Inr (uint b, dev\<lparr>priv := d, smb_mode := SMBUS_DONE\<rparr>))
      | SMBUS_READ_DATA \<Rightarrow>
          (case read_data (sc (priv dev)) of
             None \<Rightarrow> Inr (0, dev)
           | Some f \<Rightarrow> res_bind (f (priv dev) (smb_command dev) (data_len dev)) (\<lambda>(b, d).
               Inr (uint b, dev\<lparr>priv := d, data_len := data_len dev + 1\<rparr>)))
      | _ \<Rightarrow> Inr (0, dev\<lparr>smb_mode := SMBUS_CONFUSED\<rparr>))"

definition smbus_i2c_send :: "'d SMBusDevice \<Rightarrow> u8 \<Rightarrow> (int \<times> 'd SMBusDevice) res" where
  "smbus_i2c_send dev data =
     (case smb_mode dev of
        SMBUS_WRITE_DATA \<Rightarrow> res_bind (arr_set (data_buf dev) (data_len dev) data) (\<lambda>b.
          Inr (0, dev\<lparr>data_buf := b, data_len := data_len dev + 1\<rparr>))
      | _ \<Rightarrow> Inr (0, dev))"

definition smbus_slave_class :: "('d \<Rightarrow> 'd SMBusDeviceClass) \<Rightarrow> 'd SMBusDevice \<Rightarrow> 'd SMBusDevice I2CSlaveClass" where
  "smbus_slave_class sc dev =
     \<lparr>sc_event = Some (smbus_i2c_event sc), sc_recv = Some (smbus_i2c_recv sc), sc_send = Some smbus_i2c_send\<rparr>"

section \<open>The master side\<close>

type_synonym 'd bus = "'d SMBusDevice I2CBus"

definition smbus_quick_command :: "('d \<Rightarrow> 'd SMBusDeviceClass) \<Rightarrow> 'd bus \<Rightarrow> u8 \<Rightarrow> bool \<Rightarrow> 'd bus res" where
  "smbus_quick_command sc bus addr rd =
     res_bind (i2c_start_transfer (smbus_slave_class sc) bus addr rd) (\<lambda>(_, bus).
       i2c_end_transfer (smbus_slave_class sc) bus)"

definition smbus_receive_byte :: "('d \<Rightarrow> 'd SMBusDeviceClass) \<Rightarrow> 'd bus \<Rightarrow> u8 \<Rightarrow> (u8 \<times> 'd bus) res" where
  "smbus_receive_byte sc bus addr =
     (let cls = smbus_slave_class sc in
      res_bind (i2c_start_transfer cls bus addr True) (\<lambda>(_, bus).
      res_bind (i2c_recv cls bus) (\<lambda>(data, bus).
      res_bind (i2c_nack cls bus) (\<lambda>bus.
      res_bind (i2c_end_transfer cls bus) (\<lambda>bus. Inr (word_of_int data, bus))))))"

definition smbus_send_byte :: "('d \<Rightarrow> 'd SMBusDeviceClass) \<Rightarrow> 'd bus \<Rightarrow> u8 \<Rightarrow> u8 \<Rightarrow> 'd bus res" where
  "smbus_send_byte sc bus addr data =
     (let cls = smbus_slave_class sc in
      res_bind (i2c_start_transfer cls bus addr False) (\<lambda>(_, bus).
      res_bind (i2c_send cls bus data) (\<lambda>(_, bus). i2c_end_transfer cls bus)))"

definition smbus_read_byte :: "('d \<Rightarrow> 'd SMBusDeviceClass) \<Rightarrow> 'd bus \<Rightarrow> u8 \<Rightarrow> u8 \<Rightarrow> (u8 \<times> 'd bus) res" where
  "smbus_read_byte sc bus addr cmd =
     (let cls = smbus_slave_class sc in
      res_bind (i2c_start_transfer cls bus addr False) (\<lambda>(_, bus).
      res_bind (i2c_send cls bus cmd) (\<lambda>(_, bus).
      res_bind (i2c_start_transfer cls bus addr True) (\<lambda>(_, bus).
      res_bind (i2c_recv cls bus) (\<lambda>(data, bus).
      res_bind (i2c_nack cls bus) (\<lambda>bus.
      res_bind (i2c_end_transfer cls bus) (\<lambda>bus. Inr (word_of_int data, bus))))))))"

definition smbus_write_byte :: "('d \<Rightarrow> 'd SMBusDeviceClass) \<Rightarrow> 'd bus \<Rightarrow> u8 \<Rightarrow> u8 \<Rightarrow> u8 \<Rightarrow> 'd bus res" where
  "smbus_write_byte sc bus addr cmd data =
     (let cls = smbus_slave_class sc in
      res_bind (i2c_start_transfer cls bus addr False) (\<lambda>(_, bus).
      res_bind (i2c_send cls bus cmd) (\<lambda>(_, bus).
      res_bind (i2c_send cls bus data) (\<lambda>(_, bus). i2c_end_transfer cls bus))))"

definition smbus_read_word :: "('d \<Rightarrow> 'd SMBusDeviceClass) \<Rightarrow> 'd bus \<Rightarrow> u8 \<Rightarrow> u8 \<Rightarrow> (u16 \<times> 'd bus) res" where
  "smbus_read_word sc bus addr cmd =
     (let cls = smbus_slave_class sc in
      res_bind (i2c_start_transfer cls bus addr False) (\<lambda>(_, bus).
      res_bind (i2c_send cls bus cmd) (\<lambda>(_, bus).
      res_bind (i2c_start_transfer cls bus addr True) (\<lambda>(_, bus).
      res_bind (i2c_recv cls bus) (\<lambda>(lo, bus).
      res_bind (i2c_recv cls bus) (\<lambda>(hi, bus).
      res_bind (i2c_nack cls bus) (\<lambda>bus.
      res_bind (i2c_end_transfer cls bus) (\<lambda>bus.
        Inr (word_of_int lo OR push_bit 8 (word_of_int hi), bus)))))))))"

definition smbus_write_word :: "('d \<Rightarrow> 'd SMBusDeviceClass) \<Rightarrow> 'd bus \<Rightarrow> u8 \<Rightarrow> u8 \<Rightarrow> u16 \<Rightarrow> 'd bus res" where
  "smbus_write_word sc bus addr cmd data =
     (let cls = smbus_slave_class sc in
      res_bind (i2c_start_transfer cls bus addr False) (\<lambda>(_, bus).
      res_bind (i2c_send cls bus cmd) (\<lambda>(_, bus).
      res_bind (i2c_send cls bus (ucast (data AND 0xff))) (\<lambda>(_, bus).
      res_bind (i2c_send cls bus (ucast (drop_bit 8 data))) (\<lambda>(_, bus). i2c_end_transfer cls bus)))))"

text \<open>The bytes of a block go to the caller's array \<open>data\<close>.\<close>

definition smbus_read_block ::
  "('d \<Rightarrow> 'd SMBusDeviceClass) \<Rightarrow> 'd bus \<Rightarrow> u8 \<Rightarrow> u8 \<Rightarrow> u8 list \<Rightarrow> (int \<times> u8 list \<times> 'd bus) res" where
  "smbus_read_block sc bus addr cmd data =
     (let cls = smbus_slave_class sc in
      res_bind (i2c_start_transfer cls bus addr False) (\<lambda>(_, bus).
      res_bind (i2c_send cls bus cmd) (\<lambda>(_, bus).
      res_bind (i2c_start_transfer cls bus addr True) (\<lambda>(_, bus).
      res_bind (i2c_recv cls bus) (\<lambda>(len, bus).
      let len = (if len > 32 then 0 else len) in
      res_bind
        (fold_res (\<lambda>i (data, bus).
            res_bind (i2c_recv cls bus) (\<lambda>(b, bus).
            res_bind (arr_set data i (word_of_int b)) (\<lambda>data. Inr (data, bus))))
          [0..<nat len] (data, bus)) (\<lambda>(data, bus).
      res_bind (i2c_nack cls bus) (\<lambda>bus.
      res_bind (i2c_end_transfer cls bus) (\<lambda>bus. Inr (len, data, bus)))))))))"

definition smbus_write_block ::
  "('d \<Rightarrow> 'd SMBusDeviceClass) \<Rightarrow> 'd bus \<Rightarrow> u8 \<Rightarrow> u8 \<Rightarrow> u8 list \<Rightarrow> nat \<Rightarrow> 'd bus res" where
  "smbus_write_block sc bus addr cmd data len =
     (let cls = smbus_slave_class sc; len = (if len > 32 then 32 else len) in
      res_bind (i2c_start_transfer cls bus addr False) (\<lambda>(_, bus).
      res_bind (i2c_send cls bus cmd) (\<lambda>(_, bus).
      res_bind (i2c_send cls bus (of_nat len)) (\<lambda>(_, bus).
      res_bind
        (fold_res (\<lambda>i bus. res_bind (arr_get data i) (\<lambda>b. res_bind (i2c_send cls bus b) (\<lambda>(_, bus). Inr bus)))
          [0..<len] bus) (\<lambda>bus.
      i2c_end_transfer cls bus)))))"

section \<open>A transfer in progress\<close>

text \<open>The bus \<open>bus\<close> while its slave \<open>i\<close> is addressed and has the state \<open>s\<close>.\<close>

definition busy :: "'d bus \<Rightarrow> nat \<Rightarrow> 'd SMBusDevice \<Rightarrow> 'd bus" where
  "busy bus i s = (set_slave bus i s)\<lparr>current_dev := Some i\<rparr>"

lemma busy_simps [simp]:
  "current_dev (busy bus i s) = Some i"
  "children (busy bus i s) = children (set_slave bus i s)"
  "set_slave (busy bus i s) i s' = busy bus i s'"
  "busy (busy bus i s) i s' = busy bus i s'"
  by (simp_all add: busy_def set_slave_current_dev)

lemma slave_event_busy [bus_simps]:
  "i < length (children bus) \<Longrightarrow> slave_event (smbus_slave_class sc) (busy bus i s) i ev
     = res_bind (smbus_i2c_event sc s ev) (\<lambda>s. Inr (busy bus i s))"
  by (simp add: slave_event_def smbus_slave_class_def)

lemma start_idle [bus_simps]:
  assumes "find_slave addr (children bus) = Some i"
  shows "i2c_start_transfer (smbus_slave_class sc) bus addr rd
    = res_bind (smbus_i2c_event sc (slave (children bus ! i)) (if rd then I2C_START_RECV else I2C_START_SEND))
        (\<lambda>s. Inr (0, busy bus i s))"
proof -
  have "bus\<lparr>current_dev := Some i\<rparr> = busy bus i (slave (children bus ! i))"
    by (simp add: busy_def set_slave_id)
  with assms find_slave_Some [OF assms] show ?thesis
    by (simp add: i2c_start_transfer_def slave_event_busy res_bind_assoc)
qed

lemma start_busy [bus_simps]:
  assumes "find_slave addr (children bus) = Some i"
  shows "i2c_start_transfer (smbus_slave_class sc) (busy bus i s) addr rd
    = res_bind (smbus_i2c_event sc s (if rd then I2C_START_RECV else I2C_START_SEND))
        (\<lambda>s. Inr (0, busy bus i s))"
proof -
  have same: "(busy bus i s)\<lparr>current_dev := Some i\<rparr> = busy bus i s" by (simp add: busy_def)
  from assms find_slave_Some [OF assms] show ?thesis
    by (simp add: i2c_start_transfer_def same slave_event_busy res_bind_assoc)
qed

lemma transfer_busy [bus_simps]:
  assumes "i < length (children bus)"
  shows "i2c_send (smbus_slave_class sc) (busy bus i s) b
      = res_bind (smbus_i2c_send s b) (\<lambda>(r, s). Inr (r, busy bus i s))"
    and "i2c_recv (smbus_slave_class sc) (busy bus i s)
      = res_bind (smbus_i2c_recv sc s) (\<lambda>(r, s). Inr (r, busy bus i s))"
    and "i2c_nack (smbus_slave_class sc) (busy bus i s)
      = res_bind (smbus_i2c_event sc s I2C_NACK) (\<lambda>s. Inr (busy bus i s))"
  using assms slave_event_busy [OF assms, of sc s I2C_NACK]
  by (simp_all add: i2c_send_def i2c_recv_def i2c_nack_def smbus_slave_class_def)

lemma end_busy [bus_simps]:
  assumes "i < length (children bus)" "current_dev bus = None"
  shows "i2c_end_transfer (smbus_slave_class sc) (busy bus i s)
    = res_bind (smbus_i2c_event sc s I2C_FINISH) (\<lambda>s. Inr (set_slave bus i s))"
proof -
  have "(busy bus i s')\<lparr>current_dev := None\<rparr> = set_slave bus i s'" for s'
    using assms(2) by (simp add: busy_def set_slave_def)
  then show ?thesis
    using assms(1) by (simp add: i2c_end_transfer_def slave_event_busy res_bind_assoc)
qed

lemma no_slave [bus_simps]:
  assumes "current_dev bus = None"
  shows "find_slave addr (children bus) = None \<Longrightarrow> i2c_start_transfer cls bus addr rd = Inr (1, bus)"
    and "i2c_send cls bus b = Inr (-1, bus)" "i2c_recv cls bus = Inr (-1, bus)"
    and "i2c_nack cls bus = Inr bus" "i2c_end_transfer cls bus = Inr bus"
  using assms
  by (simp_all add: i2c_start_transfer_def i2c_send_def i2c_recv_def i2c_nack_def i2c_end_transfer_def)

section \<open>What the commands do to the devices\<close>

text \<open>
  The abstract bus is the list of the devices' addresses and private states. A command runs an
  operation on the first device with the address; without one it returns \<open>dflt\<close>.
\<close>

definition bus_abs :: "'d bus \<Rightarrow> (u8 \<times> 'd) list" where
  "bus_abs bus = map (\<lambda>c. (i2c_address c, priv (slave c))) (children bus)"

primrec on_device ::
  "('d \<Rightarrow> ('r \<times> 'd) res) \<Rightarrow> 'r \<Rightarrow> u8 \<Rightarrow> (u8 \<times> 'd) list \<Rightarrow> ('r \<times> (u8 \<times> 'd) list) res" where
  "on_device f dflt addr [] = Inr (dflt, [])"
| "on_device f dflt addr (dev # devs) =
     (if fst dev = addr then res_bind (f (snd dev)) (\<lambda>(r, d). Inr (r, (addr, d) # devs))
      else res_bind (on_device f dflt addr devs) (\<lambda>(r, devs). Inr (r, dev # devs)))"

definition dev_idle :: "'d SMBusDevice \<Rightarrow> bool" where
  "dev_idle dev \<longleftrightarrow> smb_mode dev = SMBUS_IDLE \<and> data_len dev = 0 \<and> length (data_buf dev) = 34"

definition bus_idle :: "'d bus \<Rightarrow> bool" where
  "bus_idle bus \<longleftrightarrow> current_dev bus = None \<and> (\<forall>c \<in> set (children bus). dev_idle (slave c))"

text \<open>A run of a command on the bus refines an operation on the devices and leaves the bus idle.\<close>

definition refines :: "('r \<times> 'd bus) res \<Rightarrow> ('r \<times> (u8 \<times> 'd) list) res \<Rightarrow> bool" where
  "refines run spec \<longleftrightarrow>
     (case run of
        Inl e \<Rightarrow> spec = Inl e
      | Inr (r, bus) \<Rightarrow> spec = Inr (r, bus_abs bus) \<and> bus_idle bus)"

definition no_value :: "'b res \<Rightarrow> (unit \<times> 'b) res" where
  "no_value run = res_bind run (\<lambda>b. Inr ((), b))"

lemma on_device_None: "find_slave addr (children bus) = None \<Longrightarrow>
    on_device f dflt addr (bus_abs bus) = Inr (dflt, bus_abs bus)"
proof -
  have "find_slave addr cs = None \<Longrightarrow>
    on_device f dflt addr (map (\<lambda>c. (i2c_address c, priv (slave c))) cs)
      = Inr (dflt, map (\<lambda>c. (i2c_address c, priv (slave c))) cs)" for cs :: "'a SMBusDevice I2CSlave list"
    by (induction cs) (auto split: if_splits)
  then show "find_slave addr (children bus) = None \<Longrightarrow> ?thesis" by (simp add: bus_abs_def)
qed

lemma on_device_Some:
  assumes "find_slave addr (children bus) = Some i"
  shows "on_device f dflt addr (bus_abs bus)
    = res_bind (f (priv (slave (children bus ! i)))) (\<lambda>(r, d). Inr (r, (bus_abs bus)[i := (addr, d)]))"
proof -
  have "find_slave addr cs = Some i \<Longrightarrow>
    on_device f dflt addr (map (\<lambda>c. (i2c_address c, priv (slave c))) cs)
      = res_bind (f (priv (slave (cs ! i))))
          (\<lambda>(r, d). Inr (r, (map (\<lambda>c. (i2c_address c, priv (slave c))) cs)[i := (addr, d)]))"
    for cs :: "'a SMBusDevice I2CSlave list"
  proof (induction cs arbitrary: i)
    case (Cons c cs)
    then show ?case
      by (auto simp: res_bind_def split: if_splits sum.splits)
  qed simp
  with assms show ?thesis by (simp add: bus_abs_def)
qed

text \<open>
  The run of a command settles as the operation on the addressed slave says: it fails with the
  operation, or returns its value and leaves the slave idle with the operation's private state.
\<close>

definition settles :: "'d bus \<Rightarrow> nat \<Rightarrow> ('r \<times> 'd) res \<Rightarrow> ('r \<times> 'd bus) res \<Rightarrow> bool" where
  "settles bus i op run \<longleftrightarrow>
     (case op of
        Inl e \<Rightarrow> run = Inl e
      | Inr (r, d) \<Rightarrow> \<exists>s. run = Inr (r, set_slave bus i s) \<and> dev_idle s \<and> priv s = d)"

lemma settles_Inr: "dev_idle s \<Longrightarrow> priv s = d \<Longrightarrow> r' = r \<Longrightarrow> settles bus i (Inr (r, d)) (Inr (r', set_slave bus i s))"
  by (auto simp: settles_def)

lemma settles_bind:
  "(\<And>x. m = Inr x \<Longrightarrow> settles bus i (g x) (h x)) \<Longrightarrow> settles bus i (res_bind m g) (res_bind m h)"
  by (cases m) (auto simp: settles_def)

lemma settles_bind_id:
  "(\<And>x. settles bus i (Inr x) (h x)) \<Longrightarrow> settles bus i m (res_bind m h)"
  by (cases m) (auto simp: settles_def)

lemmas settles_intros = settles_Inr settles_bind settles_bind_id

lemma refinesI:
  assumes "bus_idle bus"
    and none: "find_slave addr (children bus) = None \<Longrightarrow> run = Inr (dflt, bus)"
    and some: "\<And>i. find_slave addr (children bus) = Some i \<Longrightarrow>
      settles bus i (f (priv (slave (children bus ! i)))) run"
  shows "refines run (on_device f dflt addr (bus_abs bus))"
proof (cases "find_slave addr (children bus)")
  case None
  with none assms(1) show ?thesis by (simp add: refines_def on_device_None)
next
  case (Some i)
  then have i: "i < length (children bus)" "i2c_address (children bus ! i) = addr"
    using find_slave_Some by blast+
  have "bus_abs (set_slave bus i s) = (bus_abs bus)[i := (addr, priv s)]" for s
    using i by (simp add: bus_abs_def set_slave_def map_update)
  moreover have "dev_idle s \<Longrightarrow> bus_idle (set_slave bus i s)" for s
    using assms(1) i
    by (auto simp: bus_idle_def set_slave_def dest!: set_update_subset_insert [THEN subsetD])
  ultimately show ?thesis
    using some [OF Some]
    by (auto simp: refines_def settles_def on_device_Some [OF Some] split: sum.splits)
qed

lemma idle_slave:
  assumes "bus_idle bus" "find_slave addr (children bus) = Some i"
  shows "current_dev bus = None" "i < length (children bus)" "smb_mode (slave (children bus ! i)) = SMBUS_IDLE"
    "data_len (slave (children bus ! i)) = 0" "length (data_buf (slave (children bus ! i))) = 34"
  using assms find_slave_Some [OF assms(2)] by (auto simp: bus_idle_def dev_idle_def)

lemmas smbus_steps = smbus_i2c_event_def smbus_i2c_send_def smbus_i2c_recv_def smbus_do_write_def
  smbus_do_quick_cmd_def

section \<open>The operations that the commands stand for\<close>

definition op_quick :: "('d \<Rightarrow> 'd SMBusDeviceClass) \<Rightarrow> bool \<Rightarrow> 'd \<Rightarrow> (unit \<times> 'd) res" where
  "op_quick sc rd d = (case quick_cmd (sc d) of None \<Rightarrow> Inr ((), d)
     | Some f \<Rightarrow> no_value (f d (if rd then 1 else 0)))"

definition op_send :: "('d \<Rightarrow> 'd SMBusDeviceClass) \<Rightarrow> u8 \<Rightarrow> 'd \<Rightarrow> (unit \<times> 'd) res" where
  "op_send sc b d = (case send_byte (sc d) of None \<Rightarrow> Inr ((), d) | Some f \<Rightarrow> no_value (f d b))"

definition op_receive :: "('d \<Rightarrow> 'd SMBusDeviceClass) \<Rightarrow> 'd \<Rightarrow> (u8 \<times> 'd) res" where
  "op_receive sc d = (case receive_byte (sc d) of None \<Rightarrow> Inr (0, d) | Some f \<Rightarrow> f d)"

definition op_read :: "('d \<Rightarrow> 'd SMBusDeviceClass) \<Rightarrow> u8 \<Rightarrow> nat \<Rightarrow> 'd \<Rightarrow> (u8 \<times> 'd) res" where
  "op_read sc cmd n d = (case read_data (sc d) of None \<Rightarrow> Inr (0, d) | Some f \<Rightarrow> f d cmd n)"

definition op_write :: "('d \<Rightarrow> 'd SMBusDeviceClass) \<Rightarrow> u8 \<Rightarrow> u8 list \<Rightarrow> 'd \<Rightarrow> (unit \<times> 'd) res" where
  "op_write sc cmd bs d = (case write_data (sc d) of None \<Rightarrow> Inr ((), d) | Some f \<Rightarrow> no_value (f d cmd bs))"

lemmas op_defs = no_value_def op_quick_def op_send_def op_receive_def op_read_def op_write_def

lemma sent_bytes:
  "2 \<le> length xs \<Longrightarrow> xs[0 := c, Suc 0 := b] = c # b # drop 2 xs"
  "3 \<le> length xs \<Longrightarrow> xs[0 := c, Suc 0 := b, 2 := b'] = c # b # b' # drop 3 xs"
  by (auto simp: numeral_eq_Suc Suc_le_length_iff)

lemma smbus_quick_command_refines:
  assumes "bus_idle bus"
  shows "refines (no_value (smbus_quick_command sc bus addr rd))
    (on_device (op_quick sc rd) () addr (bus_abs bus))"
proof (rule refinesI [OF assms])
  fix i
  assume "find_slave addr (children bus) = Some i"
  with idle_slave [OF assms this]
  show "settles bus i (op_quick sc rd (priv (slave (children bus ! i)))) (no_value (smbus_quick_command sc bus addr rd))"
    by (auto simp: smbus_quick_command_def bus_simps smbus_steps op_defs dev_idle_def res_bind_assoc Let_def
        split: option.splits intro!: settles_intros)
qed (use assms in \<open>simp add: smbus_quick_command_def bus_idle_def bus_simps no_value_def\<close>)

lemma smbus_send_byte_refines:
  assumes "bus_idle bus"
  shows "refines (no_value (smbus_send_byte sc bus addr b)) (on_device (op_send sc b) () addr (bus_abs bus))"
proof (rule refinesI [OF assms])
  fix i
  assume "find_slave addr (children bus) = Some i"
  with idle_slave [OF assms this]
  show "settles bus i (op_send sc b (priv (slave (children bus ! i)))) (no_value (smbus_send_byte sc bus addr b))"
    by (auto simp: smbus_send_byte_def bus_simps smbus_steps op_defs dev_idle_def res_bind_assoc Let_def
        split: option.splits intro!: settles_intros)
qed (use assms in \<open>simp add: smbus_send_byte_def bus_idle_def bus_simps no_value_def\<close>)

lemma smbus_receive_byte_refines:
  assumes "bus_idle bus"
  shows "refines (smbus_receive_byte sc bus addr) (on_device (op_receive sc) 0xff addr (bus_abs bus))"
proof (rule refinesI [OF assms])
  fix i
  assume "find_slave addr (children bus) = Some i"
  with idle_slave [OF assms this]
  show "settles bus i (op_receive sc (priv (slave (children bus ! i)))) (smbus_receive_byte sc bus addr)"
    by (auto simp: smbus_receive_byte_def bus_simps smbus_steps op_defs dev_idle_def res_bind_assoc Let_def
        split: option.splits intro!: settles_intros)
qed (use assms in \<open>simp add: smbus_receive_byte_def bus_idle_def bus_simps\<close>)

lemma smbus_read_byte_refines:
  assumes "bus_idle bus"
  shows "refines (smbus_read_byte sc bus addr cmd) (on_device (op_read sc cmd 0) 0xff addr (bus_abs bus))"
proof (rule refinesI [OF assms])
  fix i
  assume "find_slave addr (children bus) = Some i"
  with idle_slave [OF assms this]
  show "settles bus i (op_read sc cmd 0 (priv (slave (children bus ! i)))) (smbus_read_byte sc bus addr cmd)"
    by (auto simp: smbus_read_byte_def bus_simps smbus_steps op_defs dev_idle_def res_bind_assoc Let_def
        split: option.splits intro!: settles_intros)
qed (use assms in \<open>simp add: smbus_read_byte_def bus_idle_def bus_simps\<close>)

lemma smbus_write_byte_refines:
  assumes "bus_idle bus"
  shows "refines (no_value (smbus_write_byte sc bus addr cmd b))
    (on_device (op_write sc cmd [b]) () addr (bus_abs bus))"
proof (rule refinesI [OF assms])
  fix i
  assume "find_slave addr (children bus) = Some i"
  with idle_slave [OF assms this]
  show "settles bus i (op_write sc cmd [b] (priv (slave (children bus ! i))))
    (no_value (smbus_write_byte sc bus addr cmd b))"
    by (auto simp: smbus_write_byte_def bus_simps smbus_steps op_defs dev_idle_def res_bind_assoc Let_def
        sent_bytes buf_read_def split: option.splits intro!: settles_intros)
qed (use assms in \<open>simp add: smbus_write_byte_def bus_idle_def bus_simps no_value_def\<close>)

lemma smbus_write_word_refines:
  assumes "bus_idle bus"
  shows "refines (no_value (smbus_write_word sc bus addr cmd w))
    (on_device (op_write sc cmd [ucast (w AND 0xff), ucast (drop_bit 8 w)]) () addr (bus_abs bus))"
proof (rule refinesI [OF assms])
  fix i
  assume "find_slave addr (children bus) = Some i"
  with idle_slave [OF assms this]
  show "settles bus i (op_write sc cmd [ucast (w AND 0xff), ucast (drop_bit 8 w)] (priv (slave (children bus ! i))))
    (no_value (smbus_write_word sc bus addr cmd w))"
    by (auto simp: smbus_write_word_def bus_simps smbus_steps op_defs dev_idle_def res_bind_assoc Let_def
        sent_bytes(2) buf_read_def numeral_2_eq_2 [symmetric] split: option.splits intro!: settles_intros)
qed (use assms in \<open>simp add: smbus_write_word_def bus_idle_def bus_simps no_value_def\<close>)

text \<open>Two reads of a word, one after the other.\<close>

definition op_read_word :: "('d \<Rightarrow> 'd SMBusDeviceClass) \<Rightarrow> u8 \<Rightarrow> 'd \<Rightarrow> (u16 \<times> 'd) res" where
  "op_read_word sc cmd d =
     (case read_data (sc d) of None \<Rightarrow> Inr (0, d) | Some f \<Rightarrow>
       res_bind (f d cmd 0) (\<lambda>(lo, d).
       case read_data (sc d) of None \<Rightarrow> Inr (ucast lo, d) | Some f \<Rightarrow>
         res_bind (f d cmd 1) (\<lambda>(hi, d). Inr (ucast lo OR push_bit 8 (ucast hi), d))))"

lemma smbus_read_word_refines:
  assumes "bus_idle bus"
  shows "refines (smbus_read_word sc bus addr cmd) (on_device (op_read_word sc cmd) 0xffff addr (bus_abs bus))"
proof (rule refinesI [OF assms])
  fix i
  assume "find_slave addr (children bus) = Some i"
  with idle_slave [OF assms this]
  show "settles bus i (op_read_word sc cmd (priv (slave (children bus ! i)))) (smbus_read_word sc bus addr cmd)"
    by (auto simp: smbus_read_word_def bus_simps smbus_steps op_read_word_def dev_idle_def res_bind_assoc Let_def
        split: option.splits intro!: settles_intros)
qed (use assms in \<open>simp add: smbus_read_word_def bus_idle_def bus_simps\<close>)

text \<open>The next byte of a block, and the block; \<open>n\<close> counts the bytes that were read.\<close>

definition op_next :: "('d \<Rightarrow> 'd SMBusDeviceClass) \<Rightarrow> u8 \<Rightarrow> nat \<times> 'd \<Rightarrow> (u8 \<times> nat \<times> 'd) res" where
  "op_next sc cmd = (\<lambda>(n, d).
     case read_data (sc d) of None \<Rightarrow> Inr (0, n, d)
     | Some f \<Rightarrow> res_bind (f d cmd n) (\<lambda>(b, d). Inr (b, n + 1, d)))"

definition op_fill :: "('d \<Rightarrow> 'd SMBusDeviceClass) \<Rightarrow> u8 \<Rightarrow> nat \<Rightarrow> u8 list \<times> nat \<times> 'd \<Rightarrow> (u8 list \<times> nat \<times> 'd) res" where
  "op_fill sc cmd j = (\<lambda>(data, nd).
     res_bind (op_next sc cmd nd) (\<lambda>(b, nd). res_bind (arr_set data j b) (\<lambda>data. Inr (data, nd))))"

definition op_read_block ::
  "('d \<Rightarrow> 'd SMBusDeviceClass) \<Rightarrow> u8 \<Rightarrow> u8 list \<Rightarrow> 'd \<Rightarrow> ((int \<times> u8 list) \<times> 'd) res" where
  "op_read_block sc cmd data d =
     res_bind (op_next sc cmd (0, d)) (\<lambda>(l, n, d).
     let len = (if uint l > 32 then 0 else uint l)
     in res_bind (fold_res (op_fill sc cmd) [0..<nat len] (data, n, d)) (\<lambda>(data, n, d). Inr ((len, data), d)))"

lemma recv_busy_read:
  assumes "i < length (children bus)" "smb_mode s = SMBUS_READ_DATA"
  shows "i2c_recv (smbus_slave_class sc) (busy bus i s)
    = res_bind (op_next sc (smb_command s) (data_len s, priv s)) (\<lambda>(b, n, d).
        Inr (uint b, busy bus i (s\<lparr>priv := d, data_len := n\<rparr>)))"
  using assms
  by (auto simp: transfer_busy smbus_i2c_recv_def op_next_def res_bind_def split: option.splits sum.splits)

lemma read_loop:
  assumes "i < length (children bus)" "smb_mode s = SMBUS_READ_DATA"
  shows "fold_res (\<lambda>j (data, bus).
        res_bind (i2c_recv (smbus_slave_class sc) bus) (\<lambda>(b, bus).
        res_bind (arr_set data j (word_of_int b)) (\<lambda>data. Inr (data, bus)))) js (data, busy bus i s)
    = res_bind (fold_res (op_fill sc (smb_command s)) js (data, data_len s, priv s)) (\<lambda>(data, n, d).
        Inr (data, busy bus i (s\<lparr>priv := d, data_len := n\<rparr>)))"
  using assms(2)
proof (induction js arbitrary: data s)
  case Nil
  then show ?case by simp
next
  case (Cons j js)
  show ?case
  proof (cases "op_next sc (smb_command s) (data_len s, priv s)")
    case (Inl e)
    then show ?thesis using assms(1) Cons.prems by (simp add: recv_busy_read op_fill_def)
  next
    case (Inr r)
    then obtain b n d where r: "op_next sc (smb_command s) (data_len s, priv s) = Inr (b, n, d)"
      by (cases r) auto
    show ?thesis
      using assms(1) Cons.prems Cons.IH [of "s\<lparr>priv := d, data_len := n\<rparr>"]
      by (cases "arr_set data j b") (simp_all add: recv_busy_read op_fill_def r)
  qed
qed

lemma smbus_read_block_refines:
  assumes "bus_idle bus"
  shows "refines (res_bind (smbus_read_block sc bus addr cmd data) (\<lambda>(len, data, bus). Inr ((len, data), bus)))
    (on_device (op_read_block sc cmd data) (-1, data) addr (bus_abs bus))"
proof (rule refinesI [OF assms])
  fix i
  assume found: "find_slave addr (children bus) = Some i"
  note idle = idle_slave [OF assms found]
  show "settles bus i (op_read_block sc cmd data (priv (slave (children bus ! i))))
    (res_bind (smbus_read_block sc bus addr cmd data) (\<lambda>(len, data, bus). Inr ((len, data), bus)))"
    using found idle
    unfolding smbus_read_block_def op_read_block_def Let_def
    by (auto simp: bus_simps(1-3) transfer_busy(1,3) end_busy smbus_i2c_event_def smbus_i2c_send_def
        recv_busy_read read_loop res_bind_assoc dev_idle_def intro!: settles_intros)
qed (use assms in \<open>simp add: smbus_read_block_def bus_idle_def bus_simps\<close>)

text \<open>The bytes of a block go into the buffer behind the ones that are there.\<close>

lemma send_loop:
  assumes "i < length (children bus)" "smb_mode s = SMBUS_WRITE_DATA"
    and "n \<le> length data" "data_len s + n \<le> length (data_buf s)"
  shows "fold_res (\<lambda>j bus. res_bind (arr_get data j) (\<lambda>b.
        res_bind (i2c_send (smbus_slave_class sc) bus b) (\<lambda>(_, bus). Inr bus))) [0..<n] (busy bus i s)
    = Inr (busy bus i (s\<lparr>data_buf := take (data_len s) (data_buf s) @ take n data @ drop (data_len s + n) (data_buf s),
        data_len := data_len s + n\<rparr>))"
  using assms(3,4)
proof (induction n)
  case 0
  then show ?case by simp
next
  case (Suc n)
  let ?b = "take (data_len s) (data_buf s) @ take n data @ drop (data_len s + n) (data_buf s)"
  have "?b[data_len s + n := data ! n]
    = take (data_len s) (data_buf s) @ take (Suc n) data @ drop (data_len s + Suc n) (data_buf s)"
    using Suc.prems
    by (simp add: list_update_append take_Suc_conv_app_nth flip: Cons_nth_drop_Suc)
  then show ?case
    using Suc assms(1,2) by (simp add: fold_res_append transfer_busy smbus_i2c_send_def)
qed

lemma smbus_write_block_refines:
  assumes "bus_idle bus" "min len 32 \<le> length data"
  shows "refines (no_value (smbus_write_block sc bus addr cmd data len))
    (on_device (op_write sc cmd (of_nat (min len 32) # take (min len 32) data)) () addr (bus_abs bus))"
proof (rule refinesI [OF assms(1)])
  have len: "(if len > 32 then 32 else len) = min len 32" by simp
  {
    fix i
    assume found: "find_slave addr (children bus) = Some i"
    note idle = idle_slave [OF assms(1) found]
    define n where "n = min len 32"
    have n: "n \<le> length data" "n \<le> 32" using assms(2) by (auto simp: n_def)
    show "settles bus i (op_write sc cmd (of_nat (min len 32) # take (min len 32) data) (priv (slave (children bus ! i))))
      (no_value (smbus_write_block sc bus addr cmd data len))"
      unfolding smbus_write_block_def len n_def [symmetric]
      using found idle n
      by (auto simp: bus_simps smbus_steps send_loop op_defs dev_idle_def res_bind_assoc Let_def
          sent_bytes(1) buf_read_def split: option.splits intro!: settles_intros)
  next
    assume "find_slave addr (children bus) = None"
    moreover have "fold_res (\<lambda>j bus. res_bind (arr_get data j) (\<lambda>b.
        res_bind (i2c_send (smbus_slave_class sc) bus b) (\<lambda>(_, bus). Inr bus))) [0..<n] bus = Inr bus"
      if "n \<le> length data" for n
      using that assms(1) by (induction n) (simp_all add: fold_res_append bus_idle_def bus_simps)
    ultimately show "no_value (smbus_write_block sc bus addr cmd data len) = Inr ((), bus)"
      using assms by (simp add: smbus_write_block_def bus_idle_def bus_simps no_value_def Let_def)
  }
qed

section \<open>Commands to a device that is there\<close>

lemma on_device_map_of:
  "map_of devs addr = Some d \<Longrightarrow> f d = Inr (r, d') \<Longrightarrow>
     \<exists>devs'. on_device f dflt addr devs = Inr (r, devs') \<and> map_of devs' = (map_of devs)(addr \<mapsto> d')
       \<and> map fst devs' = map fst devs"
proof (induction devs)
  case (Cons dev devs)
  then show ?case by (cases dev) (auto simp: fun_eq_iff split: if_splits)
qed simp

lemma refines_InrD:
  "refines run spec \<Longrightarrow> spec = Inr (r, devs) \<Longrightarrow> \<exists>bus. run = Inr (r, bus) \<and> bus_abs bus = devs \<and> bus_idle bus"
  by (auto simp: refines_def split: sum.splits)

lemma no_value_Inr [simp]: "no_value run = Inr (u, b) \<longleftrightarrow> run = Inr b"
  by (cases run) (auto simp: no_value_def)

lemma smbus_write_byte_device:
  assumes "bus_idle bus" "map_of (bus_abs bus) addr = Some d" "op_write sc cmd [b] d = Inr ((), d')"
  shows "\<exists>bus'. smbus_write_byte sc bus addr cmd b = Inr bus' \<and> bus_idle bus'
    \<and> map_of (bus_abs bus') = (map_of (bus_abs bus))(addr \<mapsto> d')"
  using on_device_map_of [OF assms(2), of "op_write sc cmd [b]", OF assms(3)]
    refines_InrD [OF smbus_write_byte_refines [OF assms(1)]] by (metis no_value_Inr)

lemma smbus_read_byte_device:
  assumes "bus_idle bus" "map_of (bus_abs bus) addr = Some d" "op_read sc cmd 0 d = Inr (b, d')"
  shows "\<exists>bus'. smbus_read_byte sc bus addr cmd = Inr (b, bus') \<and> bus_idle bus'
    \<and> map_of (bus_abs bus') = (map_of (bus_abs bus))(addr \<mapsto> d')"
  using on_device_map_of [OF assms(2), of "op_read sc cmd 0", OF assms(3)]
    refines_InrD [OF smbus_read_byte_refines [OF assms(1)]] by metis

lemma smbus_write_word_device:
  assumes "bus_idle bus" "map_of (bus_abs bus) addr = Some d"
    and "op_write sc cmd [ucast (w AND 0xff), ucast (drop_bit 8 w)] d = Inr ((), d')"
  shows "\<exists>bus'. smbus_write_word sc bus addr cmd w = Inr bus' \<and> bus_idle bus'
    \<and> map_of (bus_abs bus') = (map_of (bus_abs bus))(addr \<mapsto> d')"
  using on_device_map_of [OF assms(2), of "op_write sc cmd [ucast (w AND 0xff), ucast (drop_bit 8 w)]", OF assms(3)]
    refines_InrD [OF smbus_write_word_refines [OF assms(1)]] by (metis no_value_Inr)

lemma smbus_read_word_device:
  assumes "bus_idle bus" "map_of (bus_abs bus) addr = Some d" "op_read_word sc cmd d = Inr (w, d')"
  shows "\<exists>bus'. smbus_read_word sc bus addr cmd = Inr (w, bus') \<and> bus_idle bus'
    \<and> map_of (bus_abs bus') = (map_of (bus_abs bus))(addr \<mapsto> d')"
  using on_device_map_of [OF assms(2), of "op_read_word sc cmd", OF assms(3)]
    refines_InrD [OF smbus_read_word_refines [OF assms(1)]] by metis

section \<open>The interface of a device with registers\<close>

text \<open>
  A device with byte registers: \<open>rw\<close> are the registers that read as they were written, \<open>reg\<close> their
  values, and \<open>ok\<close> the device's invariant.
\<close>

locale smbus_registers =
  fixes sc :: "'d \<Rightarrow> 'd SMBusDeviceClass" and ok :: "'d \<Rightarrow> bool" and rw :: "u8 set"
    and reg :: "'d \<Rightarrow> u8 \<Rightarrow> u8"
  assumes write_reg: "ok d \<Longrightarrow> c \<in> rw \<Longrightarrow> \<exists>d'. op_write sc c [b] d = Inr ((), d') \<and> ok d'
      \<and> reg d' c = b \<and> (\<forall>c' \<in> rw - {c}. reg d' c' = reg d c')"
    and read_reg: "ok d \<Longrightarrow> c \<in> rw \<Longrightarrow> \<exists>d'. op_read sc c 0 d = Inr (reg d c, d') \<and> ok d'
      \<and> (\<forall>c' \<in> rw. reg d' c' = reg d c')"
begin

lemma write_then_read:
  assumes "bus_idle bus" "map_of (bus_abs bus) addr = Some d" "ok d" "c \<in> rw" "c' \<in> rw"
  shows "\<exists>bus1 bus2. smbus_write_byte sc bus addr c b = Inr bus1
    \<and> smbus_read_byte sc bus1 addr c' = Inr (if c' = c then b else reg d c', bus2)
    \<and> bus_idle bus2 \<and> (\<forall>a. a \<noteq> addr \<longrightarrow> map_of (bus_abs bus2) a = map_of (bus_abs bus) a)"
proof -
  obtain d1 where d1: "op_write sc c [b] d = Inr ((), d1)" "ok d1" "reg d1 c' = (if c' = c then b else reg d c')"
    using write_reg [OF assms(3,4), of b] assms(5) by auto
  obtain bus1 where bus1: "smbus_write_byte sc bus addr c b = Inr bus1" "bus_idle bus1"
    "map_of (bus_abs bus1) = (map_of (bus_abs bus))(addr \<mapsto> d1)"
    using smbus_write_byte_device [OF assms(1,2) d1(1)] by blast
  obtain d2 where d2: "op_read sc c' 0 d1 = Inr (reg d1 c', d2)"
    using read_reg [OF d1(2) assms(5)] by blast
  have "map_of (bus_abs bus1) addr = Some d1" by (simp add: bus1(3))
  from smbus_read_byte_device [OF bus1(2) this d2] bus1 d1(3) show ?thesis by auto
qed

end

section \<open>The interface of well-behaved devices\<close>

text \<open>
  Devices whose callbacks keep the invariant \<open>ok\<close> and never end in the fault \<open>bad\<close>. Then no command
  on a bus of such devices ends in \<open>bad\<close>, and all devices keep their invariant.
\<close>

locale smbus_devices =
  fixes sc :: "'d \<Rightarrow> 'd SMBusDeviceClass" and ok :: "'d \<Rightarrow> bool" and bad :: fault
  assumes safe_quick: "ok d \<Longrightarrow> quick_cmd (sc d) = Some f \<Longrightarrow> res_safe bad ok (f d r)"
    and safe_send: "ok d \<Longrightarrow> send_byte (sc d) = Some f' \<Longrightarrow> res_safe bad ok (f' d b)"
    and safe_receive: "ok d \<Longrightarrow> receive_byte (sc d) = Some g \<Longrightarrow> res_safe bad (\<lambda>(_, d). ok d) (g d)"
    and safe_write: "ok d \<Longrightarrow> write_data (sc d) = Some h \<Longrightarrow> length bs \<le> 33 \<Longrightarrow> res_safe bad ok (h d c bs)"
    and safe_read: "ok d \<Longrightarrow> read_data (sc d) = Some g' \<Longrightarrow> res_safe bad (\<lambda>(_, d). ok d) (g' d c n)"
begin

definition devs_ok :: "(u8 \<times> 'd) list \<Rightarrow> bool" where
  "devs_ok devs \<longleftrightarrow> (\<forall>(a, d) \<in> set devs. ok d)"

definition bus_ok :: "'d bus \<Rightarrow> bool" where
  "bus_ok bus \<longleftrightarrow> bus_idle bus \<and> devs_ok (bus_abs bus)"

lemma on_device_safe:
  assumes "\<And>d. ok d \<Longrightarrow> res_safe bad (\<lambda>(r, d). ok d \<and> Q r) (f d)" "devs_ok devs" "Q dflt"
  shows "res_safe bad (\<lambda>(r, devs). devs_ok devs \<and> Q r) (on_device f dflt addr devs)"
  using assms(2)
proof (induction devs)
  case Nil
  then show ?case using assms(3) by (simp add: res_safe_def devs_ok_def)
next
  case (Cons dev devs)
  then have ok: "ok (snd dev)" "devs_ok devs" by (auto simp: devs_ok_def)
  show ?case
  proof (cases "fst dev = addr")
    case True
    have "res_safe bad (\<lambda>(r, devs). devs_ok devs \<and> Q r) (res_bind (f (snd dev)) (\<lambda>(r, d). Inr (r, (addr, d) # devs)))"
      by (rule res_safe_bind [OF assms(1) [OF ok(1)]]) (use ok(2) in \<open>auto simp: devs_ok_def res_safe_def\<close>)
    with True show ?thesis by simp
  next
    case False
    have "res_safe bad (\<lambda>(r, devs). devs_ok devs \<and> Q r)
      (res_bind (on_device f dflt addr devs) (\<lambda>(r, devs). Inr (r, dev # devs)))"
      by (rule res_safe_bind [OF Cons.IH [OF ok(2)]]) (use ok(1) in \<open>auto simp: devs_ok_def res_safe_def\<close>)
    with False show ?thesis by simp
  qed
qed

lemma refines_safe:
  assumes "refines run (on_device f dflt addr (bus_abs bus))" "bus_ok bus" "Q dflt"
    and "\<And>d. ok d \<Longrightarrow> res_safe bad (\<lambda>(r, d). ok d \<and> Q r) (f d)"
  shows "res_safe bad (\<lambda>(r, bus). bus_ok bus \<and> Q r) run"
  using assms(1) on_device_safe [where f = f and Q = Q and devs = "bus_abs bus" and dflt = dflt and addr = addr] assms(2,3,4)
  by (auto simp: refines_def res_safe_def bus_ok_def split: sum.splits)

lemma no_value_safe: "res_safe bad P run \<Longrightarrow> res_safe bad (\<lambda>(_, x). P x) (no_value run)"
  by (auto simp: no_value_def res_safe_def res_bind_def split: sum.splits)

lemma no_value_safeD: "res_safe bad (\<lambda>(_, x). P x \<and> True) (no_value run) \<Longrightarrow> res_safe bad P run"
  by (auto simp: no_value_def res_safe_def res_bind_def split: sum.splits)

lemma ops_safe:
  assumes "ok d"
  shows "res_safe bad (\<lambda>(_, d). ok d \<and> True) (op_quick sc rd d)"
    "res_safe bad (\<lambda>(_, d). ok d \<and> True) (op_send sc b d)"
    "res_safe bad (\<lambda>(_, d). ok d \<and> True) (op_receive sc d)"
    "res_safe bad (\<lambda>(_, d). ok d \<and> True) (op_read sc c n d)"
    "length bs \<le> 33 \<Longrightarrow> res_safe bad (\<lambda>(_, d). ok d \<and> True) (op_write sc c bs d)"
  using safe_quick [OF assms] safe_send [OF assms] safe_receive [OF assms] safe_read [OF assms] safe_write [OF assms] assms
  by (auto simp: op_quick_def op_send_def op_receive_def op_read_def op_write_def res_safe_Inr no_value_safe
      split: option.splits)

lemma op_read_word_safe:
  assumes "ok d"
  shows "res_safe bad (\<lambda>(_, d). ok d \<and> True) (op_read_word sc c d)"
  using assms safe_read
  by (auto simp: op_read_word_def res_safe_Inr split: option.splits
      intro!: res_safe_bind [where Q = "\<lambda>(_, d). ok d"])

lemma op_next_safe: "ok d \<Longrightarrow> res_safe bad (\<lambda>(_, n, d). ok d) (op_next sc c (n, d))"
  using safe_read
  by (auto simp: op_next_def res_safe_Inr split: option.splits
      intro!: res_safe_bind [where Q = "\<lambda>(_, d). ok d"])

lemma op_read_block_safe:
  assumes "ok d" "length data = 32"
  shows "res_safe bad (\<lambda>(r, d). ok d \<and> length (snd r) = 32) (op_read_block sc c data d)"
proof -
  have step: "res_safe bad (\<lambda>(data, n, d). ok d \<and> length data = 32) (op_fill sc c j (data, n, d))"
    if "j < 32" "ok d" "length data = 32" for j data n d
    using that unfolding op_fill_def prod.case
    by (intro res_safe_bind [OF op_next_safe]) (auto simp: res_safe_Inr)
  have loop: "res_safe bad (\<lambda>(data, n, d). ok d \<and> length data = 32) (fold_res (op_fill sc c) [0..<k] (data, n, d))"
    if "k \<le> 32" "ok d" for k n d
    using step that assms(2) by (intro fold_res_safe) auto
  show ?thesis
    unfolding op_read_block_def
  proof (rule res_safe_bind [OF op_next_safe [OF assms(1)]])
    fix x :: "u8 \<times> nat \<times> 'd"
    assume "case x of (_, n, d) \<Rightarrow> ok d"
    then obtain l n d' where x: "x = (l, n, d')" and "ok d'" by (cases x) auto
    have "nat (if 32 < uint l then 0 else uint l) \<le> 32" by (auto simp: nat_le_iff)
    note loop = loop [OF this \<open>ok d'\<close>, of n]
    show "res_safe bad (\<lambda>(r, d). ok d \<and> length (snd r) = 32) (case x of (l, n, d) \<Rightarrow>
       let len = if uint l > 32 then 0 else uint l
       in res_bind (fold_res (op_fill sc c) [0..<nat len] (data, n, d)) (\<lambda>(data, n, d). Inr ((len, data), d)))"
      unfolding Let_def x prod.case by (rule res_safe_bind [OF loop]) (auto simp: res_safe_Inr)
  qed
qed

lemma commands_safe:
  assumes "bus_ok bus"
  shows "res_safe bad bus_ok (smbus_quick_command sc bus addr rd)"
    "res_safe bad bus_ok (smbus_send_byte sc bus addr b)"
    "res_safe bad (\<lambda>(_, bus). bus_ok bus) (smbus_receive_byte sc bus addr)"
    "res_safe bad (\<lambda>(_, bus). bus_ok bus) (smbus_read_byte sc bus addr c)"
    "res_safe bad bus_ok (smbus_write_byte sc bus addr c b)"
    "res_safe bad (\<lambda>(_, bus). bus_ok bus) (smbus_read_word sc bus addr c)"
    "res_safe bad bus_ok (smbus_write_word sc bus addr c w)"
    "length data = 32 \<Longrightarrow> res_safe bad (\<lambda>(len, data, bus). bus_ok bus \<and> length data = 32) (smbus_read_block sc bus addr c data)"
    "length data = 32 \<Longrightarrow> res_safe bad bus_ok (smbus_write_block sc bus addr c data len)"
proof -
  have idle: "bus_idle bus" using assms by (simp add: bus_ok_def)
  have word: "length [x, y] \<le> 33" for x y :: u8 by simp
  note safe = refines_safe [OF _ assms, where Q = "\<lambda>_. True", OF _ TrueI]
  show "res_safe bad bus_ok (smbus_quick_command sc bus addr rd)"
    by (rule no_value_safeD, rule safe [OF smbus_quick_command_refines [OF idle] ops_safe(1)])
  show "res_safe bad bus_ok (smbus_send_byte sc bus addr b)"
    by (rule no_value_safeD, rule safe [OF smbus_send_byte_refines [OF idle] ops_safe(2)])
  show "res_safe bad (\<lambda>(_, bus). bus_ok bus) (smbus_receive_byte sc bus addr)"
    using safe [OF smbus_receive_byte_refines [OF idle] ops_safe(3)] by simp
  show "res_safe bad (\<lambda>(_, bus). bus_ok bus) (smbus_read_byte sc bus addr c)"
    using safe [OF smbus_read_byte_refines [OF idle] ops_safe(4)] by simp
  show "res_safe bad bus_ok (smbus_write_byte sc bus addr c b)"
    by (rule no_value_safeD, rule safe [OF smbus_write_byte_refines [OF idle] ops_safe(5)]) simp_all
  show "res_safe bad (\<lambda>(_, bus). bus_ok bus) (smbus_read_word sc bus addr c)"
    using safe [OF smbus_read_word_refines [OF idle] op_read_word_safe] by simp
  show "res_safe bad bus_ok (smbus_write_word sc bus addr c w)"
    by (rule no_value_safeD, rule safe [OF smbus_write_word_refines [OF idle] ops_safe(5)]) simp_all
  assume len: "length data = 32"
  show "res_safe bad (\<lambda>(len, data, bus). bus_ok bus \<and> length data = 32) (smbus_read_block sc bus addr c data)"
    using refines_safe [OF smbus_read_block_refines [OF idle, of sc addr c data] assms, where Q = "\<lambda>r. length (snd r) = 32",
        OF _ op_read_block_safe [OF _ len]] len
    by (cases "smbus_read_block sc bus addr c data") (auto simp: res_safe_def)
  show "res_safe bad bus_ok (smbus_write_block sc bus addr c data len)"
    by (rule no_value_safeD, rule safe [OF smbus_write_block_refines [OF idle] ops_safe(5)])
      (simp_all add: len)
qed

end

section \<open>Properties\<close>

text \<open>
  C3. From an idle bus, each of the nine SMBus master commands does to the devices exactly what the
  protocol says, whatever the classes of the devices are: it runs the class callback of the first
  device with the address, with the command code and the bytes in their order, returns what the
  callback returns, fails only when the callback does, changes no other device and leaves the bus
  idle again. In particular the 34-byte buffer of a device is never overrun. Without a device at the
  address a command changes nothing, and a read returns ones.
\<close>

theorem smbus_commands_refine:
  assumes "bus_idle bus" "min len 32 \<le> length data"
  shows "refines (no_value (smbus_quick_command sc bus addr rd)) (on_device (op_quick sc rd) () addr (bus_abs bus))
    \<and> refines (no_value (smbus_send_byte sc bus addr b)) (on_device (op_send sc b) () addr (bus_abs bus))
    \<and> refines (smbus_receive_byte sc bus addr) (on_device (op_receive sc) 0xff addr (bus_abs bus))
    \<and> refines (smbus_read_byte sc bus addr cmd) (on_device (op_read sc cmd 0) 0xff addr (bus_abs bus))
    \<and> refines (no_value (smbus_write_byte sc bus addr cmd b)) (on_device (op_write sc cmd [b]) () addr (bus_abs bus))
    \<and> refines (smbus_read_word sc bus addr cmd) (on_device (op_read_word sc cmd) 0xffff addr (bus_abs bus))
    \<and> refines (no_value (smbus_write_word sc bus addr cmd w))
        (on_device (op_write sc cmd [ucast (w AND 0xff), ucast (drop_bit 8 w)]) () addr (bus_abs bus))
    \<and> refines (res_bind (smbus_read_block sc bus addr cmd data) (\<lambda>(len, data, bus). Inr ((len, data), bus)))
        (on_device (op_read_block sc cmd data) (-1, data) addr (bus_abs bus))
    \<and> refines (no_value (smbus_write_block sc bus addr cmd data len))
        (on_device (op_write sc cmd (of_nat (min len 32) # take (min len 32) data)) () addr (bus_abs bus))"
  by (intro conjI smbus_quick_command_refines smbus_send_byte_refines smbus_receive_byte_refines
      smbus_read_byte_refines smbus_write_byte_refines smbus_read_word_refines smbus_write_word_refines
      smbus_read_block_refines smbus_write_block_refines assms)

text \<open>A device that remembers the last byte written to it.\<close>

definition latch_class :: "u8 \<Rightarrow> u8 SMBusDeviceClass" where
  "latch_class d = \<lparr>quick_cmd = None, send_byte = None, receive_byte = None,
     write_data = Some (\<lambda>d c bs. Inr (last bs)), read_data = Some (\<lambda>d c n. Inr (d, d))\<rparr>"

theorem smbus_commands_refine_witness:
  "refines (no_value (smbus_write_block latch_class
      \<lparr>children = [\<lparr>i2c_address = 0x45, slave = \<lparr>smb_mode = SMBUS_IDLE, data_len = 0,
         data_buf = replicate 34 0, smb_command = 0, priv = 0\<rparr>\<rparr>], current_dev = None, saved_address = 0\<rparr>
      0x45 1 [7, 8] 2))
    (Inr ((), [(0x45, 8)]))"
  using smbus_commands_refine [of "\<lparr>children = [\<lparr>i2c_address = 0x45, slave = \<lparr>smb_mode = SMBUS_IDLE, data_len = 0,
         data_buf = replicate 34 0, smb_command = 0, priv = 0\<rparr>\<rparr>], current_dev = None, saved_address = 0\<rparr>"
      2 "[7, 8]" latch_class "0x45" True 0 1 0]
  by (simp add: bus_idle_def dev_idle_def bus_abs_def op_write_def latch_class_def no_value_def)

end
