(* ===== verification/SMBus_Devices.thy ===== *)
theory SMBus_Devices
  imports SMBus
begin

text \<open>
  The simple SMBus devices of the machine: the ADM1032 temperature monitor
  (\<open>src/hw/xbox/smbus_adm1032.c\<close>), the CX25871 video encoder (\<open>src/hw/xbox/smbus_cx25871.c\<close>) and the
  EEPROM (\<open>src/hw/i2c/smbus_eeprom.c\<close>). The encoder and the EEPROM are instances of
  \<open>smbus_registers\<close>: what the host writes over the bus it reads back.
\<close>

section \<open>ADM1032\<close>

definition tm_read_data :: "unit \<Rightarrow> u8 \<Rightarrow> nat \<Rightarrow> (u8 \<times> unit) res" where
  "tm_read_data d cmd n = (if cmd = 0x0 \<or> cmd = 0x1 then Inr (50, d) else Inr (0, d))"

definition adm1032_class :: "unit SMBusDeviceClass" where
  "adm1032_class =
     \<lparr>quick_cmd = None, send_byte = None, receive_byte = None, write_data = None, read_data = Some tm_read_data\<rparr>"

section \<open>CX25871\<close>

record SMBusCX25871Device =
  cx_registers :: "u8 list"

definition cx_quick_cmd :: "SMBusCX25871Device \<Rightarrow> u8 \<Rightarrow> SMBusCX25871Device res" where
  "cx_quick_cmd cx rd = Inr cx"

definition cx_send_byte :: "SMBusCX25871Device \<Rightarrow> u8 \<Rightarrow> SMBusCX25871Device res" where
  "cx_send_byte cx val = Inr cx"

definition cx_receive_byte :: "SMBusCX25871Device \<Rightarrow> (u8 \<times> SMBusCX25871Device) res" where
  "cx_receive_byte cx = Inr (0, cx)"

definition cx_write_data :: "SMBusCX25871Device \<Rightarrow> u8 \<Rightarrow> u8 list \<Rightarrow> SMBusCX25871Device res" where
  "cx_write_data cx cmd buf =
     res_bind (buf_read buf 0 (min (length buf) (256 - unat cmd))) (\<lambda>bs.
     res_bind (buf_write (cx_registers cx) (unat cmd) bs) (\<lambda>r. Inr (cx\<lparr>cx_registers := r\<rparr>)))"

definition cx_read_data :: "SMBusCX25871Device \<Rightarrow> u8 \<Rightarrow> nat \<Rightarrow> (u8 \<times> SMBusCX25871Device) res" where
  "cx_read_data cx cmd n = res_bind (arr_get (cx_registers cx) (unat cmd)) (\<lambda>b. Inr (b, cx))"

definition cx25871_class :: "SMBusCX25871Device SMBusDeviceClass" where
  "cx25871_class =
     \<lparr>quick_cmd = Some cx_quick_cmd, send_byte = Some cx_send_byte, receive_byte = Some cx_receive_byte,
      write_data = Some cx_write_data, read_data = Some cx_read_data\<rparr>"

section \<open>EEPROM\<close>

record SMBusEEPROMDevice =
  eeprom_data :: "u8 list"
  eeprom_offset :: u8

definition eeprom_quick_cmd :: "SMBusEEPROMDevice \<Rightarrow> u8 \<Rightarrow> SMBusEEPROMDevice res" where
  "eeprom_quick_cmd eeprom rd = Inr eeprom"

definition eeprom_send_byte :: "SMBusEEPROMDevice \<Rightarrow> u8 \<Rightarrow> SMBusEEPROMDevice res" where
  "eeprom_send_byte eeprom val = Inr (eeprom\<lparr>eeprom_offset := val\<rparr>)"

definition eeprom_receive_byte :: "SMBusEEPROMDevice \<Rightarrow> (u8 \<times> SMBusEEPROMDevice) res" where
  "eeprom_receive_byte eeprom =
     res_bind (arr_get (eeprom_data eeprom) (unat (eeprom_offset eeprom))) (\<lambda>val.
       Inr (val, eeprom\<lparr>eeprom_offset := eeprom_offset eeprom + 1\<rparr>))"

definition eeprom_write_data :: "SMBusEEPROMDevice \<Rightarrow> u8 \<Rightarrow> u8 list \<Rightarrow> SMBusEEPROMDevice res" where
  "eeprom_write_data eeprom cmd buf =
     (let len = length buf;
          n = (if unat cmd + len > 256 then 256 - unat cmd else len)
      in res_bind (buf_read buf 0 n) (\<lambda>bs.
         res_bind (buf_write (eeprom_data eeprom) (unat cmd) bs) (\<lambda>data.
         let len = len - n
         in if len \<noteq> 0 then
              res_bind (buf_read buf n len) (\<lambda>bs.
              res_bind (buf_write data 0 bs) (\<lambda>data. Inr (eeprom\<lparr>eeprom_data := data\<rparr>)))
            else Inr (eeprom\<lparr>eeprom_data := data\<rparr>))))"

definition eeprom_read_data :: "SMBusEEPROMDevice \<Rightarrow> u8 \<Rightarrow> nat \<Rightarrow> (u8 \<times> SMBusEEPROMDevice) res" where
  "eeprom_read_data eeprom cmd n =
     (let eeprom = (if n = 0 then eeprom\<lparr>eeprom_offset := cmd\<rparr> else eeprom)
      in eeprom_receive_byte eeprom)"

definition smbus_eeprom_initfn :: "u8 list \<Rightarrow> SMBusEEPROMDevice" where
  "smbus_eeprom_initfn data = \<lparr>eeprom_data = data, eeprom_offset = 0\<rparr>"

definition eeprom_class :: "SMBusEEPROMDevice SMBusDeviceClass" where
  "eeprom_class =
     \<lparr>quick_cmd = Some eeprom_quick_cmd, send_byte = Some eeprom_send_byte,
      receive_byte = Some eeprom_receive_byte, write_data = Some eeprom_write_data,
      read_data = Some eeprom_read_data\<rparr>"

section \<open>Registers read as written\<close>

definition cx_ok :: "SMBusCX25871Device \<Rightarrow> bool" where
  "cx_ok cx \<longleftrightarrow> length (cx_registers cx) = 256"

definition eeprom_ok :: "SMBusEEPROMDevice \<Rightarrow> bool" where
  "eeprom_ok eeprom \<longleftrightarrow> length (eeprom_data eeprom) = 256"

lemma unat_u8_256: "unat (x :: u8) < 256"
  using unsigned_less [of x] by simp

lemma buf_write_one: "i < length xs \<Longrightarrow> buf_write xs i [b] = Inr (xs[i := b])"
  by (simp add: buf_write_def upd_conv_take_nth_drop)

lemma cx_write_one:
  assumes "cx_ok cx"
  shows "cx_write_data cx c [b] = Inr (cx\<lparr>cx_registers := (cx_registers cx)[unat c := b]\<rparr>)"
  using assms unat_u8_256 [of c]
  by (simp add: cx_write_data_def cx_ok_def buf_read_def min_def buf_write_one)

lemma eeprom_write_one:
  assumes "eeprom_ok eeprom"
  shows "eeprom_write_data eeprom c [b] = Inr (eeprom\<lparr>eeprom_data := (eeprom_data eeprom)[unat c := b]\<rparr>)"
  using assms unat_u8_256 [of c]
  by (simp add: eeprom_write_data_def eeprom_ok_def buf_read_def buf_write_one Let_def)

interpretation cx: smbus_registers "\<lambda>_. cx25871_class" cx_ok UNIV "\<lambda>cx c. cx_registers cx ! unat c"
  using unat_u8_256
  by unfold_locales
    (auto simp: op_write_def op_read_def cx25871_class_def cx_write_one cx_read_data_def cx_ok_def
      no_value_def word_unat_eq_iff)

interpretation eeprom: smbus_registers "\<lambda>_. eeprom_class" eeprom_ok UNIV "\<lambda>e c. eeprom_data e ! unat c"
  using unat_u8_256
  by unfold_locales
    (auto simp: op_write_def op_read_def eeprom_class_def eeprom_write_one eeprom_read_data_def
      eeprom_receive_byte_def eeprom_ok_def no_value_def word_unat_eq_iff)

section \<open>Pages and words of the EEPROM\<close>

lemma eeprom_page:
  assumes ok: "eeprom_ok eeprom" and len: "length buf \<le> 256"
  shows "\<exists>data. eeprom_write_data eeprom cmd buf = Inr (eeprom\<lparr>eeprom_data := data\<rparr>) \<and> length data = 256
    \<and> (\<forall>k < 256. data ! k = (let i = (k + 256 - unat cmd) mod 256 in
         if i < length buf then buf ! i else eeprom_data eeprom ! k))"
proof (cases "unat cmd + length buf > 256")
  case False
  then obtain data where data: "buf_write (eeprom_data eeprom) (unat cmd) buf = Inr data"
    using ok by (auto simp: buf_write_def eeprom_ok_def)
  have "data ! k = (let i = (k + 256 - unat cmd) mod 256 in
      if i < length buf then buf ! i else eeprom_data eeprom ! k)" if "k < 256" for k
    using buf_write_nth [OF data, of k] ok that False
    by (cases "k < unat cmd") (auto simp: eeprom_ok_def Let_def mod_if)
  with data False ok buf_write_length [OF data] show ?thesis
    by (auto simp: eeprom_write_data_def buf_read_def eeprom_ok_def)
next
  case True
  let ?c = "unat cmd"
  have c: "?c < 256" by (rule unat_u8_256)
  obtain d1 where d1: "buf_write (eeprom_data eeprom) ?c (take (256 - ?c) buf) = Inr d1"
    using ok True c by (auto simp: buf_write_def eeprom_ok_def)
  have l1: "length d1 = 256" using buf_write_length [OF d1] ok by (simp add: eeprom_ok_def)
  obtain d2 where d2: "buf_write d1 0 (drop (256 - ?c) buf) = Inr d2"
    using l1 le_trans [OF diff_le_self len, of "256 - ?c"] by (auto simp: buf_write_def)
  have l2: "length d2 = 256" using buf_write_length [OF d2] l1 by simp
  have "d2 ! k = (let i = (k + 256 - ?c) mod 256 in
      if i < length buf then buf ! i else eeprom_data eeprom ! k)" if "k < 256" for k
    using buf_write_nth [OF d1, of k] buf_write_nth [OF d2, of k] ok l1 that True len c
    by (cases "k < ?c") (auto simp: eeprom_ok_def Let_def mod_if nth_append min_def add.commute)
  moreover have "eeprom_write_data eeprom cmd buf = Inr (eeprom\<lparr>eeprom_data := d2\<rparr>)"
    using True d1 d2 len c by (simp add: eeprom_write_data_def buf_read_def Let_def)
  ultimately show ?thesis using l2 by blast
qed

lemma eeprom_read_two:
  assumes "eeprom_ok eeprom"
  shows "op_read_word (\<lambda>_. eeprom_class) c eeprom
    = Inr (ucast (eeprom_data eeprom ! unat c) OR push_bit 8 (ucast (eeprom_data eeprom ! unat (c + 1))),
        eeprom\<lparr>eeprom_offset := c + 2\<rparr>)"
  using assms unat_u8_256
  by (simp add: op_read_word_def eeprom_class_def eeprom_read_data_def eeprom_receive_byte_def eeprom_ok_def
      Let_def)

lemma word_of_bytes: "(ucast (ucast (w AND 0xff) :: u8) OR push_bit 8 (ucast (ucast (drop_bit 8 w) :: u8)) :: u16) = w"
proof (rule bit_word_eqI)
  fix n :: nat
  assume n: "n < LENGTH(16)"
  have ff: "(0xff :: u16) = mask 8" by (simp add: mask_eq_exp_minus_1)
  show "bit (ucast (ucast (w AND 0xff) :: u8) OR push_bit 8 (ucast (ucast (drop_bit 8 w) :: u8)) :: u16) n = bit w n"
    unfolding ff bit_or_iff bit_push_bit_iff bit_ucast_iff bit_and_iff bit_mask_iff bit_drop_bit_eq
    using n by auto
qed

section \<open>Properties\<close>

text \<open>
  A page write to the EEPROM wraps around at its end, as the device does: byte \<open>i\<close> of a buffer of
  up to 256 bytes goes to address \<open>(cmd + i) mod 256\<close>, no other byte changes, and no access leaves
  the 256 bytes.
\<close>

lemma eeprom_page_write:
  assumes "length (eeprom_data eeprom) = 256" "length buf \<le> 256"
  shows "\<exists>data. eeprom_write_data eeprom cmd buf = Inr (eeprom\<lparr>eeprom_data := data\<rparr>) \<and> length data = 256
    \<and> (\<forall>i < length buf. data ! ((unat cmd + i) mod 256) = buf ! i)
    \<and> (\<forall>k < 256. (\<forall>i < length buf. k \<noteq> (unat cmd + i) mod 256) \<longrightarrow> data ! k = eeprom_data eeprom ! k)"
proof -
  obtain data where data: "eeprom_write_data eeprom cmd buf = Inr (eeprom\<lparr>eeprom_data := data\<rparr>)"
    "length data = 256"
    and nth: "\<And>k. k < 256 \<Longrightarrow> data ! k = (let i = (k + 256 - unat cmd) mod 256 in
         if i < length buf then buf ! i else eeprom_data eeprom ! k)"
    using eeprom_page [of eeprom buf cmd] assms by (auto simp: eeprom_ok_def)
  have c: "unat cmd < 256" by (rule unat_u8_256)
  have "data ! ((unat cmd + i) mod 256) = buf ! i" if "i < length buf" for i
  proof -
    have "((unat cmd + i) mod 256 + 256 - unat cmd) mod 256 = i"
    proof (cases "unat cmd + i < 256")
      case False
      then have "(unat cmd + i) mod 256 = unat cmd + i - 256"
        using that assms(2) c by (simp add: mod_if)
      with False that assms(2) show ?thesis by simp
    qed simp
    then show ?thesis using nth [of "(unat cmd + i) mod 256"] that by (simp add: Let_def)
  qed
  moreover have "data ! k = eeprom_data eeprom ! k"
    if "k < 256" "\<forall>i < length buf. k \<noteq> (unat cmd + i) mod 256" for k
  proof -
    have "k = (unat cmd + (k + 256 - unat cmd) mod 256) mod 256"
      using that(1) c by (simp add: mod_add_right_eq)
    then have "\<not> (k + 256 - unat cmd) mod 256 < length buf" using that(2) by blast
    then show ?thesis using nth [OF that(1)] by (simp add: Let_def)
  qed
  ultimately show ?thesis using data by blast
qed

lemma eeprom_page_write_witness:
  "\<exists>data. eeprom_write_data \<lparr>eeprom_data = replicate 256 0, eeprom_offset = 0\<rparr> 0xff [1, 2]
      = Inr \<lparr>eeprom_data = data, eeprom_offset = 0\<rparr> \<and> data ! 0 = 2 \<and> data ! 255 = 1"
proof -
  obtain data where "eeprom_write_data \<lparr>eeprom_data = replicate 256 0, eeprom_offset = 0\<rparr> 0xff [1, 2]
      = Inr \<lparr>eeprom_data = data, eeprom_offset = 0\<rparr>"
    and "\<forall>i < length [1, 2 :: u8]. data ! ((unat (0xff :: u8) + i) mod 256) = [1, 2] ! i"
    using eeprom_page_write [of "\<lparr>eeprom_data = replicate 256 0, eeprom_offset = 0\<rparr>" "[1, 2]" "0xff"] by force
  from this(1) this(2) [rule_format, of 0] this(2) [rule_format, of 1] show ?thesis by auto
qed

text \<open>
  C37. A word that the host writes to the EEPROM over the SMBus is the word it reads back, at every
  address, also at \<open>0xff\<close>, where the word wraps around.
\<close>

theorem eeprom_word_roundtrip:
  assumes "bus_idle bus" "map_of (bus_abs bus) addr = Some eeprom" "length (eeprom_data eeprom) = 256"
  shows "\<exists>bus1 bus2. smbus_write_word (\<lambda>_. eeprom_class) bus addr c w = Inr bus1
    \<and> smbus_read_word (\<lambda>_. eeprom_class) bus1 addr c = Inr (w, bus2)"
proof -
  let ?b = "[ucast (w AND 0xff), ucast (drop_bit 8 w)] :: u8 list"
  have c: "unat c < 256" by (rule unat_u8_256)
  obtain data where data: "eeprom_write_data eeprom c ?b = Inr (eeprom\<lparr>eeprom_data := data\<rparr>)" "length data = 256"
    and nth: "\<And>k. k < 256 \<Longrightarrow> data ! k = (let i = (k + 256 - unat c) mod 256 in
         if i < length ?b then ?b ! i else eeprom_data eeprom ! k)"
    using eeprom_page [of eeprom ?b c] assms(3) by (auto simp: eeprom_ok_def)
  have succ: "unat (c + 1) = (unat c + 1) mod 256" by (simp add: unat_word_ariths)
  have "((unat c + 1) mod 256 + 256 - unat c) mod 256 = 1"
    using c by (cases "unat c = 255") simp_all
  then have bytes: "data ! unat c = ?b ! 0" "data ! unat (c + 1) = ?b ! 1"
    using nth [of "unat c"] nth [of "unat (c + 1)"] c by (simp_all add: Let_def succ)
  have "op_write (\<lambda>_. eeprom_class) c ?b eeprom = Inr ((), eeprom\<lparr>eeprom_data := data\<rparr>)"
    using data(1) by (simp add: op_write_def eeprom_class_def no_value_def)
  from smbus_write_word_device [OF assms(1,2) this]
  obtain bus1 where bus1: "smbus_write_word (\<lambda>_. eeprom_class) bus addr c w = Inr bus1" "bus_idle bus1"
    "map_of (bus_abs bus1) addr = Some (eeprom\<lparr>eeprom_data := data\<rparr>)"
    by auto
  have "op_read_word (\<lambda>_. eeprom_class) c (eeprom\<lparr>eeprom_data := data\<rparr>)
    = Inr (w, eeprom\<lparr>eeprom_data := data, eeprom_offset := c + 2\<rparr>)"
    using bytes data(2) by (simp add: eeprom_read_two eeprom_ok_def word_of_bytes)
  from smbus_read_word_device [OF bus1(2,3) this] bus1(1) show ?thesis by blast
qed

definition eeprom_bus :: "SMBusEEPROMDevice bus" where
  "eeprom_bus = \<lparr>children = [\<lparr>i2c_address = 0x54, slave = \<lparr>smb_mode = SMBUS_IDLE, data_len = 0,
     data_buf = replicate 34 0, smb_command = 0, priv = smbus_eeprom_initfn (replicate 256 0)\<rparr>\<rparr>],
     current_dev = None, saved_address = 0\<rparr>"

theorem eeprom_word_roundtrip_witness:
  "\<exists>bus1 bus2. smbus_write_word (\<lambda>_. eeprom_class) eeprom_bus 0x54 0xff 0xabcd = Inr bus1
    \<and> smbus_read_word (\<lambda>_. eeprom_class) bus1 0x54 0xff = Inr (0xabcd, bus2)"
  by (rule eeprom_word_roundtrip [of _ _ "smbus_eeprom_initfn (replicate 256 0)"])
    (simp_all add: eeprom_bus_def bus_idle_def dev_idle_def bus_abs_def smbus_eeprom_initfn_def)

end
