(* ===== verification/SMC.thy ===== *)
theory SMC
  imports SMBus
begin

text \<open>
  The system management controller, \<open>src/hw/xbox/smbus_xbox_smc.c\<close>: power control, LEDs, DVD tray,
  and the boot watchdog that reboots the console unless the boot loader answers a challenge. The
  requests to the emulator (reset, shutdown, tray) are collected in \<open>requests\<close>, a timer is the time
  at which it fires, and the time \<open>now\<close> is that of the virtual clock. Shown here: which commands fail,
  the registers that read as they were written (interface \<open>smbus_registers\<close>), how the LED runs
  through its sequence, and when the watchdog fires.
\<close>

section \<open>Registers\<close>

definition SMC_REG_VER :: u8 where [reg_defs]: "SMC_REG_VER = 0x01"
definition SMC_REG_POWER :: u8 where [reg_defs]: "SMC_REG_POWER = 0x02"
definition SMC_REG_POWER_RESET :: u8 where [reg_defs]: "SMC_REG_POWER_RESET = 0x01"
definition SMC_REG_POWER_CYCLE :: u8 where [reg_defs]: "SMC_REG_POWER_CYCLE = 0x40"
definition SMC_REG_POWER_SHUTDOWN :: u8 where [reg_defs]: "SMC_REG_POWER_SHUTDOWN = 0x80"
definition SMC_REG_TRAYSTATE :: u8 where [reg_defs]: "SMC_REG_TRAYSTATE = 0x03"
definition SMC_REG_TRAYSTATE_OPENED :: u8 where [reg_defs]: "SMC_REG_TRAYSTATE_OPENED = 0x10"
definition SMC_REG_TRAYSTATE_NO_MEDIA :: u8 where [reg_defs]: "SMC_REG_TRAYSTATE_NO_MEDIA = 0x40"
definition SMC_REG_TRAYSTATE_MEDIA :: u8 where [reg_defs]: "SMC_REG_TRAYSTATE_MEDIA = 0x60"
definition SMC_REG_TRAYSTATE_RESET :: u8 where [reg_defs]: "SMC_REG_TRAYSTATE_RESET = 0x70"
definition SMC_REG_AVPACK :: u8 where [reg_defs]: "SMC_REG_AVPACK = 0x04"
definition SMC_REG_AVPACK_COMPOSITE :: u8 where [reg_defs]: "SMC_REG_AVPACK_COMPOSITE = 0x06"
definition SMC_REG_AVPACK_NONE :: u8 where [reg_defs]: "SMC_REG_AVPACK_NONE = 0x07"
definition SMC_REG_FANMODE :: u8 where [reg_defs]: "SMC_REG_FANMODE = 0x05"
definition SMC_REG_FANSPEED :: u8 where [reg_defs]: "SMC_REG_FANSPEED = 0x06"
definition SMC_REG_LEDMODE :: u8 where [reg_defs]: "SMC_REG_LEDMODE = 0x07"
definition SMC_REG_LEDSEQ :: u8 where [reg_defs]: "SMC_REG_LEDSEQ = 0x08"
definition SMC_REG_AUDIO_CLAMPING :: u8 where [reg_defs]: "SMC_REG_AUDIO_CLAMPING = 0x0b"
definition SMC_REG_TRAYEJECT :: u8 where [reg_defs]: "SMC_REG_TRAYEJECT = 0x0c"
definition SMC_REG_ERROR_CODE :: u8 where [reg_defs]: "SMC_REG_ERROR_CODE = 0x0e"
definition SMC_REG_INTSTATUS :: u8 where [reg_defs]: "SMC_REG_INTSTATUS = 0x11"
definition SMC_REG_INTSTATUS_POWER :: u8 where [reg_defs]: "SMC_REG_INTSTATUS_POWER = 0x01"
definition SMC_REG_INTSTATUS_AVPACK_PLUG :: u8 where [reg_defs]: "SMC_REG_INTSTATUS_AVPACK_PLUG = 0x08"
definition SMC_REG_INTSTATUS_AVPACK_UNPLUG :: u8 where [reg_defs]: "SMC_REG_INTSTATUS_AVPACK_UNPLUG = 0x10"
definition SMC_REG_INTSTATUS_EJECT_BUTTON :: u8 where [reg_defs]: "SMC_REG_INTSTATUS_EJECT_BUTTON = 0x20"
definition SMC_REG_LAST_COMMAND :: u8 where [reg_defs]: "SMC_REG_LAST_COMMAND = 0x16"
definition SMC_REG_LAST_VALUE :: u8 where [reg_defs]: "SMC_REG_LAST_VALUE = 0x17"
definition SMC_REG_RESETONEJECT :: u8 where [reg_defs]: "SMC_REG_RESETONEJECT = 0x19"
definition SMC_REG_INTEN :: u8 where [reg_defs]: "SMC_REG_INTEN = 0x1a"
definition SMC_REG_SCRATCH :: u8 where [reg_defs]: "SMC_REG_SCRATCH = 0x1b"

definition LED_OFF :: u8 where [reg_defs]: "LED_OFF = 0x00"
definition LED_RED :: u8 where [reg_defs]: "LED_RED = 0x0F"
definition LED_RED_4HZ :: u8 where [reg_defs]: "LED_RED_4HZ = 0x0A"
definition LED_GREEN :: u8 where [reg_defs]: "LED_GREEN = 0xF0"
definition LED_GREEN_2HZ :: u8 where [reg_defs]: "LED_GREEN_2HZ = 0xC0"

definition WATCHDOG_CHALLENGE_TIME_MS :: nat where "WATCHDOG_CHALLENGE_TIME_MS = 250"
definition LED_INTERVAL_MS :: nat where "LED_INTERVAL_MS = 1000 div (4 * 2)"

section \<open>State\<close>

text \<open>What the SMC asks of the emulator.\<close>

datatype smc_request = Shutdown_request | Reset_request | Eject_request

text \<open>The state of the DVD drive, as the block layer reports it.\<close>

record drive =
  tray_open :: bool
  inserted :: bool

record SMBusSMCDevice =
  last_command :: u8
  last_value :: u8
  dvdrom :: "drive option"
  led_timer :: "nat option"
  watchdog_timer :: "nat option"
  error_code :: u8
  audio_clamping :: bool
  interrupts_enabled :: bool
  interrupt_reason :: u8
  led_mode :: u8
  led_user_sequence :: u8
  led_default_sequence :: u8
  led_color :: u32
  led_step :: u32
  fan_speed :: u8
  fan_mode :: u8
  avpack :: u8
  reset_on_press_eject :: bool
  watchdog_challenge :: "u8 list"
  watchdog_response :: "u8 list"
  version_string_index :: u32
  version_string :: string
  scratch :: u8
  requests :: "smc_request list"

section \<open>Operations\<close>

definition smc_shutdown_system :: "SMBusSMCDevice \<Rightarrow> SMBusSMCDevice" where
  "smc_shutdown_system smc = smc\<lparr>led_default_sequence := LED_OFF, requests := requests smc @ [Shutdown_request]\<rparr>"

definition smc_warm_reboot_system :: "SMBusSMCDevice \<Rightarrow> SMBusSMCDevice" where
  "smc_warm_reboot_system smc = smc\<lparr>led_default_sequence := LED_OFF, requests := requests smc @ [Reset_request]\<rparr>"

definition smc_cold_reboot_system :: "SMBusSMCDevice \<Rightarrow> SMBusSMCDevice" where
  "smc_cold_reboot_system smc = smc\<lparr>led_default_sequence := LED_OFF, requests := requests smc @ [Reset_request]\<rparr>"

definition smc_interrupt :: "SMBusSMCDevice \<Rightarrow> u8 \<Rightarrow> SMBusSMCDevice" where
  "smc_interrupt smc reason =
     (if interrupts_enabled smc then smc\<lparr>interrupt_reason := reason\<rparr> else smc)"

definition smc_eject_tray :: "SMBusSMCDevice \<Rightarrow> SMBusSMCDevice" where
  "smc_eject_tray smc =
     (if dvdrom smc = None then smc
      else smc\<lparr>requests := requests smc @ [Eject_request], led_default_sequence := LED_GREEN_2HZ\<rparr>)"

definition smc_close_tray :: "SMBusSMCDevice \<Rightarrow> SMBusSMCDevice" where
  "smc_close_tray smc =
     (if dvdrom smc = None then smc else smc\<lparr>led_default_sequence := LED_GREEN_2HZ\<rparr>)"

definition smc_get_traystate :: "SMBusSMCDevice \<Rightarrow> u8" where
  "smc_get_traystate smc =
     (case dvdrom smc of
        None \<Rightarrow> SMC_REG_TRAYSTATE_RESET
      | Some bs \<Rightarrow>
          if tray_open bs then SMC_REG_TRAYSTATE_OPENED
          else if inserted bs then SMC_REG_TRAYSTATE_MEDIA else SMC_REG_TRAYSTATE_NO_MEDIA)"

definition smc_system_overheat_reaction :: "SMBusSMCDevice \<Rightarrow> SMBusSMCDevice" where
  "smc_system_overheat_reaction smc = (smc_shutdown_system smc)\<lparr>led_default_sequence := LED_RED\<rparr>"

definition smc_system_error_reaction :: "SMBusSMCDevice \<Rightarrow> SMBusSMCDevice" where
  "smc_system_error_reaction smc = smc\<lparr>led_default_sequence := LED_RED_4HZ\<rparr>"

definition smc_press_eject :: "SMBusSMCDevice \<Rightarrow> SMBusSMCDevice" where
  "smc_press_eject smc =
     smc_eject_tray
       (if reset_on_press_eject smc then smc_warm_reboot_system smc
        else smc_interrupt smc SMC_REG_INTSTATUS_EJECT_BUTTON)"

definition smc_press_power :: "SMBusSMCDevice \<Rightarrow> SMBusSMCDevice" where
  "smc_press_power smc = smc_interrupt smc SMC_REG_INTSTATUS_POWER"

definition smc_avpack_unplug :: "SMBusSMCDevice \<Rightarrow> SMBusSMCDevice" where
  "smc_avpack_unplug smc = (smc_interrupt smc SMC_REG_INTSTATUS_AVPACK_UNPLUG)\<lparr>avpack := SMC_REG_AVPACK_NONE\<rparr>"

definition smc_avpack_plug :: "SMBusSMCDevice \<Rightarrow> u8 \<Rightarrow> SMBusSMCDevice" where
  "smc_avpack_plug smc pack = smc_interrupt (smc\<lparr>avpack := pack\<rparr>) SMC_REG_INTSTATUS_AVPACK_PLUG"

definition smc_start_watchdog :: "nat \<Rightarrow> SMBusSMCDevice \<Rightarrow> SMBusSMCDevice" where
  "smc_start_watchdog now smc =
     (if version_string smc = ''DBX'' then smc\<lparr>watchdog_challenge := [0x00, 0x00, 0x00, 0x01]\<rparr>
      else smc\<lparr>watchdog_challenge := [0x52, 0x72, 0xea, 0x46],
               watchdog_timer := Some (now + WATCHDOG_CHALLENGE_TIME_MS * 1000 * 1000)\<rparr>)"

definition smc_stop_watchdog :: "SMBusSMCDevice \<Rightarrow> SMBusSMCDevice" where
  "smc_stop_watchdog smc = smc\<lparr>watchdog_timer := None\<rparr>"

definition smc_write_command :: "SMBusSMCDevice \<Rightarrow> u8 \<Rightarrow> u8 \<Rightarrow> SMBusSMCDevice res" where
  "smc_write_command smc cmd val =
     (let smc = smc\<lparr>last_command := cmd, last_value := val\<rparr>
      in if cmd = SMC_REG_VER then Inr (smc\<lparr>version_string_index := 0\<rparr>)
         else if cmd = SMC_REG_POWER then
           (if val = SMC_REG_POWER_RESET then Inr (smc_warm_reboot_system smc)
            else if val = SMC_REG_POWER_CYCLE then Inr (smc_cold_reboot_system smc)
            else if val = SMC_REG_POWER_SHUTDOWN then Inr (smc_shutdown_system smc)
            else Inl Assertion_failed)
         else if cmd = SMC_REG_TRAYEJECT then
           (if val = 0x00 then Inr (smc_eject_tray smc) else Inr (smc_close_tray smc))
         else if cmd = SMC_REG_ERROR_CODE then Inr (smc\<lparr>error_code := val\<rparr>)
         else if cmd = SMC_REG_INTEN then
           Inr (smc\<lparr>interrupts_enabled := interrupts_enabled smc \<or> val = 0x00\<rparr>)
         else if cmd = SMC_REG_RESETONEJECT then Inr (smc\<lparr>reset_on_press_eject := (val = 0x00)\<rparr>)
         else if cmd = SMC_REG_LEDMODE then Inr (smc\<lparr>led_mode := val\<rparr>)
         else if cmd = SMC_REG_LEDSEQ then Inr (smc\<lparr>led_user_sequence := val\<rparr>)
         else if cmd = SMC_REG_FANMODE then Inr (smc\<lparr>fan_mode := val\<rparr>)
         else if cmd = SMC_REG_FANSPEED then Inr (smc\<lparr>fan_speed := val\<rparr>)
         else if cmd = SMC_REG_SCRATCH then Inr (smc\<lparr>scratch := val\<rparr>)
         else if cmd = SMC_REG_AUDIO_CLAMPING then Inr (smc\<lparr>audio_clamping := (val \<noteq> 0)\<rparr>)
         else if cmd = 0x20 then
           res_bind (arr_set (watchdog_response smc) 0 val) (\<lambda>r. Inr (smc\<lparr>watchdog_response := r\<rparr>))
         else if cmd = 0x21 then
           res_bind (arr_set (watchdog_response smc) 1 val) (\<lambda>r.
             Inr (smc_stop_watchdog (smc\<lparr>watchdog_response := r\<rparr>)))
         else Inr smc)"

text \<open>A C string is its characters and a terminating zero.\<close>

definition c_string :: "string \<Rightarrow> u8 list" where
  "c_string s = map (\<lambda>c. of_nat (of_char c)) s @ [0]"

definition smc_read_command :: "SMBusSMCDevice \<Rightarrow> u8 \<Rightarrow> (u8 \<times> SMBusSMCDevice) res" where
  "smc_read_command smc cmd =
     (if cmd = SMC_REG_VER then
        res_bind (arr_get (c_string (version_string smc)) (unat (version_string_index smc) mod 3)) (\<lambda>c.
          Inr (c, smc\<lparr>version_string_index := version_string_index smc + 1\<rparr>))
      else if cmd = SMC_REG_ERROR_CODE then Inr (error_code smc, smc)
      else if cmd = SMC_REG_LAST_COMMAND then Inr (last_command smc, smc)
      else if cmd = SMC_REG_LAST_VALUE then Inr (last_value smc, smc)
      else if cmd = SMC_REG_AVPACK then Inr (avpack smc, smc)
      else if cmd = SMC_REG_INTSTATUS then Inr (interrupt_reason smc, smc)
      else if cmd = SMC_REG_SCRATCH then Inr (scratch smc, smc)
      else if cmd = SMC_REG_TRAYSTATE then Inr (smc_get_traystate smc, smc)
      else if cmd = 0x1c then res_bind (arr_get (watchdog_challenge smc) 0) (\<lambda>b. Inr (b, smc))
      else if cmd = 0x1d then res_bind (arr_get (watchdog_challenge smc) 1) (\<lambda>b. Inr (b, smc))
      else if cmd = 0x1e then res_bind (arr_get (watchdog_challenge smc) 2) (\<lambda>b. Inr (b, smc))
      else if cmd = 0x1f then res_bind (arr_get (watchdog_challenge smc) 3) (\<lambda>b. Inr (b, smc))
      else Inr (0, smc))"

definition smc_led_timer_cb :: "nat \<Rightarrow> SMBusSMCDevice \<Rightarrow> SMBusSMCDevice" where
  "smc_led_timer_cb now smc =
     (let step = (led_step smc + 1) mod 4;
          sequence = (if led_mode smc = 0x00 then led_default_sequence smc else led_user_sequence smc);
          led_green = (drop_bit (unat step) (drop_bit 4 sequence) AND 0x1 \<noteq> 0);
          led_red = (drop_bit (unat step) (drop_bit 0 sequence) AND 0x1 \<noteq> 0)
      in smc\<lparr>led_step := step,
             led_color := (if led_green then 2 else 0) OR (if led_red then 1 else 0),
             led_timer := Some (now + LED_INTERVAL_MS * 1000 * 1000)\<rparr>)"

definition smc_watchdog_timer_cb :: "SMBusSMCDevice \<Rightarrow> SMBusSMCDevice" where
  "smc_watchdog_timer_cb smc = smc_warm_reboot_system smc"

section \<open>The SMBus handlers\<close>

definition smc_quick_cmd :: "SMBusSMCDevice \<Rightarrow> u8 \<Rightarrow> SMBusSMCDevice res" where
  "smc_quick_cmd smc rd = Inr smc"

definition smc_send_byte :: "SMBusSMCDevice \<Rightarrow> u8 \<Rightarrow> SMBusSMCDevice res" where
  "smc_send_byte smc val = Inr smc"

definition smc_receive_byte :: "SMBusSMCDevice \<Rightarrow> (u8 \<times> SMBusSMCDevice) res" where
  "smc_receive_byte smc = Inr (0, smc)"

definition smc_write_data :: "SMBusSMCDevice \<Rightarrow> u8 \<Rightarrow> u8 list \<Rightarrow> SMBusSMCDevice res" where
  "smc_write_data smc cmd buf =
     res_bind (assert_res (length buf = 1)) (\<lambda>_.
     res_bind (arr_get buf 0) (\<lambda>b. smc_write_command smc cmd b))"

definition smc_read_data :: "SMBusSMCDevice \<Rightarrow> u8 \<Rightarrow> nat \<Rightarrow> (u8 \<times> SMBusSMCDevice) res" where
  "smc_read_data smc cmd n = res_bind (assert_res (n = 0)) (\<lambda>_. smc_read_command smc cmd)"

definition smc_class :: "SMBusSMCDevice SMBusDeviceClass" where
  "smc_class =
     \<lparr>quick_cmd = Some smc_quick_cmd, send_byte = Some smc_send_byte, receive_byte = Some smc_receive_byte,
      write_data = Some smc_write_data, read_data = Some smc_read_data\<rparr>"

section \<open>Reset and initialisation\<close>

definition smbus_smc_reset :: "nat \<Rightarrow> drive option \<Rightarrow> SMBusSMCDevice \<Rightarrow> SMBusSMCDevice" where
  "smbus_smc_reset now drive smc = smc_start_watchdog now (smc\<lparr>dvdrom := drive\<rparr>)"

text \<open>
  The options \<open>xbox_smc_version\<close> and \<open>xbox_smc_scratch\<close> of the machine are \<open>version\<close> and
  \<open>scratch_opt\<close>; fields that the code does not set are zero, as the object's memory is.
\<close>

definition smbus_smc_init :: "nat \<Rightarrow> string option \<Rightarrow> u8 \<Rightarrow> SMBusSMCDevice" where
  "smbus_smc_init now version scratch_opt =
     \<lparr>last_command = 0, last_value = 0, dvdrom = None, led_timer = Some now, watchdog_timer = None,
      error_code = 0, audio_clamping = False, interrupts_enabled = False, interrupt_reason = 0,
      led_mode = 0x00, led_user_sequence = LED_GREEN, led_default_sequence = LED_GREEN,
      led_color = 0, led_step = 0, fan_speed = 0, fan_mode = 0, avpack = SMC_REG_AVPACK_COMPOSITE,
      reset_on_press_eject = True, watchdog_challenge = [0, 0, 0, 0], watchdog_response = [0, 0],
      version_string_index = 0, version_string = (case version of None \<Rightarrow> ''P01'' | Some v \<Rightarrow> v),
      scratch = scratch_opt, requests = []\<rparr>"

section \<open>Invariant\<close>

definition smc_ok :: "SMBusSMCDevice \<Rightarrow> bool" where
  "smc_ok smc \<longleftrightarrow> length (watchdog_challenge smc) = 4 \<and> length (watchdog_response smc) = 2
     \<and> 2 \<le> length (version_string smc) \<and> led_color smc < 4 \<and> led_step smc < 4"

lemmas smc_requests = smc_shutdown_system_def smc_warm_reboot_system_def smc_cold_reboot_system_def
  smc_eject_tray_def smc_close_tray_def smc_interrupt_def

lemmas smc_buttons = smc_press_eject_def smc_press_power_def smc_avpack_unplug_def smc_avpack_plug_def

text \<open>The commands that the SMC asserts against.\<close>

definition smc_refused :: "u8 \<Rightarrow> u8 \<Rightarrow> bool" where
  "smc_refused cmd val \<longleftrightarrow> cmd = SMC_REG_POWER
     \<and> val \<notin> {SMC_REG_POWER_RESET, SMC_REG_POWER_CYCLE, SMC_REG_POWER_SHUTDOWN}"

lemma smc_requests_ok:
  assumes "smc_ok smc"
  shows "smc_ok (smc_shutdown_system smc)" "smc_ok (smc_warm_reboot_system smc)"
    "smc_ok (smc_cold_reboot_system smc)" "smc_ok (smc_eject_tray smc)" "smc_ok (smc_close_tray smc)"
    "smc_ok (smc_interrupt smc reason)" "smc_ok (smc_stop_watchdog smc)"
  using assms by (auto simp: smc_ok_def smc_requests smc_stop_watchdog_def)

lemma smc_write_command_ok:
  assumes "smc_ok smc" "\<not> smc_refused cmd val"
  shows "res_ok smc_ok (smc_write_command smc cmd val)"
proof -
  let ?smc = "smc\<lparr>last_command := cmd, last_value := val\<rparr>"
  have "smc_ok ?smc" "length (watchdog_response ?smc) = 2" using assms(1) by (simp_all add: smc_ok_def)
  then show ?thesis
    unfolding smc_write_command_def Let_def
    using assms(2)
    by (intro res_ok_rules)
      (auto simp: smc_requests smc_refused_def res_ok_Inr smc_ok_def smc_stop_watchdog_def)
qed

lemma smc_write_command_refused:
  "smc_refused cmd val \<Longrightarrow> smc_write_command smc cmd val = Inl Assertion_failed"
  by (auto simp: smc_write_command_def smc_refused_def Let_def reg_defs)

lemma smc_read_command_ok:
  assumes "smc_ok smc"
  shows "\<exists>b smc'. smc_read_command smc cmd = Inr (b, smc') \<and> smc_ok smc'"
proof -
  have "unat (version_string_index smc) mod 3 < 3" by simp
  also have "3 \<le> length (c_string (version_string smc))" using assms by (simp add: smc_ok_def c_string_def)
  finally have "unat (version_string_index smc) mod 3 < length (c_string (version_string smc))" .
  with assms show ?thesis by (auto simp: smc_read_command_def smc_ok_def)
qed

lemma smc_step_bound: "x mod 4 < (4 :: u32)"
  by (simp add: word_less_nat_alt unat_mod)

lemma smc_led_timer_cb_ok: "smc_ok smc \<Longrightarrow> smc_ok (smc_led_timer_cb now smc)"
  by (auto simp: smc_ok_def smc_led_timer_cb_def Let_def smc_step_bound)

lemma smc_buttons_ok:
  assumes "smc_ok smc"
  shows "smc_ok (smc_press_eject smc)" "smc_ok (smc_press_power smc)"
    "smc_ok (smc_avpack_unplug smc)" "smc_ok (smc_avpack_plug smc pack)"
    "smc_ok (smc_system_overheat_reaction smc)" "smc_ok (smc_system_error_reaction smc)"
    "smc_ok (smc_watchdog_timer_cb smc)" "smc_ok (smbus_smc_reset now drv smc)"
  using assms
  by (auto simp: smc_ok_def smc_buttons smc_requests smc_system_overheat_reaction_def
      smc_system_error_reaction_def smc_watchdog_timer_cb_def smbus_smc_reset_def smc_start_watchdog_def)

lemma smbus_smc_init_ok:
  "(\<And>v. version = Some v \<Longrightarrow> 2 \<le> length v) \<Longrightarrow> smc_ok (smbus_smc_init now version scr)"
  by (auto simp: smc_ok_def smbus_smc_init_def split: option.splits)

lemma smbus_smc_init_default_ok [simp]: "smc_ok (smbus_smc_init now None scr)"
  by (rule smbus_smc_init_ok) simp

definition smc_reg :: "SMBusSMCDevice \<Rightarrow> u8 \<Rightarrow> u8" where
  "smc_reg smc c = (if c = SMC_REG_SCRATCH then scratch smc else error_code smc)"

interpretation smc: smbus_registers "\<lambda>_. smc_class" smc_ok "{SMC_REG_ERROR_CODE, SMC_REG_SCRATCH}" smc_reg
  by unfold_locales
    (auto simp: op_write_def op_read_def smc_class_def smc_write_data_def smc_write_command_def no_value_def
      smc_read_data_def smc_read_command_def smc_reg_def smc_ok_def reg_defs)

section \<open>Time\<close>

text \<open>
  A run of the SMC: the host writes and reads registers over the bus, buttons are pressed, timers
  fire once their time has come, and time passes up to the next timer. \<open>reset\<close> is the system reset.
\<close>

datatype smc_event =
  Bus_write u8 u8 | Bus_read u8 | Press_eject | Press_power | AV_unplug | AV_plug u8
| Led_fires | Watchdog_fires | Time_passes nat | System_reset "drive option"

inductive smc_step :: "nat \<times> SMBusSMCDevice \<Rightarrow> smc_event \<Rightarrow> nat \<times> SMBusSMCDevice \<Rightarrow> bool" where
  bus_write: "smc_write_data smc c [b] = Inr smc' \<Longrightarrow> smc_step (now, smc) (Bus_write c b) (now, smc')"
| bus_read: "smc_read_data smc c 0 = Inr (b, smc') \<Longrightarrow> smc_step (now, smc) (Bus_read c) (now, smc')"
| press_eject: "smc_step (now, smc) Press_eject (now, smc_press_eject smc)"
| press_power: "smc_step (now, smc) Press_power (now, smc_press_power smc)"
| av_unplug: "smc_step (now, smc) AV_unplug (now, smc_avpack_unplug smc)"
| av_plug: "smc_step (now, smc) (AV_plug p) (now, smc_avpack_plug smc p)"
| led_fires: "led_timer smc = Some t \<Longrightarrow> t \<le> now \<Longrightarrow>
    smc_step (now, smc) Led_fires (now, smc_led_timer_cb now (smc\<lparr>led_timer := None\<rparr>))"
| watchdog_fires: "watchdog_timer smc = Some t \<Longrightarrow> t \<le> now \<Longrightarrow>
    smc_step (now, smc) Watchdog_fires (now, smc_watchdog_timer_cb (smc\<lparr>watchdog_timer := None\<rparr>))"
| time_passes: "(\<And>t. watchdog_timer smc = Some t \<Longrightarrow> now + d \<le> t) \<Longrightarrow>
    (\<And>t. led_timer smc = Some t \<Longrightarrow> now + d \<le> t) \<Longrightarrow>
    smc_step (now, smc) (Time_passes d) (now + d, smc)"
| system_reset: "smc_step (now, smc) (System_reset drv) (now, smbus_smc_reset now drv smc)"

inductive_cases smc_stepE: "smc_step (now, smc) e (now', smc')"

inductive smc_run :: "nat \<times> SMBusSMCDevice \<Rightarrow> smc_event list \<Rightarrow> nat \<times> SMBusSMCDevice \<Rightarrow> bool" where
  run_nil: "smc_run s [] s"
| run_cons: "smc_step s e s' \<Longrightarrow> smc_run s' es s'' \<Longrightarrow> smc_run s (e # es) s''"

lemma smc_step_ok: "smc_step s e s' \<Longrightarrow> smc_ok (snd s) \<Longrightarrow> smc_ok (snd s')"
proof (induction rule: smc_step.induct)
  case (bus_write smc c b smc' now)
  then show ?case
    using smc_write_command_ok [of smc c b] smc_write_command_refused [of c b smc]
    by (cases "smc_refused c b") (auto simp: smc_write_data_def res_ok_def)
next
  case (bus_read smc c b smc' now)
  then show ?case
    using smc_read_command_ok [of smc c] by (auto simp: smc_read_data_def)
next
  case (led_fires smc t now)
  then show ?case using smc_led_timer_cb_ok [of "smc\<lparr>led_timer := None\<rparr>" now] by (simp add: smc_ok_def)
next
  case (watchdog_fires smc t now)
  then show ?case using smc_buttons_ok(7) [of "smc\<lparr>watchdog_timer := None\<rparr>"] by (simp add: smc_ok_def)
qed (auto intro: smc_buttons_ok)

lemma smc_run_ok: "smc_run s es s' \<Longrightarrow> smc_ok (snd s) \<Longrightarrow> smc_ok (snd s')"
  by (induction rule: smc_run.induct) (auto dest: smc_step_ok)

text \<open>Only a write to register \<open>0x21\<close> and the watchdog itself take the watchdog's timer away.\<close>

lemma smc_write_command_watchdog:
  assumes "c \<noteq> 0x21"
  shows "res_all (\<lambda>smc'. watchdog_timer smc' = watchdog_timer smc \<and> set (requests smc) \<subseteq> set (requests smc'))
    (smc_write_command smc c b)"
  unfolding smc_write_command_def Let_def
  by (intro res_all_rules) (use assms in \<open>auto simp: smc_requests\<close>)

lemma smc_read_command_watchdog:
  "res_all (\<lambda>(b, smc'). watchdog_timer smc' = watchdog_timer smc \<and> requests smc' = requests smc)
    (smc_read_command smc c)"
  unfolding smc_read_command_def by (intro res_all_rules) simp_all

lemma smc_step_watchdog:
  assumes "smc_step (now, smc) e (now', smc')" "\<forall>b. e \<noteq> Bus_write 0x21 b" "\<forall>d. e \<noteq> System_reset d"
  shows "set (requests smc) \<subseteq> set (requests smc')
    \<and> (watchdog_timer smc' = watchdog_timer smc
       \<or> e = Watchdog_fires \<and> Reset_request \<in> set (requests smc') \<and> watchdog_timer smc \<noteq> None)
    \<and> (\<forall>t. watchdog_timer smc = Some t \<longrightarrow> now \<le> t \<longrightarrow> now' \<le> t)"
  using assms(1)
proof (cases rule: smc_step.cases)
  case (bus_write c b)
  then have "smc_write_command smc c b = Inr smc'" "c \<noteq> 0x21" using assms(2) by (auto simp: smc_write_data_def)
  from res_allD [OF smc_write_command_watchdog [OF this(2)] this(1)] bus_write show ?thesis by simp
next
  case (bus_read c b)
  then have "smc_read_command smc c = Inr (b, smc')" by (auto simp: smc_read_data_def)
  from res_allD [OF smc_read_command_watchdog this] bus_read show ?thesis by simp
next
  case (system_reset drv)
  with assms(3) show ?thesis by simp
qed (simp_all add: smc_buttons smc_requests smc_led_timer_cb_def smc_watchdog_timer_cb_def Let_def subset_insertI2)

definition no_answer :: "smc_event list \<Rightarrow> bool" where
  "no_answer es \<longleftrightarrow> (\<forall>e \<in> set es. case e of Bus_write c _ \<Rightarrow> c \<noteq> 0x21 | System_reset _ \<Rightarrow> False | _ \<Rightarrow> True)"

lemma no_answer_Cons:
  "no_answer (e # es) \<longleftrightarrow> (\<forall>b. e \<noteq> Bus_write 0x21 b) \<and> (\<forall>d. e \<noteq> System_reset d) \<and> no_answer es"
  by (auto simp: no_answer_def split: smc_event.splits)

lemma smc_run_requests:
  "smc_run s es s' \<Longrightarrow> no_answer es \<Longrightarrow> set (requests (snd s)) \<subseteq> set (requests (snd s'))"
proof (induction rule: smc_run.induct)
  case (run_cons s e s' es s'')
  then show ?case
    using smc_step_watchdog [of "fst s" "snd s" e "fst s'" "snd s'"] by (auto simp: no_answer_Cons)
qed simp

section \<open>Properties\<close>

text \<open>
  C25. The watchdog cannot be outrun. Take any run in which the host never writes the second response
  byte (register \<open>0x21\<close>) and the system is not reset, whatever else the host writes and reads, the
  buttons and the timers do. While the watchdog's timer is set for the time \<open>t\<close>, time does not go
  beyond \<open>t\<close>; once it is not set any more, a reset of the system has been requested.
\<close>

theorem watchdog_resets:
  assumes "smc_run (now, smc) es (now', smc')" "no_answer es"
    and "watchdog_timer smc = Some t" "now \<le> t"
  shows "watchdog_timer smc' = Some t \<and> now' \<le> t \<or> Reset_request \<in> set (requests smc')"
  using assms
proof (induction "(now, smc)" es "(now', smc')" arbitrary: now smc rule: smc_run.induct)
  case (run_cons e s1 es)
  obtain now1 smc1 where s1: "s1 = (now1, smc1)" by fastforce
  have e: "\<forall>b. e \<noteq> Bus_write 0x21 b" "\<forall>d. e \<noteq> System_reset d" "no_answer es"
    using run_cons.prems(1) by (auto simp: no_answer_Cons)
  note step = smc_step_watchdog [OF run_cons.hyps(1) [unfolded s1] e(1,2)]
  show ?case
  proof (cases "watchdog_timer smc1 = watchdog_timer smc")
    case True
    then show ?thesis
      using run_cons.hyps(3) [OF s1 e(3)] step run_cons.prems by simp
  next
    case False
    then have "Reset_request \<in> set (requests smc1)" using step by blast
    then show ?thesis using smc_run_requests [OF run_cons.hyps(2) e(3)] s1 by auto
  qed
qed simp

definition smc_booting :: SMBusSMCDevice where
  "smc_booting = (smbus_smc_reset 0 None (smbus_smc_init 0 None 0))\<lparr>led_timer := None\<rparr>"

lemma smc_booting_timers: "watchdog_timer smc_booting = Some 250000000" "led_timer smc_booting = None"
  by (simp_all add: smc_booting_def smbus_smc_reset_def smc_start_watchdog_def smbus_smc_init_def
      WATCHDOG_CHALLENGE_TIME_MS_def)

lemma smc_booting_run:
  "smc_run (0, smc_booting) [Time_passes 250000000, Watchdog_fires]
     (0 + 250000000, smc_watchdog_timer_cb (smc_booting\<lparr>watchdog_timer := None\<rparr>))"
  by (rule run_cons, rule time_passes, simp_all only: smc_booting_timers option.inject option.distinct,
      simp, rule run_cons, rule watchdog_fires, rule smc_booting_timers, simp, rule run_nil)

theorem watchdog_resets_witness:
  "Reset_request \<in> set (requests (smc_watchdog_timer_cb (smc_booting\<lparr>watchdog_timer := None\<rparr>)))"
  using watchdog_resets [OF smc_booting_run _ smc_booting_timers(1)]
  by (simp add: no_answer_def smc_watchdog_timer_cb_def smc_warm_reboot_system_def)

lemma smc_step_stopped:
  assumes "smc_step (now, smc) e (now', smc')" "watchdog_timer smc = None" "\<forall>d. e \<noteq> System_reset d"
  shows "watchdog_timer smc' = None \<and> e \<noteq> Watchdog_fires"
proof (cases "\<exists>b. e = Bus_write 0x21 b")
  case True
  with assms(1) show ?thesis
    by (auto elim!: smc_stepE simp: smc_write_data_def smc_write_command_def reg_defs smc_stop_watchdog_def
        Let_def res_bind_def split: sum.splits)
next
  case False
  with smc_step_watchdog [OF assms(1) _ assms(3)] assms(2) have "watchdog_timer smc' = None" by auto
  moreover have "e \<noteq> Watchdog_fires" using assms(1,2) by (auto elim: smc_stepE)
  ultimately show ?thesis by simp
qed

text \<open>
  C26. A challenge is answered by the second response byte: writing it stops the watchdog, and as long
  as the system is not reset again the watchdog does not fire, whatever the host writes and reads,
  the buttons and the other timer do.
\<close>

theorem watchdog_answered:
  assumes "smc_step (now, smc) (Bus_write 0x21 b) s1" "smc_run s1 es s2"
    and "\<forall>e \<in> set es. \<forall>d. e \<noteq> System_reset d"
  shows "Watchdog_fires \<notin> set es \<and> watchdog_timer (snd s2) = None"
proof -
  have "watchdog_timer (snd s1) = None"
    using assms(1) by (cases s1) (auto elim!: smc_stepE simp: smc_write_data_def smc_write_command_def reg_defs
        smc_stop_watchdog_def Let_def res_bind_def split: sum.splits)
  with assms(2,3) show ?thesis
  proof (induction rule: smc_run.induct)
    case (run_cons s e s' es s'')
    then show ?case
      using smc_step_stopped [of "fst s" "snd s" e "fst s'" "snd s'"] by auto
  qed simp
qed

theorem watchdog_answered_witness:
  "\<exists>s1. smc_step (0, smc_booting) (Bus_write 0x21 5) s1 \<and> watchdog_timer (snd s1) = None"
proof -
  have "smc_write_data smc_booting 0x21 [5]
    = Inr (smc_booting\<lparr>last_command := 0x21, last_value := 5, watchdog_response := [0, 5], watchdog_timer := None\<rparr>)"
    by (simp add: smc_write_data_def smc_write_command_def reg_defs smc_stop_watchdog_def Let_def
        smc_booting_def smbus_smc_reset_def smc_start_watchdog_def smbus_smc_init_def)
  from bus_write [OF this] have step: "smc_step (0, smc_booting) (Bus_write 0x21 5)
    (0, smc_booting\<lparr>last_command := 0x21, last_value := 5, watchdog_response := [0, 5], watchdog_timer := None\<rparr>)" .
  from watchdog_answered [OF step run_nil] have "watchdog_timer (snd (0 :: nat, smc_booting\<lparr>last_command := 0x21,
    last_value := 5, watchdog_response := [0, 5], watchdog_timer := None\<rparr>)) = None" by simp
  with step show ?thesis by blast
qed

text \<open>
  C35. The SMC serves byte accesses only. For a device in good state, a write ends the program exactly
  when it has not one data byte or is a power command other than reset, cycle and shutdown, a read
  exactly when it is not the first byte of its transfer; every other access succeeds and leaves the
  device in good state.
\<close>

theorem smc_accesses:
  assumes "smc_ok smc"
  shows "(if length buf = 1 \<and> \<not> smc_refused cmd (hd buf) then res_ok smc_ok (smc_write_data smc cmd buf)
      else smc_write_data smc cmd buf = Inl Assertion_failed)
    \<and> (if n = 0 then res_ok (\<lambda>(b, smc). smc_ok smc) (smc_read_data smc cmd n)
       else smc_read_data smc cmd n = Inl Assertion_failed)"
proof -
  have "if length buf = 1 \<and> \<not> smc_refused cmd (hd buf) then res_ok smc_ok (smc_write_data smc cmd buf)
      else smc_write_data smc cmd buf = Inl Assertion_failed"
  proof (cases "length buf = 1")
    case True
    then obtain b where "buf = [b]" by (cases buf) auto
    then show ?thesis
      using smc_write_command_ok [OF assms, of cmd b] smc_write_command_refused [of cmd b smc]
      by (simp add: smc_write_data_def)
  qed (simp add: smc_write_data_def)
  then show ?thesis
    using smc_read_command_ok [OF assms, of cmd] by (auto simp: smc_read_data_def res_ok_def)
qed

theorem smc_accesses_witness:
  "smc_write_data (smbus_smc_init 0 None 0) SMC_REG_POWER [0x55] = Inl Assertion_failed
    \<and> res_ok smc_ok (smc_write_data (smbus_smc_init 0 None 0) SMC_REG_SCRATCH [0x55])"
  using smc_accesses [OF smbus_smc_init_ok, of None "[0x55]" SMC_REG_POWER 0 0 0]
    smc_accesses [OF smbus_smc_init_ok, of None "[0x55]" SMC_REG_SCRATCH 0 0 0]
  by (simp add: smc_refused_def reg_defs)

lemma smc_read_version:
  assumes "version_string smc = [c0, c1, c2]" "version_string_index smc = of_nat k" "k < 3"
  shows "op_read (\<lambda>_. smc_class) SMC_REG_VER 0 smc
    = Inr (of_nat (of_char ([c0, c1, c2] ! k)), smc\<lparr>version_string_index := of_nat (k + 1)\<rparr>)"
proof -
  have k: "unat (of_nat k :: u32) = k" using assms(3) by (intro unat_of_nat_u32) simp
  have "[of_nat (of_char c0), of_nat (of_char c1), of_nat (of_char c2), 0 :: u8] ! k
    = of_nat (of_char ([c0, c1, c2] ! k))"
    using assms(3) by (auto simp: less_Suc_eq numeral_3_eq_3)
  then show ?thesis
    using assms k
    by (simp add: op_read_def smc_class_def smc_read_data_def smc_read_command_def c_string_def add.commute)
qed

text \<open>
  The host learns the version of the SMC by resetting the string position and reading the version
  register three times over the bus: it gets the three characters of the version in their order.
\<close>

lemma smc_version_read:
  assumes "bus_idle bus" "map_of (bus_abs bus) addr = Some smc" "version_string smc = [c0, c1, c2]"
  shows "\<exists>bus1 bus2 bus3 bus4. smbus_write_byte (\<lambda>_. smc_class) bus addr SMC_REG_VER b = Inr bus1
    \<and> smbus_read_byte (\<lambda>_. smc_class) bus1 addr SMC_REG_VER = Inr (of_nat (of_char c0), bus2)
    \<and> smbus_read_byte (\<lambda>_. smc_class) bus2 addr SMC_REG_VER = Inr (of_nat (of_char c1), bus3)
    \<and> smbus_read_byte (\<lambda>_. smc_class) bus3 addr SMC_REG_VER = Inr (of_nat (of_char c2), bus4)"
proof -
  let ?sc = "\<lambda>_. smc_class"
  define s where "s k = smc\<lparr>last_command := SMC_REG_VER, last_value := b, version_string_index := of_nat k\<rparr>" for k
  have "op_write ?sc SMC_REG_VER [b] smc = Inr ((), s 0)"
    by (simp add: op_write_def smc_class_def smc_write_data_def smc_write_command_def no_value_def s_def)
  from smbus_write_byte_device [OF assms(1,2) this]
  obtain bus1 where bus1: "smbus_write_byte ?sc bus addr SMC_REG_VER b = Inr bus1" "bus_idle bus1"
    "map_of (bus_abs bus1) addr = Some (s 0)" by auto
  have read: "\<exists>bus''. smbus_read_byte ?sc bus' addr SMC_REG_VER = Inr (of_nat (of_char ([c0, c1, c2] ! k)), bus'')
      \<and> bus_idle bus'' \<and> map_of (bus_abs bus'') addr = Some (s (k + 1))"
    if "bus_idle bus'" "map_of (bus_abs bus') addr = Some (s k)" "k < 3" for bus' k
  proof -
    have "op_read ?sc SMC_REG_VER 0 (s k) = Inr (of_nat (of_char ([c0, c1, c2] ! k)), s (k + 1))"
      using smc_read_version [of "s k" c0 c1 c2 k] assms(3) that(3) by (simp add: s_def)
    from smbus_read_byte_device [OF that(1,2) this] show ?thesis by auto
  qed
  from read [OF bus1(2,3)] obtain bus2 where bus2:
    "smbus_read_byte ?sc bus1 addr SMC_REG_VER = Inr (of_nat (of_char c0), bus2)" "bus_idle bus2"
    "map_of (bus_abs bus2) addr = Some (s 1)" by auto
  from read [OF bus2(2,3)] obtain bus3 where bus3:
    "smbus_read_byte ?sc bus2 addr SMC_REG_VER = Inr (of_nat (of_char c1), bus3)" "bus_idle bus3"
    "map_of (bus_abs bus3) addr = Some (s 2)" by (auto simp: numeral_2_eq_2)
  from read [OF bus3(2,3)] bus1 bus2 bus3 show ?thesis by auto
qed

definition smc_bus :: "SMBusSMCDevice bus" where
  "smc_bus = \<lparr>children = [\<lparr>i2c_address = 0x10, slave = \<lparr>smb_mode = SMBUS_IDLE, data_len = 0,
     data_buf = replicate 34 0, smb_command = 0, priv = smbus_smc_init 0 None 0\<rparr>\<rparr>],
     current_dev = None, saved_address = 0\<rparr>"

lemma smc_version_read_witness:
  "\<exists>bus1 bus2 bus3 bus4. smbus_write_byte (\<lambda>_. smc_class) smc_bus 0x10 SMC_REG_VER 0 = Inr bus1
    \<and> smbus_read_byte (\<lambda>_. smc_class) bus1 0x10 SMC_REG_VER = Inr (0x50, bus2)
    \<and> smbus_read_byte (\<lambda>_. smc_class) bus2 0x10 SMC_REG_VER = Inr (0x30, bus3)
    \<and> smbus_read_byte (\<lambda>_. smc_class) bus3 0x10 SMC_REG_VER = Inr (0x31, bus4)"
  using smc_version_read [of smc_bus "0x10" "smbus_smc_init 0 None 0" "CHR ''P''" "CHR ''0''" "CHR ''1''" 0]
  by (simp add: smc_bus_def bus_idle_def dev_idle_def bus_abs_def smbus_smc_init_def)

text \<open>
  Each time its timer fires the LED advances to the next of four steps and shows the two bits of
  that step: green from the upper half of the sequence, red from the lower half, the sequence being
  the user's exactly when the LED mode is not zero. The colour is always below 4, so the table of
  colour names is never overrun.
\<close>

lemma smc_led_sequence:
  assumes "smc_ok smc"
  shows "let smc' = smc_led_timer_cb now smc; s = (unat (led_step smc) + 1) mod 4;
      sequence = (if led_mode smc = 0 then led_default_sequence smc else led_user_sequence smc)
    in unat (led_step smc') = s \<and> led_color smc' < 4
      \<and> (bit (led_color smc') 1 \<longleftrightarrow> bit sequence (s + 4)) \<and> (bit (led_color smc') 0 \<longleftrightarrow> bit sequence s)"
proof -
  have "unat (led_step smc) < 4" using assms by (simp add: smc_ok_def word_less_nat_alt)
  then have "unat ((led_step smc + 1) mod 4) = (unat (led_step smc) + 1) mod 4"
    by (simp add: unat_mod unat_word_ariths)
  then show ?thesis
    by (auto simp: Let_def smc_led_timer_cb_def and_one_nonzero bit_drop_bit_eq)
qed

lemma smc_led_sequence_witness:
  "unat (led_step (smc_led_timer_cb 0 (smbus_smc_init 0 None 0))) = 1
    \<and> bit (led_color (smc_led_timer_cb 0 (smbus_smc_init 0 None 0))) 1"
  using smc_led_sequence [OF smbus_smc_init_ok, of None 0 0 0]
  by (simp add: Let_def smbus_smc_init_def reg_defs)

end
