(* ===== verification/IO_Access.thy ===== *)
theory IO_Access
  imports Xbox_Prelude
begin

text \<open>
  How the memory core cuts a guest access into calls of a device's handlers:
  \<open>access_with_adjusted_size\<close> and its two accessors in \<open>src/memory.c\<close>. A device is a state with a read
  and a write handler that take the offset in the region and the size of the call. The port accesses
  of the machine (\<open>inb\<close>, \<open>inw\<close>, \<open>outb\<close>, \<open>outw\<close>) go this way. Shown here: a sequence of calls on a
  little-endian region reads and writes the bytes of the value in address order.
\<close>

section \<open>The code\<close>

type_synonym 's reader = "hwaddr \<Rightarrow> nat \<Rightarrow> 's \<Rightarrow> (u64 \<times> 's) res"
type_synonym 's writer = "hwaddr \<Rightarrow> u64 \<Rightarrow> nat \<Rightarrow> 's \<Rightarrow> 's res"

definition memory_region_read_accessor ::
  "'s reader \<Rightarrow> hwaddr \<Rightarrow> nat \<Rightarrow> nat \<Rightarrow> u64 \<Rightarrow> u64 \<times> 's \<Rightarrow> (u64 \<times> 's) res" where
  "memory_region_read_accessor rd addr sz shift msk = (\<lambda>(val, s).
     res_bind (rd addr sz s) (\<lambda>(tmp, s). Inr (val OR push_bit shift (tmp AND msk), s)))"

definition memory_region_write_accessor ::
  "'s writer \<Rightarrow> hwaddr \<Rightarrow> nat \<Rightarrow> nat \<Rightarrow> u64 \<Rightarrow> u64 \<times> 's \<Rightarrow> (u64 \<times> 's) res" where
  "memory_region_write_accessor wr addr sz shift msk = (\<lambda>(val, s).
     res_bind (wr addr (drop_bit shift val AND msk) sz s) (\<lambda>s. Inr (val, s)))"

text \<open>The \<open>for (i = 0; i < size; i += access_size)\<close> loop over the offsets of the calls.\<close>

definition access_with_adjusted_size ::
  "bool \<Rightarrow> nat \<Rightarrow> nat \<Rightarrow> (hwaddr \<Rightarrow> nat \<Rightarrow> nat \<Rightarrow> u64 \<Rightarrow> u64 \<times> 's \<Rightarrow> (u64 \<times> 's) res)
     \<Rightarrow> hwaddr \<Rightarrow> nat \<Rightarrow> u64 \<times> 's \<Rightarrow> (u64 \<times> 's) res" where
  "access_with_adjusted_size big_endian access_size_min access_size_max access addr sz vs =
     (let access_size_min = (if access_size_min = 0 then 1 else access_size_min);
          access_size_max = (if access_size_max = 0 then 4 else access_size_max);
          access_size = max (min sz access_size_max) access_size_min;
          access_mask = drop_bit (64 - access_size * 8) (-1);
          offsets = map (\<lambda>k. k * access_size) [0..<(sz + access_size - 1) div access_size]
      in if big_endian
         then fold_res (\<lambda>i. access (addr + of_nat i) access_size ((sz - access_size - i) * 8) access_mask) offsets vs
         else fold_res (\<lambda>i. access (addr + of_nat i) access_size (i * 8) access_mask) offsets vs)"

text \<open>A region with byte handlers, as the port accesses see it.\<close>

definition port_inb :: "'s reader \<Rightarrow> hwaddr \<Rightarrow> 's \<Rightarrow> (u8 \<times> 's) res" where
  "port_inb rd addr s =
     res_bind (access_with_adjusted_size False 1 1 (memory_region_read_accessor rd) addr 1 (0, s))
       (\<lambda>(v, s). Inr (ucast v, s))"

definition port_inw :: "'s reader \<Rightarrow> hwaddr \<Rightarrow> 's \<Rightarrow> (u16 \<times> 's) res" where
  "port_inw rd addr s =
     res_bind (access_with_adjusted_size False 1 1 (memory_region_read_accessor rd) addr 2 (0, s))
       (\<lambda>(v, s). Inr (ucast v, s))"

definition port_outb :: "'s writer \<Rightarrow> hwaddr \<Rightarrow> u8 \<Rightarrow> 's \<Rightarrow> 's res" where
  "port_outb wr addr v s =
     res_bind (access_with_adjusted_size False 1 1 (memory_region_write_accessor wr) addr 1 (ucast v, s))
       (\<lambda>(_, s). Inr s)"

definition port_outw :: "'s writer \<Rightarrow> hwaddr \<Rightarrow> u16 \<Rightarrow> 's \<Rightarrow> 's res" where
  "port_outw wr addr v s =
     res_bind (access_with_adjusted_size False 1 1 (memory_region_write_accessor wr) addr 2 (ucast v, s))
       (\<lambda>(_, s). Inr s)"

section \<open>Byte regions\<close>

lemma access_mask_byte: "drop_bit 56 (-1 :: u64) = mask 8"
  by (rule bit_word_eqI) (auto simp: bit_simps)

lemma port_inb_eq:
  "port_inb rd addr s = res_bind (rd addr 1 s) (\<lambda>(v, s). Inr (ucast v, s))"
proof -
  have "(ucast (tmp AND mask 8 :: u64) :: u8) = ucast tmp" for tmp
    by (rule bit_word_eqI) (simp add: bit_simps)
  then show ?thesis
    by (auto simp: port_inb_def access_with_adjusted_size_def memory_region_read_accessor_def access_mask_byte
        Let_def res_bind_def split: sum.splits)
qed

lemma port_inw_eq:
  "port_inw rd addr s =
     res_bind (rd addr 1 s) (\<lambda>(lo, s).
     res_bind (rd (addr + 1) 1 s) (\<lambda>(hi, s).
       Inr (ucast (ucast lo :: u8) OR push_bit 8 (ucast (ucast hi :: u8)), s)))"
proof -
  have "(ucast ((lo AND mask 8) OR push_bit 8 (hi AND mask 8) :: u64) :: u16)
      = ucast (ucast lo :: u8) OR push_bit 8 (ucast (ucast hi :: u8))" for lo hi
    by (rule bit_word_eqI) (auto simp: bit_simps)
  then show ?thesis
    by (auto simp: port_inw_def access_with_adjusted_size_def memory_region_read_accessor_def access_mask_byte
        Let_def res_bind_def split: sum.splits)
qed

lemma port_outb_eq: "port_outb wr addr v s = wr addr (ucast v) 1 s"
proof -
  have "(ucast v AND mask 8 :: u64) = ucast v"
    by (rule bit_word_eqI) (auto simp: bit_simps dest: bit_imp_le_length)
  then show ?thesis
    by (auto simp: port_outb_def access_with_adjusted_size_def memory_region_write_accessor_def access_mask_byte
        Let_def res_bind_def split: sum.splits)
qed

lemma port_outw_eq:
  "port_outw wr addr v s =
     res_bind (wr addr (ucast (ucast v :: u8)) 1 s) (\<lambda>s. wr (addr + 1) (ucast (ucast (drop_bit 8 v) :: u8)) 1 s)"
proof -
  have "(ucast v AND mask 8 :: u64) = ucast (ucast v :: u8)"
    "(drop_bit 8 (ucast v) AND mask 8 :: u64) = ucast (ucast (drop_bit 8 v) :: u8)"
    by (rule bit_word_eqI; auto simp: bit_simps)+
  then show ?thesis
    by (auto simp: port_outw_def access_with_adjusted_size_def memory_region_write_accessor_def access_mask_byte
        Let_def res_bind_def split: sum.splits)
qed

end
