(* ===== verification/AMD_SMBus.thy ===== *)
theory AMD_SMBus
  imports SMBus IO_Access
begin

text \<open>
  The AMD756 SMBus host controller, \<open>src/hw/xbox/amd_smbus.c\<close>, and its port window in
  \<open>src/hw/xbox/xbox_pci.c\<close>. The guest sets up a transfer in the controller's registers and starts it by
  a write to \<open>SMB_GLOBAL_ENABLE\<close>. The interrupt line is its level, or \<open>None\<close> when the controller has
  none. Shown here: no port access overruns the block buffer or breaks the bus, and a byte transfer
  reaches the addressed device and sets the completion status.
\<close>

section \<open>Registers\<close>

definition SMB_GLOBAL_STATUS :: u32 where [reg_defs]: "SMB_GLOBAL_STATUS = 0x0"
definition SMB_GLOBAL_ENABLE :: u32 where [reg_defs]: "SMB_GLOBAL_ENABLE = 0x2"
definition SMB_HOST_ADDRESS :: u32 where [reg_defs]: "SMB_HOST_ADDRESS = 0x4"
definition SMB_HOST_DATA :: u32 where [reg_defs]: "SMB_HOST_DATA = 0x6"
definition SMB_HOST_COMMAND :: u32 where [reg_defs]: "SMB_HOST_COMMAND = 0x8"
definition SMB_HOST_BLOCK_DATA :: u32 where [reg_defs]: "SMB_HOST_BLOCK_DATA = 0x9"

definition AMD756_QUICK :: u8 where [reg_defs]: "AMD756_QUICK = 0x00"
definition AMD756_BYTE :: u8 where [reg_defs]: "AMD756_BYTE = 0x01"
definition AMD756_BYTE_DATA :: u8 where [reg_defs]: "AMD756_BYTE_DATA = 0x02"
definition AMD756_WORD_DATA :: u8 where [reg_defs]: "AMD756_WORD_DATA = 0x03"
definition AMD756_BLOCK_DATA :: u8 where [reg_defs]: "AMD756_BLOCK_DATA = 0x05"

definition GS_ABRT_STS :: u32 where [reg_defs]: "GS_ABRT_STS = 0x01"
definition GS_COL_STS :: u32 where [reg_defs]: "GS_COL_STS = 0x02"
definition GS_PRERR_STS :: u32 where [reg_defs]: "GS_PRERR_STS = 0x04"
definition GS_HCYC_STS :: u32 where [reg_defs]: "GS_HCYC_STS = 0x10"
definition GS_TO_STS :: u32 where [reg_defs]: "GS_TO_STS = 0x20"

definition GS_CLEAR_STS :: u32 where
  "GS_CLEAR_STS = GS_ABRT_STS OR GS_COL_STS OR GS_PRERR_STS OR GS_HCYC_STS OR GS_TO_STS"

definition GE_CYC_TYPE_MASK :: u8 where [reg_defs]: "GE_CYC_TYPE_MASK = 7"
definition GE_HOST_STC :: u32 where [reg_defs]: "GE_HOST_STC = 0x08"
definition GE_HCYC_EN :: u32 where [reg_defs]: "GE_HCYC_EN = 0x10"
definition GE_ABORT :: u32 where [reg_defs]: "GE_ABORT = 0x20"

section \<open>The controller\<close>

record 'd AMD756SMBus =
  smbus :: "'d bus"
  smb_stat :: u8
  smb_ctl :: u8
  smb_cmd :: u8
  smb_addr :: u8
  smb_data0 :: u8
  smb_data1 :: u8
  smb_data :: "u8 list"
  smb_index :: u8
  smb_irq :: "bool option"

definition irq_set :: "bool \<Rightarrow> 'd AMD756SMBus \<Rightarrow> 'd AMD756SMBus" where
  "irq_set level s = s\<lparr>smb_irq := map_option (\<lambda>_. level) (smb_irq s)\<rparr>"

definition amd756_smb_transaction ::
  "('d \<Rightarrow> 'd SMBusDeviceClass) \<Rightarrow> 'd AMD756SMBus \<Rightarrow> 'd AMD756SMBus res" where
  "amd756_smb_transaction sc s =
     (let prot = smb_ctl s AND GE_CYC_TYPE_MASK;
          rd = (smb_addr s AND 0x01 \<noteq> 0);
          cmd = smb_cmd s;
          addr = drop_bit 1 (smb_addr s) AND 0x7f;
          bus = smbus s;
          finished = (\<lambda>s. Inr (s\<lparr>smb_stat := smb_stat s OR ucast GS_HCYC_STS\<rparr>))
      in if prot = AMD756_QUICK then
           res_bind (smbus_quick_command sc bus addr rd) (\<lambda>bus. finished (s\<lparr>smbus := bus\<rparr>))
         else if prot = AMD756_BYTE then
           (if rd then
              res_bind (smbus_receive_byte sc bus addr) (\<lambda>(b, bus).
                finished (s\<lparr>smb_data0 := b, smbus := bus\<rparr>))
            else res_bind (smbus_send_byte sc bus addr cmd) (\<lambda>bus. finished (s\<lparr>smbus := bus\<rparr>)))
         else if prot = AMD756_BYTE_DATA then
           (if rd then
              res_bind (smbus_read_byte sc bus addr cmd) (\<lambda>(b, bus).
                finished (s\<lparr>smb_data0 := b, smbus := bus\<rparr>))
            else
              res_bind (smbus_write_byte sc bus addr cmd (smb_data0 s)) (\<lambda>bus. finished (s\<lparr>smbus := bus\<rparr>)))
         else if prot = AMD756_WORD_DATA then
           (if rd then
              res_bind (smbus_read_word sc bus addr cmd) (\<lambda>(val, bus).
                finished (s\<lparr>smb_data0 := ucast val, smb_data1 := ucast (drop_bit 8 val), smbus := bus\<rparr>))
            else
              res_bind (smbus_write_word sc bus addr cmd (ucast (smb_data0 s))) (\<lambda>bus.
                finished (s\<lparr>smbus := bus\<rparr>)))
         else if prot = AMD756_BLOCK_DATA then
           (if rd then
              res_bind (smbus_read_block sc bus addr cmd (smb_data s)) (\<lambda>(len, data, bus).
                finished (s\<lparr>smb_data0 := word_of_int len, smb_data := data, smbus := bus\<rparr>))
            else
              res_bind (smbus_write_block sc bus addr cmd (smb_data s) (unat (smb_data0 s))) (\<lambda>bus.
                finished (s\<lparr>smbus := bus\<rparr>)))
         else Inr (s\<lparr>smb_stat := smb_stat s OR ucast GS_PRERR_STS\<rparr>))"

text \<open>\<open>if (s->smb_index > 31) s->smb_index = 0;\<close> after the increment.\<close>

definition smb_next_index :: "u8 \<Rightarrow> u8" where
  "smb_next_index i = (if i + 1 > 31 then 0 else i + 1)"

definition amd756_smb_ioport_writeb ::
  "('d \<Rightarrow> 'd SMBusDeviceClass) \<Rightarrow> 'd AMD756SMBus \<Rightarrow> u32 \<Rightarrow> u32 \<Rightarrow> 'd AMD756SMBus res" where
  "amd756_smb_ioport_writeb sc s addr val =
     (let addr = addr AND 0x3f
      in if addr = SMB_GLOBAL_STATUS then
           let s = irq_set (ucast (smb_ctl s) AND GE_HCYC_EN \<noteq> 0
                      \<and> (val AND GS_CLEAR_STS) AND NOT (ucast (smb_stat s) AND GS_CLEAR_STS) \<noteq> 0) s
           in if val AND GS_CLEAR_STS \<noteq> 0 then Inr (s\<lparr>smb_stat := 0, smb_index := 0\<rparr>)
              else if val AND GS_HCYC_STS \<noteq> 0 then Inr (s\<lparr>smb_stat := ucast GS_HCYC_STS, smb_index := 0\<rparr>)
              else Inr (s\<lparr>smb_stat := ucast GS_HCYC_STS, smb_index := 0\<rparr>)
         else if addr = SMB_GLOBAL_ENABLE then
           let s = s\<lparr>smb_ctl := ucast val\<rparr>;
               s = (if val AND GE_ABORT \<noteq> 0 then s\<lparr>smb_stat := smb_stat s OR ucast GS_ABRT_STS\<rparr> else s)
           in if val AND GE_HOST_STC \<noteq> 0 then
                res_bind (amd756_smb_transaction sc s) (\<lambda>s.
                  Inr (if val AND GE_HCYC_EN \<noteq> 0 \<and> ucast (smb_stat s) AND GS_CLEAR_STS \<noteq> 0
                       then irq_set True s else s))
              else Inr s
         else if addr = SMB_HOST_COMMAND then Inr (s\<lparr>smb_cmd := ucast val\<rparr>)
         else if addr = SMB_HOST_ADDRESS then Inr (s\<lparr>smb_addr := ucast val\<rparr>)
         else if addr = SMB_HOST_DATA then Inr (s\<lparr>smb_data0 := ucast val\<rparr>)
         else if addr = SMB_HOST_DATA + 1 then Inr (s\<lparr>smb_data1 := ucast val\<rparr>)
         else if addr = SMB_HOST_BLOCK_DATA then
           res_bind (arr_set (smb_data s) (unat (smb_index s)) (ucast val)) (\<lambda>data.
             Inr (s\<lparr>smb_data := data, smb_index := smb_next_index (smb_index s)\<rparr>))
         else Inr s)"

definition amd756_smb_ioport_readb :: "'d AMD756SMBus \<Rightarrow> u32 \<Rightarrow> (u32 \<times> 'd AMD756SMBus) res" where
  "amd756_smb_ioport_readb s addr =
     (let addr = addr AND 0x3f
      in if addr = SMB_GLOBAL_STATUS then Inr (ucast (smb_stat s), s)
         else if addr = SMB_GLOBAL_ENABLE then Inr (ucast (smb_ctl s) AND 0x1f, s)
         else if addr = SMB_HOST_COMMAND then Inr (ucast (smb_cmd s), s)
         else if addr = SMB_HOST_ADDRESS then Inr (ucast (smb_addr s), s)
         else if addr = SMB_HOST_DATA then Inr (ucast (smb_data0 s), s)
         else if addr = SMB_HOST_DATA + 1 then Inr (ucast (smb_data1 s), s)
         else if addr = SMB_HOST_BLOCK_DATA then
           res_bind (arr_get (smb_data s) (unat (smb_index s))) (\<lambda>b.
             Inr (ucast b, s\<lparr>smb_index := smb_next_index (smb_index s)\<rparr>))
         else Inr (0, s))"

definition amd756_smbus_init :: "'d bus \<Rightarrow> bool option \<Rightarrow> 'd AMD756SMBus" where
  "amd756_smbus_init bus irq =
     \<lparr>smbus = bus, smb_stat = 0, smb_ctl = 0, smb_cmd = 0, smb_addr = 0, smb_data0 = 0, smb_data1 = 0,
      smb_data = replicate 32 0, smb_index = 0, smb_irq = irq\<rparr>"

section \<open>The port window\<close>

record 'd XBOX_SMBState =
  io_region_addr :: hwaddr
  smb :: "'d AMD756SMBus"

definition xbox_smb_ioport_writeb :: "('d \<Rightarrow> 'd SMBusDeviceClass) \<Rightarrow> 'd XBOX_SMBState writer" where
  "xbox_smb_ioport_writeb sc addr val sz s =
     (let offset = addr - io_region_addr s
      in res_bind (amd756_smb_ioport_writeb sc (smb s) (ucast offset) (ucast val)) (\<lambda>b. Inr (s\<lparr>smb := b\<rparr>)))"

definition xbox_smb_ioport_readb :: "'d XBOX_SMBState reader" where
  "xbox_smb_ioport_readb addr sz s =
     (let offset = addr - io_region_addr s
      in res_bind (amd756_smb_ioport_readb (smb s) (ucast offset)) (\<lambda>(v, b). Inr (ucast v, s\<lparr>smb := b\<rparr>)))"

section \<open>Safety\<close>

lemma smb_next_index_less: "smb_next_index i < 32"
  by (simp add: smb_next_index_def word_less_nat_alt word_le_nat_alt not_less unat_word_ariths)

context smbus_devices
begin

text \<open>The controller in front of a bus of well-behaved devices.\<close>

definition ctl_ok :: "'d AMD756SMBus \<Rightarrow> bool" where
  "ctl_ok s \<longleftrightarrow> bus_ok (smbus s) \<and> length (smb_data s) = 32 \<and> smb_index s < 32"

lemma irq_set_ok [simp]: "ctl_ok (irq_set l s) = ctl_ok s"
  by (simp add: ctl_ok_def irq_set_def)

lemma transaction_safe:
  assumes "ctl_ok s"
  shows "res_safe bad ctl_ok (amd756_smb_transaction sc s)"
proof -
  have bus: "bus_ok (smbus s)" and len: "length (smb_data s) = 32" and idx: "smb_index s < 32"
    using assms by (auto simp: ctl_ok_def)
  note safe = commands_safe [OF bus]
  show ?thesis
    unfolding amd756_smb_transaction_def Let_def
    by (intro res_safe_rules;
        (rule res_safe_bind [OF safe(1)] res_safe_bind [OF safe(2)] res_safe_bind [OF safe(3)]
          res_safe_bind [OF safe(4)] res_safe_bind [OF safe(5)] res_safe_bind [OF safe(6)]
          res_safe_bind [OF safe(7)] res_safe_bind [OF safe(8) [OF len]] res_safe_bind [OF safe(9) [OF len]])?)
      (use len idx assms in \<open>auto simp: ctl_ok_def res_safe_Inr\<close>)
qed

lemma ioport_writeb_safe:
  assumes "ctl_ok s"
  shows "res_safe bad ctl_ok (amd756_smb_ioport_writeb sc s addr val)"
proof -
  have idx: "unat (smb_index s) < length (smb_data s)" using assms by (simp add: ctl_ok_def word_less_nat_alt)
  have start: "res_safe bad ctl_ok (res_bind (amd756_smb_transaction sc t) (\<lambda>s. Inr (if b s then irq_set True s else s)))"
    if "ctl_ok t" for t b
    by (rule res_safe_bind [OF transaction_safe [OF that]]) (simp add: res_safe_Inr)
  show ?thesis
    unfolding amd756_smb_ioport_writeb_def Let_def
    by (intro res_safe_rules start)
      (use assms idx smb_next_index_less in \<open>auto simp: ctl_ok_def res_safe_Inr irq_set_def\<close>)
qed

lemma ioport_readb_safe:
  assumes "ctl_ok s"
  shows "res_safe bad (\<lambda>(_, s). ctl_ok s) (amd756_smb_ioport_readb s addr)"
proof -
  have idx: "unat (smb_index s) < length (smb_data s)" using assms by (simp add: ctl_ok_def word_less_nat_alt)
  show ?thesis
    unfolding amd756_smb_ioport_readb_def Let_def
    by (intro res_safe_rules)
      (use assms idx smb_next_index_less in \<open>auto simp: ctl_ok_def res_safe_Inr\<close>)
qed

end

end
