(* ===== verification/Xbox_SMBus.thy ===== *)
theory Xbox_SMBus
  imports SMBus_Devices SMC AMD_SMBus
begin

text \<open>
  The SMBus of the console as \<open>src/hw/xbox/xbox.c\<close> populates it: EEPROM, SMC, video encoder and
  temperature monitor behind the AMD756 controller. A device on the bus is one of the four, and its
  class is the class of its kind. Shown here: the guest cannot make the controller or the simple
  devices access memory out of bounds, while a word access to the SMC ends the emulator.
\<close>

section \<open>The devices\<close>

datatype xbox_device =
  EEPROM (eeprom_of: SMBusEEPROMDevice)
| SMC_device (smc_of: SMBusSMCDevice)
| CX25871 (cx_of: SMBusCX25871Device)
| ADM1032 (adm_of: unit)

text \<open>A class of devices \<open>'d\<close>, injected by \<open>C\<close> into the devices \<open>'e\<close> of the bus.\<close>

definition lift_class :: "('d \<Rightarrow> 'e) \<Rightarrow> ('e \<Rightarrow> 'd) \<Rightarrow> 'd SMBusDeviceClass \<Rightarrow> 'e SMBusDeviceClass" where
  "lift_class C D cls =
     \<lparr>quick_cmd = map_option (\<lambda>f e r. res_bind (f (D e) r) (\<lambda>d. Inr (C d))) (quick_cmd cls),
      send_byte = map_option (\<lambda>f e b. res_bind (f (D e) b) (\<lambda>d. Inr (C d))) (send_byte cls),
      receive_byte = map_option (\<lambda>f e. res_bind (f (D e)) (\<lambda>(b, d). Inr (b, C d))) (receive_byte cls),
      write_data = map_option (\<lambda>f e c bs. res_bind (f (D e) c bs) (\<lambda>d. Inr (C d))) (write_data cls),
      read_data = map_option (\<lambda>f e c n. res_bind (f (D e) c n) (\<lambda>(b, d). Inr (b, C d))) (read_data cls)\<rparr>"

definition xbox_sc :: "xbox_device \<Rightarrow> xbox_device SMBusDeviceClass" where
  "xbox_sc dev = (case dev of
       EEPROM _ \<Rightarrow> lift_class EEPROM eeprom_of eeprom_class
     | SMC_device _ \<Rightarrow> lift_class SMC_device smc_of smc_class
     | CX25871 _ \<Rightarrow> lift_class CX25871 cx_of cx25871_class
     | ADM1032 _ \<Rightarrow> lift_class ADM1032 adm_of adm1032_class)"

definition new_slave :: "u8 \<Rightarrow> xbox_device \<Rightarrow> xbox_device SMBusDevice I2CSlave" where
  "new_slave addr dev =
     \<lparr>i2c_address = addr, slave = \<lparr>smb_mode = SMBUS_IDLE, data_len = 0, data_buf = replicate 34 0,
      smb_command = 0, priv = dev\<rparr>\<rparr>"

definition xbox_smbus :: "u8 list \<Rightarrow> SMBusSMCDevice \<Rightarrow> xbox_device bus" where
  "xbox_smbus eeprom_buf smc =
     \<lparr>children =
        [new_slave 0x54 (EEPROM (smbus_eeprom_initfn eeprom_buf)),
         new_slave 0x10 (SMC_device smc),
         new_slave 0x45 (CX25871 \<lparr>cx_registers = replicate 256 0\<rparr>),
         new_slave 0x4c (ADM1032 ())],
      current_dev = None, saved_address = 0\<rparr>"

section \<open>The devices are well-behaved\<close>

definition xbox_device_ok :: "xbox_device \<Rightarrow> bool" where
  "xbox_device_ok dev = (case dev of
       EEPROM e \<Rightarrow> eeprom_ok e | SMC_device smc \<Rightarrow> smc_ok smc | CX25871 cx \<Rightarrow> cx_ok cx | ADM1032 _ \<Rightarrow> True)"

lemma cx_write_data_safe: "cx_ok cx \<Longrightarrow> res_safe Out_of_bounds cx_ok (cx_write_data cx c bs)"
  using unat_u8_256 [of c]
  by (auto simp: cx_write_data_def buf_read_def buf_write_def cx_ok_def res_safe_def min_def)

lemma cx_read_data_safe: "cx_ok cx \<Longrightarrow> res_safe Out_of_bounds (\<lambda>(_, cx). cx_ok cx) (cx_read_data cx c n)"
  using unat_u8_256 [of c] by (simp add: cx_read_data_def cx_ok_def res_safe_def)

lemma eeprom_write_data_safe:
  assumes "eeprom_ok e" "length bs \<le> 33"
  shows "res_safe Out_of_bounds eeprom_ok (eeprom_write_data e c bs)"
  using eeprom_page [OF assms(1), of bs c] assms(2) by (auto simp: eeprom_ok_def res_safe_def)

lemma eeprom_receive_byte_safe:
  "eeprom_ok e \<Longrightarrow> res_safe Out_of_bounds (\<lambda>(_, e). eeprom_ok e) (eeprom_receive_byte e)"
  using unat_u8_256 by (simp add: eeprom_receive_byte_def eeprom_ok_def res_safe_def)

lemma eeprom_read_data_safe:
  "eeprom_ok e \<Longrightarrow> res_safe Out_of_bounds (\<lambda>(_, e). eeprom_ok e) (eeprom_read_data e c n)"
  unfolding eeprom_read_data_def Let_def
  by (rule eeprom_receive_byte_safe) (simp add: eeprom_ok_def)

lemma smc_write_data_safe: "smc_ok smc \<Longrightarrow> res_safe Out_of_bounds smc_ok (smc_write_data smc c bs)"
proof (cases "length bs = 1")
  case True
  assume ok: "smc_ok smc"
  from True obtain b where bs: "bs = [b]" by (cases bs) auto
  then show ?thesis
    using smc_write_command_ok [OF ok, of c b] smc_write_command_refused [of c b smc]
    by (cases "smc_refused c b") (auto simp: smc_write_data_def res_safe_def res_ok_def)
qed (simp add: smc_write_data_def res_safe_def)

lemma smc_read_data_safe:
  "smc_ok smc \<Longrightarrow> res_safe Out_of_bounds (\<lambda>(_, smc). smc_ok smc) (smc_read_data smc c n)"
  using smc_read_command_ok [of smc c]
  by (cases "n = 0") (auto simp: smc_read_data_def res_safe_def)

lemma res_safe_map: "res_safe bad P r \<Longrightarrow> (\<And>x. P x \<Longrightarrow> Q (f x)) \<Longrightarrow> res_safe bad Q (res_bind r (\<lambda>x. Inr (f x)))"
  by (cases r) (auto simp: res_safe_def)

lemma res_safe_map2: "res_safe bad (\<lambda>(_, x). P x) r \<Longrightarrow> (\<And>x. P x \<Longrightarrow> Q (f x)) \<Longrightarrow>
    res_safe bad (\<lambda>(_, x). Q x) (res_bind r (\<lambda>(b, x). Inr (b, f x)))"
  by (cases r) (auto simp: res_safe_def)

lemmas class_defs = eeprom_class_def smc_class_def cx25871_class_def adm1032_class_def

lemmas quiet_callbacks = eeprom_quick_cmd_def smc_quick_cmd_def cx_quick_cmd_def eeprom_send_byte_def
  smc_send_byte_def cx_send_byte_def smc_receive_byte_def cx_receive_byte_def tm_read_data_def

interpretation xbox: smbus_devices xbox_sc xbox_device_ok Out_of_bounds
proof
  fix d f r
  assume "xbox_device_ok d" "quick_cmd (xbox_sc d) = Some f"
  then show "res_safe Out_of_bounds xbox_device_ok (f d r)"
    by (cases d) (auto simp: xbox_sc_def lift_class_def class_defs quiet_callbacks res_safe_def xbox_device_ok_def)
next
  fix d f b
  assume "xbox_device_ok d" "send_byte (xbox_sc d) = Some f"
  then show "res_safe Out_of_bounds xbox_device_ok (f d b)"
    by (cases d) (auto simp: xbox_sc_def lift_class_def class_defs quiet_callbacks res_safe_def xbox_device_ok_def
        eeprom_ok_def)
next
  fix d g
  assume "xbox_device_ok d" "receive_byte (xbox_sc d) = Some g"
  then show "res_safe Out_of_bounds (\<lambda>(_, d). xbox_device_ok d) (g d)"
    by (cases d) (auto simp: xbox_sc_def lift_class_def class_defs quiet_callbacks xbox_device_ok_def res_safe_Inr
        intro!: res_safe_map2 [OF eeprom_receive_byte_safe])
next
  fix d h c bs
  assume "xbox_device_ok d" "write_data (xbox_sc d) = Some h" "length (bs :: u8 list) \<le> 33"
  then show "res_safe Out_of_bounds xbox_device_ok (h d c bs)"
    by (cases d) (auto simp: xbox_sc_def lift_class_def class_defs xbox_device_ok_def
        intro!: res_safe_map [OF eeprom_write_data_safe] res_safe_map [OF smc_write_data_safe]
          res_safe_map [OF cx_write_data_safe])
next
  fix d g c n
  assume "xbox_device_ok d" "read_data (xbox_sc d) = Some g"
  then show "res_safe Out_of_bounds (\<lambda>(_, d). xbox_device_ok d) (g d c n)"
    by (cases d) (auto simp: xbox_sc_def lift_class_def class_defs xbox_device_ok_def quiet_callbacks res_safe_Inr
        intro!: res_safe_map2 [OF eeprom_read_data_safe] res_safe_map2 [OF smc_read_data_safe]
          res_safe_map2 [OF cx_read_data_safe])
qed

section \<open>Guest programs on the controller\<close>

datatype port_access = Port_write u32 u32 | Port_read u32

definition do_access :: "port_access \<Rightarrow> xbox_device AMD756SMBus \<Rightarrow> xbox_device AMD756SMBus res" where
  "do_access acc s = (case acc of
       Port_write addr val \<Rightarrow> amd756_smb_ioport_writeb xbox_sc s addr val
     | Port_read addr \<Rightarrow> res_bind (amd756_smb_ioport_readb s addr) (\<lambda>(_, s). Inr s))"

lemma do_access_safe: "xbox.ctl_ok s \<Longrightarrow> res_safe Out_of_bounds xbox.ctl_ok (do_access acc s)"
  using xbox.ioport_writeb_safe xbox.ioport_readb_safe
  by (auto simp: do_access_def res_safe_Inr split: port_access.splits
      intro!: res_safe_bind [where Q = "\<lambda>(_, s). xbox.ctl_ok s"])

lemma xbox_smbus_idle: "bus_idle (xbox_smbus eeprom_buf smc)"
  by (simp add: bus_idle_def xbox_smbus_def new_slave_def dev_idle_def)

lemma xbox_init_ok:
  assumes "length eeprom_buf = 256" "smc_ok smc"
  shows "xbox.ctl_ok (amd756_smbus_init (xbox_smbus eeprom_buf smc) irq)"
  using assms xbox_smbus_idle
  by (simp add: xbox.ctl_ok_def amd756_smbus_init_def xbox.bus_ok_def xbox.devs_ok_def bus_abs_def xbox_smbus_def
      new_slave_def xbox_device_ok_def eeprom_ok_def cx_ok_def smbus_eeprom_initfn_def)

text \<open>
  Where an operation of a device on this bus comes from.
\<close>

lemma op_write_smc:
  "op_write xbox_sc c bs (SMC_device smc) = res_bind (smc_write_data smc c bs) (\<lambda>smc. Inr ((), SMC_device smc))"
  by (simp add: op_write_def xbox_sc_def lift_class_def smc_class_def no_value_def res_bind_assoc)

lemma op_read_smc:
  "op_read xbox_sc c n (SMC_device smc)
     = res_bind (smc_read_data smc c n) (\<lambda>(b, smc). Inr (b, SMC_device smc))"
  by (simp add: op_read_def xbox_sc_def lift_class_def smc_class_def)

section \<open>Properties\<close>

text \<open>
  C18. Whatever sequence of port reads and writes the guest performs on the SMBus controller of the
  freshly set up machine, with any register offsets and values, none of them makes the controller,
  the bus layer or a device access an array out of bounds: the 32-byte block buffer and its index,
  the 34-byte buffers of the devices, the 256 bytes of EEPROM and video encoder, the strings and
  arrays of the SMC.
\<close>

theorem smbus_ports_in_bounds:
  assumes "length eeprom_buf = 256" "smc_ok smc"
  shows "fold_res do_access accs (amd756_smbus_init (xbox_smbus eeprom_buf smc) irq) \<noteq> Inl Out_of_bounds"
proof -
  have "res_safe Out_of_bounds xbox.ctl_ok (fold_res do_access accs (amd756_smbus_init (xbox_smbus eeprom_buf smc) irq))"
    by (rule fold_res_safe) (auto intro: do_access_safe xbox_init_ok [OF assms])
  then show ?thesis by (auto simp: res_safe_def)
qed

theorem smbus_ports_in_bounds_witness:
  "fold_res do_access [Port_write 4 0xa8, Port_write 9 1, Port_read 9]
      (amd756_smbus_init (xbox_smbus (replicate 256 0) (smbus_smc_init 0 None 0)) None) \<noteq> Inl Out_of_bounds"
  by (rule smbus_ports_in_bounds) simp_all

text \<open>
  The guest can end the emulator through the SMC: starting a word read of any of its registers
  (transfer type 3 at address \<open>0x10\<close>) fails an assertion in every state of the machine.
\<close>

lemma smc_word_read_asserts:
  assumes "bus_idle (smbus s)" "map_of (bus_abs (smbus s)) 0x10 = Some (SMC_device smc)" "smc_ok smc"
    and "smb_addr s = 0x21"
  shows "amd756_smb_ioport_writeb xbox_sc s SMB_GLOBAL_ENABLE 0x0B = Inl Assertion_failed"
proof -
  have "op_read_word xbox_sc c (SMC_device smc) = Inl Assertion_failed" for c
    using smc_read_command_ok [OF assms(3), of c]
    by (auto simp: op_read_word_def xbox_sc_def lift_class_def smc_class_def smc_read_data_def)
  then have "on_device (op_read_word xbox_sc c) 0xffff 0x10 devs = Inl Assertion_failed"
    if "map_of devs 0x10 = Some (SMC_device smc)" for c devs
    using that by (induction devs) (auto split: if_splits)
  with assms(2) smbus_read_word_refines [OF assms(1), of xbox_sc "0x10" "smb_cmd s"]
  have fails: "smbus_read_word xbox_sc (smbus s) 0x10 (smb_cmd s) = Inl Assertion_failed"
    by (auto simp: refines_def split: sum.splits)
  then have "amd756_smb_transaction xbox_sc (s\<lparr>smb_ctl := 0x0B\<rparr>) = Inl Assertion_failed"
    using assms(4) by (simp add: amd756_smb_transaction_def Let_def reg_defs)
  then show ?thesis by (simp add: amd756_smb_ioport_writeb_def Let_def reg_defs)
qed

lemma smc_word_read_asserts_witness:
  "amd756_smb_ioport_writeb xbox_sc
     ((amd756_smbus_init (xbox_smbus (replicate 256 0) (smbus_smc_init 0 None 0)) None)\<lparr>smb_addr := 0x21\<rparr>)
     SMB_GLOBAL_ENABLE 0x0B = Inl Assertion_failed"
  by (rule smc_word_read_asserts [of _ "smbus_smc_init 0 None 0"])
    (simp_all add: amd756_smbus_init_def xbox_smbus_idle, simp add: bus_abs_def xbox_smbus_def new_slave_def)

end
