(* ===== verification/Bootloader_SMC.thy ===== *)
theory Bootloader_SMC
  imports Xbox_SMBus "HOL-Library.Monad_Syntax"
begin

text \<open>
  The boot loader's dialogue with the SMC, \<open>src/hw/xbox/bootloader.c\<close>: it programs the SMBus controller
  through its ports at \<open>0xC000\<close>, waits for the transfer in a busy loop, and repeats it on a collision.
  Both the loop and the repetition may run forever, so the functions are partial: \<open>None\<close> is not
  returning. Shown here: on the machine's own controller and SMC they return, and the handshake stops
  the boot watchdog with the response to the challenge of the SMC.
\<close>

section \<open>Port accesses\<close>

type_synonym machine = "xbox_device XBOX_SMBState"

definition in_window :: "machine \<Rightarrow> hwaddr \<Rightarrow> bool" where
  "in_window s port \<longleftrightarrow> io_region_addr s \<le> port \<and> port < io_region_addr s + 32"

definition helper_outb :: "hwaddr \<Rightarrow> u8 \<Rightarrow> machine \<Rightarrow> machine res" where
  "helper_outb port v s =
     (if in_window s port then port_outb (xbox_smb_ioport_writeb xbox_sc) (port - io_region_addr s) v s else Inr s)"

definition helper_outw :: "hwaddr \<Rightarrow> u16 \<Rightarrow> machine \<Rightarrow> machine res" where
  "helper_outw port v s =
     (if in_window s port then port_outw (xbox_smb_ioport_writeb xbox_sc) (port - io_region_addr s) v s else Inr s)"

definition helper_inb :: "hwaddr \<Rightarrow> machine \<Rightarrow> (u8 \<times> machine) res" where
  "helper_inb port s =
     (if in_window s port then port_inb xbox_smb_ioport_readb (port - io_region_addr s) s else Inr (0xff, s))"

definition helper_inw :: "hwaddr \<Rightarrow> machine \<Rightarrow> (u16 \<times> machine) res" where
  "helper_inw port s =
     (if in_window s port then port_inw xbox_smb_ioport_readb (port - io_region_addr s) s else Inr (0xffff, s))"

section \<open>The code\<close>

text \<open>\<open>while(1) { status = helper_inb(0xC000); if (!(status & 0x08)) break; }\<close>\<close>

partial_function (option) wait_idle :: "machine \<Rightarrow> (u8 \<times> machine) res option" where
  "wait_idle s = (case helper_inb 0xC000 s of
       Inl e \<Rightarrow> Some (Inl e)
     | Inr (status, s) \<Rightarrow> if status AND 0x08 = 0 then Some (Inr (status, s)) else wait_idle s)"

definition smc_read_start :: "u8 \<Rightarrow> bool \<Rightarrow> machine \<Rightarrow> machine res" where
  "smc_read_start command byte s =
     res_bind (helper_outb 0xC004 0x21 s) (\<lambda>s.
     res_bind (helper_outb 0xC008 command s) (\<lambda>s.
     res_bind (helper_inw 0xC000 s) (\<lambda>(status, s).
     res_bind (helper_outw 0xC000 status s) (\<lambda>s.
     helper_outb 0xC002 (if byte then 0x0A else 0x0B) s))))"

text \<open>The errors that the loader asserts against.\<close>

definition smc_status_error :: "u8 \<Rightarrow> bool" where
  "smc_status_error status \<longleftrightarrow> status AND 0x20 \<noteq> 0 \<or> status AND 0x04 \<noteq> 0 \<or> status AND 0x10 = 0"

partial_function (option) bootloader_smc_read_command ::
  "u8 \<Rightarrow> bool \<Rightarrow> machine \<Rightarrow> (u16 \<times> machine) res option" where
  "bootloader_smc_read_command command byte s = (case smc_read_start command byte s of
       Inl e \<Rightarrow> Some (Inl e)
     | Inr s \<Rightarrow> do {
         r \<leftarrow> wait_idle s;
         case r of
           Inl e \<Rightarrow> Some (Inl e)
         | Inr (status, s) \<Rightarrow>
             if status AND 0x02 \<noteq> 0 then bootloader_smc_read_command command byte s
             else if smc_status_error status then Some (Inl Assertion_failed)
             else Some (res_bind (helper_inw 0xC006 s) (\<lambda>(data, s).
               Inr (if byte then data AND 0x00FF else data, s)))
       })"

definition smc_write_start :: "u8 \<Rightarrow> bool \<Rightarrow> u16 \<Rightarrow> machine \<Rightarrow> machine res" where
  "smc_write_start command byte val s =
     res_bind (helper_outb 0xC004 (0x20 AND 0xFE) s) (\<lambda>s.
     res_bind (helper_outb 0xC008 command s) (\<lambda>s.
     res_bind (helper_outw 0xC006 val s) (\<lambda>s.
     res_bind (helper_inw 0xC000 s) (\<lambda>(status, s).
     res_bind (helper_outw 0xC000 (ucast (ucast status :: u8)) s) (\<lambda>s.
     helper_outb 0xC002 (if byte then 0x0A else 0x0B) s)))))"

partial_function (option) bootloader_smc_write_command ::
  "u8 \<Rightarrow> bool \<Rightarrow> u16 \<Rightarrow> machine \<Rightarrow> machine res option" where
  "bootloader_smc_write_command command byte val s = (case smc_write_start command byte val s of
       Inl e \<Rightarrow> Some (Inl e)
     | Inr s \<Rightarrow> do {
         r \<leftarrow> wait_idle s;
         case r of
           Inl e \<Rightarrow> Some (Inl e)
         | Inr (status, s) \<Rightarrow>
             if status AND 0x02 \<noteq> 0 then bootloader_smc_write_command command byte val s
             else if smc_status_error status then Some (Inl Assertion_failed)
             else Some (Inr s)
       })"

text \<open>The response to a challenge; the additions wrap around in a byte.\<close>

definition smc_response :: "u8 list \<Rightarrow> u8 \<times> u8" where
  "smc_response challenge =
     (let t1 = push_bit 2 (challenge ! 0) XOR (challenge ! 1 + 0x39) XOR drop_bit 2 (challenge ! 2)
            XOR (challenge ! 3 + 0x63);
          t2 = (challenge ! 0 + 0x0b) XOR drop_bit 2 (challenge ! 1) XOR (challenge ! 2 + 0x1b)
      in ((\<lambda>(r0, r1). let r0 = r0 + (r1 XOR t1) in (r0, r1 + (r0 XOR t2))) ^^ 4) (0x33, 0xed))"

text \<open>A step of a program on the machine that may not return and may fail.\<close>

definition step_bind :: "('a \<times> machine) res option \<Rightarrow> ('a \<Rightarrow> machine \<Rightarrow> 'b res option) \<Rightarrow> 'b res option" where
  "step_bind r k = do { x \<leftarrow> r; case x of Inl e \<Rightarrow> Some (Inl e) | Inr (v, s) \<Rightarrow> k v s }"

definition bootloader_stop_smc_watchdog :: "machine \<Rightarrow> machine res option" where
  "bootloader_stop_smc_watchdog s =
     step_bind (bootloader_smc_read_command 0x1c True s) (\<lambda>c0 s.
     step_bind (bootloader_smc_read_command 0x1d True s) (\<lambda>c1 s.
     step_bind (bootloader_smc_read_command 0x1e True s) (\<lambda>c2 s.
     step_bind (bootloader_smc_read_command 0x1f True s) (\<lambda>c3 s.
       let (r0, r1) = smc_response [ucast c0, ucast c1, ucast c2, ucast c3] in
       do {
         x \<leftarrow> bootloader_smc_write_command 0x20 True (ucast r0) s;
         case x of Inl e \<Rightarrow> Some (Inl e)
         | Inr s \<Rightarrow> bootloader_smc_write_command 0x21 True (ucast r1) s
       }))))"

section \<open>The controller's ports\<close>

lemma ucast_u8_u64_u32: "(ucast (ucast (v :: u8) :: u64) :: u32) = ucast v"
  by (rule bit_word_eqI) (auto simp: bit_simps dest: bit_imp_le_length)

lemma ucast_u8_u32: "(ucast (ucast (v :: u8) :: u32) :: u8) = v"
  by (rule bit_word_eqI) (auto simp: bit_simps)

lemma ucast_u8_u32_u64: "(ucast (ucast (ucast (v :: u8) :: u32) :: u64) :: u8) = v"
  by (rule bit_word_eqI) (auto simp: bit_simps)

lemmas port_simps = ucast_u8_u32_u64 in_window_def port_outb_eq port_outw_eq port_inb_eq port_inw_eq
  xbox_smb_ioport_writeb_def xbox_smb_ioport_readb_def ucast_u8_u64_u32 ucast_u8_u32 Let_def

lemma outb_address:
  "io_region_addr s = 0xC000 \<Longrightarrow> helper_outb 0xC004 v s = Inr (s\<lparr>smb := (smb s)\<lparr>smb_addr := v\<rparr>\<rparr>)"
  by (simp add: helper_outb_def port_simps amd756_smb_ioport_writeb_def reg_defs)

lemma outb_command:
  "io_region_addr s = 0xC000 \<Longrightarrow> helper_outb 0xC008 v s = Inr (s\<lparr>smb := (smb s)\<lparr>smb_cmd := v\<rparr>\<rparr>)"
  by (simp add: helper_outb_def port_simps amd756_smb_ioport_writeb_def reg_defs)

lemma outw_data:
  "io_region_addr s = 0xC000 \<Longrightarrow> helper_outw 0xC006 v s
     = Inr (s\<lparr>smb := (smb s)\<lparr>smb_data0 := ucast v, smb_data1 := ucast (drop_bit 8 v)\<rparr>\<rparr>)"
  by (simp add: helper_outw_def port_simps amd756_smb_ioport_writeb_def reg_defs)

lemma inw_status:
  "io_region_addr s = 0xC000 \<Longrightarrow> helper_inw 0xC000 s = Inr (ucast (smb_stat (smb s)), s)"
  by (simp add: helper_inw_def port_simps amd756_smb_ioport_readb_def reg_defs)

lemma inb_status:
  "io_region_addr s = 0xC000 \<Longrightarrow> helper_inb 0xC000 s = Inr (smb_stat (smb s), s)"
  by (simp add: helper_inb_def port_simps amd756_smb_ioport_readb_def reg_defs)

lemma inw_data:
  "io_region_addr s = 0xC000 \<Longrightarrow> helper_inw 0xC006 s
     = Inr (ucast (smb_data0 (smb s)) OR push_bit 8 (ucast (smb_data1 (smb s))), s)"
  by (simp add: helper_inw_def port_simps amd756_smb_ioport_readb_def reg_defs)

lemma outw_status:
  "io_region_addr s = 0xC000 \<Longrightarrow> helper_outw 0xC000 v s
     = res_bind (amd756_smb_ioport_writeb xbox_sc (smb s) 0 (ucast (ucast v :: u8))) (\<lambda>b. Inr (s\<lparr>smb := b\<rparr>))"
  by (cases "amd756_smb_ioport_writeb xbox_sc (smb s) 0 (ucast (ucast v :: u8))")
    (simp_all add: helper_outw_def port_simps amd756_smb_ioport_writeb_def reg_defs)

text \<open>
  The machine during the dialogue: the controller's window is at \<open>0xC000\<close>, the bus is idle, and the
  SMC at address \<open>0x10\<close> has the state \<open>smc\<close>.
\<close>

definition smc_machine :: "machine \<Rightarrow> SMBusSMCDevice \<Rightarrow> bool" where
  "smc_machine s smc \<longleftrightarrow> io_region_addr s = 0xC000 \<and> bus_idle (smbus (smb s))
     \<and> map_of (bus_abs (smbus (smb s))) 0x10 = Some (SMC_device smc)"

text \<open>Writing the status back clears it, or sets the completion bit; the bus is not concerned.\<close>

lemma outw_status_back:
  assumes "io_region_addr s = 0xC000"
  shows "\<exists>irq st. helper_outw 0xC000 v s
    = Inr (s\<lparr>smb := (smb s)\<lparr>smb_irq := irq, smb_stat := st, smb_index := 0\<rparr>\<rparr>) \<and> st \<in> {0, 0x10}"
  using assms
  by (auto simp: outw_status amd756_smb_ioport_writeb_def irq_set_def Let_def reg_defs)

lemma wait_idle_returns:
  assumes "io_region_addr s = 0xC000" "smb_stat (smb s) = 0x10"
  shows "wait_idle s = Some (Inr (0x10, s))"
  using assms by (simp add: wait_idle.simps [of s] inb_status)

lemma start_read:
  assumes "io_region_addr s = 0xC000" "smb_addr (smb s) = 0x21" "smb_stat (smb s) \<in> {0, 0x10}"
    and "smbus_read_byte xbox_sc (smbus (smb s)) 0x10 (smb_cmd (smb s)) = Inr (b, bus)"
  shows "helper_outb 0xC002 0x0A s
    = Inr (s\<lparr>smb := (smb s)\<lparr>smb_ctl := 0x0A, smb_data0 := b, smbus := bus, smb_stat := 0x10\<rparr>\<rparr>)"
  using assms
  by (auto simp: helper_outb_def port_simps amd756_smb_ioport_writeb_def amd756_smb_transaction_def reg_defs)

lemma start_write:
  assumes "io_region_addr s = 0xC000" "smb_addr (smb s) = 0x20" "smb_stat (smb s) \<in> {0, 0x10}"
    and "smbus_write_byte xbox_sc (smbus (smb s)) 0x10 (smb_cmd (smb s)) (smb_data0 (smb s)) = Inr bus"
  shows "helper_outb 0xC002 0x0A s
    = Inr (s\<lparr>smb := (smb s)\<lparr>smb_ctl := 0x0A, smbus := bus, smb_stat := 0x10\<rparr>\<rparr>)"
  using assms
  by (auto simp: helper_outb_def port_simps amd756_smb_ioport_writeb_def amd756_smb_transaction_def reg_defs)

lemma status_ok: "\<not> smc_status_error 0x10" "(0x10 :: u8) AND 0x02 = 0"
  by (simp_all add: smc_status_error_def)

lemma low_byte: "(ucast (b :: u8) OR push_bit 8 (ucast (x :: u8)) :: u16) AND 0x00FF = ucast b"
proof (rule bit_word_eqI)
  fix n :: nat
  assume "n < LENGTH(16)"
  have ff: "(0x00FF :: u16) = mask 8" by (simp add: mask_eq_exp_minus_1)
  show "bit ((ucast b OR push_bit 8 (ucast x) :: u16) AND 0x00FF) n = bit (ucast b :: u16) n"
    unfolding ff bit_and_iff bit_or_iff bit_push_bit_iff bit_ucast_iff bit_mask_iff
    using \<open>n < LENGTH(16)\<close> by (auto dest: bit_imp_le_length)
qed

lemma smc_read_returns:
  assumes s: "smc_machine s smc" and rd: "smc_read_data smc c 0 = Inr (b, smc')"
  shows "\<exists>s'. bootloader_smc_read_command c True s = Some (Inr (ucast b, s')) \<and> smc_machine s' smc'"
proof -
  have io: "io_region_addr s = 0xC000" using s by (simp add: smc_machine_def)
  define s2 where "s2 = s\<lparr>smb := (smb s)\<lparr>smb_addr := 0x21, smb_cmd := c\<rparr>\<rparr>"
  have io2: "io_region_addr s2 = 0xC000" by (simp add: s2_def io)
  obtain irq st where wb: "helper_outw 0xC000 (ucast (smb_stat (smb s))) s2
      = Inr (s2\<lparr>smb := (smb s2)\<lparr>smb_irq := irq, smb_stat := st, smb_index := 0\<rparr>\<rparr>)" "st \<in> {0, 0x10}"
    using outw_status_back [OF io2] by blast
  define s3 where "s3 = s2\<lparr>smb := (smb s2)\<lparr>smb_irq := irq, smb_stat := st, smb_index := 0\<rparr>\<rparr>"
  have "op_read xbox_sc c 0 (SMC_device smc) = Inr (b, SMC_device smc')" by (simp add: op_read_smc rd)
  then obtain bus where bus: "smbus_read_byte xbox_sc (smbus (smb s)) 0x10 c = Inr (b, bus)" "bus_idle bus"
    "map_of (bus_abs bus) 0x10 = Some (SMC_device smc')"
    using smbus_read_byte_device s unfolding smc_machine_def by (metis fun_upd_same)
  define s4 where "s4 = s3\<lparr>smb := (smb s3)\<lparr>smb_ctl := 0x0A, smb_data0 := b, smbus := bus, smb_stat := 0x10\<rparr>\<rparr>"
  have "helper_outb 0xC002 0x0A s3 = Inr s4"
    unfolding s4_def using bus(1) wb(2) io by (intro start_read) (auto simp: s3_def s2_def)
  then have start: "smc_read_start c True s = Inr s4"
    using wb(1) io by (simp add: smc_read_start_def outb_address outb_command inw_status s2_def s3_def)
  have io4: "io_region_addr s4 = 0xC000" by (simp add: s4_def s3_def io2)
  have "wait_idle s4 = Some (Inr (0x10, s4))" by (rule wait_idle_returns [OF io4]) (simp add: s4_def)
  with start have "bootloader_smc_read_command c True s = Some (Inr (ucast b, s4))"
    by (subst bootloader_smc_read_command.simps)
      (simp add: status_ok inw_data [OF io4] low_byte, simp add: s4_def low_byte)
  moreover have "smc_machine s4 smc'"
    using bus io4 by (simp add: smc_machine_def s4_def)
  ultimately show ?thesis by blast
qed

lemma smc_write_returns:
  assumes s: "smc_machine s smc" and wr: "smc_write_data smc c [b] = Inr smc'"
  shows "\<exists>s'. bootloader_smc_write_command c True (ucast b) s = Some (Inr s') \<and> smc_machine s' smc'"
proof -
  have io: "io_region_addr s = 0xC000" using s by (simp add: smc_machine_def)
  define s2 where "s2 = s\<lparr>smb := (smb s)\<lparr>smb_addr := 0x20, smb_cmd := c, smb_data0 := b,
    smb_data1 := ucast (drop_bit 8 (ucast b :: u16))\<rparr>\<rparr>"
  have io2: "io_region_addr s2 = 0xC000" by (simp add: s2_def io)
  have data: "(ucast (ucast b :: u16) :: u8) = b" by (rule bit_word_eqI) (simp add: bit_simps)
  obtain irq st where wb: "helper_outw 0xC000 (ucast (ucast (ucast (smb_stat (smb s)) :: u16) :: u8)) s2
      = Inr (s2\<lparr>smb := (smb s2)\<lparr>smb_irq := irq, smb_stat := st, smb_index := 0\<rparr>\<rparr>)" "st \<in> {0, 0x10}"
    using outw_status_back [OF io2] by blast
  define s3 where "s3 = s2\<lparr>smb := (smb s2)\<lparr>smb_irq := irq, smb_stat := st, smb_index := 0\<rparr>\<rparr>"
  have "op_write xbox_sc c [b] (SMC_device smc) = Inr ((), SMC_device smc')" by (simp add: op_write_smc wr)
  then obtain bus where bus: "smbus_write_byte xbox_sc (smbus (smb s)) 0x10 c b = Inr bus" "bus_idle bus"
    "map_of (bus_abs bus) 0x10 = Some (SMC_device smc')"
    using smbus_write_byte_device s unfolding smc_machine_def by (metis fun_upd_same)
  define s4 where "s4 = s3\<lparr>smb := (smb s3)\<lparr>smb_ctl := 0x0A, smbus := bus, smb_stat := 0x10\<rparr>\<rparr>"
  have "helper_outb 0xC002 0x0A s3 = Inr s4"
    unfolding s4_def using bus(1) wb(2) io by (intro start_write) (auto simp: s3_def s2_def)
  then have start: "smc_write_start c True (ucast b) s = Inr s4"
    using wb(1) io
    by (simp add: smc_write_start_def outb_address outb_command outw_data inw_status s2_def s3_def data)
  have io4: "io_region_addr s4 = 0xC000" by (simp add: s4_def s3_def io2)
  have "wait_idle s4 = Some (Inr (0x10, s4))" by (rule wait_idle_returns [OF io4]) (simp add: s4_def)
  with start have "bootloader_smc_write_command c True (ucast b) s = Some (Inr s4)"
    by (subst bootloader_smc_write_command.simps) (simp add: status_ok)
  moreover have "smc_machine s4 smc'" using bus io4 by (simp add: smc_machine_def s4_def)
  ultimately show ?thesis by blast
qed

lemma ucast_u8_u16: "(ucast (ucast (b :: u8) :: u16) :: u8) = b"
  by (rule bit_word_eqI) (simp add: bit_simps)

lemma smc_challenge_reads:
  assumes "watchdog_challenge smc = [c0, c1, c2, c3]"
  shows "smc_read_data smc 0x1c 0 = Inr (c0, smc)" "smc_read_data smc 0x1d 0 = Inr (c1, smc)"
    "smc_read_data smc 0x1e 0 = Inr (c2, smc)" "smc_read_data smc 0x1f 0 = Inr (c3, smc)"
  using assms by (simp_all add: smc_read_data_def smc_read_command_def reg_defs)

lemma smc_response_writes:
  assumes "length (watchdog_response smc) = 2"
  shows "smc_write_data smc 0x20 [b]
      = Inr (smc\<lparr>last_command := 0x20, last_value := b, watchdog_response := (watchdog_response smc)[0 := b]\<rparr>)"
    "smc_write_data smc 0x21 [b]
      = Inr (smc\<lparr>last_command := 0x21, last_value := b, watchdog_response := (watchdog_response smc)[1 := b],
          watchdog_timer := None\<rparr>)"
  using assms
  by (simp_all add: smc_write_data_def smc_write_command_def reg_defs smc_stop_watchdog_def)

section \<open>Properties\<close>

text \<open>
  C9. The boot handshake works across the whole stack: on a machine whose controller is at \<open>0xC000\<close> and
  whose bus is idle, \<open>bootloader_stop_smc_watchdog\<close> returns (its busy loops end and no transfer is
  repeated forever), no assertion fails, the SMC has the response to its own challenge in its
  response registers, and its watchdog timer is stopped.
\<close>

theorem bootloader_handshake:
  assumes "smc_machine s smc" "smc_ok smc"
  shows "\<exists>s' smc'. bootloader_stop_smc_watchdog s = Some (Inr s') \<and> smc_machine s' smc'
    \<and> watchdog_timer smc' = None
    \<and> watchdog_response smc' = [fst (smc_response (watchdog_challenge smc)), snd (smc_response (watchdog_challenge smc))]"
proof -
  have "length (watchdog_challenge smc) = 4" "length (watchdog_response smc) = 2"
    using assms(2) by (auto simp: smc_ok_def)
  then obtain c0 c1 c2 c3 x0 x1 where ch: "watchdog_challenge smc = [c0, c1, c2, c3]" and re: "watchdog_response smc = [x0, x1]"
    by (auto simp: numeral_eq_Suc length_Suc_conv)
  obtain r0 r1 where r: "smc_response [c0, c1, c2, c3] = (r0, r1)" by fastforce
  note reads = smc_challenge_reads [OF ch]
  obtain s0 where s0: "bootloader_smc_read_command 0x1c True s = Some (Inr (ucast c0, s0))" "smc_machine s0 smc"
    using smc_read_returns [OF assms(1) reads(1)] by blast
  obtain s1 where s1: "bootloader_smc_read_command 0x1d True s0 = Some (Inr (ucast c1, s1))" "smc_machine s1 smc"
    using smc_read_returns [OF s0(2) reads(2)] by blast
  obtain s2 where s2: "bootloader_smc_read_command 0x1e True s1 = Some (Inr (ucast c2, s2))" "smc_machine s2 smc"
    using smc_read_returns [OF s1(2) reads(3)] by blast
  obtain s3 where s3: "bootloader_smc_read_command 0x1f True s2 = Some (Inr (ucast c3, s3))" "smc_machine s3 smc"
    using smc_read_returns [OF s2(2) reads(4)] by blast
  define smc4 where "smc4 = smc\<lparr>last_command := 0x20, last_value := r0, watchdog_response := [r0, x1]\<rparr>"
  have "smc_write_data smc 0x20 [r0] = Inr smc4" using smc_response_writes(1) [of smc r0] re by (simp add: smc4_def)
  then obtain s4 where s4: "bootloader_smc_write_command 0x20 True (ucast r0) s3 = Some (Inr s4)" "smc_machine s4 smc4"
    using smc_write_returns [OF s3(2)] by blast
  define smc5 where "smc5 = smc4\<lparr>last_command := 0x21, last_value := r1, watchdog_response := [r0, r1], watchdog_timer := None\<rparr>"
  have "smc_write_data smc4 0x21 [r1] = Inr smc5"
    using smc_response_writes(2) [of smc4 r1] by (simp add: smc4_def smc5_def)
  then obtain s5 where s5: "bootloader_smc_write_command 0x21 True (ucast r1) s4 = Some (Inr s5)" "smc_machine s5 smc5"
    using smc_write_returns [OF s4(2)] by blast
  have "bootloader_stop_smc_watchdog s = Some (Inr s5)"
    by (simp add: bootloader_stop_smc_watchdog_def step_bind_def s0(1) s1(1) s2(1) s3(1) s4(1) s5(1) r ucast_u8_u16)
  with s5(2) ch r show ?thesis by (auto simp: smc5_def)
qed

definition booting_machine :: machine where
  "booting_machine = \<lparr>io_region_addr = 0xC000,
     smb = amd756_smbus_init (xbox_smbus (replicate 256 0) (smbus_smc_reset 0 None (smbus_smc_init 0 None 0))) (Some False)\<rparr>"

theorem bootloader_handshake_witness:
  "watchdog_timer (smbus_smc_reset 0 None (smbus_smc_init 0 None 0)) = Some 250000000
    \<and> (\<exists>s' smc'. bootloader_stop_smc_watchdog booting_machine = Some (Inr s') \<and> smc_machine s' smc'
      \<and> watchdog_timer smc' = None)"
proof
  let ?smc = "smbus_smc_reset 0 None (smbus_smc_init 0 None 0)"
  show "watchdog_timer ?smc = Some 250000000"
    by (simp add: smbus_smc_reset_def smc_start_watchdog_def smbus_smc_init_def WATCHDOG_CHALLENGE_TIME_MS_def)
  have "smc_machine booting_machine ?smc"
    by (simp add: smc_machine_def booting_machine_def amd756_smbus_init_def xbox_smbus_idle)
      (simp add: bus_abs_def xbox_smbus_def new_slave_def)
  moreover have "smc_ok ?smc" by (simp add: smc_buttons_ok)
  ultimately show "\<exists>s' smc'. bootloader_stop_smc_watchdog booting_machine = Some (Inr s') \<and> smc_machine s' smc'
      \<and> watchdog_timer smc' = None"
    using bootloader_handshake by blast
qed

end
