(* ===== verification/X86_CPU.thy ===== *)
theory X86_CPU
  imports Xbox_Prelude
begin

unbundle bit_operations_syntax

text \<open>
  The processor that the boot code of the machine works on, for the 32-bit target: the registers, the
  control registers as \<open>src/target-i386/helper.c\<close> updates them, the model specific registers, the segment
  registers as \<open>src/target-i386/seg_helper.c\<close> loads them from the descriptor tables, and physical memory.
  The translation buffer is not part of the state: a walk of the page tables always sees the current ones.
\<close>

section \<open>State\<close>

record SegmentCache =
  selector :: u32
  seg_base :: u32
  seg_limit :: u32
  seg_flags :: u32

datatype seg_reg = R_ES | R_CS | R_SS | R_DS | R_FS | R_GS

record CPUX86State =
  r_eax :: u32
  r_ecx :: u32
  r_edx :: u32
  r_ebx :: u32
  r_esp :: u32
  r_ebp :: u32
  r_esi :: u32
  r_edi :: u32
  r_eip :: u32
  eflags :: u32
  hflags :: u32
  segs :: "seg_reg \<Rightarrow> SegmentCache"
  ldt :: SegmentCache
  gdt :: SegmentCache
  idt :: SegmentCache
  cr0 :: u32
  cr3 :: u32
  cr4 :: u32
  cpuid_sse :: bool
  cpuid_smap :: bool
  msr :: "u32 \<Rightarrow> u64"
  ram :: mem

section \<open>Control registers\<close>

definition cpu_x86_update_cr0 :: "u32 \<Rightarrow> CPUX86State \<Rightarrow> CPUX86State" where
  "cpu_x86_update_cr0 new_cr0 env =
     (let cr = new_cr0 OR 0x10;
          pe_state = cr AND 1;
          h = (hflags env AND NOT 0x80) OR push_bit 7 pe_state;
          h = h OR push_bit 6 (pe_state XOR 1);
          h = (h AND NOT 0xe00) OR (push_bit 8 new_cr0 AND 0xe00)
      in env\<lparr>cr0 := cr, hflags := h\<rparr>)"

definition cpu_x86_update_cr3 :: "u32 \<Rightarrow> CPUX86State \<Rightarrow> CPUX86State" where
  "cpu_x86_update_cr3 new_cr3 env = env\<lparr>cr3 := new_cr3\<rparr>"

definition cpu_x86_update_cr4 :: "u32 \<Rightarrow> CPUX86State \<Rightarrow> CPUX86State" where
  "cpu_x86_update_cr4 new_cr4 env =
     (let cr = (if cpuid_sse env then new_cr4 else new_cr4 AND NOT 0x200);
          h = hflags env AND NOT 0x400000;
          h = (if cr AND 0x200 \<noteq> 0 then h OR 0x400000 else h);
          cr = (if cpuid_smap env then cr else cr AND NOT 0x200000);
          h = h AND NOT 0x800000;
          h = (if cr AND 0x200000 \<noteq> 0 then h OR 0x800000 else h)
      in env\<lparr>hflags := h, cr4 := cr\<rparr>)"

text \<open>\<open>wrmsr\<close> for the registers the boot code writes (the MTRRs and the PAT), which are plain storage.\<close>

definition helper_wrmsr :: "CPUX86State \<Rightarrow> CPUX86State" where
  "helper_wrmsr env =
     env\<lparr>msr := (msr env)(r_ecx env := ucast (r_eax env) OR push_bit 32 (ucast (r_edx env)))\<rparr>"

definition MSR_MTRRphysBase :: "nat \<Rightarrow> u32" where
  "MSR_MTRRphysBase reg = 0x200 + 2 * of_nat reg"

definition MSR_MTRRphysMask :: "nat \<Rightarrow> u32" where
  "MSR_MTRRphysMask reg = 0x200 + 2 * of_nat reg + 1"

definition MSR_MTRRdefType :: u32 where
  "MSR_MTRRdefType = 0x2ff"

text \<open>A write of four bytes to physical memory.\<close>

definition write32 :: "hwaddr \<Rightarrow> u32 \<Rightarrow> CPUX86State \<Rightarrow> CPUX86State" where
  "write32 a v env = env\<lparr>ram := stl_le (ram env) a v\<rparr>"

section \<open>Segments\<close>

text \<open>An exception of the processor, with its error code.\<close>

datatype excp = Excp nat u32

definition EXCP0B_NOSEG :: nat where "EXCP0B_NOSEG = 11"
definition EXCP0C_STACK :: nat where "EXCP0C_STACK = 12"
definition EXCP0D_GPF :: nat where "EXCP0D_GPF = 13"

definition get_seg_limit :: "u32 \<Rightarrow> u32 \<Rightarrow> u32" where
  "get_seg_limit e1 e2 =
     (let limit = (e1 AND 0xffff) OR (e2 AND 0x000f0000)
      in if e2 AND 0x800000 \<noteq> 0 then push_bit 12 limit OR 0xfff else limit)"

definition get_seg_base :: "u32 \<Rightarrow> u32 \<Rightarrow> u32" where
  "get_seg_base e1 e2 = drop_bit 16 e1 OR push_bit 16 (e2 AND 0xff) OR (e2 AND 0xff000000)"

definition load_seg_cache :: "seg_reg \<Rightarrow> u32 \<Rightarrow> u32 \<Rightarrow> u32 \<Rightarrow> u32 \<Rightarrow> CPUX86State \<Rightarrow> CPUX86State" where
  "load_seg_cache sreg sel base limit flags env =
     env\<lparr>segs := (segs env)(sreg := \<lparr>selector = sel, seg_base = base, seg_limit = limit, seg_flags = flags\<rparr>)\<rparr>"

definition cpu_x86_load_seg_cache ::
    "seg_reg \<Rightarrow> u32 \<Rightarrow> u32 \<Rightarrow> u32 \<Rightarrow> u32 \<Rightarrow> CPUX86State \<Rightarrow> CPUX86State" where
  "cpu_x86_load_seg_cache sreg sel base limit flags env =
     (let env = load_seg_cache sreg sel base limit flags env;
          h = (if sreg = R_CS
               then (hflags env AND NOT (0x10 OR 0x8000))
                    OR drop_bit 18 (seg_flags (segs env R_CS) AND 0x400000)
               else hflags env);
          new_hflags = drop_bit 17 (seg_flags (segs env R_SS) AND 0x400000);
          new_hflags =
            (if h AND 0x8000 \<noteq> 0 then new_hflags
             else if cr0 env AND 1 = 0 \<or> eflags env AND 0x20000 \<noteq> 0 \<or> h AND 0x10 = 0
             then new_hflags OR 0x40
             else new_hflags
                  OR (if seg_base (segs env R_DS) OR seg_base (segs env R_ES) OR seg_base (segs env R_SS) \<noteq> 0
                      then 0x40 else 0))
      in env\<lparr>hflags := (h AND NOT (0x20 OR 0x40)) OR new_hflags\<rparr>)"

text \<open>
  The descriptor of a selector: the tables are read through the physical memory \<open>ldl\<close>, as they are
  before paging is on.
\<close>

definition load_segment :: "(u32 \<Rightarrow> u32) \<Rightarrow> u32 \<Rightarrow> CPUX86State \<Rightarrow> (u32 \<times> u32 \<times> u32) option" where
  "load_segment ldl sel env =
     (let dt = (if sel AND 0x4 \<noteq> 0 then ldt env else gdt env);
          index = sel AND NOT 7
      in if index + 7 > seg_limit dt then None
         else let ptr = seg_base dt + index in Some (ptr, ldl ptr, ldl (ptr + 4)))"

definition dpl_of :: "u32 \<Rightarrow> u32" where
  "dpl_of e2 = drop_bit 13 e2 AND 3"

text \<open>
  \<open>helper_load_seg\<close>: the checks of the processor, then the access bit, which is stored back to the
  table with \<open>stl\<close>, then the segment.
\<close>

definition helper_load_seg ::
    "(CPUX86State \<Rightarrow> u32 \<Rightarrow> u32) \<Rightarrow> (u32 \<Rightarrow> u32 \<Rightarrow> CPUX86State \<Rightarrow> CPUX86State) \<Rightarrow> seg_reg \<Rightarrow> u32 \<Rightarrow> CPUX86State
     \<Rightarrow> excp + CPUX86State" where
  "helper_load_seg ldl stl sreg sel0 env =
     (let sel = sel0 AND 0xffff;
          cpl = hflags env AND 3
      in if sel AND 0xfffc = 0
         then if sreg = R_SS then Inl (Excp EXCP0D_GPF 0)
              else Inr (cpu_x86_load_seg_cache sreg sel 0 0 0 env)
         else case load_segment (ldl env) sel env of
           None \<Rightarrow> Inl (Excp EXCP0D_GPF (sel AND 0xfffc))
         | Some (ptr, e1, e2) \<Rightarrow>
             (let rpl = sel AND 3; dpl = dpl_of e2
              in if e2 AND 0x1000 = 0 then Inl (Excp EXCP0D_GPF (sel AND 0xfffc))
                 else if sreg = R_SS \<and> (e2 AND 0x800 \<noteq> 0 \<or> e2 AND 0x200 = 0 \<or> rpl \<noteq> cpl \<or> dpl \<noteq> cpl)
                 then Inl (Excp EXCP0D_GPF (sel AND 0xfffc))
                 else if sreg \<noteq> R_SS \<and> e2 AND (0x800 OR 0x200) = 0x800
                 then Inl (Excp EXCP0D_GPF (sel AND 0xfffc))
                 else if sreg \<noteq> R_SS \<and> (e2 AND 0x800 = 0 \<or> e2 AND 0x400 = 0) \<and> (dpl < cpl \<or> dpl < rpl)
                 then Inl (Excp EXCP0D_GPF (sel AND 0xfffc))
                 else if e2 AND 0x8000 = 0
                 then Inl (Excp (if sreg = R_SS then EXCP0C_STACK else EXCP0B_NOSEG) (sel AND 0xfffc))
                 else let env' = (if e2 AND 0x100 = 0 then stl (ptr + 4) (e2 OR 0x100) env else env);
                          e2' = (if e2 AND 0x100 = 0 then e2 OR 0x100 else e2)
                      in Inr (cpu_x86_load_seg_cache sreg sel (get_seg_base e1 e2') (get_seg_limit e1 e2') e2' env')))"

text \<open>
  \<open>helper_ljmp_protected\<close>: a jump to a code segment, or through a call gate. A jump to a task state
  segment or a task gate is the argument \<open>switch_tss\<close>.
\<close>

definition helper_ljmp_protected ::
    "(u32 \<Rightarrow> u32) \<Rightarrow> (u32 \<Rightarrow> u32 \<Rightarrow> u32 \<Rightarrow> u32 \<Rightarrow> CPUX86State \<Rightarrow> excp + CPUX86State) \<Rightarrow> u32 \<Rightarrow> u32 \<Rightarrow> u32
     \<Rightarrow> CPUX86State \<Rightarrow> excp + CPUX86State" where
  "helper_ljmp_protected ldl switch_tss new_cs new_eip next_eip_addend env =
     (let gpf = Inl (Excp EXCP0D_GPF (new_cs AND 0xfffc));
          cpl = hflags env AND 3;
          rpl = new_cs AND 3
      in if new_cs AND 0xfffc = 0 then Inl (Excp EXCP0D_GPF 0)
         else case load_segment ldl new_cs env of
           None \<Rightarrow> gpf
         | Some (ptr, e1, e2) \<Rightarrow>
             (let dpl = dpl_of e2; type = drop_bit 8 e2 AND 0xf
              in if e2 AND 0x1000 \<noteq> 0
                 then if e2 AND 0x800 = 0 then gpf
                      else if e2 AND 0x400 \<noteq> 0 \<and> dpl > cpl then gpf
                      else if e2 AND 0x400 = 0 \<and> (rpl > cpl \<or> dpl \<noteq> cpl) then gpf
                      else if e2 AND 0x8000 = 0 then Inl (Excp EXCP0B_NOSEG (new_cs AND 0xfffc))
                      else let limit = get_seg_limit e1 e2
                           in if new_eip > limit \<and> hflags env AND 0x4000 = 0 \<and> e2 AND 0x200000 = 0 then gpf
                              else Inr ((cpu_x86_load_seg_cache R_CS ((new_cs AND 0xfffc) OR cpl)
                                           (get_seg_base e1 e2) limit e2 env)\<lparr>r_eip := new_eip\<rparr>)
                 else if type = 1 \<or> type = 9 \<or> type = 5
                 then if dpl < cpl \<or> dpl < rpl then gpf
                      else switch_tss new_cs e1 e2 (r_eip env + next_eip_addend) env
                 else if type = 4 \<or> type = 12
                 then if dpl < cpl \<or> dpl < rpl then gpf
                      else if e2 AND 0x8000 = 0 then Inl (Excp EXCP0B_NOSEG (new_cs AND 0xfffc))
                      else (let gate_cs = drop_bit 16 e1;
                                eip = (if type = 12 then (e1 AND 0xffff) OR (e2 AND 0xffff0000) else e1 AND 0xffff);
                                gate_gpf = Inl (Excp EXCP0D_GPF (gate_cs AND 0xfffc))
                            in case load_segment ldl gate_cs env of
                                 None \<Rightarrow> gate_gpf
                               | Some (ptr, g1, g2) \<Rightarrow>
                                   if g2 AND (0x1000 OR 0x800) \<noteq> 0x1000 OR 0x800 then gate_gpf
                                   else if g2 AND 0x400 \<noteq> 0 \<and> dpl_of g2 > cpl
                                        \<or> g2 AND 0x400 = 0 \<and> dpl_of g2 \<noteq> cpl then gate_gpf
                                   else if g2 AND 0x8000 = 0 then gate_gpf
                                   else if eip > get_seg_limit g1 g2 then Inl (Excp EXCP0D_GPF 0)
                                   else Inr ((cpu_x86_load_seg_cache R_CS ((gate_cs AND 0xfffc) OR cpl)
                                                (get_seg_base g1 g2) (get_seg_limit g1 g2) g2 env)\<lparr>r_eip := eip\<rparr>))
                 else gpf))"

section \<open>The privilege level\<close>

lemma and_3_take_bit: "(x :: u32) AND 3 = take_bit 2 x"
  by (simp add: take_bit_eq_mask mask_eq_exp_minus_1)

lemma cpl_update_cr0 [simp]: "hflags (cpu_x86_update_cr0 v env) AND 3 = hflags env AND 3"
  by (simp add: cpu_x86_update_cr0_def Let_def and_3_take_bit take_bit_push_bit)

lemma cpl_load_seg_cache [simp]: "hflags (cpu_x86_load_seg_cache r sel b l f env) AND 3 = hflags env AND 3"
  by (simp add: cpu_x86_load_seg_cache_def load_seg_cache_def Let_def and_3_take_bit take_bit_drop_bit)

lemma load_seg_cache_simps [simp]:
  "segs (cpu_x86_load_seg_cache r sel b l f env) =
     (segs env)(r := \<lparr>selector = sel, seg_base = b, seg_limit = l, seg_flags = f\<rparr>)"
  "gdt (cpu_x86_load_seg_cache r sel b l f env) = gdt env" "ldt (cpu_x86_load_seg_cache r sel b l f env) = ldt env"
  "idt (cpu_x86_load_seg_cache r sel b l f env) = idt env" "cr0 (cpu_x86_load_seg_cache r sel b l f env) = cr0 env"
  "ram (cpu_x86_load_seg_cache r sel b l f env) = ram env" "r_eip (cpu_x86_load_seg_cache r sel b l f env) = r_eip env"
  by (simp_all add: cpu_x86_load_seg_cache_def load_seg_cache_def Let_def)

lemma update_cr0_simps [simp]:
  "segs (cpu_x86_update_cr0 v env) = segs env" "gdt (cpu_x86_update_cr0 v env) = gdt env"
  "ldt (cpu_x86_update_cr0 v env) = ldt env" "idt (cpu_x86_update_cr0 v env) = idt env"
  "cr0 (cpu_x86_update_cr0 v env) = v OR 0x10" "ram (cpu_x86_update_cr0 v env) = ram env"
  by (simp_all add: cpu_x86_update_cr0_def Let_def)

text \<open>A processor with everything zero, for concrete instances.\<close>

definition null_segment :: SegmentCache where
  "null_segment = \<lparr>selector = 0, seg_base = 0, seg_limit = 0, seg_flags = 0\<rparr>"

definition zero_cpu :: CPUX86State where
  "zero_cpu = \<lparr>r_eax = 0, r_ecx = 0, r_edx = 0, r_ebx = 0, r_esp = 0, r_ebp = 0, r_esi = 0, r_edi = 0, r_eip = 0,
     eflags = 0, hflags = 0, segs = (\<lambda>_. null_segment), ldt = null_segment, gdt = null_segment, idt = null_segment,
     cr0 = 0, cr3 = 0, cr4 = 0, cpuid_sse = True, cpuid_smap = False, msr = (\<lambda>_. 0), ram = (\<lambda>_. 0)\<rparr>"

end
