(* ===== verification/Xbox_Memory.thy ===== *)
theory Xbox_Memory
  imports X86_CPU
begin

text \<open>
  The console's physical memory as \<open>src/hw/xbox/xbox.c\<close> lays it out: RAM from zero, and the flash image
  repeated down from the top of the 32-bit address space, read-only to the guest. Every mirror is an
  alias of the one image. All other addresses belong to devices. Shown here: the loop that places the
  mirrors ends for every image it accepts, and where an address of the top 16 MB lands in the image.
\<close>

section \<open>The mirrors of the flash image\<close>

text \<open>
  The loop of \<open>xbox_memory_init\<close>. It is not structural, and for a size of zero it would not end, so
  that \<open>None\<close> stands for a loop that does not end.
\<close>

partial_function (option) bios_maps :: "u32 \<Rightarrow> u32 \<Rightarrow> u32 list option" where
  [code]: "bios_maps bios_size map_loc =
     (if map_loc \<ge> 0xff000000
      then Option.bind (bios_maps bios_size (map_loc - bios_size)) (\<lambda>locs. Some (map_loc # locs))
      else Some [])"

text \<open>The checks of \<open>xbox_memory_init\<close> on the size of the image, an \<open>int\<close>; the program exits when they fail.\<close>

definition xbox_bios_maps :: "int \<Rightarrow> u32 list option res" where
  "xbox_bios_maps bios_size =
     (if bios_size \<le> 0 \<or> bios_size mod 65536 \<noteq> 0 then Inl Exit_called
      else Inr (bios_maps (of_int bios_size) (of_int (- bios_size))))"

text \<open>The mirror that an address lies in, and its offset into the image.\<close>

definition flash_offset :: "u32 list \<Rightarrow> nat \<Rightarrow> hwaddr \<Rightarrow> nat option" where
  "flash_offset locs bios_size a =
     map_option (\<lambda>loc. unat (a - ucast loc))
       (find (\<lambda>loc. ucast loc \<le> a \<and> unat (a - ucast loc) < bios_size) locs)"

section \<open>Accesses\<close>

text \<open>
  The devices behind the rest of the address space and behind the I/O ports, with the operations on
  their state that an access performs.
\<close>

record 'd bus =
  ram_size :: hwaddr
  mmio_read :: "hwaddr \<Rightarrow> nat \<Rightarrow> 'd \<Rightarrow> (nat \<Rightarrow> u8) \<times> 'd"
  mmio_write :: "hwaddr \<Rightarrow> u8 list \<Rightarrow> 'd \<Rightarrow> 'd"
  pio_outb :: "u32 \<Rightarrow> u8 \<Rightarrow> 'd \<Rightarrow> 'd"
  pio_outl :: "u32 \<Rightarrow> u32 \<Rightarrow> 'd \<Rightarrow> 'd"
  pio_inb :: "u32 \<Rightarrow> 'd \<Rightarrow> u8 \<times> 'd"
  pio_inl :: "u32 \<Rightarrow> 'd \<Rightarrow> u32 \<times> 'd"

record 'd machine =
  cpu :: CPUX86State
  flash :: "u8 list"
  flash_locs :: "u32 list"
  devices :: 'd

definition flash_index :: "'d machine \<Rightarrow> hwaddr \<Rightarrow> nat option" where
  "flash_index m a = flash_offset (flash_locs m) (length (flash m)) a"

definition memory_byte :: "'d machine \<Rightarrow> hwaddr \<Rightarrow> u8" where
  "memory_byte m a = (case flash_index m a of Some off \<Rightarrow> flash m ! off | None \<Rightarrow> ram (cpu m) a)"

definition write_ram :: "hwaddr \<Rightarrow> u8 list \<Rightarrow> mem \<Rightarrow> mem" where
  "write_ram a bs r = fold (\<lambda>i r. r(a + of_nat i := bs ! i)) [0..<length bs] r"

text \<open>
  \<open>cpu_physical_memory_read\<close> and \<open>_write\<close> of an access that lies in one region: RAM and flash are read
  byte by byte, a write to flash has no effect, everything else is one access of a device.
\<close>

definition cpu_physical_memory_read :: "'d bus \<Rightarrow> hwaddr \<Rightarrow> nat \<Rightarrow> 'd machine \<Rightarrow> u8 list \<times> 'd machine" where
  "cpu_physical_memory_read bus a n m =
     (if a < ram_size bus \<or> flash_index m a \<noteq> None
      then (map (\<lambda>i. memory_byte m (a + of_nat i)) [0..<n], m)
      else let (b, d) = mmio_read bus a n (devices m) in (map b [0..<n], m\<lparr>devices := d\<rparr>))"

definition cpu_physical_memory_write :: "'d bus \<Rightarrow> hwaddr \<Rightarrow> u8 list \<Rightarrow> 'd machine \<Rightarrow> 'd machine" where
  "cpu_physical_memory_write bus a bs m =
     (if flash_index m a \<noteq> None then m
      else if a < ram_size bus then m\<lparr>cpu := (cpu m)\<lparr>ram := write_ram a bs (ram (cpu m))\<rparr>\<rparr>
      else m\<lparr>devices := mmio_write bus a bs (devices m)\<rparr>)"

text \<open>\<open>cpu_physical_memory_write_rom\<close> also writes the flash image, and never a device.\<close>

definition write_rom_byte :: "'d bus \<Rightarrow> hwaddr \<Rightarrow> u8 \<Rightarrow> 'd machine \<Rightarrow> 'd machine" where
  "write_rom_byte bus a b m =
     (case flash_index m a of
        Some off \<Rightarrow> m\<lparr>flash := (flash m)[off := b]\<rparr>
      | None \<Rightarrow> if a < ram_size bus then m\<lparr>cpu := (cpu m)\<lparr>ram := (ram (cpu m))(a := b)\<rparr>\<rparr> else m)"

definition cpu_physical_memory_write_rom :: "'d bus \<Rightarrow> hwaddr \<Rightarrow> u8 list \<Rightarrow> 'd machine \<Rightarrow> 'd machine" where
  "cpu_physical_memory_write_rom bus a bs m =
     fold (\<lambda>i m. write_rom_byte bus (a + of_nat i) (bs ! i) m) [0..<length bs] m"

section \<open>Where the mirrors are\<close>

text \<open>The \<open>k\<close>-th mirror from the top.\<close>

abbreviation mirror :: "nat \<Rightarrow> nat \<Rightarrow> u32" where
  "mirror s k \<equiv> - (of_nat (k * s))"

lemma unat_mirror:
  assumes "0 < k * s" "k * s < 2 ^ 32"
  shows "unat (mirror s k) = 2 ^ 32 - k * s"
proof -
  have "unat (of_nat (k * s) :: u32) = k * s"
    using assms by (subst unat_of_nat) (simp add: take_bit_nat_eq_self)
  then show ?thesis
    using assms unat_sub_if' [of 0 "of_nat (k * s) :: u32"] by (auto simp: word_le_nat_alt simp del: of_nat_mult)
qed

lemma mirror_at_top:
  assumes "0 < k * s" "k * s \<le> 0x2000000"
  shows "0xff000000 \<le> mirror s k \<longleftrightarrow> k * s \<le> 0x1000000"
proof -
  have "unat (mirror s k) = 2 ^ 32 - k * s" using assms by (intro unat_mirror) simp_all
  moreover have "0xff000000 \<le> 2 ^ 32 - q \<longleftrightarrow> q \<le> 0x1000000" for q :: nat by auto
  ultimately show ?thesis unfolding word_le_nat_alt by simp
qed

lemma bios_maps_from:
  assumes s: "0 < s" "s \<le> 0x1000000" and k: "k + n = Suc (0x1000000 div s)" "0 < k"
  shows "bios_maps (of_nat s) (mirror s k) = Some (map (mirror s) [k..<k + n])"
  using k
proof (induction n arbitrary: k)
  case 0
  then have "0 < k" by simp
  have "0x1000000 < k * s" using 0 s(1) by (simp add: dividend_less_times_div mult.commute)
  moreover have "k * s \<le> 0x1000000 + s" using 0 by simp
  ultimately have "\<not> 0xff000000 \<le> mirror s k" using s \<open>0 < k\<close> by (subst mirror_at_top) auto
  then show ?case by (subst bios_maps.simps) simp
next
  case (Suc n)
  have "k * s \<le> (0x1000000 div s) * s" using Suc.prems by (intro mult_right_mono) simp_all
  then have "k * s \<le> 0x1000000" by (rule order_trans) simp
  then have "0xff000000 \<le> mirror s k" using s Suc.prems by (subst mirror_at_top) auto
  moreover have "bios_maps (of_nat s) (mirror s k - of_nat s) = Some (map (mirror s) [Suc k..<Suc k + n])"
  proof -
    have "mirror s k - of_nat s = mirror s (Suc k)" by simp
    then show ?thesis using Suc.prems by (simp only:, intro Suc.IH) simp_all
  qed
  ultimately show ?case
    by (subst bios_maps.simps) (simp add: upt_conv_Cons del: of_nat_mult of_nat_Suc upt_Suc)
qed

lemma find_unique:
  "x \<in> set xs \<Longrightarrow> P x \<Longrightarrow> (\<And>y. y \<in> set xs \<Longrightarrow> P y \<Longrightarrow> y = x) \<Longrightarrow> find P xs = Some x"
proof (induction xs)
  case (Cons a xs)
  show ?case
  proof (cases "P a")
    case True
    then have "a = x" by (intro Cons.prems(3)) simp_all
    with True show ?thesis by simp
  next
    case False
    with Cons.prems(1,2) have "x \<in> set xs" by auto
    then have "find P xs = Some x" using Cons.prems(2,3) by (intro Cons.IH) simp_all
    with False show ?thesis by simp
  qed
qed simp

lemma flash_offset_unat:
  "flash_offset locs s a =
     map_option (\<lambda>loc. unat a - unat loc) (find (\<lambda>loc. unat loc \<le> unat a \<and> unat a - unat loc < s) locs)"
proof -
  have le: "ucast loc \<le> a \<longleftrightarrow> unat loc \<le> unat a" for loc :: u32
    unfolding word_le_nat_alt unat_ucast_u64 by (rule refl)
  have diff: "unat (a - ucast loc) = unat a - unat loc" if "unat loc \<le> unat a" for loc :: u32
    using that unat_sub_if' [of a "ucast loc"] unfolding unat_ucast_u64 by simp
  have eq: "(ucast loc \<le> a \<and> unat (a - ucast loc) < s) = (unat loc \<le> unat a \<and> unat a - unat loc < s)"
    for loc :: u32
    unfolding le using diff [of loc] by auto
  show ?thesis
  proof (cases "find (\<lambda>loc. unat loc \<le> unat a \<and> unat a - unat loc < s) locs")
    case None
    then show ?thesis unfolding flash_offset_def eq by simp
  next
    case (Some loc)
    then have "unat loc \<le> unat a" unfolding find_Some_iff by blast
    with Some diff show ?thesis unfolding flash_offset_def eq by simp
  qed
qed

text \<open>The mirror of an address that lies \<open>b\<close> bytes below the end of the address space.\<close>

lemma flash_offset_mirrors:
  assumes s: "0 < s" "s \<le> 0x1000000" and b: "0 < b" "b \<le> 0x1000000 div s * s" "unat a = 2 ^ 32 - b"
  shows "flash_offset (map (mirror s) [1..<Suc (0x1000000 div s)]) s a = Some ((0x1000000 div s * s - b) mod s)"
proof -
  define N where "N = 0x1000000 div s"
  define k where "k = Suc ((b - 1) div s)"
  have "0 < k" unfolding k_def by simp
  have Ns: "N * s \<le> 0x1000000" unfolding N_def by simp
  have unat_k: "unat (mirror s j) = 2 ^ 32 - j * s" if "0 < j" "j \<le> N" for j
  proof -
    have "j * s \<le> N * s" using that by simp
    with Ns have "j * s < 4294967296" by linarith
    with that s show ?thesis by (intro unat_mirror) simp_all
  qed
  have "(b - 1) div s * s + (b - 1) mod s = b - 1" by simp
  moreover have "(b - 1) mod s < s" using s by simp
  moreover have "k * s = s + (b - 1) div s * s" unfolding k_def by simp
  ultimately have k: "b \<le> k * s" "k * s < b + s" using b(1) by linarith+
  have kN: "k \<le> N"
  proof (rule ccontr)
    assume "\<not> k \<le> N"
    then have "Suc N * s \<le> k * s" by (intro mult_right_mono) simp_all
    with k b show False unfolding N_def [symmetric] by simp
  qed
  have in_k: "unat (mirror s j) \<le> unat a \<and> unat a - unat (mirror s j) < s \<longleftrightarrow> j = k" if j: "0 < j" "j \<le> N" for j
  proof -
    from j have "j * s \<le> N * s" by (intro mult_right_mono) simp_all
    then have *: "j * s \<le> 0x1000000" "b \<le> 0x1000000" using Ns b unfolding N_def by linarith+
    have "unat (mirror s j) \<le> unat a \<and> unat a - unat (mirror s j) < s \<longleftrightarrow> b \<le> j * s \<and> j * s < b + s"
      unfolding unat_k [OF j] b(3) using * by auto
    also have "\<dots> \<longleftrightarrow> j = k"
    proof
      assume "b \<le> j * s \<and> j * s < b + s"
      with k have "j * s < Suc k * s" "k * s < Suc j * s" by simp_all
      then show "j = k" using mult_less_cancel2 [of j s "Suc k"] mult_less_cancel2 [of k s "Suc j"] by simp
    qed (use k in simp)
    finally show ?thesis .
  qed
  have "find (\<lambda>loc. unat loc \<le> unat a \<and> unat a - unat loc < s) (map (mirror s) [1..<Suc N]) = Some (mirror s k)"
  proof (rule find_unique)
    show "mirror s k \<in> set (map (mirror s) [1..<Suc N])"
      unfolding set_map by (intro imageI) (use kN \<open>0 < k\<close> in auto)
    show "unat (mirror s k) \<le> unat a \<and> unat a - unat (mirror s k) < s" using in_k [of k] kN \<open>0 < k\<close> by blast
    fix loc
    assume "loc \<in> set (map (mirror s) [1..<Suc N])"
    then obtain j where "loc = mirror s j" "0 < j" "j \<le> N" by (auto simp del: of_nat_mult upt_Suc)
    moreover assume "unat loc \<le> unat a \<and> unat a - unat loc < s"
    ultimately show "loc = mirror s k" using in_k [of j] by blast
  qed
  moreover have "unat a - unat (mirror s k) = k * s - b"
  proof -
    have "k * s \<le> 0x1000000" using kN Ns order_trans [OF mult_right_mono] by blast
    then show ?thesis unfolding b(3) using unat_k [OF \<open>0 < k\<close> kN] k by simp
  qed
  moreover have "(N * s - b) mod s = k * s - b"
  proof -
    have "N * s = k * s + (N - k) * s" using kN by (metis add_mult_distrib le_add_diff_inverse)
    then have "N * s - b = k * s - b + (N - k) * s" using k(1) by linarith
    moreover have "k * s - b < s" using k by linarith
    ultimately show ?thesis by simp
  qed
  ultimately show ?thesis unfolding flash_offset_unat N_def [symmetric] by (simp del: of_nat_mult upt_Suc)
qed

lemma flash_offset_none:
  assumes s: "0 < s" "s \<le> 0x1000000" and a: "unat a < 2 ^ 32 - 0x1000000 div s * s \<or> 2 ^ 32 \<le> unat a"
  shows "flash_offset (map (mirror s) [1..<Suc (0x1000000 div s)]) s a = None"
proof -
  have "\<not> (unat (mirror s j) \<le> unat a \<and> unat a - unat (mirror s j) < s)" if j: "0 < j" "j \<le> 0x1000000 div s" for j
  proof -
    have le: "s \<le> j * s" "j * s \<le> 0x1000000 div s * s" using j by simp_all
    moreover have *: "0x1000000 div s * s \<le> 0x1000000" by simp
    ultimately have small: "j * s < 4294967296" by linarith
    have "unat (mirror s j) = 4294967296 - j * s" using small s j by (subst unat_mirror) simp_all
    moreover have "unat a < 4294967296 - 0x1000000 div s * s \<or> 4294967296 \<le> unat a" using a by simp
    ultimately show ?thesis using le small * by linarith
  qed
  then have "find (\<lambda>loc. unat loc \<le> unat a \<and> unat a - unat loc < s) (map (mirror s) [1..<Suc (0x1000000 div s)]) = None"
    unfolding find_None_iff by (auto simp del: of_nat_mult upt_Suc)
  then show ?thesis unfolding flash_offset_unat by simp
qed

lemma xbox_bios_maps_mirrors:
  assumes "0 < s" "s \<le> 0x1000000" "65536 dvd s"
  shows "xbox_bios_maps (int s) = Inr (Some (map (mirror s) [1..<Suc (0x1000000 div s)]))"
proof -
  have "0 < 0x1000000 div s" using assms by (simp add: div_greater_zero_iff)
  then have "bios_maps (of_nat s) (mirror s 1) = Some (map (mirror s) [1..<1 + 0x1000000 div s])"
    using assms by (intro bios_maps_from) simp_all
  moreover have "int s mod 65536 = 0" using assms(3) by (metis dvd_eq_mod_eq_0 int_dvd_int_iff of_nat_numeral)
  ultimately show ?thesis using assms(1) by (simp add: xbox_bios_maps_def del: upt_Suc)
qed

section \<open>Properties\<close>

text \<open>
  C29. The loop that maps the flash image at the top of memory ends for every image whose size is a
  multiple of 64 kB up to 16 MB, and the mirrors tile the top of the address space: the address \<open>b\<close> bytes
  below 4 GB reads the byte \<open>(N * s - b) mod s\<close> of the image of size \<open>s\<close>, where \<open>N\<close> mirrors fit into 16 MB,
  and no other address reads the image. So for a size that divides 16 MB, all of the top 16 MB is flash.
\<close>

theorem bios_mirrors:
  assumes "0 < s" "s \<le> 0x1000000" "65536 dvd s"
  shows "\<exists>locs. xbox_bios_maps (int s) = Inr (Some locs) \<and> length locs = 0x1000000 div s
    \<and> (\<forall>b. 0 < b \<and> b \<le> 0x1000000 div s * s \<longrightarrow>
         flash_offset locs s (of_nat (2 ^ 32 - b)) = Some ((0x1000000 div s * s - b) mod s))
    \<and> (\<forall>a. unat a < 2 ^ 32 - 0x1000000 div s * s \<or> 2 ^ 32 \<le> unat a \<longrightarrow> flash_offset locs s a = None)"
proof -
  have u: "unat (of_nat (2 ^ 32 - b) :: hwaddr) = 2 ^ 32 - b" for b :: nat
    by (subst unat_of_nat) (simp add: take_bit_nat_eq_self_iff)
  show ?thesis
    by (intro exI conjI allI impI, rule xbox_bios_maps_mirrors [OF assms], simp del: upt_Suc)
      (use flash_offset_mirrors [OF assms(1,2) _ _ u] flash_offset_none [OF assms(1,2)] in blast)+
qed

theorem bios_mirrors_witness:
  "(65536 :: nat) dvd 0x40000 \<and> (\<exists>locs. xbox_bios_maps 0x40000 = Inr (Some locs) \<and> length locs = 64
     \<and> flash_offset locs 0x40000 (of_nat (2 ^ 32 - 0x200)) = Some 0x3fe00)"
proof -
  have size: "0 < (0x40000 :: nat)" "(0x40000 :: nat) \<le> 0x1000000" "(65536 :: nat) dvd 0x40000" by simp_all
  obtain locs where "xbox_bios_maps (int 0x40000) = Inr (Some locs)" "length locs = 0x1000000 div 0x40000"
    and off: "\<forall>b. 0 < b \<and> b \<le> 0x1000000 div 0x40000 * 0x40000 \<longrightarrow>
      flash_offset locs 0x40000 (of_nat (2 ^ 32 - b)) = Some ((0x1000000 div 0x40000 * 0x40000 - b) mod 0x40000)"
    using bios_mirrors [OF size] by blast
  moreover have "flash_offset locs 0x40000 (of_nat (2 ^ 32 - 0x200)) = Some 0x3fe00"
    using off [rule_format, of "0x200"] by simp
  ultimately show ?thesis using size by auto
qed

end
