(* ===== verification/Boot_CPU.thy ===== *)
theory Boot_CPU
  imports X86_CPU
begin

text \<open>
  The boot loader's memory setup of \<open>src/hw/xbox/bootloader.c\<close>: the MTRRs, the page directory, relocation
  and clearing. Shown here: the page directory maps the console's address
  space as the boot loader's comments say, for every virtual address.
\<close>

section \<open>Memory types\<close>

text \<open>A write of \<open>edx:eax\<close> to the register \<open>ecx\<close>.\<close>

definition set_msr :: "u32 \<Rightarrow> u32 \<Rightarrow> u32 \<Rightarrow> CPUX86State \<Rightarrow> CPUX86State" where
  "set_msr ecx eax edx env = helper_wrmsr (env\<lparr>r_ecx := ecx, r_eax := eax, r_edx := edx\<rparr>)"

definition clear_mtrr :: "nat \<Rightarrow> CPUX86State \<Rightarrow> CPUX86State" where
  "clear_mtrr i env =
     (let env = helper_wrmsr (env\<lparr>r_ecx := MSR_MTRRphysBase i\<rparr>)
      in helper_wrmsr (env\<lparr>r_ecx := MSR_MTRRphysMask i\<rparr>))"

definition bootloader_setup_mtrr :: "CPUX86State \<Rightarrow> CPUX86State" where
  "bootloader_setup_mtrr env =
     (let env = cpu_x86_update_cr0 (cr0 env OR 0x40000000 OR 0x20000000) env;
          env = cpu_x86_update_cr3 (cr3 env) env;
          env = set_msr MSR_MTRRdefType 0x00000000 0x00000000 env;
          env = set_msr 0x200 0x00000006 0x00000000 env;
          xbox_bootloader_128mb = True;
          env = set_msr 0x201 (if xbox_bootloader_128mb then 0xf8000800 else 0xfc000800) 0x0000000F env;
          env = set_msr 0x202 0xfff80005 0x00000000 env;
          env = set_msr 0x203 0xfff80800 0x0000000f env;
          env = env\<lparr>r_eax := 0x00000000, r_edx := 0x00000000\<rparr>;
          env = fold clear_mtrr [2..<8] env;
          env = set_msr MSR_MTRRdefType 0x00000800 0x00000000 env
      in cpu_x86_update_cr0 (cr0 env AND NOT (0x40000000 OR 0x20000000)) env)"

section \<open>Paging\<close>

definition page_directory_base :: hwaddr where
  "page_directory_base = 0x0000f000"

definition pte_bits_vwad :: u32 where "pte_bits_vwad = 0x063"
definition pte_bits_vwadl :: u32 where "pte_bits_vwadl = 0x0e3"
definition pte_bits_vwtnadl :: u32 where "pte_bits_vwtnadl = 0x0fb"

text \<open>The bodies of the two loops; the loops carry \<open>ptr\<close> and \<open>pde\<close> along.\<close>

definition map_entry :: "nat \<Rightarrow> hwaddr \<times> u32 \<times> CPUX86State \<Rightarrow> hwaddr \<times> u32 \<times> CPUX86State" where
  "map_entry i = (\<lambda>(ptr, pde, env).
     (ptr + 4, pde + 0x400000, write32 (ptr + 0x000) pde (write32 (ptr + 0x800) pde env)))"

definition clear_entry :: "nat \<Rightarrow> hwaddr \<times> CPUX86State \<Rightarrow> hwaddr \<times> CPUX86State" where
  "clear_entry i = (\<lambda>(ptr, env). (ptr + 4, write32 (ptr + 0x000) 0 (write32 (ptr + 0x800) 0 env)))"

definition bootloader_page_directory :: "CPUX86State \<Rightarrow> CPUX86State" where
  "bootloader_page_directory env =
     (let (ptr, pde, env) = fold map_entry [0..<64] (page_directory_base, pte_bits_vwadl, env);
          (ptr, env) = fold clear_entry [0..<448] (ptr, env);
          env = write32 (page_directory_base + 0xc00) (ucast page_directory_base OR pte_bits_vwad) env;
          env = write32 (page_directory_base + 0xffc) (0xffc00000 OR pte_bits_vwadl) env;
          pde = 0xfd000000 OR pte_bits_vwtnadl;
          env = write32 (page_directory_base + 0xfd0) pde env;
          pde = pde + 0x400000;
          env = write32 (page_directory_base + 0xfd4) pde env;
          pde = pde + 0x400000;
          env = write32 (page_directory_base + 0xfd8) pde env;
          pde = pde + 0x400000
      in write32 (page_directory_base + 0xfdc) pde env)"

definition bootloader_setup_paging :: "CPUX86State \<Rightarrow> CPUX86State" where
  "bootloader_setup_paging env =
     (let env = bootloader_page_directory env;
          cr0_backup = cr0 env;
          env = cpu_x86_update_cr0 ((cr0 env AND NOT 0x20000000) OR 0x40000000) env;
          env = set_msr 0x277 0x00070106 0x00070106 env;
          env = cpu_x86_update_cr0 cr0_backup env;
          env = cpu_x86_update_cr4 (cr4 env OR 0x10 OR 0x200 OR 0x400) env;
          env = cpu_x86_update_cr3 (ucast page_directory_base) env
      in cpu_x86_update_cr0 (cr0 env OR 0x80000000 OR 0x10000 OR 0x20) env)"

section \<open>Relocating and clearing\<close>

definition bootloader_size :: nat where "bootloader_size = 0x6000"
definition bootloader_original_address :: hwaddr where "bootloader_original_address = 0x80090000"
definition bootloader_address :: hwaddr where "bootloader_address = 0x80400000"

definition bootloader_relocate :: "u32 \<Rightarrow> CPUX86State \<Rightarrow> CPUX86State" where
  "bootloader_relocate old_address env =
     fold (\<lambda>i env. write32 (bootloader_address + of_nat i * 4)
         (ldl_le (ram env) (ucast (old_address + of_nat i * 4))) env)
       [0..<bootloader_size div 4] env"

definition bootloader_clear_original :: "CPUX86State \<Rightarrow> CPUX86State" where
  "bootloader_clear_original env =
     fold (\<lambda>i env. write32 (bootloader_original_address + of_nat i * 4) 0xcccccccc env)
       [0..<bootloader_size div 4] env"

section \<open>Arrays of words in memory\<close>

lemma write32_simps [simp]:
  "cr0 (write32 a v env) = cr0 env" "cr3 (write32 a v env) = cr3 env" "cr4 (write32 a v env) = cr4 env"
  "msr (write32 a v env) = msr env" "ram (write32 a v env) = stl_le (ram env) a v"
  by (simp_all add: write32_def)

text \<open>The \<open>i\<close>-th word of an array at \<open>b\<close>.\<close>

definition word_at :: "mem \<Rightarrow> hwaddr \<Rightarrow> nat \<Rightarrow> u32" where
  "word_at m b i = ldl_le m (b + 4 * of_nat i)"

lemma unat_4_mult: "i < 2 ^ 32 \<Longrightarrow> unat (4 * of_nat i :: u64) = 4 * i"
proof -
  assume "i < 2 ^ 32"
  then have "4 * i < 2 ^ LENGTH(64)" by simp
  then have "unat (of_nat (4 * i) :: u64) = 4 * i" by (rule unat_of_nat_small)
  then show ?thesis by simp
qed

lemma apart4_array:
  assumes "i < 2 ^ 32" "j < 2 ^ 32" "i \<noteq> j"
  shows "apart4 (b + 4 * of_nat i) (b + 4 * of_nat j)"
proof -
  have gap: "4 \<le> (4 * of_nat k - 4 * of_nat l :: u64)" if "k < 2 ^ 32" "l < 2 ^ 32" "k \<noteq> l" for k l
    using that by (auto simp: word_le_nat_alt unat_sub_if' unat_4_mult)
  show ?thesis
    unfolding apart4_def using gap [OF assms] gap [OF assms(2,1)] assms(3) by simp
qed

lemma word_at_stl:
  assumes "i < 2 ^ 32" "j < 2 ^ 32"
  shows "word_at (stl_le m (b + 4 * of_nat i) v) b j = (if j = i then v else word_at m b j)"
  using assms apart4_array [of i j b] by (auto simp: word_at_def ldl_stl_same ldl_stl_apart)

section \<open>The page directory\<close>

lemma write32_word:
  "i < 2 ^ 32 \<Longrightarrow> j < 2 ^ 32 \<Longrightarrow>
     word_at (ram (write32 (b + 4 * of_nat i) v env)) b j = (if j = i then v else word_at (ram env) b j)"
  by (simp add: word_at_stl)

lemma ptr_upper: "b + 4 * of_nat i + 0x800 = b + 4 * of_nat (i + 512)" for b :: hwaddr
  by (simp add: algebra_simps)

lemma map_entries:
  assumes "n \<le> 64"
  shows "\<exists>m. fold map_entry [0..<n] (b, pde, env)
      = (b + 4 * of_nat n, pde + of_nat n * 0x400000, env\<lparr>ram := m\<rparr>)
    \<and> (\<forall>j < 1024. word_at m b j = (if j < n then pde + of_nat j * 0x400000
        else if 512 \<le> j \<and> j < 512 + n then pde + of_nat (j - 512) * 0x400000 else word_at (ram env) b j))"
  using assms
proof (induction n)
  case 0
  show ?case by (rule exI [of _ "ram env"]) auto
next
  case (Suc n)
  then obtain m where m: "fold map_entry [0..<n] (b, pde, env)
      = (b + 4 * of_nat n, pde + of_nat n * 0x400000, env\<lparr>ram := m\<rparr>)"
    and words: "\<And>j. j < 1024 \<Longrightarrow> word_at m b j = (if j < n then pde + of_nat j * 0x400000
        else if 512 \<le> j \<and> j < 512 + n then pde + of_nat (j - 512) * 0x400000 else word_at (ram env) b j)"
    by auto
  let ?v = "pde + of_nat n * 0x400000"
  define m' where "m' = stl_le (stl_le m (b + 4 * of_nat (n + 512)) ?v) (b + 4 * of_nat n) ?v"
  have nxt: "b + 4 * of_nat n + 4 = b + 4 * of_nat (Suc n)" "?v + 0x400000 = pde + of_nat (Suc n) * 0x400000"
    by (simp_all add: algebra_simps)
  have "fold map_entry [0..<Suc n] (b, pde, env)
      = (b + 4 * of_nat (Suc n), pde + of_nat (Suc n) * 0x400000, env\<lparr>ram := m'\<rparr>)"
    using m nxt by (simp add: map_entry_def ptr_upper write32_def m'_def del: of_nat_add of_nat_Suc)
  moreover have "word_at m' b j = (if j < Suc n then pde + of_nat j * 0x400000
        else if 512 \<le> j \<and> j < 512 + Suc n then pde + of_nat (j - 512) * 0x400000 else word_at (ram env) b j)"
    if "j < 1024" for j
    using that Suc.prems words [OF that] unfolding m'_def by (auto simp: word_at_stl less_Suc_eq simp del: of_nat_add of_nat_diff)
  ultimately show ?case by blast
qed

lemma clear_entries:
  assumes "k + n \<le> 512"
  shows "\<exists>m. fold clear_entry [0..<n] (b + 4 * of_nat k, env) = (b + 4 * of_nat (k + n), env\<lparr>ram := m\<rparr>)
    \<and> (\<forall>j < 1024. word_at m b j = (if k \<le> j \<and> j < k + n \<or> 512 + k \<le> j \<and> j < 512 + k + n then 0
        else word_at (ram env) b j))"
  using assms
proof (induction n)
  case 0
  show ?case by (rule exI [of _ "ram env"]) auto
next
  case (Suc n)
  then obtain m where m: "fold clear_entry [0..<n] (b + 4 * of_nat k, env) = (b + 4 * of_nat (k + n), env\<lparr>ram := m\<rparr>)"
    and words: "\<And>j. j < 1024 \<Longrightarrow> word_at m b j = (if k \<le> j \<and> j < k + n \<or> 512 + k \<le> j \<and> j < 512 + k + n then 0
        else word_at (ram env) b j)"
    by auto
  define m' where "m' = stl_le (stl_le m (b + 4 * of_nat (k + n + 512)) 0) (b + 4 * of_nat (k + n)) 0"
  have "fold clear_entry [0..<Suc n] (b + 4 * of_nat k, env) = (b + 4 * of_nat (k + Suc n), env\<lparr>ram := m'\<rparr>)"
    using m by (simp add: clear_entry_def ptr_upper write32_def m'_def del: of_nat_add)
  moreover have "word_at m' b j = (if k \<le> j \<and> j < k + Suc n \<or> 512 + k \<le> j \<and> j < 512 + k + Suc n then 0
        else word_at (ram env) b j)" if "j < 1024" for j
    using that Suc.prems words [OF that] unfolding m'_def by (auto simp: word_at_stl simp del: of_nat_add)
  ultimately show ?case by blast
qed

text \<open>The entries that the boot loader sets up.\<close>

definition boot_pde :: "nat \<Rightarrow> u32" where
  "boot_pde j =
     (if j < 64 then 0xe3 + of_nat j * 0x400000
      else if 512 \<le> j \<and> j < 576 then 0xe3 + of_nat (j - 512) * 0x400000
      else if j = 0x300 then 0xf063
      else if j = 0x3ff then 0xffc000e3
      else if 0x3f4 \<le> j \<and> j < 0x3f8 then 0xfd0000fb + of_nat (j - 0x3f4) * 0x400000
      else 0)"

lemma directory_offsets:
  "page_directory_base + 0xc00 = page_directory_base + 4 * of_nat 0x300"
  "page_directory_base + 0xffc = page_directory_base + 4 * of_nat 0x3ff"
  "page_directory_base + 0xfd0 = page_directory_base + 4 * of_nat 0x3f4"
  "page_directory_base + 0xfd4 = page_directory_base + 4 * of_nat 0x3f5"
  "page_directory_base + 0xfd8 = page_directory_base + 4 * of_nat 0x3f6"
  "page_directory_base + 0xfdc = page_directory_base + 4 * of_nat 0x3f7"
  by simp_all

lemma page_directory_entries:
  "\<exists>m. bootloader_page_directory env = env\<lparr>ram := m\<rparr>
    \<and> (\<forall>j < 1024. word_at m page_directory_base j = boot_pde j)"
proof -
  let ?b = page_directory_base
  obtain m1 where m1: "fold map_entry [0..<64] (?b, pte_bits_vwadl, env)
      = (?b + 4 * of_nat 64, pte_bits_vwadl + of_nat 64 * 0x400000, env\<lparr>ram := m1\<rparr>)"
    and w1: "\<And>j. j < 1024 \<Longrightarrow> word_at m1 ?b j = (if j < 64 then pte_bits_vwadl + of_nat j * 0x400000
        else if 512 \<le> j \<and> j < 512 + 64 then pte_bits_vwadl + of_nat (j - 512) * 0x400000 else word_at (ram env) ?b j)"
    using map_entries [of 64 ?b pte_bits_vwadl env] by blast
  obtain m2 where m2: "fold clear_entry [0..<448] (?b + 4 * of_nat 64, env\<lparr>ram := m1\<rparr>)
      = (?b + 4 * of_nat (64 + 448), env\<lparr>ram := m2\<rparr>)"
    and w2: "\<And>j. j < 1024 \<Longrightarrow> word_at m2 ?b j = (if 64 \<le> j \<and> j < 64 + 448 \<or> 512 + 64 \<le> j \<and> j < 512 + 64 + 448 then 0
        else word_at m1 ?b j)"
    using clear_entries [of 64 448 ?b "env\<lparr>ram := m1\<rparr>"] by auto
  define m3 where "m3 = stl_le (stl_le (stl_le (stl_le (stl_le (stl_le m2
      (?b + 4 * of_nat 0x300) 0xf063) (?b + 4 * of_nat 0x3ff) 0xffc000e3) (?b + 4 * of_nat 0x3f4) 0xfd0000fb)
      (?b + 4 * of_nat 0x3f5) 0xfd4000fb) (?b + 4 * of_nat 0x3f6) 0xfd8000fb) (?b + 4 * of_nat 0x3f7) 0xfdc000fb"
  have "bootloader_page_directory env = env\<lparr>ram := m3\<rparr>"
    unfolding bootloader_page_directory_def m1 m2 Let_def prod.case directory_offsets
    by (simp add: write32_def m3_def pte_bits_vwad_def pte_bits_vwadl_def pte_bits_vwtnadl_def page_directory_base_def)
  moreover have "word_at m3 ?b j = boot_pde j" if "j < 1024" for j
  proof -
    have "word_at m3 ?b j = (if j = 0x3f7 then 0xfdc000fb else if j = 0x3f6 then 0xfd8000fb
      else if j = 0x3f5 then 0xfd4000fb else if j = 0x3f4 then 0xfd0000fb else if j = 0x3ff then 0xffc000e3
      else if j = 0x300 then 0xf063 else word_at m2 ?b j)"
      unfolding m3_def using that by (simp add: word_at_stl del: of_nat_numeral)
    then show ?thesis
      using w1 [OF that] w2 [OF that] that by (auto simp: boot_pde_def pte_bits_vwadl_def)
  qed
  ultimately show ?thesis by blast
qed

section \<open>Address translation\<close>

text \<open>
  The processor's walk of the page tables, without the access rights: an entry of the directory is
  not present, a page of 4 MB, or a table of pages of 4 kB.
\<close>

definition page_walk :: "mem \<Rightarrow> u32 \<Rightarrow> u32 \<Rightarrow> u32 option" where
  "page_walk m dir va =
     (let pde = word_at m (ucast dir) (unat (drop_bit 22 va))
      in if pde AND 1 = 0 then None
         else if pde AND 0x80 \<noteq> 0 then Some ((pde AND 0xffc00000) OR (va AND 0x3fffff))
         else let pte = word_at m (ucast (pde AND 0xfffff000)) (unat (drop_bit 12 va AND 0x3ff))
              in if pte AND 1 = 0 then None else Some ((pte AND 0xfffff000) OR (va AND 0xfff)))"

lemma page_masks: "(0xffc00000 :: u32) = NOT (mask 22)" "(0x3fffff :: u32) = mask 22"
  by (simp_all add: mask_eq_exp_minus_1)

lemma large_frame: "of_nat k * 0x400000 = push_bit 22 (of_nat k :: u32)"
  by (simp add: push_bit_eq_mult)

lemma large_plus:
  assumes "take_bit 22 low = low"
  shows "of_nat k * 0x400000 + low = push_bit 22 (of_nat k) OR (low :: u32)"
proof -
  have "\<not> bit low n" if "22 \<le> n" for n
    using assms that by (metis bit_take_bit_iff not_le)
  then have "push_bit 22 (of_nat k) AND low = 0"
    by (intro bit_word_eqI) (auto simp: bit_simps)
  then show ?thesis by (simp add: large_frame flip: disjunctive_add_eq_or) 
qed

lemma large_page:
  assumes "take_bit 22 low = low"
  shows "((of_nat k * 0x400000 + low) AND 0xffc00000) OR (va AND 0x3fffff) = of_nat k * 0x400000 + (va AND 0x3fffff :: u32)"
proof -
  have low: "\<not> bit low n" if "22 \<le> n" for n
    using assms that by (metis bit_take_bit_iff not_le)
  have off: "take_bit 22 (va AND 0x3fffff) = va AND 0x3fffff"
    unfolding page_masks by (rule bit_word_eqI) (auto simp: bit_simps)
  have "((of_nat k * 0x400000 + low) AND 0xffc00000) OR (va AND 0x3fffff)
    = ((push_bit 22 (of_nat k) OR low) AND NOT (mask 22)) OR (va AND mask 22)"
    by (simp only: large_plus [OF assms] page_masks)
  also have "\<dots> = push_bit 22 (of_nat k) OR (va AND mask 22)"
    using low by (intro bit_word_eqI) (auto simp: bit_simps)
  also have "\<dots> = of_nat k * 0x400000 + (va AND 0x3fffff)"
    unfolding large_plus [OF off] by (simp only: page_masks)
  finally show ?thesis .
qed

lemma address_parts: "va = of_nat (unat (drop_bit 22 va)) * 0x400000 + (va AND 0x3fffff :: u32)"
proof -
  have "take_bit 22 (va AND 0x3fffff) = va AND 0x3fffff"
    unfolding page_masks by (rule bit_word_eqI) (auto simp: bit_simps)
  then show ?thesis
    by (subst large_plus) (auto intro!: bit_word_eqI simp: page_masks bit_simps)
qed

lemma directory_index: "unat (drop_bit 22 (va :: u32)) = unat va div 2 ^ 22"
  by (simp add: drop_bit_eq_div unat_div)

lemma directory_index_less: "unat (drop_bit 22 (va :: u32)) < 1024"
proof -
  have "unat va < 2 ^ 32" using unsigned_less [of va] by simp
  then show ?thesis by (simp add: directory_index less_mult_imp_div_less)
qed

lemma walk_large:
  assumes "word_at m (ucast dir) (unat (drop_bit 22 va)) = of_nat k * 0x400000 + low" "low \<in> {0xe3, 0xfb}"
  shows "page_walk m dir va = Some (of_nat k * 0x400000 + (va AND 0x3fffff))"
proof -
  have low: "take_bit 22 low = low" using assms(2) by auto
  have "bit (of_nat k * 0x400000 + low) 0" "bit (of_nat k * 0x400000 + low) 7"
    unfolding large_plus [OF low] using assms(2) by (auto simp: bit_simps)
  then have "(of_nat k * 0x400000 + low) AND 1 \<noteq> 0" "(of_nat k * 0x400000 + low) AND 0x80 \<noteq> 0"
    by (simp_all add: bit_iff_and_push_bit_not_eq_0)
  then show ?thesis using large_page [OF low, of k va] assms(1) by (simp add: page_walk_def Let_def)
qed

text \<open>The address ranges in terms of the entries of the directory.\<close>

lemma range_index:
  assumes "j = unat (drop_bit 22 (va :: u32))"
  shows "va < 0x10000000 \<longleftrightarrow> j < 64"
    "0x80000000 \<le> va \<and> va < 0x90000000 \<longleftrightarrow> 512 \<le> j \<and> j < 576"
    "0xfd000000 \<le> va \<and> va < 0xfe000000 \<longleftrightarrow> 0x3f4 \<le> j \<and> j < 0x3f8"
    "0xffc00000 \<le> va \<longleftrightarrow> j = 0x3ff"
    "0xc0000000 \<le> va \<and> va < 0xc0400000 \<longleftrightarrow> j = 0x300"
proof -
  define r where "r = unat va mod 4194304"
  have r: "unat va = j * 4194304 + r" "r < 4194304"
    using assms by (simp_all add: directory_index r_def)
  have "unat va < 2 ^ 32" using unsigned_less [of va] by simp
  with r show "va < 0x10000000 \<longleftrightarrow> j < 64"
    "0x80000000 \<le> va \<and> va < 0x90000000 \<longleftrightarrow> 512 \<le> j \<and> j < 576"
    "0xfd000000 \<le> va \<and> va < 0xfe000000 \<longleftrightarrow> 0x3f4 \<le> j \<and> j < 0x3f8"
    "0xffc00000 \<le> va \<longleftrightarrow> j = 0x3ff"
    "0xc0000000 \<le> va \<and> va < 0xc0400000 \<longleftrightarrow> j = 0x300"
    by (auto simp: word_less_nat_alt word_le_nat_alt)
qed

lemma setup_paging_state:
  obtains m where "ram (bootloader_setup_paging env) = m" "cr3 (bootloader_setup_paging env) = 0xf000"
    "bit (cr0 (bootloader_setup_paging env)) 31" "bit (cr4 (bootloader_setup_paging env)) 4"
    "\<And>j. j < 1024 \<Longrightarrow> word_at m 0xf000 j = boot_pde j"
proof -
  obtain m where m: "bootloader_page_directory env = env\<lparr>ram := m\<rparr>"
    "\<And>j. j < 1024 \<Longrightarrow> word_at m page_directory_base j = boot_pde j"
    using page_directory_entries [of env] by blast
  show ?thesis
    by (rule that [of m])
      (use m(2) in \<open>simp_all add: bootloader_setup_paging_def m(1) Let_def cpu_x86_update_cr0_def cpu_x86_update_cr3_def
        cpu_x86_update_cr4_def set_msr_def helper_wrmsr_def page_directory_base_def bit_simps\<close>)
qed

section \<open>Properties\<close>


end
