(* ===== verification/MCPX_ROM.thy ===== *)
theory MCPX_ROM
  imports Xbox_Memory Boot_CPU
begin

text \<open>
  The southbridge's boot ROM of \<open>src/hw/xbox/mcpx_rom.c\<close> and \<open>src/hw/xbox/mcpx.c\<close>: laying the ROM over the
  flash image and taking it away, the switch to protected mode, and the interpreter of the X-codes, the
  little instruction set that the flash image initialises the machine with. The second stage boot
  loader that the emulation enters at its end is an argument. Shown here: hiding the ROM restores the
  flash image, the generated ROM gives flat segments, the interpreter executes an assembled program as
  the instructions' meaning says, and no X-code can read the ROM.
\<close>

section \<open>State\<close>

record XBOX_MCPX_ROMState =
  hle_mcpx_rom_code :: bool
  hle_2bl_code :: bool
  load_kernel :: bool
  enabled :: bool
  bootrom_data :: "u8 list"
  flash_data :: "u8 list"

record XBOX_MCPXState =
  xmode :: u8
  revision :: u8
  rom :: XBOX_MCPX_ROMState

definition bootrom_addr :: hwaddr where "bootrom_addr = 0xFFFFFE00"
definition bootrom_dt_offset :: hwaddr where "bootrom_dt_offset = 0x1D8"
definition bootrom_dt_pointer_offset :: hwaddr where "bootrom_dt_pointer_offset = 0x1F4"
definition bootrom_size :: nat where "bootrom_size = 0x200"

section \<open>Laying the ROM over the flash image\<close>

definition mcpx_rom_hide :: "'d bus \<Rightarrow> XBOX_MCPXState \<times> 'd machine \<Rightarrow> XBOX_MCPXState \<times> 'd machine" where
  "mcpx_rom_hide bus = (\<lambda>(s, m).
     let m = (if enabled (rom s) then cpu_physical_memory_write_rom bus bootrom_addr (flash_data (rom s)) m else m)
     in (s\<lparr>rom := (rom s)\<lparr>enabled := False\<rparr>\<rparr>, m))"

definition u32_bytes :: "u32 \<Rightarrow> u8 list" where
  "u32_bytes v = [byte_of 0 v, byte_of 1 v, byte_of 2 v, byte_of 3 v]"

definition dt :: "u32 list" where
  "dt = [0x00000000, 0x00000000, 0x0000ffff, 0x00CF9b00, 0x0000ffff, 0x00CF9300]"

definition dt_pointer :: "u8 list" where
  "dt_pointer = [0x18, 0x00, 0xd8, 0xff, 0xff, 0xff]"

definition mcpx_rom_show :: "'d bus \<Rightarrow> XBOX_MCPXState \<times> 'd machine \<Rightarrow> XBOX_MCPXState \<times> 'd machine" where
  "mcpx_rom_show bus = (\<lambda>(s, m).
     let (s, m) =
       (if \<not> enabled (rom s)
        then let (bs, m) = cpu_physical_memory_read bus bootrom_addr bootrom_size m;
                 s = s\<lparr>rom := (rom s)\<lparr>flash_data := bs\<rparr>\<rparr>
             in if hle_mcpx_rom_code (rom s)
                then let m = cpu_physical_memory_write_rom bus (bootrom_addr + bootrom_dt_offset) (concat (map u32_bytes dt)) m
                     in (s, cpu_physical_memory_write_rom bus (bootrom_addr + bootrom_dt_pointer_offset) dt_pointer m)
                else (s, cpu_physical_memory_write_rom bus bootrom_addr (bootrom_data (rom s)) m)
        else (s, m))
     in (s\<lparr>rom := (rom s)\<lparr>enabled := True\<rparr>\<rparr>, m))"

text \<open>
  \<open>mcpx_rom_init\<close> and \<open>load_mcpx_rom\<close>: the ROM comes from the file that the machine option names, when
  it is found and has the right size; a file of another size is reported and not loaded.
\<close>

definition load_mcpx_rom :: "u8 list option \<Rightarrow> XBOX_MCPXState \<Rightarrow> int \<times> XBOX_MCPXState" where
  "load_mcpx_rom file s =
     (case file of
        Some img \<Rightarrow> if length img \<noteq> bootrom_size then (-1, s) else (0, s\<lparr>rom := (rom s)\<lparr>bootrom_data := img\<rparr>\<rparr>)
      | None \<Rightarrow> (0, s))"

definition mcpx_rom_init :: "(string \<Rightarrow> u8 list option) \<Rightarrow> string option \<Rightarrow> XBOX_MCPXState \<Rightarrow> XBOX_MCPXState" where
  "mcpx_rom_init find_file mcpx_rom s =
     (let s = s\<lparr>rom := (rom s)\<lparr>enabled := False\<rparr>\<rparr>
      in case mcpx_rom of
           Some name \<Rightarrow> snd (load_mcpx_rom (find_file name) (s\<lparr>rom := (rom s)\<lparr>hle_mcpx_rom_code := False\<rparr>\<rparr>))
         | None \<Rightarrow> s\<lparr>rom := (rom s)\<lparr>hle_mcpx_rom_code := True\<rparr>\<rparr>)"

definition mcpx_init :: "(string \<Rightarrow> u8 list option) \<Rightarrow> string option \<Rightarrow> XBOX_MCPXState \<Rightarrow> XBOX_MCPXState" where
  "mcpx_init find_file mcpx_rom s =
     (let s = s\<lparr>xmode := 0x3, revision := 0xB2\<rparr>
      in if xmode s = 0x3 then mcpx_rom_init find_file mcpx_rom s else s)"

section \<open>Protected mode\<close>

definition le16 :: "u8 list \<Rightarrow> u16" where
  "le16 bs = ucast (bs ! 0) OR push_bit 8 (ucast (bs ! 1))"

definition le_u32 :: "u8 list \<Rightarrow> u32" where
  "le_u32 bs = le32 (bs ! 0) (bs ! 1) (bs ! 2) (bs ! 3)"

text \<open>The processor's own accesses to the descriptor tables, which lie in flash or in RAM.\<close>

definition kernel_ldl :: "'d machine \<Rightarrow> CPUX86State \<Rightarrow> u32 \<Rightarrow> u32" where
  "kernel_ldl m env a = le_u32 (map (\<lambda>i. memory_byte (m\<lparr>cpu := env\<rparr>) (ucast a + of_nat i)) [0..<4])"

definition kernel_stl :: "'d machine \<Rightarrow> u32 \<Rightarrow> u32 \<Rightarrow> CPUX86State \<Rightarrow> CPUX86State" where
  "kernel_stl m a v env =
     (if flash_index m (ucast a) \<noteq> None then env else env\<lparr>ram := stl_le (ram env) (ucast a) v\<rparr>)"

definition mcpx_rom_switch_to_protected_mode ::
    "(u32 \<Rightarrow> u32 \<Rightarrow> u32 \<Rightarrow> u32 \<Rightarrow> CPUX86State \<Rightarrow> excp + CPUX86State) \<Rightarrow> 'd bus \<Rightarrow> 'd machine \<Rightarrow> excp + 'd machine" where
  "mcpx_rom_switch_to_protected_mode switch_tss bus m =
     (let (limit, m) = cpu_physical_memory_read bus (bootrom_addr + bootrom_dt_pointer_offset + 0) 2 m;
          (base, m) = cpu_physical_memory_read bus (bootrom_addr + bootrom_dt_pointer_offset + 2) 4 m;
          env = cpu m;
          env = env\<lparr>gdt := (gdt env)\<lparr>seg_limit := ucast (le16 limit), seg_base := le_u32 base\<rparr>,
                     idt := (idt env)\<lparr>seg_limit := ucast (le16 limit), seg_base := le_u32 base\<rparr>\<rparr>;
          env = cpu_x86_update_cr0 (cr0 env OR 1) env;
          load_seg = helper_load_seg (kernel_ldl m) (kernel_stl m)
      in case helper_ljmp_protected (kernel_ldl m env) switch_tss 0x8 0xfffffe00 0 env of
           Inl e \<Rightarrow> Inl e
         | Inr env \<Rightarrow> (case load_seg R_DS 0x10 env of
           Inl e \<Rightarrow> Inl e
         | Inr env \<Rightarrow> (case load_seg R_ES 0x10 env of
           Inl e \<Rightarrow> Inl e
         | Inr env \<Rightarrow> (case load_seg R_SS 0x10 env of
           Inl e \<Rightarrow> Inl e
         | Inr env \<Rightarrow> Inr (m\<lparr>cpu := env\<rparr>)))))"

section \<open>The X-code interpreter\<close>

text \<open>The local variables of the interpreter.\<close>

record xcode =
  x_pc :: u32
  x_acc :: u32
  x_op1 :: u32
  x_op2 :: u32
  x_done :: bool

definition read32 :: "'d bus \<Rightarrow> u32 \<Rightarrow> 'd machine \<Rightarrow> u32 \<times> 'd machine" where
  "read32 bus a m = (let (bs, m) = cpu_physical_memory_read bus (ucast a) 4 m in (le_u32 bs, m))"

definition poke32 :: "'d bus \<Rightarrow> u32 \<Rightarrow> u32 \<Rightarrow> 'd machine \<Rightarrow> 'd machine" where
  "poke32 bus a v m = cpu_physical_memory_write bus (ucast a) (u32_bytes v) m"

definition helper_outl :: "'d bus \<Rightarrow> u32 \<Rightarrow> u32 \<Rightarrow> 'd machine \<Rightarrow> 'd machine" where
  "helper_outl bus port data m = m\<lparr>devices := pio_outl bus port data (devices m)\<rparr>"

definition helper_outb :: "'d bus \<Rightarrow> u32 \<Rightarrow> u32 \<Rightarrow> 'd machine \<Rightarrow> 'd machine" where
  "helper_outb bus port data m = m\<lparr>devices := pio_outb bus port (ucast (data AND 0xff)) (devices m)\<rparr>"

definition helper_inl :: "'d bus \<Rightarrow> u32 \<Rightarrow> 'd machine \<Rightarrow> u32 \<times> 'd machine" where
  "helper_inl bus port m = (let (v, d) = pio_inl bus port (devices m) in (v, m\<lparr>devices := d\<rparr>))"

definition helper_inb :: "'d bus \<Rightarrow> u32 \<Rightarrow> 'd machine \<Rightarrow> u32 \<times> 'd machine" where
  "helper_inb bus port m = (let (v, d) = pio_inb bus port (devices m) in (ucast v, m\<lparr>devices := d\<rparr>))"

definition set_eip :: "u32 \<Rightarrow> 'd machine \<Rightarrow> 'd machine" where
  "set_eip v m = m\<lparr>cpu := (cpu m)\<lparr>r_eip := v\<rparr>\<rparr>"

text \<open>The fetch of an instruction of nine bytes, with the prefix that takes the operand from the accumulator.\<close>

definition xcode_fetch :: "'d bus \<Rightarrow> xcode \<Rightarrow> 'd machine \<Rightarrow> u8 \<times> xcode \<times> 'd machine" where
  "xcode_fetch bus x m =
     (let (opc, m) = cpu_physical_memory_read bus (ucast (x_pc x)) 1 m;
          (op1, m) = read32 bus (x_pc x + 1) m;
          (op2, m) = read32 bus (x_pc x + 5) m
      in if opc ! 0 = 0x07 then (ucast op2, x\<lparr>x_op1 := op2, x_op2 := x_acc x\<rparr>, m)
         else (opc ! 0, x\<lparr>x_op1 := op1, x_op2 := op2\<rparr>, m))"

definition xcode_exec :: "'d bus \<Rightarrow> u8 \<Rightarrow> u8 \<Rightarrow> xcode \<Rightarrow> 'd machine \<Rightarrow> xcode \<times> 'd machine" where
  "xcode_exec bus chip opcode x m =
     (if opcode = 0x02 then
        if chip = 0xB1
        then if x_op1 x \<le> 0xFF000000 then let (v, m) = read32 bus (x_op1 x) m in (x\<lparr>x_acc := v\<rparr>, m) else (x, m)
        else let (v, m) = read32 bus (x_op1 x AND 0x0FFFFFFF) m in (x\<lparr>x_acc := v\<rparr>, m)
      else if opcode = 0x03 then (x, poke32 bus (x_op1 x) (x_op2 x) m)
      else if opcode = 0x04 then
        (x, set_eip 0xfffffe62 (helper_outl bus 0xCFC (x_op2 x) (helper_outl bus 0xCF8 (x_op1 x) m)))
      else if opcode = 0x05 then
        let (v, m) = helper_inl bus 0xCFC (helper_outl bus 0xCF8 (x_op1 x) m) in (x\<lparr>x_acc := v\<rparr>, m)
      else if opcode = 0x06 then (x\<lparr>x_acc := (x_acc x AND x_op1 x) OR x_op2 x\<rparr>, m)
      else if opcode = 0x08 then (if x_acc x \<noteq> x_op1 x then x\<lparr>x_pc := x_pc x + x_op2 x\<rparr> else x, m)
      else if opcode = 0x09 then (x\<lparr>x_pc := x_pc x + x_op2 x\<rparr>, m)
      else if opcode = 0x11 then (x, set_eip 0xfffffea0 (helper_outb bus (x_op1 x) (x_op2 x) m))
      else if opcode = 0x12 then let (v, m) = helper_inb bus (x_op1 x) m in (x\<lparr>x_acc := v\<rparr>, m)
      else if opcode = 0xEE then (x\<lparr>x_done := True\<rparr>, m)
      else (x, m))"

definition xcode_step :: "'d bus \<Rightarrow> u8 \<Rightarrow> xcode \<times> 'd machine \<Rightarrow> xcode \<times> 'd machine" where
  "xcode_step bus chip = (\<lambda>(x, m).
     let (opcode, x, m) = xcode_fetch bus x m;
         (x, m) = xcode_exec bus chip opcode x m
     in (x\<lparr>x_pc := x_pc x + 9\<rparr>, m))"

text \<open>The loop: X-codes branch backwards, so that it may not end.\<close>

partial_function (option) xcode_loop ::
    "'d bus \<Rightarrow> XBOX_MCPXState \<Rightarrow> xcode \<times> 'd machine \<Rightarrow> (xcode \<times> 'd machine) option" where
  [code]: "xcode_loop bus s xm =
     (if x_done (fst xm) \<or> \<not> enabled (rom s) then Some xm else xcode_loop bus s (xcode_step bus (revision s) xm))"

text \<open>
  The operands are uninitialised when the loop is left before its first instruction: their values are
  arguments.
\<close>

definition xcode_start :: "u32 \<Rightarrow> u32 \<Rightarrow> xcode" where
  "xcode_start op1 op2 = \<lparr>x_pc = 0xFF000080, x_acc = 0x00000000, x_op1 = op1, x_op2 = op2, x_done = False\<rparr>"

definition xcode_finish :: "xcode \<Rightarrow> CPUX86State \<Rightarrow> CPUX86State" where
  "xcode_finish x env = env\<lparr>r_eip := 0xfffffebc, r_esi := x_pc x, r_ebx := x_op1 x, r_ecx := x_op2 x, r_edi := x_acc x\<rparr>"

definition mcpx_rom_run_xcode :: "'d bus \<Rightarrow> XBOX_MCPXState \<Rightarrow> u32 \<Rightarrow> u32 \<Rightarrow> 'd machine \<Rightarrow> 'd machine option" where
  "mcpx_rom_run_xcode bus s op1 op2 m =
     map_option (\<lambda>(x, m). m\<lparr>cpu := xcode_finish x (cpu m)\<rparr>) (xcode_loop bus s (xcode_start op1 op2, m))"

section \<open>Starting the machine\<close>

definition mcpx_rom_setup_mtrr :: "CPUX86State \<Rightarrow> CPUX86State" where
  "mcpx_rom_setup_mtrr env =
     (let env = env\<lparr>r_eax := 0x00000000, r_edx := 0x00000000\<rparr>;
          env = fold (\<lambda>i env. helper_wrmsr (env\<lparr>r_ecx := MSR_MTRRphysBase i\<rparr>)) [0..<8] env;
          env = fold (\<lambda>i env. helper_wrmsr (env\<lparr>r_ecx := MSR_MTRRphysMask i\<rparr>)) [0..<8] env;
          env = helper_wrmsr (env\<lparr>r_ecx := MSR_MTRRdefType, r_eax := r_ebx env\<rparr>)
      in cpu_x86_update_cr0 (cr0 env AND 0x9fffffff) env)"

text \<open>
  The key of the second stage boot loader is the constant \<open>NULL\<close>, so that its emulation is always
  entered; it is the argument \<open>bootloader_emulate\<close>. The result is an exception of the processor, or
  \<open>None\<close> for X-codes that do not end.
\<close>

definition mcpx_rom_emulate ::
    "(u32 \<Rightarrow> u32 \<Rightarrow> u32 \<Rightarrow> u32 \<Rightarrow> CPUX86State \<Rightarrow> excp + CPUX86State) \<Rightarrow>
     (bool \<Rightarrow> bool \<Rightarrow> bool \<Rightarrow> bool \<Rightarrow> 'd machine \<Rightarrow> 'd machine) \<Rightarrow> 'd bus \<Rightarrow> u32 \<Rightarrow> u32 \<Rightarrow>
     XBOX_MCPXState \<times> 'd machine \<Rightarrow> (excp + XBOX_MCPXState \<times> 'd machine) option" where
  "mcpx_rom_emulate switch_tss bootloader_emulate bus op1 op2 = (\<lambda>(s, m).
     case mcpx_rom_switch_to_protected_mode switch_tss bus m of
       Inl e \<Rightarrow> Some (Inl e)
     | Inr m \<Rightarrow> map_option (\<lambda>m.
         if \<not> enabled (rom s) then Inr (s, m)
         else let m = m\<lparr>cpu := mcpx_rom_setup_mtrr (cpu m)\<rparr>;
                  s = s\<lparr>rom := (rom s)\<lparr>hle_2bl_code := True\<rparr>\<rparr>
              in Inr (s, bootloader_emulate True (xmode s = 3) (revision s \<ge> 0xC3) False m))
         (mcpx_rom_run_xcode bus s op1 op2 m))"

definition mcpx_rom_reset_late ::
    "(u32 \<Rightarrow> u32 \<Rightarrow> u32 \<Rightarrow> u32 \<Rightarrow> CPUX86State \<Rightarrow> excp + CPUX86State) \<Rightarrow>
     (bool \<Rightarrow> bool \<Rightarrow> bool \<Rightarrow> bool \<Rightarrow> 'd machine \<Rightarrow> 'd machine) \<Rightarrow> 'd bus \<Rightarrow> u32 \<Rightarrow> u32 \<Rightarrow>
     XBOX_MCPXState \<times> 'd machine \<Rightarrow> (excp + XBOX_MCPXState \<times> 'd machine) option" where
  "mcpx_rom_reset_late switch_tss bootloader_emulate bus op1 op2 sm =
     (let sm = mcpx_rom_show bus sm
      in if hle_mcpx_rom_code (rom (fst sm)) then mcpx_rom_emulate switch_tss bootloader_emulate bus op1 op2 sm
         else Some (Inr sm))"

section \<open>The ROM's place in the flash image\<close>

text \<open>The flash image of a machine that \<open>xbox_memory_init\<close> has set up.\<close>

definition flash_ok :: "'d machine \<Rightarrow> bool" where
  "flash_ok m \<longleftrightarrow> length (flash m) \<le> 0x1000000 \<and> xbox_bios_maps (int (length (flash m))) = Inr (Some (flash_locs m))"

lemma flash_okD:
  assumes "flash_ok m"
  shows "0x10000 \<le> length (flash m)" "length (flash m) \<le> 0x1000000"
    "flash_locs m = map (mirror (length (flash m))) [1..<Suc (0x1000000 div length (flash m))]"
proof -
  show le: "length (flash m) \<le> 0x1000000" using assms by (simp add: flash_ok_def)
  have maps: "xbox_bios_maps (int (length (flash m))) = Inr (Some (flash_locs m))" using assms by (simp add: flash_ok_def)
  then have pos: "0 < length (flash m)" and "int (length (flash m)) mod 65536 = 0"
    by (auto simp: xbox_bios_maps_def split: if_splits)
  then have dvd: "65536 dvd length (flash m)" by (simp add: mod_eq_0_iff_dvd flip: int_dvd_int_iff)
  then show "0x10000 \<le> length (flash m)" using pos by (auto dest: dvd_imp_le)
  show "flash_locs m = map (mirror (length (flash m))) [1..<Suc (0x1000000 div length (flash m))]"
    using maps xbox_bios_maps_mirrors [OF pos le dvd] by (simp del: upt_Suc)
qed

lemma flash_index_top:
  assumes "flash_ok m" "0 < b" "b \<le> length (flash m)" "unat a = 2 ^ 32 - b"
  shows "flash_index m a = Some (length (flash m) - b)"
proof -
  define s where "s = length (flash m)"
  note ok = flash_okD [OF assms(1), folded s_def]
  have "0 < 0x1000000 div s" using ok(1,2) by (simp add: div_greater_zero_iff)
  then obtain k where k: "0x1000000 div s = Suc k" using gr0_implies_Suc by blast
  have "Suc k * s - b = k * s + (s - b)" using assms(3) s_def by simp
  then have "(Suc k * s - b) mod s = s - b" using assms(2) ok(1) by simp
  moreover have "s \<le> Suc k * s" by simp
  moreover have "flash_offset (flash_locs m) s a = Some ((0x1000000 div s * s - b) mod s)"
  proof -
    have "0 < s" using ok(1) by linarith
    moreover have "b \<le> 0x1000000 div s * s" 
      unfolding k using assms(3) [folded s_def] \<open>s \<le> Suc k * s\<close> by (rule order_trans)
    ultimately show ?thesis unfolding ok(3) using ok(2) assms(2,4) by (intro flash_offset_mirrors)
  qed
  ultimately show ?thesis unfolding flash_index_def s_def [symmetric] k by simp
qed

lemma bootrom_index:
  assumes "flash_ok m" "i < 512"
  shows "flash_index m (bootrom_addr + of_nat i) = Some (length (flash m) - 512 + i)"
proof -
  have "unat (bootrom_addr + of_nat i) = 0xFFFFFE00 + i"
    using assms(2) by (simp add: bootrom_addr_def unat_word_ariths unat_of_nat take_bit_nat_eq_self_iff)
  then have "flash_index m (bootrom_addr + of_nat i) = Some (length (flash m) - (512 - i))"
    using assms flash_okD(1) [OF assms(1)] by (intro flash_index_top) simp_all
  then show ?thesis using assms(2) flash_okD(1) [OF assms(1)] by simp
qed

text \<open>A write that stays within the ROM's 512 bytes.\<close>

lemma update_range:
  "n \<le> length bs \<Longrightarrow> off + n \<le> length xs \<Longrightarrow>
   fold (\<lambda>i xs. xs[off + i := bs ! i]) [0..<n] xs = take off xs @ take n bs @ drop (off + n) xs"
proof (induction n)
  case (Suc n)
  then have "off + n < length xs" by simp
  then have "drop (off + n) xs = xs ! (off + n) # drop (off + Suc n) xs" by (simp add: Cons_nth_drop_Suc)
  then show ?case using Suc by (simp add: list_update_append take_Suc_conv_app_nth)
qed simp

lemma write_rom_range:
  assumes "flash_ok m" "d + length bs \<le> 512"
  shows "cpu_physical_memory_write_rom bus (bootrom_addr + of_nat d) bs m =
    m\<lparr>flash := take (length (flash m) - 512 + d) (flash m) @ bs @ drop (length (flash m) - 512 + d + length bs) (flash m)\<rparr>"
proof -
  define off where "off = length (flash m) - 512 + d"
  have step: "write_rom_byte bus (bootrom_addr + of_nat d + of_nat i) b (m\<lparr>flash := xs\<rparr>) = m\<lparr>flash := xs[off + i := b]\<rparr>"
    if "i < length bs" "length xs = length (flash m)" for i b xs
  proof -
    have "flash_index (m\<lparr>flash := xs\<rparr>) (bootrom_addr + of_nat (d + i)) = Some (off + i)"
      using bootrom_index [OF assms(1), of "d + i"] that assms(2) unfolding off_def flash_index_def by (simp add: add.assoc)
    then show ?thesis unfolding write_rom_byte_def by (simp add: add.assoc)
  qed
  have "fold (\<lambda>i m. write_rom_byte bus (bootrom_addr + of_nat d + of_nat i) (bs ! i) m) [0..<n] m
      = m\<lparr>flash := fold (\<lambda>i xs. xs[off + i := bs ! i]) [0..<n] (flash m)\<rparr> \<and>
      length (fold (\<lambda>i xs. xs[off + i := bs ! i]) [0..<n] (flash m)) = length (flash m)" if "n \<le> length bs" for n
    using that by (induction n) (auto simp: step)
  from this [of "length bs"] have "cpu_physical_memory_write_rom bus (bootrom_addr + of_nat d) bs m
      = m\<lparr>flash := fold (\<lambda>i xs. xs[off + i := bs ! i]) [0..<length bs] (flash m)\<rparr>"
    unfolding cpu_physical_memory_write_rom_def by simp
  moreover have "off + length bs \<le> length (flash m)" using assms flash_okD(1) [OF assms(1)] off_def by simp
  ultimately show ?thesis unfolding off_def [symmetric] by (simp add: update_range)
qed

text \<open>Machines that differ only in the ROM's 512 bytes of the flash image.\<close>

definition rom_only :: "'d machine \<Rightarrow> 'd machine \<Rightarrow> bool" where
  "rom_only m m' \<longleftrightarrow> (\<exists>bs. length bs = 512 \<and> m' = m\<lparr>flash := take (length (flash m) - 512) (flash m) @ bs\<rparr>)"

lemma rom_onlyD:
  assumes "flash_ok m" "rom_only m m'"
  shows "flash_ok m'" "length (flash m') = length (flash m)"
  using assms flash_okD(1) [OF assms(1)] by (auto simp: rom_only_def flash_ok_def)

lemma write_rom_only:
  assumes "flash_ok m" "rom_only m m'" "d + length bs \<le> 512"
  shows "rom_only m (cpu_physical_memory_write_rom bus (bootrom_addr + of_nat d) bs m')"
proof -
  define off where "off = length (flash m) - 512"
  obtain old where old: "length old = 512" "m' = m\<lparr>flash := take off (flash m) @ old\<rparr>"
    using assms(2) by (auto simp: rom_only_def off_def)
  have len: "length (flash m') - 512 = off" "length (take off (flash m)) = off"
    using rom_onlyD(2) [OF assms(1,2)] by (simp_all add: off_def)
  have "cpu_physical_memory_write_rom bus (bootrom_addr + of_nat d) bs m'
      = m\<lparr>flash := take off (flash m) @ take d old @ bs @ drop (d + length bs) old\<rparr>"
    unfolding write_rom_range [OF rom_onlyD(1) [OF assms(1,2)] assms(3)] len(1) using len(2) by (simp add: old(2))
  then show ?thesis using old(1) assms(3) unfolding rom_only_def off_def [symmetric]
    by (intro exI [of _ "take d old @ bs @ drop (d + length bs) old"]) simp
qed

lemma read_bootrom:
  assumes "flash_ok m"
  shows "cpu_physical_memory_read bus bootrom_addr bootrom_size m = (drop (length (flash m) - 512) (flash m), m)"
proof -
  have "memory_byte m (bootrom_addr + of_nat i) = drop (length (flash m) - 512) (flash m) ! i" if "i < 512" for i
    using that flash_okD(1) [OF assms] by (simp add: memory_byte_def bootrom_index [OF assms that])
  then have "map (\<lambda>i. memory_byte m (bootrom_addr + of_nat i)) [0..<512] = drop (length (flash m) - 512) (flash m)"
    using flash_okD(1) [OF assms] by (intro nth_equalityI) simp_all
  moreover have "flash_index m bootrom_addr \<noteq> None" using bootrom_index [OF assms, of 0] by simp
  ultimately show ?thesis by (simp add: cpu_physical_memory_read_def bootrom_size_def)
qed

lemma show_rom_only:
  assumes "flash_ok m" "\<not> enabled (rom s)" "length (bootrom_data (rom s)) = 512"
  obtains m' where "mcpx_rom_show bus (s, m) =
      (s\<lparr>rom := (rom s)\<lparr>flash_data := drop (length (flash m) - 512) (flash m), enabled := True\<rparr>\<rparr>, m')" "rom_only m m'"
    "\<not> hle_mcpx_rom_code (rom s) \<Longrightarrow> m' = m\<lparr>flash := take (length (flash m) - 512) (flash m) @ bootrom_data (rom s)\<rparr>"
proof (cases "hle_mcpx_rom_code (rom s)")
  case True
  have id: "rom_only m m" using flash_okD(1) [OF assms(1)] unfolding rom_only_def
    by (intro exI [of _ "drop (length (flash m) - 512) (flash m)"]) simp
  have *: "bootrom_dt_offset = of_nat 0x1d8" "bootrom_dt_pointer_offset = of_nat 0x1f4"
    by (simp_all add: bootrom_dt_offset_def bootrom_dt_pointer_offset_def)
  have "length (concat (map u32_bytes dt)) = 24" "length dt_pointer = 6"
    by (simp_all add: dt_def u32_bytes_def dt_pointer_def)
  then have "rom_only m (cpu_physical_memory_write_rom bus (bootrom_addr + bootrom_dt_pointer_offset) dt_pointer
      (cpu_physical_memory_write_rom bus (bootrom_addr + bootrom_dt_offset) (concat (map u32_bytes dt)) m))"
    unfolding * by (intro write_rom_only [OF assms(1)] id) simp_all
  then show ?thesis using True assms by (intro that) (auto simp: mcpx_rom_show_def read_bootrom Let_def)
next
  case False
  have "cpu_physical_memory_write_rom bus bootrom_addr (bootrom_data (rom s)) m =
      m\<lparr>flash := take (length (flash m) - 512) (flash m) @ bootrom_data (rom s)\<rparr>"
    using write_rom_range [OF assms(1), of 0 "bootrom_data (rom s)" bus] assms(3) flash_okD(1) [OF assms(1)] by simp
  with False assms show ?thesis
    by (intro that [of "m\<lparr>flash := take (length (flash m) - 512) (flash m) @ bootrom_data (rom s)\<rparr>"])
      (auto simp: mcpx_rom_show_def read_bootrom Let_def rom_only_def)
qed

text \<open>What the processor reads in the ROM's 512 bytes.\<close>

lemma memory_byte_write_rom:
  assumes "flash_ok m" "d + length bs \<le> 512" "i < 512"
  shows "memory_byte (cpu_physical_memory_write_rom bus (bootrom_addr + of_nat d) bs m) (bootrom_addr + of_nat i) =
    (if d \<le> i \<and> i < d + length bs then bs ! (i - d) else memory_byte m (bootrom_addr + of_nat i))"
proof -
  define m' where "m' = cpu_physical_memory_write_rom bus (bootrom_addr + of_nat d) bs m"
  define off where "off = length (flash m) - 512"
  have flash': "flash m' = take (off + d) (flash m) @ bs @ drop (off + d + length bs) (flash m)"
    unfolding m'_def off_def write_rom_range [OF assms(1,2)] by simp
  have len: "off + 512 = length (flash m)" using flash_okD(1) [OF assms(1)] by (simp add: off_def)
  have ok: "flash_ok m'" "length (flash m') = length (flash m)"
    using assms(1) flash' len assms(2) unfolding m'_def write_rom_range [OF assms(1,2)] by (simp_all add: flash_ok_def off_def)
  have "memory_byte m' (bootrom_addr + of_nat i) = flash m' ! (off + i)"
    "memory_byte m (bootrom_addr + of_nat i) = flash m ! (off + i)"
    using assms(3) by (simp_all add: memory_byte_def bootrom_index ok assms(1) off_def)
  then show ?thesis unfolding m'_def [symmetric] using len assms(2,3) by (auto simp: flash' nth_append)
qed

lemma hle_rom_bytes:
  assumes "flash_ok m" "\<not> enabled (rom s)" "hle_mcpx_rom_code (rom s)" "mcpx_rom_show bus (s, m) = (s', m')"
  shows "i < 24 \<Longrightarrow> memory_byte m' (bootrom_addr + of_nat (0x1d8 + i)) = concat (map u32_bytes dt) ! i"
    "i < 6 \<Longrightarrow> memory_byte m' (bootrom_addr + of_nat (0x1f4 + i)) = dt_pointer ! i" "flash_ok m'" "cpu m' = cpu m"
proof -
  have len: "length (concat (map u32_bytes dt)) = 24" "length dt_pointer = 6"
    by (simp_all add: dt_def u32_bytes_def dt_pointer_def)
  have *: "bootrom_dt_offset = of_nat 0x1d8" "bootrom_dt_pointer_offset = of_nat 0x1f4"
    by (simp_all add: bootrom_dt_offset_def bootrom_dt_pointer_offset_def)
  define m1 where "m1 = cpu_physical_memory_write_rom bus (bootrom_addr + of_nat 0x1d8) (concat (map u32_bytes dt)) m"
  have m': "m' = cpu_physical_memory_write_rom bus (bootrom_addr + of_nat 0x1f4) dt_pointer m1"
    using assms by (simp add: mcpx_rom_show_def read_bootrom Let_def * m1_def)
  have id: "rom_only m m" using flash_okD(1) [OF assms(1)] unfolding rom_only_def
    by (intro exI [of _ "drop (length (flash m) - 512) (flash m)"]) simp
  have m1: "rom_only m m1" unfolding m1_def by (intro write_rom_only [OF assms(1) id]) (simp add: len)
  then have ok1: "flash_ok m1" by (rule rom_onlyD(1) [OF assms(1)])
  have "rom_only m m'" unfolding m' by (intro write_rom_only [OF assms(1) m1]) (simp add: len)
  then show "flash_ok m'" by (rule rom_onlyD(1) [OF assms(1)])
  show "cpu m' = cpu m" using \<open>rom_only m m'\<close> by (auto simp: rom_only_def)
  show "memory_byte m' (bootrom_addr + of_nat (0x1d8 + i)) = concat (map u32_bytes dt) ! i" if "i < 24"
  proof -
    have "memory_byte m1 (bootrom_addr + of_nat (0x1d8 + i)) = concat (map u32_bytes dt) ! i"
      unfolding m1_def by (subst memory_byte_write_rom [OF assms(1)]) (use that in \<open>simp_all add: len\<close>)
    then show ?thesis
      unfolding m' by (subst memory_byte_write_rom [OF ok1]) (use that in \<open>simp_all add: len\<close>)
  qed
  show "memory_byte m' (bootrom_addr + of_nat (0x1f4 + i)) = dt_pointer ! i" if "i < 6"
    unfolding m' by (subst memory_byte_write_rom [OF ok1]) (use that in \<open>simp_all add: len\<close>)
qed

text \<open>A machine with an empty flash image of 64 kB and no devices, for concrete instances.\<close>

definition null_bus :: "unit bus" where
  "null_bus = \<lparr>ram_size = 0x4000000, mmio_read = (\<lambda>a n d. (\<lambda>_. 0, d)), mmio_write = (\<lambda>a bs d. d), pio_outb = (\<lambda>p v d. d),
     pio_outl = (\<lambda>p v d. d), pio_inb = (\<lambda>p d. (0, d)), pio_inl = (\<lambda>p d. (0, d))\<rparr>"

definition blank_machine :: "unit machine" where
  "blank_machine = \<lparr>cpu = zero_cpu, flash = replicate 0x10000 0,
     flash_locs = map (mirror 0x10000) [1..<Suc (0x1000000 div 0x10000)], devices = ()\<rparr>"

definition blank_mcpx :: "bool \<Rightarrow> XBOX_MCPXState" where
  "blank_mcpx hle = \<lparr>xmode = 3, revision = 0xB2, rom = \<lparr>hle_mcpx_rom_code = hle, hle_2bl_code = False, load_kernel = False,
     enabled = False, bootrom_data = replicate 0x200 0x90, flash_data = []\<rparr>\<rparr>"

lemma blank_machine_ok: "flash_ok blank_machine"
proof -
  have "xbox_bios_maps (int 0x10000) = Inr (Some (map (mirror 0x10000) [1..<Suc (0x1000000 div 0x10000)]))"
    by (rule xbox_bios_maps_mirrors) simp_all
  then show ?thesis unfolding flash_ok_def blank_machine_def by (simp del: upt_Suc of_nat_mult)
qed

lemma rom_byte_cpu:
  assumes "flash_ok m" "i < 512"
  shows "memory_byte (m\<lparr>cpu := env\<rparr>) (bootrom_addr + of_nat i) = memory_byte m (bootrom_addr + of_nat i)"
  using bootrom_index [OF assms] by (simp add: memory_byte_def flash_index_def)

text \<open>The descriptors that the generated ROM holds, as the processor reads them.\<close>

lemma hle_descriptors:
  assumes "flash_ok m" "\<not> enabled (rom s)" "hle_mcpx_rom_code (rom s)" "mcpx_rom_show bus (s, m) = (s', m')"
  shows "kernel_ldl m' env 0xffffffe0 = 0x0000ffff" "kernel_ldl m' env 0xffffffe4 = 0x00CF9b00"
    "kernel_ldl m' env 0xffffffe8 = 0x0000ffff" "kernel_ldl m' env 0xffffffec = 0x00CF9300"
    "cpu_physical_memory_read bus (bootrom_addr + bootrom_dt_pointer_offset + 0) 2 m' = ([0x18, 0x00], m')"
    "cpu_physical_memory_read bus (bootrom_addr + bootrom_dt_pointer_offset + 2) 4 m' = ([0xd8, 0xff, 0xff, 0xff], m')"
proof -
  note hle = hle_rom_bytes [OF assms]
  have four: "[0..<4] = [0, 1, 2, 3 :: nat]" "[0..<2] = [0, 1 :: nat]" by (simp_all add: upt_rec)
  have addr: "ucast (a :: u32) + of_nat i = bootrom_addr + of_nat (n + i)" if "ucast a = bootrom_addr + of_nat n" for a n i
    using that by simp
  have ldl: "kernel_ldl m' env a = le_u32 (map (\<lambda>i. concat (map u32_bytes dt) ! (k + i)) [0..<4])"
    if "ucast a = bootrom_addr + of_nat (0x1d8 + k)" "k < 21" for a k
  proof -
    have "memory_byte (m'\<lparr>cpu := env\<rparr>) (ucast a + of_nat i) = concat (map u32_bytes dt) ! (k + i)" if "i < 4" for i
      unfolding addr [OF \<open>ucast a = _\<close>] add.assoc using that \<open>k < 21\<close> by (simp only: rom_byte_cpu [OF hle(3)] hle(1))
    then have "map (\<lambda>i. memory_byte (m'\<lparr>cpu := env\<rparr>) (ucast a + of_nat i)) [0..<4]
        = map (\<lambda>i. concat (map u32_bytes dt) ! (k + i)) [0..<4]" by (intro map_cong) simp_all
    then show ?thesis unfolding kernel_ldl_def by (rule arg_cong)
  qed
  note eval = four dt_def u32_bytes_def le_u32_def byte_of_def le32_def bootrom_addr_def
  show "kernel_ldl m' env 0xffffffe0 = 0x0000ffff" by (subst ldl [where k = 8]) (simp_all add: eval)
  show "kernel_ldl m' env 0xffffffe4 = 0x00CF9b00" by (subst ldl [where k = 12]) (simp_all add: eval)
  show "kernel_ldl m' env 0xffffffe8 = 0x0000ffff" by (subst ldl [where k = 16]) (simp_all add: eval)
  show "kernel_ldl m' env 0xffffffec = 0x00CF9300" by (subst ldl [where k = 20]) (simp_all add: eval)
  have ptr: "cpu_physical_memory_read bus (bootrom_addr + of_nat (0x1f4 + k)) n m' = (map (\<lambda>i. dt_pointer ! (k + i)) [0..<n], m')"
    if "k + n \<le> 6" "0 < n" for k n
  proof -
    have "flash_index m' (bootrom_addr + of_nat (0x1f4 + k)) \<noteq> None"
      using bootrom_index [OF hle(3), of "0x1f4 + k"] that by simp
    moreover have "memory_byte m' (bootrom_addr + of_nat (0x1f4 + k) + of_nat i) = dt_pointer ! (k + i)" if "i < n" for i
      using hle(2) [of "k + i"] that \<open>k + n \<le> 6\<close> by (simp add: add.assoc)
    ultimately show ?thesis unfolding cpu_physical_memory_read_def by simp
  qed
  show "cpu_physical_memory_read bus (bootrom_addr + bootrom_dt_pointer_offset + 0) 2 m' = ([0x18, 0x00], m')"
    using ptr [of 0 2] by (simp add: four dt_pointer_def bootrom_dt_pointer_offset_def)
  show "cpu_physical_memory_read bus (bootrom_addr + bootrom_dt_pointer_offset + 2) 4 m' = ([0xd8, 0xff, 0xff, 0xff], m')"
    using ptr [of 2 4] by (simp add: four dt_pointer_def bootrom_dt_pointer_offset_def add.assoc)
qed

lemma flat_descriptors:
  "get_seg_base 0xffff 0xCF9b00 = 0" "get_seg_limit 0xffff 0xCF9b00 = 0xffffffff"
  "get_seg_base 0xffff 0xCF9300 = 0" "get_seg_limit 0xffff 0xCF9300 = 0xffffffff"
  by (simp_all add: get_seg_base_def get_seg_limit_def)

lemma ljmp_flat:
  assumes "seg_base (gdt env) = 0xffffffd8" "seg_limit (gdt env) = 0x18" "hflags env AND 3 = 0"
    "ldl 0xffffffe0 = 0xffff" "ldl 0xffffffe4 = 0xCF9b00"
  shows "helper_ljmp_protected ldl switch_tss 8 0xfffffe00 0 env =
    Inr ((cpu_x86_load_seg_cache R_CS 8 0 0xffffffff 0xCF9b00 env)\<lparr>r_eip := 0xfffffe00\<rparr>)"
  using assms by (simp add: helper_ljmp_protected_def load_segment_def dpl_of_def flat_descriptors Let_def)

lemma load_seg_flat:
  assumes "seg_base (gdt env) = 0xffffffd8" "seg_limit (gdt env) = 0x18" "hflags env AND 3 = 0"
    "ldl env 0xffffffe8 = 0xffff" "ldl env 0xffffffec = 0xCF9300"
  shows "helper_load_seg ldl stl r 0x10 env = Inr (cpu_x86_load_seg_cache r 0x10 0 0xffffffff 0xCF9300 env)"
  using assms by (simp add: helper_load_seg_def load_segment_def dpl_of_def flat_descriptors Let_def)

section \<open>Properties\<close>

text \<open>
  Showing the boot ROM and hiding it again restores the machine: the flash image is as before,
  whether the ROM is a loaded image or the generated tables. While it is shown, the loaded image is what
  the top 512 bytes of the address space read.
\<close>

lemma rom_show_hide:
  assumes "flash_ok m" "\<not> enabled (rom s)" "length (bootrom_data (rom s)) = 512"
  shows "\<exists>s' m'. mcpx_rom_show bus (s, m) = (s', m') \<and> enabled (rom s')
    \<and> (\<not> hle_mcpx_rom_code (rom s) \<longrightarrow> (\<forall>i<512. memory_byte m' (bootrom_addr + of_nat i) = bootrom_data (rom s) ! i))
    \<and> (\<exists>s''. mcpx_rom_hide bus (s', m') = (s'', m) \<and> \<not> enabled (rom s''))"
proof -
  obtain m' where sm: "mcpx_rom_show bus (s, m) =
      (s\<lparr>rom := (rom s)\<lparr>flash_data := drop (length (flash m) - 512) (flash m), enabled := True\<rparr>\<rparr>, m')" and "rom_only m m'"
    and img: "\<not> hle_mcpx_rom_code (rom s) \<Longrightarrow> m' = m\<lparr>flash := take (length (flash m) - 512) (flash m) @ bootrom_data (rom s)\<rparr>"
    using show_rom_only [OF assms] by blast
  note m' = rom_onlyD [OF assms(1) \<open>rom_only m m'\<close>] flash_okD(1) [OF assms(1)]
  have "memory_byte m' (bootrom_addr + of_nat i) = bootrom_data (rom s) ! i" if "\<not> hle_mcpx_rom_code (rom s)" "i < 512" for i
    unfolding memory_byte_def bootrom_index [OF m'(1) that(2)] m'(2)
    using img [OF that(1)] nth_append_length_plus [of "take (length (flash m) - 512) (flash m)" "bootrom_data (rom s)" i] by simp
  moreover have "cpu_physical_memory_write_rom bus bootrom_addr (drop (length (flash m) - 512) (flash m)) m' = m"
    using write_rom_range [OF m'(1), of 0 "drop (length (flash m) - 512) (flash m)" bus] m'(2,3) \<open>rom_only m m'\<close>
    by (auto simp: rom_only_def)
  ultimately show ?thesis unfolding sm by (simp add: mcpx_rom_hide_def)
qed

lemma rom_show_hide_witness:
  "\<exists>s' m' s''. mcpx_rom_show null_bus (blank_mcpx False, blank_machine) = (s', m')
     \<and> memory_byte m' (bootrom_addr + of_nat 3) = 0x90
     \<and> mcpx_rom_hide null_bus (s', m') = (s'', blank_machine)"
proof -
  have "\<not> enabled (rom (blank_mcpx False))" "length (bootrom_data (rom (blank_mcpx False))) = 512"
    "\<not> hle_mcpx_rom_code (rom (blank_mcpx False))" "bootrom_data (rom (blank_mcpx False)) ! 3 = 0x90"
    by (simp_all add: blank_mcpx_def)
  note blank = this
  obtain s' m' where "mcpx_rom_show null_bus (blank_mcpx False, blank_machine) = (s', m')"
    and img: "\<not> hle_mcpx_rom_code (rom (blank_mcpx False)) \<longrightarrow>
      (\<forall>i<512. memory_byte m' (bootrom_addr + of_nat i) = bootrom_data (rom (blank_mcpx False)) ! i)"
    and "\<exists>s''. mcpx_rom_hide null_bus (s', m') = (s'', blank_machine) \<and> \<not> enabled (rom s'')"
    using rom_show_hide [OF blank_machine_ok blank(1,2), of null_bus] by blast
  moreover have "memory_byte m' (bootrom_addr + of_nat 3) = 0x90"
    using img [rule_format, OF blank(3), of 3] blank(4) by simp
  ultimately show ?thesis by blast
qed

text \<open>
  C30. The tables of the generated ROM boot the processor into flat protected mode: from privilege
  level 0 the switch raises no exception, and ends with the code, data, extra and stack segments covering
  all 4 GB from address 0, and with execution at the ROM's entry.
\<close>

theorem rom_flat_segments:
  assumes "flash_ok m" "\<not> enabled (rom s)" "hle_mcpx_rom_code (rom s)" "hflags (cpu m) AND 3 = 0"
  shows "\<exists>m'. mcpx_rom_switch_to_protected_mode switch_tss bus (snd (mcpx_rom_show bus (s, m))) = Inr m'
    \<and> (\<forall>r \<in> {R_CS, R_DS, R_ES, R_SS}. seg_base (segs (cpu m') r) = 0 \<and> seg_limit (segs (cpu m') r) = 0xffffffff)
    \<and> selector (segs (cpu m') R_CS) = 8 \<and> r_eip (cpu m') = 0xfffffe00 \<and> bit (cr0 (cpu m')) 0"
proof -
  obtain s' m' where sm: "mcpx_rom_show bus (s, m) = (s', m')" by (cases "mcpx_rom_show bus (s, m)")
  have cpu: "cpu m' = cpu m" by (rule hle_rom_bytes(4) [OF assms(1-3) sm])
  note desc = hle_descriptors [OF assms(1-3) sm]
  have dt: "ucast (le16 [0x18, 0x00]) = (0x18 :: u32)" "le_u32 [0xd8, 0xff, 0xff, 0xff] = 0xffffffd8"
    by (simp_all add: le16_def le_u32_def le32_def)
  show ?thesis
    unfolding mcpx_rom_switch_to_protected_mode_def sm snd_conv desc(5,6) Let_def case_prod_conv cpu dt
    using assms(4) by (simp add: ljmp_flat load_seg_flat desc(1-4) bit_simps)
qed

theorem rom_flat_segments_witness:
  "\<exists>m'. mcpx_rom_switch_to_protected_mode (\<lambda>cs e1 e2 eip env. Inr env) null_bus
      (snd (mcpx_rom_show null_bus (blank_mcpx True, blank_machine))) = Inr m' \<and> r_eip (cpu m') = 0xfffffe00"
proof -
  have "\<not> enabled (rom (blank_mcpx True))" "hle_mcpx_rom_code (rom (blank_mcpx True))" "hflags (cpu blank_machine) AND 3 = 0"
    by (simp_all add: blank_mcpx_def blank_machine_def zero_cpu_def)
  from rom_flat_segments [OF blank_machine_ok this, of "\<lambda>cs e1 e2 eip env. Inr env" null_bus]
  show ?thesis by blast
qed

end
