(* ===== verification/XCode.thy ===== *)
theory XCode
  imports MCPX_ROM
begin

text \<open>
  The X-code interpreter of \<open>src/hw/xbox/mcpx_rom.c\<close> against the meaning of its instructions. An
  assembler turns a program into the bytes of a flash image; a step relation gives the meaning of the
  program over instruction indices. Shown here: the interpreter runs an assembled program as the relation
  says, and returns when the program does; and X-codes cannot read the boot ROM: two machines that differ
  only in the ROM's bytes take the same steps.
\<close>

section \<open>Instructions, their bytes and their meaning\<close>

text \<open>The branch offsets count instructions, of nine bytes each.\<close>

datatype xinsn = PEEK u32 | POKE u32 u32 | POKEPCI u32 u32 | PEEKPCI u32 | ANDOR u32 u32
  | BNE u32 int | BRA int | OUTB u32 u32 | INB u32 | END u32 | NOP

fun xinsn_fields :: "xinsn \<Rightarrow> u8 \<times> u32 \<times> u32" where
  "xinsn_fields (PEEK a) = (0x02, a, 0)"
| "xinsn_fields (POKE a v) = (0x03, a, v)"
| "xinsn_fields (POKEPCI a v) = (0x04, a, v)"
| "xinsn_fields (PEEKPCI a) = (0x05, a, 0)"
| "xinsn_fields (ANDOR a v) = (0x06, a, v)"
| "xinsn_fields (BNE v k) = (0x08, v, of_int (9 * k))"
| "xinsn_fields (BRA k) = (0x09, 0, of_int (9 * k))"
| "xinsn_fields (OUTB p v) = (0x11, p, v)"
| "xinsn_fields (INB p) = (0x12, p, 0)"
| "xinsn_fields (END v) = (0xEE, v, 0)"
| "xinsn_fields NOP = (0x80, 0, 0)"

definition encode_xinsn :: "xinsn \<Rightarrow> u8 list" where
  "encode_xinsn i = (case xinsn_fields i of (opc, op1, op2) \<Rightarrow> opc # u32_bytes op1 @ u32_bytes op2)"

definition assemble :: "xinsn list \<Rightarrow> u8 list" where
  "assemble prog = concat (map encode_xinsn prog)"

text \<open>The meaning of an instruction: how far it branches, the accumulator and the machine after it.\<close>

fun xinsn_exec :: "'d bus \<Rightarrow> u8 \<Rightarrow> xinsn \<Rightarrow> u32 \<Rightarrow> 'd machine \<Rightarrow> int \<times> u32 \<times> 'd machine" where
  "xinsn_exec bus chip (PEEK a) acc m =
     (if chip = 0xB1 \<and> a > 0xFF000000 then (0, acc, m)
      else (0, read32 bus (if chip = 0xB1 then a else a AND 0x0FFFFFFF) m))"
| "xinsn_exec bus chip (POKE a v) acc m = (0, acc, poke32 bus a v m)"
| "xinsn_exec bus chip (POKEPCI a v) acc m =
     (0, acc, set_eip 0xfffffe62 (helper_outl bus 0xCFC v (helper_outl bus 0xCF8 a m)))"
| "xinsn_exec bus chip (PEEKPCI a) acc m = (0, helper_inl bus 0xCFC (helper_outl bus 0xCF8 a m))"
| "xinsn_exec bus chip (ANDOR a v) acc m = (0, (acc AND a) OR v, m)"
| "xinsn_exec bus chip (BNE v k) acc m = (if acc = v then 0 else k, acc, m)"
| "xinsn_exec bus chip (BRA k) acc m = (k, acc, m)"
| "xinsn_exec bus chip (OUTB p v) acc m = (0, acc, set_eip 0xfffffea0 (helper_outb bus p v m))"
| "xinsn_exec bus chip (INB p) acc m = (0, helper_inb bus p m)"
| "xinsn_exec bus chip (END v) acc m = (0, acc, m)"
| "xinsn_exec bus chip NOP acc m = (0, acc, m)"

text \<open>
  The meaning of a program: a run starts at an index with an accumulator and a machine, and ends after
  the first \<open>END\<close>, with its index and operand.
\<close>

inductive xrun :: "'d bus \<Rightarrow> u8 \<Rightarrow> xinsn list \<Rightarrow> nat \<Rightarrow> u32 \<Rightarrow> 'd machine \<Rightarrow> nat \<Rightarrow> u32 \<Rightarrow> u32 \<Rightarrow> 'd machine \<Rightarrow> bool"
  for bus chip prog where
  xrun_end: "i < length prog \<Longrightarrow> prog ! i = END v \<Longrightarrow> xrun bus chip prog i acc m i v acc m"
| xrun_step: "i < length prog \<Longrightarrow> (\<forall>v. prog ! i \<noteq> END v) \<Longrightarrow>
    xinsn_exec bus chip (prog ! i) acc m = (k, acc', m') \<Longrightarrow> 0 \<le> int i + 1 + k \<Longrightarrow>
    xrun bus chip prog (nat (int i + 1 + k)) acc' m' e v acc'' m'' \<Longrightarrow>
    xrun bus chip prog i acc m e v acc'' m''"

section \<open>Fetching from flash\<close>

lemma le_u32_bytes [simp]: "le_u32 (u32_bytes v) = v"
  by (simp add: le_u32_def u32_bytes_def)

lemma length_encode [simp]: "length (encode_xinsn i) = 9"
  by (cases "xinsn_fields i") (simp add: encode_xinsn_def u32_bytes_def)

lemma length_assemble: "length (assemble prog) = 9 * length prog"
  by (induction prog) (simp_all add: assemble_def)

lemma assemble_nth: "i < length prog \<Longrightarrow> k < 9 \<Longrightarrow> assemble prog ! (9 * i + k) = encode_xinsn (prog ! i) ! k"
proof (induction prog arbitrary: i)
  case (Cons p prog)
  then show ?case by (cases i) (simp_all add: assemble_def nth_append)
qed simp

text \<open>The address of an instruction.\<close>

abbreviation xaddr :: "nat \<Rightarrow> u32" where
  "xaddr n \<equiv> 0xFF000080 + of_nat n"

definition programmed :: "xinsn list \<Rightarrow> 'd machine \<Rightarrow> bool" where
  "programmed prog m \<longleftrightarrow> flash_ok m \<and> length (flash m) dvd 0x1000000 \<and> 0x80 + 9 * length prog \<le> length (flash m)
     \<and> take (9 * length prog) (drop 0x80 (flash m)) = assemble prog"

lemma low_mirror_index:
  assumes "flash_ok m" "length (flash m) dvd 0x1000000" "j < length (flash m)"
  shows "flash_index m (ucast (0xFF000000 :: u32) + of_nat j) = Some j"
proof -
  define s where "s = length (flash m)"
  note ok = flash_okD [OF assms(1), folded s_def]
  have mult: "0x1000000 div s * s = 0x1000000" using assms(2) s_def by simp
  have "j < 0x1000000" using assms(3) ok(2) s_def by simp
  then have "unat (ucast (0xFF000000 :: u32) + of_nat j :: hwaddr) = 0xFF000000 + j"
    by (simp add: unat_word_ariths unat_of_nat take_bit_nat_eq_self_iff)
  then have "flash_offset (flash_locs m) s (ucast (0xFF000000 :: u32) + of_nat j) = Some ((0x1000000 - (0x1000000 - j)) mod s)"
    unfolding ok(3) using flash_offset_mirrors [of s "0x1000000 - j" "ucast (0xFF000000 :: u32) + of_nat j"] ok(1,2) \<open>j < 0x1000000\<close> mult
    by simp
  then show ?thesis using assms(3) \<open>j < 0x1000000\<close> unfolding flash_index_def s_def by simp
qed

lemma xaddr_u64:
  assumes "n < 0xFFFF80"
  shows "(ucast (xaddr n) :: hwaddr) = ucast (0xFF000000 :: u32) + of_nat (0x80 + n)"
proof (rule word_unat_eq_iff [THEN iffD2])
  have "unat (xaddr n) = 0xFF000080 + n"
    using assms by (simp add: unat_word_ariths unat_of_nat take_bit_nat_eq_self_iff)
  moreover have "unat (ucast (0xFF000000 :: u32) + of_nat (0x80 + n) :: hwaddr) = 0xFF000000 + (0x80 + n)"
    using assms by (simp add: unat_word_ariths unat_of_nat take_bit_nat_eq_self_iff)
  ultimately show "unat (ucast (xaddr n) :: hwaddr) = unat (ucast (0xFF000000 :: u32) + of_nat (0x80 + n) :: hwaddr)"
    unfolding unat_ucast_u64 by simp
qed

lemma read_program:
  assumes "programmed prog m" "n + c \<le> 9 * length prog" "0 < c"
  shows "cpu_physical_memory_read bus (ucast (xaddr n)) c m = (take c (drop n (assemble prog)), m)"
proof -
  note ok = assms(1) [unfolded programmed_def]
  have len: "0x80 + 9 * length prog \<le> length (flash m)" "length (flash m) \<le> 0x1000000"
    using ok flash_okD(2) by auto
  have a: "(ucast (xaddr n) :: hwaddr) = ucast (0xFF000000 :: u32) + of_nat (0x80 + n)"
    using len assms(2,3) by (intro xaddr_u64) linarith
  have idx: "flash_index m (ucast (xaddr n) + of_nat i) = Some (0x80 + n + i)" if "i < c" for i
  proof -
    have "0x80 + n + i < length (flash m)" using len assms(2) that by linarith
    then have "flash_index m (ucast (0xFF000000 :: u32) + of_nat (0x80 + n + i)) = Some (0x80 + n + i)"
      using ok by (intro low_mirror_index) simp_all
    then show ?thesis unfolding a by (simp add: add.assoc)
  qed
  have "memory_byte m (ucast (xaddr n) + of_nat i) = take c (drop n (assemble prog)) ! i" if "i < c" for i
  proof -
    have "assemble prog = take (9 * length prog) (drop 0x80 (flash m))" using ok by simp
    then have "assemble prog ! (n + i) = take (9 * length prog) (drop 0x80 (flash m)) ! (n + i)" by (rule arg_cong)
    also have "\<dots> = flash m ! (0x80 + (n + i))" using len assms(2) that by (subst nth_take) simp_all
    finally have "assemble prog ! (n + i) = flash m ! (0x80 + (n + i))" .
    then show ?thesis using idx [OF that] that assms(2) by (simp add: memory_byte_def length_assemble add.assoc)
  qed
  then have "map (\<lambda>i. memory_byte m (ucast (xaddr n) + of_nat i)) [0..<c] = take c (drop n (assemble prog))"
    using assms(2) by (intro nth_equalityI) (simp_all add: length_assemble)
  moreover have "flash_index m (ucast (xaddr n)) \<noteq> None" using idx [of 0] assms(3) by simp
  ultimately show ?thesis unfolding cpu_physical_memory_read_def by simp
qed

lemma fetch_program:
  assumes "programmed prog m" "i < length prog" "xinsn_fields (prog ! i) = (opc, op1, op2)" "x_pc x = xaddr (9 * i)"
  shows "xcode_fetch bus x m = (opc, x\<lparr>x_op1 := op1, x_op2 := op2\<rparr>, m)"
proof -
  have fits: "9 * i + 9 \<le> 9 * length prog" using assms(2) by simp
  have bytes: "take 9 (drop (9 * i) (assemble prog)) = opc # u32_bytes op1 @ u32_bytes op2"
  proof -
    have "take 9 (drop (9 * i) (assemble prog)) = encode_xinsn (prog ! i)"
      using fits assms(2) assemble_nth [OF assms(2)] by (intro nth_equalityI) (simp_all add: length_assemble)
    then show ?thesis using assms(3) by (simp add: encode_xinsn_def)
  qed
  have sub: "take c (drop (9 * i + k) (assemble prog)) = take c (drop k (opc # u32_bytes op1 @ u32_bytes op2))" if "k + c \<le> 9" for k c
    using that unfolding bytes [symmetric] by (simp add: drop_take min_def ac_simps)
  have pc: "x_pc x + 1 = xaddr (9 * i + 1)" "x_pc x + 5 = xaddr (9 * i + 5)" using assms(4) by simp_all
  have "cpu_physical_memory_read bus (ucast (x_pc x)) 1 m = ([opc], m)"
    unfolding assms(4) using read_program [OF assms(1), of "9 * i" 1 bus] fits sub [of 0 1] by simp
  moreover have "read32 bus (x_pc x + 1) m = (op1, m)"
    unfolding pc read32_def using read_program [OF assms(1), of "9 * i + 1" 4 bus] fits sub [of 1 4]
    by (simp add: u32_bytes_def le_u32_def)
  moreover have "read32 bus (x_pc x + 5) m = (op2, m)"
    unfolding pc read32_def using read_program [OF assms(1), of "9 * i + 5" 4 bus] fits sub [of 5 4]
    by (simp add: u32_bytes_def le_u32_def)
  moreover have "opc \<noteq> 0x07" using assms(3) by (cases "prog ! i") auto
  ultimately show ?thesis unfolding xcode_fetch_def by simp
qed

section \<open>The interpreter implements the meaning\<close>

text \<open>No access of the guest changes the flash image.\<close>

definition same_flash :: "'d machine \<Rightarrow> 'd machine \<Rightarrow> bool" where
  "same_flash m m' \<longleftrightarrow> flash m' = flash m \<and> flash_locs m' = flash_locs m"

lemma same_flash_access:
  "same_flash m (snd (cpu_physical_memory_read bus a n m))" "same_flash m (cpu_physical_memory_write bus a bs m)"
  "same_flash m (snd (read32 bus v m))" "same_flash m (poke32 bus v w m)" "same_flash m (set_eip v m)"
  "same_flash m (helper_outl bus v w m)" "same_flash m (helper_outb bus v w m)"
  "same_flash m (snd (helper_inl bus v m))" "same_flash m (snd (helper_inb bus v m))"
  by (auto simp: same_flash_def cpu_physical_memory_read_def cpu_physical_memory_write_def read32_def poke32_def set_eip_def
      helper_outl_def helper_outb_def helper_inl_def helper_inb_def split: prod.split)

lemma same_flash_refl: "same_flash m m"
  by (simp add: same_flash_def)

lemma same_flash_trans: "same_flash m m' \<Longrightarrow> same_flash m' m'' \<Longrightarrow> same_flash m m''"
  by (simp add: same_flash_def)

lemma xinsn_exec_flash: "same_flash m (snd (snd (xinsn_exec bus chip i acc m)))"
proof (cases i)
  case (POKEPCI a v)
  then show ?thesis by (simp add: same_flash_def set_eip_def helper_outl_def)
qed (auto intro: same_flash_access same_flash_refl same_flash_trans)

lemma programmed_cong: "same_flash m m' \<Longrightarrow> programmed prog m \<Longrightarrow> programmed prog m'"
  by (simp add: programmed_def flash_ok_def same_flash_def)

lemma exec_program:
  assumes "xinsn_fields insn = (opc, op1, op2)" "xinsn_exec bus chip insn (x_acc x) m = (k, acc', m')"
    "\<forall>v. insn \<noteq> END v" "x_op1 x = op1" "x_op2 x = op2"
  shows "xcode_exec bus chip opc x m = (x\<lparr>x_pc := x_pc x + of_int (9 * k), x_acc := acc'\<rparr>, m')"
  using assms by (cases insn) (auto simp: xcode_exec_def split: if_splits prod.splits)

lemma step_program:
  assumes "programmed prog m" "i < length prog" "\<forall>v. prog ! i \<noteq> END v" "x_pc x = xaddr (9 * i)" "\<not> x_done x"
    "xinsn_exec bus chip (prog ! i) (x_acc x) m = (k, acc', m')" "0 \<le> int i + 1 + k"
  obtains x' where "xcode_step bus chip (x, m) = (x', m')" "x_pc x' = xaddr (9 * nat (int i + 1 + k))"
    "x_acc x' = acc'" "\<not> x_done x'"
proof -
  obtain opc op1 op2 where f: "xinsn_fields (prog ! i) = (opc, op1, op2)" by (cases "xinsn_fields (prog ! i)")
  define x1 where "x1 = x\<lparr>x_op1 := op1, x_op2 := op2\<rparr>"
  have "xcode_exec bus chip opc x1 m = (x1\<lparr>x_pc := x_pc x1 + of_int (9 * k), x_acc := acc'\<rparr>, m')"
    by (rule exec_program [OF f _ assms(3)]) (use assms(6) in \<open>simp_all add: x1_def\<close>)
  then have step: "xcode_step bus chip (x, m) = (x1\<lparr>x_pc := x_pc x1 + of_int (9 * k) + 9, x_acc := acc'\<rparr>, m')"
    unfolding xcode_step_def using fetch_program [OF assms(1,2) f assms(4), of bus] by (simp add: x1_def)
  have "(of_nat (9 * nat (int i + 1 + k)) :: u32) = of_int (9 * (int i + 1 + k))"
    using assms(7) by (metis of_int_of_nat_eq of_nat_mult of_nat_numeral int_nat_eq)
  then have "xaddr (9 * i) + of_int (9 * k) + 9 = xaddr (9 * nat (int i + 1 + k))" by (simp add: algebra_simps)
  then show ?thesis by (intro that [OF step]) (use assms in \<open>simp_all add: x1_def\<close>)
qed

lemma loop_program:
  assumes "xrun bus (revision s) prog i acc m e v acc' m'" "programmed prog m" "enabled (rom s)"
    "x_pc x = xaddr (9 * i)" "x_acc x = acc" "\<not> x_done x"
  shows "xcode_loop bus s (x, m) =
    Some (\<lparr>x_pc = xaddr (9 * Suc e), x_acc = acc', x_op1 = v, x_op2 = 0, x_done = True\<rparr>, m')"
  using assms(1,2,4-)
proof (induction arbitrary: x rule: xrun.induct)
  case (xrun_end i v acc m)
  have "xcode_step bus (revision s) (x, m) =
      (\<lparr>x_pc = xaddr (9 * Suc i), x_acc = acc, x_op1 = v, x_op2 = 0, x_done = True\<rparr>, m)"
    using fetch_program [OF xrun_end(3,1), of "0xEE" v 0 x bus] xrun_end
    by (cases x) (simp add: xcode_step_def xcode_exec_def)
  then show ?case using assms(3) xrun_end by (subst xcode_loop.simps, subst xcode_loop.simps) simp
next
  case (xrun_step i acc m k acc' m' e v acc'' m'')
  obtain x' where x': "xcode_step bus (revision s) (x, m) = (x', m')" "x_pc x' = xaddr (9 * nat (int i + 1 + k))"
    "x_acc x' = acc'" "\<not> x_done x'"
    using step_program [OF xrun_step(7,1,2), of x bus "revision s" k acc' m'] xrun_step by auto
  have "programmed prog m'"
    using programmed_cong [OF xinsn_exec_flash xrun_step(7)] xrun_step(3) by (metis snd_conv)
  with x' show ?case using xrun_step.IH [of x'] xrun_step assms(3) by (subst xcode_loop.simps) simp
qed

section \<open>The ROM stays secret\<close>

text \<open>An address that does not read the ROM's bytes, at the top of memory or in a mirror.\<close>

definition rom_free :: "'d machine \<Rightarrow> hwaddr \<Rightarrow> bool" where
  "rom_free m a \<longleftrightarrow> (case flash_index m a of None \<Rightarrow> True | Some off \<Rightarrow> off < length (flash m) - 512)"

definition fetch_outside :: "'d machine \<Rightarrow> u32 \<Rightarrow> bool" where
  "fetch_outside m pc \<longleftrightarrow> rom_free m (ucast pc) \<and> (\<forall>i<4. rom_free m (ucast (pc + 1) + of_nat i))
     \<and> (\<forall>i<4. rom_free m (ucast (pc + 5) + of_nat i))"

lemma peek_free:
  assumes "flash_ok m" "unat a \<le> 0xFF000003"
  shows "rom_free m a"
proof -
  define s where "s = length (flash m)"
  define N where "N = 0x1000000 div s"
  note ok = flash_okD [OF assms(1), folded s_def, folded N_def]
  have Ns: "N * s \<le> 0x1000000" unfolding N_def by simp
  have "flash_offset (flash_locs m) s a = None \<or> (\<exists>off < 4. flash_offset (flash_locs m) s a = Some off)"
  proof (cases "unat a < 2 ^ 32 - N * s")
    case True
    then have "flash_offset (map (mirror s) [1..<Suc N]) s a = None"
      unfolding N_def using ok(1,2) by (intro flash_offset_none) simp_all
    then show ?thesis unfolding ok(3) by (rule disjI1)
  next
    case False
    define b where "b = 2 ^ 32 - unat a"
    have b: "0 < b" "b \<le> N * s" "unat a = 2 ^ 32 - b" using False assms(2) Ns unfolding b_def by simp_all
    have "flash_offset (map (mirror s) [1..<Suc N]) s a = Some ((N * s - b) mod s)"
      unfolding N_def using ok(1,2) b by (intro flash_offset_mirrors) (simp_all add: N_def)
    moreover have "(N * s - b) mod s < 4"
    proof -
      have "N * s - b < 4" using Ns assms(2) unfolding b_def by simp
      then show ?thesis by (rule le_less_trans [OF mod_less_eq_dividend])
    qed
    ultimately show ?thesis unfolding ok(3) by blast
  qed
  then show ?thesis using ok(1) unfolding rom_free_def flash_index_def s_def by auto
qed

text \<open>
  Twins differ only in the ROM's bytes, and have the flash layout of a machine \<open>b\<close>. Accesses to twins
  agree when they have the same result and leave twins.
\<close>

definition twin :: "'d machine \<Rightarrow> 'd machine \<Rightarrow> 'd machine \<Rightarrow> bool" where
  "twin b m m' \<longleftrightarrow> flash_ok b \<and> same_flash b m \<and> rom_only m m'"

definition agree :: "'d machine \<Rightarrow> 'a \<times> 'd machine \<Rightarrow> 'a \<times> 'd machine \<Rightarrow> bool" where
  "agree b r r' \<longleftrightarrow> fst r = fst r' \<and> twin b (snd r) (snd r')"

lemma twinD:
  assumes "twin b m m'"
  shows "flash_ok m" "rom_only m m'" "cpu m' = cpu m" "devices m' = devices m" "flash_index m' a = flash_index m a"
    "flash_index m a = flash_index b a" "length (flash m) = length (flash b)"
proof -
  show ok: "flash_ok m" and ro: "rom_only m m'" and "cpu m' = cpu m" and "devices m' = devices m"
    and "flash_index m a = flash_index b a" and "length (flash m) = length (flash b)"
    using assms by (auto simp: twin_def same_flash_def flash_ok_def rom_only_def flash_index_def)
  show "flash_index m' a = flash_index m a"
    using rom_onlyD(2) [OF ok ro] ro by (auto simp: rom_only_def flash_index_def)
qed

lemma twin_update:
  assumes "twin b m m'"
  shows "twin b (m\<lparr>cpu := c\<rparr>) (m'\<lparr>cpu := c\<rparr>)" "twin b (m\<lparr>devices := d\<rparr>) (m'\<lparr>devices := d\<rparr>)"
  using assms by (auto simp: twin_def same_flash_def rom_only_def)

lemma twin_byte:
  assumes "twin b m m'" "rom_free b a"
  shows "memory_byte m' a = memory_byte m a"
proof -
  obtain bs where m': "m' = m\<lparr>flash := take (length (flash m) - 512) (flash m) @ bs\<rparr>"
    using twinD(2) [OF assms(1)] by (auto simp: rom_only_def)
  show ?thesis using assms(2) twinD(5,6) [OF assms(1), of a] twinD(7) [OF assms(1)]
    by (auto simp: memory_byte_def rom_free_def m' nth_append split: option.splits)
qed

lemma agree_read:
  assumes "twin b m m'" "\<And>i. i < n \<Longrightarrow> rom_free b (a + of_nat i)"
  shows "agree b (cpu_physical_memory_read bus a n m) (cpu_physical_memory_read bus a n m')"
proof -
  have "map (\<lambda>i. memory_byte m' (a + of_nat i)) [0..<n] = map (\<lambda>i. memory_byte m (a + of_nat i)) [0..<n]"
    using twin_byte [OF assms(1) assms(2)] by (intro map_cong) simp_all
  then show ?thesis using assms(1) twinD(4,5) [OF assms(1)]
    by (auto simp: agree_def cpu_physical_memory_read_def intro: twin_update split: prod.split)
qed

lemma agree_bind:
  "agree b r r' \<Longrightarrow> (\<And>v n n'. twin b n n' \<Longrightarrow> agree b (f v n) (f v n')) \<Longrightarrow>
   agree b (let (v, n) = r in f v n) (let (v, n) = r' in f v n)"
  by (cases r; cases r') (simp add: agree_def)

lemma agree_pair: "twin b m m' \<Longrightarrow> agree b (v, m) (v, m')"
  by (simp add: agree_def)

lemma agree_if:
  "(c \<Longrightarrow> agree b r r') \<Longrightarrow> (\<not> c \<Longrightarrow> agree b q q') \<Longrightarrow> agree b (if c then r else q) (if c then r' else q')"
  by simp

lemma agree_read32:
  assumes "twin b m m'" "\<And>i. i < 4 \<Longrightarrow> rom_free b (ucast a + of_nat i)"
  shows "agree b (read32 bus a m) (read32 bus a m')"
  unfolding read32_def by (intro agree_bind agree_read agree_pair assms)

lemma twin_access:
  assumes "twin b m m'"
  shows "twin b (poke32 bus v w m) (poke32 bus v w m')" "twin b (set_eip v m) (set_eip v m')"
    "twin b (helper_outl bus v w m) (helper_outl bus v w m')" "twin b (helper_outb bus v w m) (helper_outb bus v w m')"
    "agree b (helper_inl bus v m) (helper_inl bus v m')" "agree b (helper_inb bus v m) (helper_inb bus v m')"
  using assms twinD(3-5) [OF assms]
  by (simp_all add: poke32_def cpu_physical_memory_write_def set_eip_def helper_outl_def helper_outb_def helper_inl_def
      helper_inb_def agree_def twin_update split: prod.split)

lemma peek_agree:
  assumes "twin b m m'" "a \<le> 0xFF000000"
  shows "agree b (read32 bus a m) (read32 bus a m')"
proof (rule agree_read32 [OF assms(1)])
  fix i :: nat
  assume "i < 4"
  moreover have "unat a \<le> 0xFF000000" using assms(2) by (simp add: word_le_nat_alt)
  ultimately have "unat (ucast a + of_nat i :: hwaddr) = unat a + i"
    by (simp add: unat_word_ariths unat_ucast_u64 unat_of_nat take_bit_nat_eq_self_iff)
  with \<open>i < 4\<close> \<open>unat a \<le> _\<close> show "rom_free b (ucast a + of_nat i)"
    using assms(1) by (intro peek_free) (simp_all add: twin_def)
qed

lemma masked_address: "a AND 0x0FFFFFFF \<le> (0xFF000000 :: u32)"
proof -
  have "a AND 0x0FFFFFFF \<le> 0x0FFFFFFF" by (rule word_and_le1)
  then show ?thesis by (rule order_trans) simp
qed

lemma agree_exec:
  assumes "twin b m m'"
  shows "agree b (xcode_exec bus chip opc x m) (xcode_exec bus chip opc x m')"
  unfolding xcode_exec_def
  by (intro agree_if agree_bind agree_pair peek_agree masked_address twin_access assms)

lemma agree_fetch:
  assumes "twin b m m'" "fetch_outside b (x_pc x)"
  shows "agree b (case xcode_fetch bus x m of (opc, x, m) \<Rightarrow> ((opc, x), m)) (case xcode_fetch bus x m' of (opc, x, m) \<Rightarrow> ((opc, x), m))"
proof -
  have eq: "(case xcode_fetch bus x m of (opc, x, m) \<Rightarrow> ((opc, x), m)) =
     (let (opc, m) = cpu_physical_memory_read bus (ucast (x_pc x)) 1 m in
      let (op1, m) = read32 bus (x_pc x + 1) m in
      let (op2, m) = read32 bus (x_pc x + 5) m
      in if opc ! 0 = 0x07 then ((ucast op2, x\<lparr>x_op1 := op2, x_op2 := x_acc x\<rparr>), m)
         else ((opc ! 0, x\<lparr>x_op1 := op1, x_op2 := op2\<rparr>), m))" for m :: "'a machine"
    by (simp add: xcode_fetch_def split: prod.split)
  show ?thesis
    unfolding eq by (intro agree_bind agree_if agree_pair agree_read agree_read32 assms(1))
      (use assms(2) in \<open>simp_all add: fetch_outside_def\<close>)
qed

lemma agree_step:
  assumes "twin b m m'" "fetch_outside b (x_pc x)"
  shows "agree b (xcode_step bus chip (x, m)) (xcode_step bus chip (x, m'))"
proof -
  obtain opc x1 n where 1: "xcode_fetch bus x m = (opc, x1, n)" by (cases "xcode_fetch bus x m")
  then obtain n' where 2: "xcode_fetch bus x m' = (opc, x1, n')" and tw: "twin b n n'"
    using agree_fetch [OF assms, of bus] by (cases "xcode_fetch bus x m'") (auto simp: agree_def)
  have "agree b (let (x, m) = xcode_exec bus chip opc x1 n in (x\<lparr>x_pc := x_pc x + 9\<rparr>, m))
      (let (x, m) = xcode_exec bus chip opc x1 n' in (x\<lparr>x_pc := x_pc x + 9\<rparr>, m))"
    by (intro agree_bind agree_exec agree_pair tw)
  then show ?thesis by (simp add: xcode_step_def 1 2)
qed

text \<open>A machine with a program in its flash image, for concrete instances.\<close>

definition programmed_machine :: "xinsn list \<Rightarrow> unit machine" where
  "programmed_machine prog = blank_machine\<lparr>flash :=
     replicate 0x80 0 @ assemble prog @ replicate (0xFF80 - 9 * length prog) 0\<rparr>"

lemma programmed_machine_ok:
  assumes "9 * length prog \<le> 0xFF80"
  shows "programmed prog (programmed_machine prog)"
proof -
  have "length (flash (programmed_machine prog)) = length (flash blank_machine)"
    using assms by (simp add: programmed_machine_def blank_machine_def length_assemble)
  then have "flash_ok (programmed_machine prog)"
    using blank_machine_ok by (simp add: flash_ok_def programmed_machine_def)
  with assms show ?thesis
    by (simp add: programmed_def) (simp add: programmed_machine_def length_assemble)
qed

lemma programmed_fetch:
  assumes "programmed prog m" "n + 9 \<le> 9 * length prog" "0x80 + 9 * length prog \<le> length (flash m) - 512"
  shows "fetch_outside m (xaddr n)"
proof -
  note ok = assms(1) [unfolded programmed_def]
  have len: "length (flash m) \<le> 0x1000000" using ok flash_okD(2) by auto
  have "rom_free m (ucast (xaddr (n + k)) + of_nat i)" if "k + i < 9" for k i
  proof -
    have "(ucast (xaddr (n + k)) :: hwaddr) = ucast (0xFF000000 :: u32) + of_nat (0x80 + (n + k))"
      using len assms(2,3) that by (intro xaddr_u64) linarith
    then have "ucast (xaddr (n + k)) + of_nat i = (ucast (0xFF000000 :: u32) + of_nat (0x80 + n + k + i) :: hwaddr)"
      by (simp add: add.assoc)
    moreover have "0x80 + n + k + i < length (flash m) - 512" using assms(2,3) that by linarith
    ultimately show ?thesis using ok low_mirror_index [of m "0x80 + n + k + i"] by (simp add: rom_free_def del: of_nat_add)
  qed
  from this [of 0 0] this [of 1] this [of 5] show ?thesis
    unfolding fetch_outside_def by (simp add: add.assoc)
qed

section \<open>Properties\<close>

text \<open>
  C11. The X-code interpreter implements its instruction set. When the flash image holds an assembled
  program where the interpreter starts, and a run of the program by the instructions' meaning reaches its
  \<open>END\<close>, then the interpreter returns, with the machine that the run ends with, and with the address after
  the \<open>END\<close>, its operand and the accumulator in the registers that the next stage expects them in.
\<close>

theorem xcode_runs_program:
  assumes "xrun bus (revision s) prog 0 0 m e v acc m'" "programmed prog m" "enabled (rom s)"
  shows "mcpx_rom_run_xcode bus s op1 op2 m =
    Some (m'\<lparr>cpu := (cpu m')\<lparr>r_eip := 0xfffffebc, r_esi := xaddr (9 * Suc e), r_ebx := v, r_ecx := 0, r_edi := acc\<rparr>\<rparr>)"
  unfolding mcpx_rom_run_xcode_def
  by (subst loop_program [OF assms]) (simp_all add: xcode_start_def xcode_finish_def)

theorem xcode_runs_program_witness:
  "let prog = [ANDOR 0 3, BNE 3 (-2), INB 0x61, BRA 1, NOP, END 0x806];
       s = (blank_mcpx True)\<lparr>rom := (rom (blank_mcpx True))\<lparr>enabled := True\<rparr>\<rparr>;
       m = programmed_machine prog
   in \<exists>m'. mcpx_rom_run_xcode null_bus s 0 0 m = Some m' \<and> r_ebx (cpu m') = 0x806 \<and> r_esi (cpu m') = 0xFF0000B6"
proof -
  define prog where "prog = [ANDOR 0 3, BNE 3 (-2), INB 0x61, BRA 1, NOP, END 0x806]"
  define s where "s = (blank_mcpx True)\<lparr>rom := (rom (blank_mcpx True))\<lparr>enabled := True\<rparr>\<rparr>"
  have in_: "helper_inb null_bus p m = (0, m)" for p m by (simp add: helper_inb_def null_bus_def)
  have "xrun null_bus (revision s) prog 5 0 (programmed_machine prog) 5 0x806 0 (programmed_machine prog)"
    by (rule xrun_end) (simp_all add: prog_def)
  then have "xrun null_bus (revision s) prog 3 0 (programmed_machine prog) 5 0x806 0 (programmed_machine prog)"
    by (intro xrun_step [where k = 1 and i = 3]) (simp_all add: prog_def)
  then have "xrun null_bus (revision s) prog 2 3 (programmed_machine prog) 5 0x806 0 (programmed_machine prog)"
    by (intro xrun_step [where k = 0 and i = 2]) (simp_all add: prog_def in_)
  then have "xrun null_bus (revision s) prog 1 3 (programmed_machine prog) 5 0x806 0 (programmed_machine prog)"
    by (intro xrun_step [where k = 0 and i = 1]) (simp_all add: prog_def)
  then have "xrun null_bus (revision s) prog 0 0 (programmed_machine prog) 5 0x806 0 (programmed_machine prog)"
    by (intro xrun_step [where k = 0 and i = 0]) (simp_all add: prog_def)
  from xcode_runs_program [OF this, of 0 0] programmed_machine_ok [of prog]
  show ?thesis unfolding prog_def [symmetric] s_def [symmetric] Let_def by (simp add: s_def) (simp add: prog_def)
qed



end
