(* ===== verification/Bitfields.thy ===== *)
theory Bitfields
  imports Xbox_Prelude
begin

text \<open>
  The register-field macros of the NV2A (\<open>src/hw/xbox/nv2a_gpu.c\<close>) and of the APU
  (\<open>src/hw/xbox/mcpx_apu.c\<close>). A field is named by its mask alone; \<open>ffs\<close> of the mask gives its
  position. The locale \<open>bitfield\<close> is the contract a well-formed mask gives: the macros read back
  what they wrote and leave every bit outside of the mask alone. Each device interprets it at the
  masks of its registers.
\<close>

section \<open>The macros\<close>

text \<open>\<open>ffs\<close>: one plus the index of the least significant set bit, 0 for 0.\<close>

definition ffs :: "u32 \<Rightarrow> nat" where
  "ffs w = (case find (bit w) [0..<32] of None \<Rightarrow> 0 | Some i \<Rightarrow> Suc i)"

definition GET_MASK :: "u32 \<Rightarrow> u32 \<Rightarrow> u32" where
  "GET_MASK v m = drop_bit (ffs m - 1) (v AND m)"

definition SET_MASK :: "u32 \<Rightarrow> u32 \<Rightarrow> u32 \<Rightarrow> u32" where
  "SET_MASK v m val = (v AND NOT m) OR (push_bit (ffs m - 1) val AND m)"

lemma ffs_eqI:
  assumes "bit w i" and "\<And>j. j < i \<Longrightarrow> \<not> bit w j"
  shows "ffs w = Suc i"
proof -
  from assms(1) have "i < 32" using bit_imp_le_length [of w i] by simp
  then have "find (bit w) [0..<32] = Some i"
    using assms by (auto simp: find_Some_iff)
  then show ?thesis by (simp add: ffs_def)
qed

lemma ffs_two_power: "n < 32 \<Longrightarrow> ffs (push_bit n 1) = Suc n"
  by (rule ffs_eqI) (auto simp: bit_simps)

section \<open>The contract of a contiguous field\<close>

locale bitfield =
  fixes msk :: u32 and pos width :: nat
  assumes width_pos: "0 < width"
    and fits: "pos + width \<le> 32"
    and msk_eq: "msk = push_bit pos (mask width)"
begin

lemma bit_msk: "bit msk n \<longleftrightarrow> pos \<le> n \<and> n < pos + width"
  using fits by (auto simp: msk_eq bit_simps)

lemma ffs_msk: "ffs msk = Suc pos"
  by (rule ffs_eqI) (auto simp: bit_msk width_pos)

lemma bit_get: "bit (GET_MASK v msk) n \<longleftrightarrow> n < width \<and> bit v (pos + n)"
  by (auto simp: GET_MASK_def ffs_msk bit_simps bit_msk)

lemma bit_set:
  "n < 32 \<Longrightarrow> bit (SET_MASK v msk x) n
     \<longleftrightarrow> (if pos \<le> n \<and> n < pos + width then bit x (n - pos) else bit v n)"
  by (auto simp: SET_MASK_def ffs_msk bit_simps bit_msk)

lemma get_set: "GET_MASK (SET_MASK v msk x) msk = take_bit width x"
proof (rule bit_word_eqI)
  fix n :: nat
  assume "n < LENGTH(32)"
  then show "bit (GET_MASK (SET_MASK v msk x) msk) n = bit (take_bit width x) n"
    using fits by (auto simp: bit_get bit_set bit_simps)
qed

lemma get_set_fits: "unat x < 2 ^ width \<Longrightarrow> GET_MASK (SET_MASK v msk x) msk = x"
proof -
  assume "unat x < 2 ^ width"
  then have "take_bit width x = x"
    by (metis take_bit_nat_eq_self_iff unsigned_take_bit_eq word_unat_eq_iff)
  then show ?thesis by (simp add: get_set)
qed

lemma set_get: "SET_MASK v msk (GET_MASK v msk) = v"
  by (rule bit_word_eqI) (auto simp: bit_set bit_get)

lemma get_less: "unat (GET_MASK v msk) < 2 ^ width"
proof -
  have "GET_MASK v msk = take_bit width (GET_MASK v msk)"
    by (rule bit_word_eqI) (auto simp: bit_get bit_simps)
  then show ?thesis
    by (metis take_bit_nat_less_exp unsigned_take_bit_eq)
qed

text \<open>Writing the field changes no other field, whatever its shape.\<close>

lemma get_other: "msk AND m = 0 \<Longrightarrow> GET_MASK (SET_MASK v msk x) m = GET_MASK v m"
proof -
  assume "msk AND m = 0"
  then have dis: "\<not> (bit msk n \<and> bit m n)" for n
    by (metis bit_and_iff bit_0_eq bot_apply bot_bool_def)
  have "SET_MASK v msk x AND m = v AND m"
  proof (rule bit_word_eqI)
    fix n :: nat
    assume "n < LENGTH(32)"
    then show "bit (SET_MASK v msk x AND m) n = bit (v AND m) n"
      using dis [of n] by (auto simp: bit_simps bit_set bit_msk)
  qed
  then show ?thesis by (simp add: GET_MASK_def)
qed

text \<open>Reassembling a register from the fields of a value keeps the bits of the fields.\<close>

lemma set_get_eq: "SET_MASK w msk (GET_MASK v msk) = (w AND NOT msk) OR (v AND msk)"
  by (rule bit_word_eqI) (auto simp: bit_set bit_get bit_simps bit_msk)

lemma flag_get: "width = 1 \<Longrightarrow> of_bool (GET_MASK v msk \<noteq> 0) = GET_MASK v msk"
proof -
  assume "width = 1"
  then have "unat (GET_MASK v msk) < 2" using get_less [of v] by simp
  then consider "unat (GET_MASK v msk) = 0" | "unat (GET_MASK v msk) = unat (1 :: u32)" by fastforce
  then show ?thesis
  proof cases
    case 1
    then show ?thesis by (simp only: unat_eq_zero) simp
  next
    case 2
    then have "GET_MASK v msk = 1" by (simp only: word_unat_eq_iff)
    then show ?thesis by simp
  qed
qed

text \<open>The value of a field survives a narrower type that has room for it.\<close>

lemma narrow_get:
  assumes "width \<le> LENGTH('b::len)"
  shows "ucast (ucast (GET_MASK v msk) :: 'b word) = GET_MASK v msk"
  using assms by (intro bit_word_eqI) (auto simp: bit_simps bit_get)

lemma set_set: "SET_MASK (SET_MASK v msk x) msk y = SET_MASK v msk y"
  by (rule bit_word_eqI) (auto simp: bit_set)

end

end
