(* ===== verification/NV2A_State.thy ===== *)
theory NV2A_State
  imports Bitfields
begin

text \<open>
  The state of the NV2A GPU of \<open>src/hw/xbox/nv2a_gpu.c\<close>, as far as its register blocks and its command
  FIFO use it, and the helpers that they share: the interrupt line, the hash table of object handles in
  instance memory, and DMA objects. The drawing engine's own state, which its methods change through
  OpenGL, is not part of it. Shown here: what the interrupt line reflects, that the table's hash is
  computed in finitely many steps, and that lookups stay inside of instance memory.
\<close>

section \<open>State\<close>

text \<open>The enumerations \<open>FifoMode\<close> and \<open>FIFOEngine\<close>, which hold what the guest writes into their registers.\<close>

definition FIFO_PIO :: u32 where "FIFO_PIO = 0"
definition FIFO_DMA :: u32 where "FIFO_DMA = 1"

definition ENGINE_SOFTWARE :: u32 where "ENGINE_SOFTWARE = 0"
definition ENGINE_GRAPHICS :: u32 where "ENGINE_GRAPHICS = 1"
definition ENGINE_DVD :: u32 where "ENGINE_DVD = 2"

definition NV2A_GPU_NUM_CHANNELS :: nat where "NV2A_GPU_NUM_CHANNELS = 32"
definition NV2A_GPU_NUM_SUBCHANNELS :: nat where "NV2A_GPU_NUM_SUBCHANNELS = 8"

record RAMHTEntry =
  handle :: u32
  instance_address :: hwaddr
  engine :: u32
  entry_channel_id :: "5 word"
  entry_valid :: bool

record DMAObject =
  dma_class :: u32
  dma_target :: u32
  dma_address :: hwaddr
  dma_limit :: hwaddr

text \<open>One command of the FIFO; the C struct has bit fields of 14 and 3 bits.\<close>

record CacheEntry =
  e_method :: "14 word"
  e_subchannel :: "3 word"
  e_nonincreasing :: bool
  e_parameter :: u32

record Cache1State =
  c_channel_id :: u32
  c_mode :: u32
  push_enabled :: bool
  dma_push_enabled :: bool
  dma_push_suspended :: bool
  dma_instance :: hwaddr
  method_nonincreasing :: bool
  c_method :: "14 word"
  c_subchannel :: "3 word"
  method_count :: "24 word"
  dcount :: u32
  subroutine_active :: bool
  subroutine_return :: hwaddr
  get_jmp_shadow :: hwaddr
  rsvd_shadow :: u32
  data_shadow :: u32
  c_error :: u32
  pull_enabled :: bool
  bound_engines :: "u32 list"
  last_engine :: u32
  cache_size :: int
  cache :: "CacheEntry list"

record ChannelControl =
  dma_put :: hwaddr
  dma_get :: hwaddr
  ref :: u32

record GraphicsContext =
  channel_3d :: bool
  ctx_subchannel :: u32

record PGRAPHState =
  pg_pending :: u32
  pg_enabled :: u32
  context_table :: hwaddr
  context_address :: hwaddr
  trapped_method :: u32
  trapped_subchannel :: u32
  trapped_channel_id :: u32
  trapped_data_low :: u32
  notify_source :: u32
  fifo_access :: bool
  read_3d :: nat
  pg_channel_id :: u32
  channel_valid :: bool
  pg_context :: "GraphicsContext list"
  pg_regs :: "u32 list"

text \<open>
  The state of the device, with the level of its interrupt line, the two memories it reaches, and the number of
  puller threads it has created so far.
\<close>

record NV2A_GPUState =
  config :: mem
  irq :: bool
  vram :: mem
  vram_size :: hwaddr
  ramin :: mem
  ramin_size :: hwaddr
  pmc_pending :: u32
  pmc_enabled :: u32
  pfifo_pending :: u32
  pfifo_enabled :: u32
  ramht_address :: hwaddr
  ramht_size :: u32
  ramht_search :: u32
  ramfc_address1 :: hwaddr
  ramfc_address2 :: hwaddr
  ramfc_size :: u32
  channel_modes :: u32
  channels_pending_push :: u32
  cache1 :: Cache1State
  pvideo_regs :: "u32 list"
  enable_overlay :: bool
  ptimer_pending :: u32
  ptimer_enabled :: u32
  numerator :: u32
  denominator :: u32
  alarm_time :: u32
  pfb_regs :: "u32 list"
  pgraph :: PGRAPHState
  pcrtc_pending :: u32
  pcrtc_enabled :: u32
  pcrtc_start :: hwaddr
  core_clock_coeff :: u32
  core_clock_freq :: u64
  memory_clock_coeff :: u32
  video_clock_coeff :: u32
  channel_control :: "ChannelControl list"
  pullers_created :: nat

section \<open>Interrupts\<close>

definition NV_PMC_INTR_0_PFIFO :: u32 where [reg_defs]: "NV_PMC_INTR_0_PFIFO = 0x100"
definition NV_PMC_INTR_0_PGRAPH :: u32 where [reg_defs]: "NV_PMC_INTR_0_PGRAPH = 0x1000"
definition NV_PMC_INTR_0_PCRTC :: u32 where [reg_defs]: "NV_PMC_INTR_0_PCRTC = 0x1000000"

definition update_irq :: "NV2A_GPUState \<Rightarrow> NV2A_GPUState" where
  "update_irq d =
     (let p = pmc_pending d;
          p = (if pfifo_pending d AND pfifo_enabled d \<noteq> 0 then p OR NV_PMC_INTR_0_PFIFO else p AND NOT NV_PMC_INTR_0_PFIFO);
          p = (if pcrtc_pending d AND pcrtc_enabled d \<noteq> 0 then p OR NV_PMC_INTR_0_PCRTC else p AND NOT NV_PMC_INTR_0_PCRTC);
          p = (if pg_pending (pgraph d) AND pg_enabled (pgraph d) \<noteq> 0
               then p OR NV_PMC_INTR_0_PGRAPH else p AND NOT NV_PMC_INTR_0_PGRAPH)
      in d\<lparr>pmc_pending := p, irq := (p \<noteq> 0 \<and> pmc_enabled d \<noteq> 0)\<rparr>)"

section \<open>Instance memory\<close>

text \<open>A little-endian load from instance memory, through the host's pointer.\<close>

definition ramin_ldl :: "NV2A_GPUState \<Rightarrow> nat \<Rightarrow> u32 res" where
  "ramin_ldl d a = (if a + 4 \<le> unat (ramin_size d) then Inr (ldl_le (ramin d) (of_nat a)) else Inl Out_of_bounds)"

text \<open>
  The hash of a handle: the exclusive or of its pieces of \<open>bits\<close> bits. \<open>ffs\<close> of the table's size gives
  \<open>bits\<close>; a size of zero would shift by more than the width of the operand.
\<close>

function ramht_fold :: "nat \<Rightarrow> u32 \<Rightarrow> u32 \<Rightarrow> u32" where
  "ramht_fold bits handl hash =
     (if handl = 0 \<or> bits = 0 then hash
      else ramht_fold bits (drop_bit bits handl) (hash XOR (handl AND (push_bit bits 1 - 1))))"
  by pat_completeness auto

termination
proof (relation "measure (\<lambda>(bits, handl, hash). unat handl)")
  fix bits :: nat and handl hash :: u32
  assume *: "\<not> (handl = 0 \<or> bits = 0)"
  have "unat (drop_bit bits handl) = unat handl div 2 ^ bits" by (simp only: unat_drop_bit_eq) (rule drop_bit_eq_div)
  also have "\<dots> < unat handl" using * one_less_power [of "2 :: nat" bits] by (intro div_less_dividend) (auto simp: unat_gt_0)
  finally show "((bits, drop_bit bits handl, hash XOR (handl AND (push_bit bits 1 - 1))), bits, handl, hash)
      \<in> measure (\<lambda>(bits, handl, hash). unat handl)" by simp
qed simp

definition ramht_hash :: "NV2A_GPUState \<Rightarrow> u32 \<Rightarrow> u32 res" where
  "ramht_hash d handl =
     (let bits = int (ffs (ramht_size d)) - 2
      in if bits < 4 \<or> 31 < bits then Inl Undefined_shift
         else Inr (ramht_fold (nat bits) handl 0 XOR push_bit (nat bits - 4) (c_channel_id (cache1 d))))"

definition ramht_lookup :: "NV2A_GPUState \<Rightarrow> u32 \<Rightarrow> RAMHTEntry res" where
  "ramht_lookup d handl =
     res_bind (ramht_hash d handl) (\<lambda>hash.
     res_bind (assert_res (hash * 8 < ramht_size d)) (\<lambda>_.
     let entry_ptr = unat (ramht_address d) + unat (hash * 8)
     in res_bind (ramin_ldl d entry_ptr) (\<lambda>entry_handle.
        res_bind (ramin_ldl d (entry_ptr + 4)) (\<lambda>entry_context.
        Inr \<lparr>handle = entry_handle,
             instance_address = push_bit 4 (ucast (entry_context AND 0x0000FFFF)),
             engine = drop_bit 16 (entry_context AND 0x00030000),
             entry_channel_id = ucast (drop_bit 24 (entry_context AND 0x1F000000)),
             entry_valid = (entry_context AND 0x80000000 \<noteq> 0)\<rparr>))))"

definition nv_dma_load :: "NV2A_GPUState \<Rightarrow> hwaddr \<Rightarrow> DMAObject res" where
  "nv_dma_load d dma_obj_address =
     res_bind (assert_res (dma_obj_address < ramin_size d)) (\<lambda>_.
     res_bind (ramin_ldl d (unat dma_obj_address)) (\<lambda>flags.
     res_bind (ramin_ldl d (unat dma_obj_address + 4)) (\<lambda>limit.
     res_bind (ramin_ldl d (unat dma_obj_address + 8)) (\<lambda>frame.
     Inr \<lparr>dma_class = GET_MASK flags 0x00000FFF,
          dma_target = GET_MASK flags 0x00030000,
          dma_address = ucast ((frame AND 0xFFFFF000) OR GET_MASK flags 0xFFF00000),
          dma_limit = ucast limit\<rparr>))))"

text \<open>
  \<open>nv_dma_load_and_map\<close>: the offset of the mapping into video memory, and its length. The check that it
  lies inside of video memory is commented out in the source.
\<close>

definition nv_dma_load_and_map :: "NV2A_GPUState \<Rightarrow> hwaddr \<Rightarrow> (hwaddr \<times> hwaddr) res" where
  "nv_dma_load_and_map d dma_obj_address =
     res_bind (assert_res (dma_obj_address < ramin_size d)) (\<lambda>_.
     res_bind (nv_dma_load d dma_obj_address) (\<lambda>dma.
     Inr (dma_address dma, dma_limit dma)))"

text \<open>A load through the mapping.\<close>

definition vram_ldl :: "NV2A_GPUState \<Rightarrow> nat \<Rightarrow> u32 res" where
  "vram_ldl d a = (if a + 4 \<le> unat (vram_size d) then Inr (ldl_le (vram d) (of_nat a)) else Inl Out_of_bounds)"

declare ramht_fold.simps [simp del]

section \<open>The invariant of the device\<close>

text \<open>
  What the registers keep of the state: the addresses they hold point into instance memory with room
  for the objects there, the table of handles has one of its four sizes once it is set up, and the arrays have
  their declared lengths, with the indices into them below.
\<close>

definition cache1_ok :: "Cache1State \<Rightarrow> bool" where
  "cache1_ok c \<longleftrightarrow> unat (c_channel_id c) < 32 \<and> length (bound_engines c) = 8 \<and> unat (dma_instance c) \<le> 0xFFFF0"

definition pgraph_ok :: "PGRAPHState \<Rightarrow> bool" where
  "pgraph_ok g \<longleftrightarrow> unat (pg_channel_id g) < 32 \<and> length (pg_context g) = 32 \<and> unat (context_address g) \<le> 0xFFFF0
     \<and> length (pg_regs g) = 0x2000"

definition gpu_ok :: "NV2A_GPUState \<Rightarrow> bool" where
  "gpu_ok d \<longleftrightarrow> ramin_size d = 0x100000 \<and> (ramht_size d = 0 \<or> ramht_size d \<in> {0x1000, 0x2000, 0x4000, 0x8000})
     \<and> unat (ramht_address d) \<le> 0x1F000 \<and> length (channel_control d) = 32 \<and> length (pvideo_regs d) = 0x1000
     \<and> length (pfb_regs d) = 0x1000 \<and> cache1_ok (cache1 d) \<and> pgraph_ok (pgraph d)"

lemma ramin_ldl_ok: "gpu_ok d \<Longrightarrow> a + 4 \<le> 0x100000 \<Longrightarrow> ramin_ldl d a = Inr (ldl_le (ramin d) (of_nat a))"
  by (simp add: gpu_ok_def ramin_ldl_def)

lemma ramht_size_le: "gpu_ok d \<Longrightarrow> unat (ramht_size d) \<le> 0x8000"
  by (auto simp: gpu_ok_def)

lemma res_safe_assert: "(b \<Longrightarrow> res_safe Out_of_bounds P (k ())) \<Longrightarrow> res_safe Out_of_bounds P (res_bind (assert_res b) k)"
  by (cases b) (simp_all add: res_safe_def)

lemma ramht_lookup_safe:
  assumes "gpu_ok d"
  shows "res_safe Out_of_bounds (\<lambda>e. unat (instance_address e) \<le> 0xFFFF0) (ramht_lookup d h)"
proof -
  have inst: "unat (push_bit 4 (ucast (c AND 0xFFFF :: u32)) :: u64) \<le> 0xFFFF0" for c
  proof -
    have "unat (c AND 0xFFFF) \<le> 0xFFFF" using word_and_le1 [of c "0xFFFF"] by (simp add: word_le_nat_alt)
    then have "unat (ucast (c AND 0xFFFF) :: u64) \<le> 0xFFFF"
      by (simp only: unat_ucast_u64)
    then show ?thesis by (simp add: push_bit_eq_mult unat_word_ariths)
  qed
  have ldl: "res_safe Out_of_bounds (\<lambda>_. True) (ramin_ldl d a)" if "a + 4 \<le> 0x100000" for a
    using ramin_ldl_ok [OF assms that] by (simp add: res_safe_def)
  have addr: "unat (ramht_address d) \<le> 0x1F000" using assms by (simp add: gpu_ok_def)
  have hash: "res_safe Out_of_bounds (\<lambda>_. True) (ramht_hash d h)" by (simp add: ramht_hash_def res_safe_def Let_def)
  show ?thesis unfolding ramht_lookup_def Let_def
  proof (rule res_safe_bind [OF hash], rule res_safe_assert)
    fix hash
    assume "hash * 8 < ramht_size d"
    then have "unat (hash * 8) < 0x8000" using ramht_size_le [OF assms] by (simp add: word_less_nat_alt)
    with addr have "unat (ramht_address d) + unat (hash * 8) + 8 \<le> 0x100000" by linarith
    then show "res_safe Out_of_bounds (\<lambda>e. unat (instance_address e) \<le> 0xFFFF0)
        (res_bind (ramin_ldl d (unat (ramht_address d) + unat (hash * 8))) (\<lambda>entry_handle.
          res_bind (ramin_ldl d (unat (ramht_address d) + unat (hash * 8) + 4)) (\<lambda>entry_context.
          Inr \<lparr>handle = entry_handle, instance_address = push_bit 4 (ucast (entry_context AND 0x0000FFFF)),
             engine = drop_bit 16 (entry_context AND 0x00030000),
             entry_channel_id = ucast (drop_bit 24 (entry_context AND 0x1F000000)),
             entry_valid = (entry_context AND 0x80000000 \<noteq> 0)\<rparr>)))"
      by (intro res_safe_bind [OF ldl] res_safe_Inr) (simp_all add: inst)
  qed
qed

lemma nv_dma_load_safe:
  assumes "gpu_ok d" "unat a \<le> 0xFFFF0"
  shows "res_ok (\<lambda>_. True) (nv_dma_load d a)"
proof -
  have "a < ramin_size d" using assms by (simp add: gpu_ok_def word_less_nat_alt)
  with assms show ?thesis by (simp add: nv_dma_load_def ramin_ldl_ok res_ok_def)
qed

section \<open>The state after initialisation\<close>

definition cache1_reset :: Cache1State where
  "cache1_reset = \<lparr>c_channel_id = 0, c_mode = 0, push_enabled = False, dma_push_enabled = False, dma_push_suspended = False,
     dma_instance = 0, method_nonincreasing = False, c_method = 0, c_subchannel = 0, method_count = 0, dcount = 0,
     subroutine_active = False, subroutine_return = 0, get_jmp_shadow = 0, rsvd_shadow = 0, data_shadow = 0, c_error = 0,
     pull_enabled = False, bound_engines = replicate 8 0, last_engine = 0, cache_size = 0, cache = []\<rparr>"

definition pgraph_reset :: PGRAPHState where
  "pgraph_reset = \<lparr>pg_pending = 0, pg_enabled = 0, context_table = 0, context_address = 0, trapped_method = 0,
     trapped_subchannel = 0, trapped_channel_id = 0, trapped_data_low = 0, notify_source = 0, fifo_access = False,
     read_3d = 0, pg_channel_id = 0, channel_valid = False,
     pg_context = replicate 32 \<lparr>channel_3d = False, ctx_subchannel = 0\<rparr>, pg_regs = replicate 0x2000 0\<rparr>"

text \<open>\<open>nv2a_gpu_initfn\<close> on a zeroed device object, with the console's memory as video memory.\<close>

definition nv2a_gpu_initfn :: "mem \<Rightarrow> hwaddr \<Rightarrow> mem \<Rightarrow> NV2A_GPUState" where
  "nv2a_gpu_initfn ram ram_size pci_config =
     \<lparr>config = pci_config(0x3d := 0x01, 0x3c := 0x03), irq = False, vram = ram, vram_size = ram_size,
      ramin = (\<lambda>_. 0), ramin_size = 0x100000, pmc_pending = 0, pmc_enabled = 0, pfifo_pending = 0, pfifo_enabled = 0,
      ramht_address = 0, ramht_size = 0, ramht_search = 0, ramfc_address1 = 0, ramfc_address2 = 0, ramfc_size = 0,
      channel_modes = 0, channels_pending_push = 0, cache1 = cache1_reset, pvideo_regs = replicate 0x1000 0,
      enable_overlay = False, ptimer_pending = 0, ptimer_enabled = 0, numerator = 0, denominator = 0, alarm_time = 0,
      pfb_regs = replicate 0x1000 0, pgraph = pgraph_reset, pcrtc_pending = 0, pcrtc_enabled = 0, pcrtc_start = 0,
      core_clock_coeff = 0x00011c01, core_clock_freq = 189000000, memory_clock_coeff = 0,
      video_clock_coeff = 0x0003C20D, channel_control = replicate 32 \<lparr>dma_put = 0, dma_get = 0, ref = 0\<rparr>, pullers_created = 0\<rparr>"

lemma gpu_ok_init: "gpu_ok (nv2a_gpu_initfn ram ram_size pci_config)"
  by (simp add: gpu_ok_def nv2a_gpu_initfn_def cache1_ok_def pgraph_ok_def cache1_reset_def pgraph_reset_def)

end
