(* ===== verification/NV2A_Registers.thy ===== *)
theory NV2A_Registers
  imports Bitfields
begin

text \<open>
  The register numbers and field masks of \<open>src/hw/xbox/nv2a_gpu_registers.h\<close> that the register blocks
  use, and the contract of the field macros at the masks of multi-field registers.
\<close>

section \<open>Register numbers and masks\<close>

definition NV_PMC_BOOT_0 :: hwaddr where [reg_defs]: "NV_PMC_BOOT_0 = 0x0"
definition NV_PMC_INTR_0 :: hwaddr where [reg_defs]: "NV_PMC_INTR_0 = 0x100"
definition NV_PMC_INTR_EN_0 :: hwaddr where [reg_defs]: "NV_PMC_INTR_EN_0 = 0x140"
definition NV_PBUS_PCI_NV_0 :: hwaddr where [reg_defs]: "NV_PBUS_PCI_NV_0 = 0x800"
definition NV_PBUS_PCI_NV_1 :: hwaddr where [reg_defs]: "NV_PBUS_PCI_NV_1 = 0x804"
definition NV_PBUS_PCI_NV_2 :: hwaddr where [reg_defs]: "NV_PBUS_PCI_NV_2 = 0x808"
definition NV_PBUS_PCI_NV_3 :: hwaddr where [reg_defs]: "NV_PBUS_PCI_NV_3 = 0x80c"
definition NV_PBUS_PCI_NV_4 :: hwaddr where [reg_defs]: "NV_PBUS_PCI_NV_4 = 0x810"
definition NV_PBUS_PCI_NV_5 :: hwaddr where [reg_defs]: "NV_PBUS_PCI_NV_5 = 0x814"
definition NV_PBUS_PCI_NV_6 :: hwaddr where [reg_defs]: "NV_PBUS_PCI_NV_6 = 0x818"
definition NV_PBUS_PCI_NV_11 :: hwaddr where [reg_defs]: "NV_PBUS_PCI_NV_11 = 0x82c"
definition NV_PBUS_PCI_NV_12 :: hwaddr where [reg_defs]: "NV_PBUS_PCI_NV_12 = 0x830"
definition NV_PBUS_PCI_NV_13 :: hwaddr where [reg_defs]: "NV_PBUS_PCI_NV_13 = 0x834"
definition NV_PBUS_PCI_NV_15 :: hwaddr where [reg_defs]: "NV_PBUS_PCI_NV_15 = 0x83c"
definition NV_PFIFO_INTR_0 :: hwaddr where [reg_defs]: "NV_PFIFO_INTR_0 = 0x100"
definition NV_PFIFO_INTR_EN_0 :: hwaddr where [reg_defs]: "NV_PFIFO_INTR_EN_0 = 0x140"
definition NV_PFIFO_RAMHT :: hwaddr where [reg_defs]: "NV_PFIFO_RAMHT = 0x210"
definition NV_PFIFO_RAMFC :: hwaddr where [reg_defs]: "NV_PFIFO_RAMFC = 0x214"
definition NV_PFIFO_RUNOUT_STATUS :: hwaddr where [reg_defs]: "NV_PFIFO_RUNOUT_STATUS = 0x400"
definition NV_PFIFO_MODE :: hwaddr where [reg_defs]: "NV_PFIFO_MODE = 0x504"
definition NV_PFIFO_DMA :: hwaddr where [reg_defs]: "NV_PFIFO_DMA = 0x508"
definition NV_PFIFO_CACHE1_PUSH0 :: hwaddr where [reg_defs]: "NV_PFIFO_CACHE1_PUSH0 = 0x1200"
definition NV_PFIFO_CACHE1_PUSH1 :: hwaddr where [reg_defs]: "NV_PFIFO_CACHE1_PUSH1 = 0x1204"
definition NV_PFIFO_CACHE1_STATUS :: hwaddr where [reg_defs]: "NV_PFIFO_CACHE1_STATUS = 0x1214"
definition NV_PFIFO_CACHE1_DMA_PUSH :: hwaddr where [reg_defs]: "NV_PFIFO_CACHE1_DMA_PUSH = 0x1220"
definition NV_PFIFO_CACHE1_DMA_STATE :: hwaddr where [reg_defs]: "NV_PFIFO_CACHE1_DMA_STATE = 0x1228"
definition NV_PFIFO_CACHE1_DMA_INSTANCE :: hwaddr where [reg_defs]: "NV_PFIFO_CACHE1_DMA_INSTANCE = 0x122c"
definition NV_PFIFO_CACHE1_DMA_PUT :: hwaddr where [reg_defs]: "NV_PFIFO_CACHE1_DMA_PUT = 0x1240"
definition NV_PFIFO_CACHE1_DMA_GET :: hwaddr where [reg_defs]: "NV_PFIFO_CACHE1_DMA_GET = 0x1244"
definition NV_PFIFO_CACHE1_DMA_SUBROUTINE :: hwaddr where [reg_defs]: "NV_PFIFO_CACHE1_DMA_SUBROUTINE = 0x124c"
definition NV_PFIFO_CACHE1_PULL0 :: hwaddr where [reg_defs]: "NV_PFIFO_CACHE1_PULL0 = 0x1250"
definition NV_PFIFO_CACHE1_ENGINE :: hwaddr where [reg_defs]: "NV_PFIFO_CACHE1_ENGINE = 0x1280"
definition NV_PFIFO_CACHE1_DMA_DCOUNT :: hwaddr where [reg_defs]: "NV_PFIFO_CACHE1_DMA_DCOUNT = 0x12a0"
definition NV_PFIFO_CACHE1_DMA_GET_JMP_SHADOW :: hwaddr where [reg_defs]: "NV_PFIFO_CACHE1_DMA_GET_JMP_SHADOW = 0x12a4"
definition NV_PFIFO_CACHE1_DMA_RSVD_SHADOW :: hwaddr where [reg_defs]: "NV_PFIFO_CACHE1_DMA_RSVD_SHADOW = 0x12a8"
definition NV_PFIFO_CACHE1_DMA_DATA_SHADOW :: hwaddr where [reg_defs]: "NV_PFIFO_CACHE1_DMA_DATA_SHADOW = 0x12ac"
definition NV_PVIDEO_BUFFER :: hwaddr where [reg_defs]: "NV_PVIDEO_BUFFER = 0x700"
definition NV_PVIDEO_STOP :: hwaddr where [reg_defs]: "NV_PVIDEO_STOP = 0x704"
definition NV_PFB_CFG0 :: hwaddr where [reg_defs]: "NV_PFB_CFG0 = 0x200"
definition NV_PFB_CSTATUS :: hwaddr where [reg_defs]: "NV_PFB_CSTATUS = 0x20c"
definition NV_PFB_WBC :: hwaddr where [reg_defs]: "NV_PFB_WBC = 0x410"
definition NV_PGRAPH_INTR :: hwaddr where [reg_defs]: "NV_PGRAPH_INTR = 0x100"
definition NV_PGRAPH_NSOURCE :: hwaddr where [reg_defs]: "NV_PGRAPH_NSOURCE = 0x108"
definition NV_PGRAPH_INTR_EN :: hwaddr where [reg_defs]: "NV_PGRAPH_INTR_EN = 0x140"
definition NV_PGRAPH_CTX_CONTROL :: hwaddr where [reg_defs]: "NV_PGRAPH_CTX_CONTROL = 0x144"
definition NV_PGRAPH_CTX_USER :: hwaddr where [reg_defs]: "NV_PGRAPH_CTX_USER = 0x148"
definition NV_PGRAPH_TRAPPED_ADDR :: hwaddr where [reg_defs]: "NV_PGRAPH_TRAPPED_ADDR = 0x704"
definition NV_PGRAPH_TRAPPED_DATA_LOW :: hwaddr where [reg_defs]: "NV_PGRAPH_TRAPPED_DATA_LOW = 0x708"
definition NV_PGRAPH_INCREMENT :: hwaddr where [reg_defs]: "NV_PGRAPH_INCREMENT = 0x71c"
definition NV_PGRAPH_FIFO :: hwaddr where [reg_defs]: "NV_PGRAPH_FIFO = 0x720"
definition NV_PGRAPH_CHANNEL_CTX_TABLE :: hwaddr where [reg_defs]: "NV_PGRAPH_CHANNEL_CTX_TABLE = 0x780"
definition NV_PGRAPH_CHANNEL_CTX_POINTER :: hwaddr where [reg_defs]: "NV_PGRAPH_CHANNEL_CTX_POINTER = 0x784"
definition NV_PGRAPH_CHANNEL_CTX_TRIGGER :: hwaddr where [reg_defs]: "NV_PGRAPH_CHANNEL_CTX_TRIGGER = 0x788"
definition NV_PCRTC_INTR_0 :: hwaddr where [reg_defs]: "NV_PCRTC_INTR_0 = 0x100"
definition NV_PCRTC_INTR_EN_0 :: hwaddr where [reg_defs]: "NV_PCRTC_INTR_EN_0 = 0x140"
definition NV_PCRTC_START :: hwaddr where [reg_defs]: "NV_PCRTC_START = 0x800"
definition NV_USER_DMA_PUT :: hwaddr where [reg_defs]: "NV_USER_DMA_PUT = 0x40"
definition NV_USER_DMA_GET :: hwaddr where [reg_defs]: "NV_USER_DMA_GET = 0x44"
definition NV_USER_REF :: hwaddr where [reg_defs]: "NV_USER_REF = 0x48"
definition NV_PTIMER_INTR_0 :: hwaddr where [reg_defs]: "NV_PTIMER_INTR_0 = 0x100"
definition NV_PTIMER_INTR_EN_0 :: hwaddr where [reg_defs]: "NV_PTIMER_INTR_EN_0 = 0x140"
definition NV_PTIMER_NUMERATOR :: hwaddr where [reg_defs]: "NV_PTIMER_NUMERATOR = 0x200"
definition NV_PTIMER_DENOMINATOR :: hwaddr where [reg_defs]: "NV_PTIMER_DENOMINATOR = 0x210"
definition NV_PTIMER_TIME_0 :: hwaddr where [reg_defs]: "NV_PTIMER_TIME_0 = 0x400"
definition NV_PTIMER_TIME_1 :: hwaddr where [reg_defs]: "NV_PTIMER_TIME_1 = 0x410"
definition NV_PTIMER_ALARM_0 :: hwaddr where [reg_defs]: "NV_PTIMER_ALARM_0 = 0x420"
definition NV_PRAMDAC_NVPLL_COEFF :: hwaddr where [reg_defs]: "NV_PRAMDAC_NVPLL_COEFF = 0x500"
definition NV_PRAMDAC_MPLL_COEFF :: hwaddr where [reg_defs]: "NV_PRAMDAC_MPLL_COEFF = 0x504"
definition NV_PRAMDAC_VPLL_COEFF :: hwaddr where [reg_defs]: "NV_PRAMDAC_VPLL_COEFF = 0x508"
definition NV_PRAMDAC_PLL_TEST_COUNTER :: hwaddr where [reg_defs]: "NV_PRAMDAC_PLL_TEST_COUNTER = 0x514"

definition NV_PFIFO_RAMHT_BASE_ADDRESS :: u32 where [reg_defs]: "NV_PFIFO_RAMHT_BASE_ADDRESS = 0x1f0"
definition NV_PFIFO_RAMHT_SIZE :: u32 where [reg_defs]: "NV_PFIFO_RAMHT_SIZE = 0x30000"
definition NV_PFIFO_RAMHT_SEARCH :: u32 where [reg_defs]: "NV_PFIFO_RAMHT_SEARCH = 0x3000000"
definition NV_PFIFO_RAMFC_BASE_ADDRESS1 :: u32 where [reg_defs]: "NV_PFIFO_RAMFC_BASE_ADDRESS1 = 0x1fc"
definition NV_PFIFO_RAMFC_SIZE :: u32 where [reg_defs]: "NV_PFIFO_RAMFC_SIZE = 0x10000"
definition NV_PFIFO_RAMFC_BASE_ADDRESS2 :: u32 where [reg_defs]: "NV_PFIFO_RAMFC_BASE_ADDRESS2 = 0xfe0000"
definition NV_PFIFO_RUNOUT_STATUS_LOW_MARK :: u32 where [reg_defs]: "NV_PFIFO_RUNOUT_STATUS_LOW_MARK = 0x10"
definition NV_PFIFO_CACHE1_PUSH0_ACCESS :: u32 where [reg_defs]: "NV_PFIFO_CACHE1_PUSH0_ACCESS = 0x1"
definition NV_PFIFO_CACHE1_PUSH1_CHID :: u32 where [reg_defs]: "NV_PFIFO_CACHE1_PUSH1_CHID = 0x1f"
definition NV_PFIFO_CACHE1_PUSH1_MODE :: u32 where [reg_defs]: "NV_PFIFO_CACHE1_PUSH1_MODE = 0x100"
definition NV_PFIFO_CACHE1_STATUS_LOW_MARK :: u32 where [reg_defs]: "NV_PFIFO_CACHE1_STATUS_LOW_MARK = 0x10"
definition NV_PFIFO_CACHE1_DMA_PUSH_ACCESS :: u32 where [reg_defs]: "NV_PFIFO_CACHE1_DMA_PUSH_ACCESS = 0x1"
definition NV_PFIFO_CACHE1_DMA_PUSH_BUFFER :: u32 where [reg_defs]: "NV_PFIFO_CACHE1_DMA_PUSH_BUFFER = 0x100"
definition NV_PFIFO_CACHE1_DMA_PUSH_STATUS :: u32 where [reg_defs]: "NV_PFIFO_CACHE1_DMA_PUSH_STATUS = 0x1000"
definition NV_PFIFO_CACHE1_DMA_STATE_METHOD_TYPE :: u32 where [reg_defs]: "NV_PFIFO_CACHE1_DMA_STATE_METHOD_TYPE = 0x1"
definition NV_PFIFO_CACHE1_DMA_STATE_METHOD :: u32 where [reg_defs]: "NV_PFIFO_CACHE1_DMA_STATE_METHOD = 0x1ffc"
definition NV_PFIFO_CACHE1_DMA_STATE_SUBCHANNEL :: u32 where [reg_defs]: "NV_PFIFO_CACHE1_DMA_STATE_SUBCHANNEL = 0xe000"
definition NV_PFIFO_CACHE1_DMA_STATE_METHOD_COUNT :: u32 where [reg_defs]: "NV_PFIFO_CACHE1_DMA_STATE_METHOD_COUNT = 0x1ffc0000"
definition NV_PFIFO_CACHE1_DMA_STATE_ERROR :: u32 where [reg_defs]: "NV_PFIFO_CACHE1_DMA_STATE_ERROR = 0xe0000000"
definition NV_PFIFO_CACHE1_DMA_INSTANCE_ADDRESS :: u32 where [reg_defs]: "NV_PFIFO_CACHE1_DMA_INSTANCE_ADDRESS = 0xffff"
definition NV_PFIFO_CACHE1_DMA_SUBROUTINE_RETURN_OFFSET :: u32 where [reg_defs]: "NV_PFIFO_CACHE1_DMA_SUBROUTINE_RETURN_OFFSET = 0x1ffffffc"
definition NV_PFIFO_CACHE1_DMA_SUBROUTINE_STATE :: u32 where [reg_defs]: "NV_PFIFO_CACHE1_DMA_SUBROUTINE_STATE = 0x1"
definition NV_PFIFO_CACHE1_PULL0_ACCESS :: u32 where [reg_defs]: "NV_PFIFO_CACHE1_PULL0_ACCESS = 0x1"
definition NV_PFIFO_CACHE1_DMA_DCOUNT_VALUE :: u32 where [reg_defs]: "NV_PFIFO_CACHE1_DMA_DCOUNT_VALUE = 0x1ffc"
definition NV_PFIFO_CACHE1_DMA_GET_JMP_SHADOW_OFFSET :: u32 where [reg_defs]: "NV_PFIFO_CACHE1_DMA_GET_JMP_SHADOW_OFFSET = 0x1ffffffc"
definition NV_PGRAPH_CTX_CONTROL_CHID :: u32 where [reg_defs]: "NV_PGRAPH_CTX_CONTROL_CHID = 0x10000"
definition NV_PGRAPH_CTX_USER_CHANNEL_3D :: u32 where [reg_defs]: "NV_PGRAPH_CTX_USER_CHANNEL_3D = 0x1"
definition NV_PGRAPH_CTX_USER_CHANNEL_3D_VALID :: u32 where [reg_defs]: "NV_PGRAPH_CTX_USER_CHANNEL_3D_VALID = 0x10"
definition NV_PGRAPH_CTX_USER_SUBCH :: u32 where [reg_defs]: "NV_PGRAPH_CTX_USER_SUBCH = 0xe000"
definition NV_PGRAPH_CTX_USER_CHID :: u32 where [reg_defs]: "NV_PGRAPH_CTX_USER_CHID = 0x1f000000"
definition NV_PGRAPH_TRAPPED_ADDR_MTHD :: u32 where [reg_defs]: "NV_PGRAPH_TRAPPED_ADDR_MTHD = 0x1fff"
definition NV_PGRAPH_TRAPPED_ADDR_SUBCH :: u32 where [reg_defs]: "NV_PGRAPH_TRAPPED_ADDR_SUBCH = 0x70000"
definition NV_PGRAPH_TRAPPED_ADDR_CHID :: u32 where [reg_defs]: "NV_PGRAPH_TRAPPED_ADDR_CHID = 0x1f00000"
definition NV_PGRAPH_INCREMENT_READ_3D :: u32 where [reg_defs]: "NV_PGRAPH_INCREMENT_READ_3D = 0x2"
definition NV_PGRAPH_FIFO_ACCESS :: u32 where [reg_defs]: "NV_PGRAPH_FIFO_ACCESS = 0x1"
definition NV_PGRAPH_CHANNEL_CTX_TABLE_INST :: u32 where [reg_defs]: "NV_PGRAPH_CHANNEL_CTX_TABLE_INST = 0xffff"
definition NV_PGRAPH_CHANNEL_CTX_POINTER_INST :: u32 where [reg_defs]: "NV_PGRAPH_CHANNEL_CTX_POINTER_INST = 0xffff"
definition NV_PGRAPH_CHANNEL_CTX_TRIGGER_READ_IN :: u32 where [reg_defs]: "NV_PGRAPH_CHANNEL_CTX_TRIGGER_READ_IN = 0x1"
definition NV_PRAMDAC_NVPLL_COEFF_MDIV :: u32 where [reg_defs]: "NV_PRAMDAC_NVPLL_COEFF_MDIV = 0xff"
definition NV_PRAMDAC_NVPLL_COEFF_NDIV :: u32 where [reg_defs]: "NV_PRAMDAC_NVPLL_COEFF_NDIV = 0xff00"
definition NV_PRAMDAC_NVPLL_COEFF_PDIV :: u32 where [reg_defs]: "NV_PRAMDAC_NVPLL_COEFF_PDIV = 0x70000"
definition NV_PRAMDAC_PLL_TEST_COUNTER_VPLL2_LOCK :: u32 where [reg_defs]: "NV_PRAMDAC_PLL_TEST_COUNTER_VPLL2_LOCK = 0x8000000"
definition NV_PRAMDAC_PLL_TEST_COUNTER_NVPLL_LOCK :: u32 where [reg_defs]: "NV_PRAMDAC_PLL_TEST_COUNTER_NVPLL_LOCK = 0x20000000"
definition NV_PRAMDAC_PLL_TEST_COUNTER_MPLL_LOCK :: u32 where [reg_defs]: "NV_PRAMDAC_PLL_TEST_COUNTER_MPLL_LOCK = 0x40000000"
definition NV_PRAMDAC_PLL_TEST_COUNTER_VPLL_LOCK :: u32 where [reg_defs]: "NV_PRAMDAC_PLL_TEST_COUNTER_VPLL_LOCK = 0x80000000"
definition NV_PGRAPH_INTR_CONTEXT_SWITCH :: u32 where [reg_defs]: "NV_PGRAPH_INTR_CONTEXT_SWITCH = 0x1000"

section \<open>Fields\<close>

text \<open>The masks of the registers that the device takes apart are contiguous fields.\<close>

interpretation ramht_base: bitfield NV_PFIFO_RAMHT_BASE_ADDRESS 4 5
  by unfold_locales (simp_all add: reg_defs mask_eq_exp_minus_1)

interpretation ramht_size: bitfield NV_PFIFO_RAMHT_SIZE 16 2
  by unfold_locales (simp_all add: reg_defs mask_eq_exp_minus_1)

interpretation ramht_search: bitfield NV_PFIFO_RAMHT_SEARCH 24 2
  by unfold_locales (simp_all add: reg_defs mask_eq_exp_minus_1)

interpretation ramfc_base1: bitfield NV_PFIFO_RAMFC_BASE_ADDRESS1 2 7
  by unfold_locales (simp_all add: reg_defs mask_eq_exp_minus_1)

interpretation ramfc_base2: bitfield NV_PFIFO_RAMFC_BASE_ADDRESS2 17 7
  by unfold_locales (simp_all add: reg_defs mask_eq_exp_minus_1)

interpretation ramfc_size: bitfield NV_PFIFO_RAMFC_SIZE 16 1
  by unfold_locales (simp_all add: reg_defs mask_eq_exp_minus_1)

interpretation push1_chid: bitfield NV_PFIFO_CACHE1_PUSH1_CHID 0 5
  by unfold_locales (simp_all add: reg_defs mask_eq_exp_minus_1)

interpretation push1_mode: bitfield NV_PFIFO_CACHE1_PUSH1_MODE 8 1
  by unfold_locales (simp_all add: reg_defs mask_eq_exp_minus_1)

interpretation dma_push_access: bitfield NV_PFIFO_CACHE1_DMA_PUSH_ACCESS 0 1
  by unfold_locales (simp_all add: reg_defs mask_eq_exp_minus_1)

interpretation dma_push_buffer: bitfield NV_PFIFO_CACHE1_DMA_PUSH_BUFFER 8 1
  by unfold_locales (simp_all add: reg_defs mask_eq_exp_minus_1)

interpretation dma_push_status: bitfield NV_PFIFO_CACHE1_DMA_PUSH_STATUS 12 1
  by unfold_locales (simp_all add: reg_defs mask_eq_exp_minus_1)

interpretation dma_state_type: bitfield NV_PFIFO_CACHE1_DMA_STATE_METHOD_TYPE 0 1
  by unfold_locales (simp_all add: reg_defs mask_eq_exp_minus_1)

interpretation dma_state_method: bitfield NV_PFIFO_CACHE1_DMA_STATE_METHOD 2 11
  by unfold_locales (simp_all add: reg_defs mask_eq_exp_minus_1)

interpretation dma_state_subch: bitfield NV_PFIFO_CACHE1_DMA_STATE_SUBCHANNEL 13 3
  by unfold_locales (simp_all add: reg_defs mask_eq_exp_minus_1)

interpretation dma_state_count: bitfield NV_PFIFO_CACHE1_DMA_STATE_METHOD_COUNT 18 11
  by unfold_locales (simp_all add: reg_defs mask_eq_exp_minus_1)

interpretation dma_state_error: bitfield NV_PFIFO_CACHE1_DMA_STATE_ERROR 29 3
  by unfold_locales (simp_all add: reg_defs mask_eq_exp_minus_1)

interpretation dma_instance: bitfield NV_PFIFO_CACHE1_DMA_INSTANCE_ADDRESS 0 16
  by unfold_locales (simp_all add: reg_defs mask_eq_exp_minus_1)

interpretation ctx_user_3d: bitfield NV_PGRAPH_CTX_USER_CHANNEL_3D 0 1
  by unfold_locales (simp_all add: reg_defs mask_eq_exp_minus_1)

interpretation ctx_user_valid: bitfield NV_PGRAPH_CTX_USER_CHANNEL_3D_VALID 4 1
  by unfold_locales (simp_all add: reg_defs mask_eq_exp_minus_1)

interpretation ctx_user_subch: bitfield NV_PGRAPH_CTX_USER_SUBCH 13 3
  by unfold_locales (simp_all add: reg_defs mask_eq_exp_minus_1)

interpretation ctx_user_chid: bitfield NV_PGRAPH_CTX_USER_CHID 24 5
  by unfold_locales (simp_all add: reg_defs mask_eq_exp_minus_1)

interpretation trapped_mthd: bitfield NV_PGRAPH_TRAPPED_ADDR_MTHD 0 13
  by unfold_locales (simp_all add: reg_defs mask_eq_exp_minus_1)

interpretation trapped_subch: bitfield NV_PGRAPH_TRAPPED_ADDR_SUBCH 16 3
  by unfold_locales (simp_all add: reg_defs mask_eq_exp_minus_1)

interpretation trapped_chid: bitfield NV_PGRAPH_TRAPPED_ADDR_CHID 20 5
  by unfold_locales (simp_all add: reg_defs mask_eq_exp_minus_1)

interpretation pgraph_fifo_access: bitfield NV_PGRAPH_FIFO_ACCESS 0 1
  by unfold_locales (simp_all add: reg_defs mask_eq_exp_minus_1)

end
