(* ===== verification/NV2A_Names.thy ===== *)
theory NV2A_Names
  imports NV2A_Registers
begin

text \<open>
  The names of the drawing engine's methods, of their fields and of the registers of PGRAPH that they change
  (\<open>src/hw/xbox/nv2a_gpu_methods.h\<close>, \<open>src/hw/xbox/nv2a_gpu_registers.h\<close> and the limits of
  \<open>src/hw/xbox/nv2a_gpu.c\<close>), as abbreviations of their values. A method's name includes the class of the object in its upper half.
\<close>

section \<open>Limits\<close>

abbreviation (input) NV2A_GPU_VERTEX_ATTR_DIFFUSE :: nat where "NV2A_GPU_VERTEX_ATTR_DIFFUSE \<equiv> 3"
abbreviation (input) NV2A_GPU_MAX_VERTEXSHADER_LENGTH :: nat where "NV2A_GPU_MAX_VERTEXSHADER_LENGTH \<equiv> 0x88"
abbreviation (input) NV2A_GPU_VERTEXSHADER_CONSTANTS :: nat where "NV2A_GPU_VERTEXSHADER_CONSTANTS \<equiv> 0xC0"
abbreviation (input) NV2A_GPU_VERTEX_ATTR_POSITION :: nat where "NV2A_GPU_VERTEX_ATTR_POSITION \<equiv> 0"
abbreviation (input) NV2A_GPU_MAX_BATCH_LENGTH :: nat where "NV2A_GPU_MAX_BATCH_LENGTH \<equiv> 0xFFFF"
abbreviation (input) NV2A_GPU_VERTEX_ATTR_NORMAL :: nat where "NV2A_GPU_VERTEX_ATTR_NORMAL \<equiv> 2"
abbreviation (input) NV2A_GPU_VERTEX_ATTR_TEXTURE0 :: nat where "NV2A_GPU_VERTEX_ATTR_TEXTURE0 \<equiv> 9"
abbreviation (input) NV2A_GPU_VERTEX_ATTR_TEXTURE1 :: nat where "NV2A_GPU_VERTEX_ATTR_TEXTURE1 \<equiv> 0xA"
abbreviation (input) NV2A_GPU_VERTEX_ATTR_TEXTURE2 :: nat where "NV2A_GPU_VERTEX_ATTR_TEXTURE2 \<equiv> 0xB"
abbreviation (input) NV2A_GPU_VERTEX_ATTR_TEXTURE3 :: nat where "NV2A_GPU_VERTEX_ATTR_TEXTURE3 \<equiv> 0xC"

section \<open>Registers\<close>

abbreviation (input) NV_PGRAPH_CONTROL_2 :: nat where "NV_PGRAPH_CONTROL_2 \<equiv> 0x1954"
abbreviation (input) NV_PGRAPH_CONTROL_1 :: nat where "NV_PGRAPH_CONTROL_1 \<equiv> 0x1950"
abbreviation (input) NV_PGRAPH_CONTROL_0 :: nat where "NV_PGRAPH_CONTROL_0 \<equiv> 0x194C"
abbreviation (input) NV_PGRAPH_FOGCOLOR :: nat where "NV_PGRAPH_FOGCOLOR \<equiv> 0x1980"
abbreviation (input) NV_PGRAPH_CONTROL_3 :: nat where "NV_PGRAPH_CONTROL_3 \<equiv> 0x1958"
abbreviation (input) NV_PGRAPH_COMBINEALPHAI0 :: nat where "NV_PGRAPH_COMBINEALPHAI0 \<equiv> 0x18C0"
abbreviation (input) NV_PGRAPH_COMBINESPECFOG0 :: nat where "NV_PGRAPH_COMBINESPECFOG0 \<equiv> 0x1944"
abbreviation (input) NV_PGRAPH_COMBINESPECFOG1 :: nat where "NV_PGRAPH_COMBINESPECFOG1 \<equiv> 0x1948"
abbreviation (input) NV_PGRAPH_SETUPRASTER :: nat where "NV_PGRAPH_SETUPRASTER \<equiv> 0x1990"
abbreviation (input) NV_PGRAPH_ZCLIPMIN :: nat where "NV_PGRAPH_ZCLIPMIN \<equiv> 0x1A90"
abbreviation (input) NV_PGRAPH_ZCLIPMAX :: nat where "NV_PGRAPH_ZCLIPMAX \<equiv> 0x1ABC"
abbreviation (input) NV_PGRAPH_COMBINEFACTOR0 :: nat where "NV_PGRAPH_COMBINEFACTOR0 \<equiv> 0x1880"
abbreviation (input) NV_PGRAPH_COMBINEFACTOR1 :: nat where "NV_PGRAPH_COMBINEFACTOR1 \<equiv> 0x18A0"
abbreviation (input) NV_PGRAPH_COMBINEALPHAO0 :: nat where "NV_PGRAPH_COMBINEALPHAO0 \<equiv> 0x18E0"
abbreviation (input) NV_PGRAPH_COMBINECOLORI0 :: nat where "NV_PGRAPH_COMBINECOLORI0 \<equiv> 0x1900"
abbreviation (input) NV_PGRAPH_CSV0_D :: nat where "NV_PGRAPH_CSV0_D \<equiv> 0xFB4"
abbreviation (input) NV_PGRAPH_COMBINECTL :: nat where "NV_PGRAPH_COMBINECTL \<equiv> 0x1940"
abbreviation (input) NV_PGRAPH_SHADERPROG :: nat where "NV_PGRAPH_SHADERPROG \<equiv> 0x199C"
abbreviation (input) NV_PGRAPH_SHADERCTL :: nat where "NV_PGRAPH_SHADERCTL \<equiv> 0x1998"
abbreviation (input) NV_PGRAPH_COMBINECOLORO0 :: nat where "NV_PGRAPH_COMBINECOLORO0 \<equiv> 0x1920"
abbreviation (input) NV_PGRAPH_SHADERCLIPMODE :: nat where "NV_PGRAPH_SHADERCLIPMODE \<equiv> 0x1994"
abbreviation (input) NV_PGRAPH_ZSTENCILCLEARVALUE :: nat where "NV_PGRAPH_ZSTENCILCLEARVALUE \<equiv> 0x1A88"
abbreviation (input) NV_PGRAPH_COLORCLEARVALUE :: nat where "NV_PGRAPH_COLORCLEARVALUE \<equiv> 0x186C"
abbreviation (input) NV_PGRAPH_CLEARRECTX :: nat where "NV_PGRAPH_CLEARRECTX \<equiv> 0x1864"
abbreviation (input) NV_PGRAPH_CLEARRECTY :: nat where "NV_PGRAPH_CLEARRECTY \<equiv> 0x1868"
abbreviation (input) NV_PGRAPH_SPECFOGFACTOR0 :: nat where "NV_PGRAPH_SPECFOGFACTOR0 \<equiv> 0x19AC"

section \<open>Fields and values of registers\<close>

abbreviation (input) NV_PGRAPH_FUNC_NEVER :: u32 where "NV_PGRAPH_FUNC_NEVER \<equiv> 0"
abbreviation (input) NV_PGRAPH_FUNC_LESS :: u32 where "NV_PGRAPH_FUNC_LESS \<equiv> 1"
abbreviation (input) NV_PGRAPH_FUNC_EQUAL :: u32 where "NV_PGRAPH_FUNC_EQUAL \<equiv> 2"
abbreviation (input) NV_PGRAPH_FUNC_LEQUAL :: u32 where "NV_PGRAPH_FUNC_LEQUAL \<equiv> 3"
abbreviation (input) NV_PGRAPH_FUNC_GREATER :: u32 where "NV_PGRAPH_FUNC_GREATER \<equiv> 4"
abbreviation (input) NV_PGRAPH_FUNC_NOTEQUAL :: u32 where "NV_PGRAPH_FUNC_NOTEQUAL \<equiv> 5"
abbreviation (input) NV_PGRAPH_FUNC_GEQUAL :: u32 where "NV_PGRAPH_FUNC_GEQUAL \<equiv> 6"
abbreviation (input) NV_PGRAPH_FUNC_ALWAYS :: u32 where "NV_PGRAPH_FUNC_ALWAYS \<equiv> 7"
abbreviation (input) NV_PGRAPH_STENCIL_OP_KEEP :: u32 where "NV_PGRAPH_STENCIL_OP_KEEP \<equiv> 1"
abbreviation (input) NV_PGRAPH_STENCIL_OP_ZERO :: u32 where "NV_PGRAPH_STENCIL_OP_ZERO \<equiv> 2"
abbreviation (input) NV_PGRAPH_STENCIL_OP_REPLACE :: u32 where "NV_PGRAPH_STENCIL_OP_REPLACE \<equiv> 3"
abbreviation (input) NV_PGRAPH_STENCIL_OP_INCRSAT :: u32 where "NV_PGRAPH_STENCIL_OP_INCRSAT \<equiv> 4"
abbreviation (input) NV_PGRAPH_STENCIL_OP_DECRSAT :: u32 where "NV_PGRAPH_STENCIL_OP_DECRSAT \<equiv> 5"
abbreviation (input) NV_PGRAPH_STENCIL_OP_INVERT :: u32 where "NV_PGRAPH_STENCIL_OP_INVERT \<equiv> 6"
abbreviation (input) NV_PGRAPH_STENCIL_OP_INCR :: u32 where "NV_PGRAPH_STENCIL_OP_INCR \<equiv> 7"
abbreviation (input) NV_PGRAPH_STENCIL_OP_DECR :: u32 where "NV_PGRAPH_STENCIL_OP_DECR \<equiv> 8"
abbreviation (input) NV_PGRAPH_CONTROL_2_STENCIL_OP_FAIL :: u32 where "NV_PGRAPH_CONTROL_2_STENCIL_OP_FAIL \<equiv> 0xF"
abbreviation (input) NV_PGRAPH_CONTROL_2_STENCIL_OP_ZFAIL :: u32 where "NV_PGRAPH_CONTROL_2_STENCIL_OP_ZFAIL \<equiv> 0xF0"
abbreviation (input) NV_PGRAPH_CONTROL_2_STENCIL_OP_ZPASS :: u32 where "NV_PGRAPH_CONTROL_2_STENCIL_OP_ZPASS \<equiv> 0xF00"
abbreviation (input) NV_PGRAPH_CONTROL_1_STENCIL_FUNC :: u32 where "NV_PGRAPH_CONTROL_1_STENCIL_FUNC \<equiv> 0xF0"
abbreviation (input) NV_PGRAPH_CONTROL_1_STENCIL_REF :: u32 where "NV_PGRAPH_CONTROL_1_STENCIL_REF \<equiv> 0xFF00"
abbreviation (input) NV_PGRAPH_CONTROL_1_STENCIL_MASK_READ :: u32 where "NV_PGRAPH_CONTROL_1_STENCIL_MASK_READ \<equiv> 0xFF0000"
abbreviation (input) NV_PGRAPH_CONTROL_0_ALPHAFUNC :: u32 where "NV_PGRAPH_CONTROL_0_ALPHAFUNC \<equiv> 0xF00"
abbreviation (input) NV_PGRAPH_CONTROL_0_ALPHAREF :: u32 where "NV_PGRAPH_CONTROL_0_ALPHAREF \<equiv> 0xFF"
abbreviation (input) NV_PGRAPH_CONTROL_0_ALPHATESTENABLE :: u32 where "NV_PGRAPH_CONTROL_0_ALPHATESTENABLE \<equiv> 0x1000"
abbreviation (input) NV_PGRAPH_CONTROL_0_ZFUNC :: u32 where "NV_PGRAPH_CONTROL_0_ZFUNC \<equiv> 0xF0000"
abbreviation (input) NV_PGRAPH_CONTROL_0_ZENABLE :: u32 where "NV_PGRAPH_CONTROL_0_ZENABLE \<equiv> 0x4000"
abbreviation (input) NV_PGRAPH_FOGCOLOR_RED :: u32 where "NV_PGRAPH_FOGCOLOR_RED \<equiv> 0xFF0000"
abbreviation (input) NV_PGRAPH_FOGCOLOR_GREEN :: u32 where "NV_PGRAPH_FOGCOLOR_GREEN \<equiv> 0xFF00"
abbreviation (input) NV_PGRAPH_FOGCOLOR_BLUE :: u32 where "NV_PGRAPH_FOGCOLOR_BLUE \<equiv> 0xFF"
abbreviation (input) NV_PGRAPH_FOGCOLOR_ALPHA :: u32 where "NV_PGRAPH_FOGCOLOR_ALPHA \<equiv> 0xFF000000"
abbreviation (input) NV_PGRAPH_CONTROL_3_FOG_MODE_LINEAR :: u32 where "NV_PGRAPH_CONTROL_3_FOG_MODE_LINEAR \<equiv> 0"
abbreviation (input) NV_PGRAPH_CONTROL_3_FOG_MODE_EXP :: u32 where "NV_PGRAPH_CONTROL_3_FOG_MODE_EXP \<equiv> 1"
abbreviation (input) NV_PGRAPH_CONTROL_3_FOG_MODE_EXP2 :: u32 where "NV_PGRAPH_CONTROL_3_FOG_MODE_EXP2 \<equiv> 3"
abbreviation (input) NV_PGRAPH_CONTROL_3_FOG_MODE :: u32 where "NV_PGRAPH_CONTROL_3_FOG_MODE \<equiv> 0x70000"
abbreviation (input) NV_PGRAPH_CONTROL_3_FOGENABLE :: u32 where "NV_PGRAPH_CONTROL_3_FOGENABLE \<equiv> 0x100"
abbreviation (input) NV_PGRAPH_CONTROL_0_RED_WRITE_ENABLE :: u32 where "NV_PGRAPH_CONTROL_0_RED_WRITE_ENABLE \<equiv> 0x8000000"
abbreviation (input) NV_PGRAPH_CONTROL_0_GREEN_WRITE_ENABLE :: u32 where "NV_PGRAPH_CONTROL_0_GREEN_WRITE_ENABLE \<equiv> 0x10000000"
abbreviation (input) NV_PGRAPH_CONTROL_0_BLUE_WRITE_ENABLE :: u32 where "NV_PGRAPH_CONTROL_0_BLUE_WRITE_ENABLE \<equiv> 0x20000000"
abbreviation (input) NV_PGRAPH_CONTROL_0_ALPHA_WRITE_ENABLE :: u32 where "NV_PGRAPH_CONTROL_0_ALPHA_WRITE_ENABLE \<equiv> 0x4000000"
abbreviation (input) NV_PGRAPH_CONTROL_0_STENCIL_WRITE_ENABLE :: u32 where "NV_PGRAPH_CONTROL_0_STENCIL_WRITE_ENABLE \<equiv> 0x2000000"
abbreviation (input) NV_PGRAPH_CONTROL_1_STENCIL_MASK_WRITE :: u32 where "NV_PGRAPH_CONTROL_1_STENCIL_MASK_WRITE \<equiv> 0xFF000000"
abbreviation (input) NV_PGRAPH_CONTROL_0_ZWRITEENABLE :: u32 where "NV_PGRAPH_CONTROL_0_ZWRITEENABLE \<equiv> 0x1000000"
abbreviation (input) NV_PGRAPH_CONTROL_1_STENCIL_TEST_ENABLE :: u32 where "NV_PGRAPH_CONTROL_1_STENCIL_TEST_ENABLE \<equiv> 1"
abbreviation (input) NV_PGRAPH_CTX_SWITCH1_GRCLASS :: u32 where "NV_PGRAPH_CTX_SWITCH1_GRCLASS \<equiv> 0xFF"
abbreviation (input) NV_PGRAPH_NSOURCE_NOTIFICATION :: u32 where "NV_PGRAPH_NSOURCE_NOTIFICATION \<equiv> 1"
abbreviation (input) NV_PGRAPH_INTR_NOTIFY :: u32 where "NV_PGRAPH_INTR_NOTIFY \<equiv> 1"
abbreviation (input) NV_PGRAPH_SETUPRASTER_Z_FORMAT :: u32 where "NV_PGRAPH_SETUPRASTER_Z_FORMAT \<equiv> 0x20000000"
abbreviation (input) NV_PGRAPH_CONTROL_0_Z_PERSPECTIVE_ENABLE :: u32 where "NV_PGRAPH_CONTROL_0_Z_PERSPECTIVE_ENABLE \<equiv> 0x800000"
abbreviation (input) NV_PGRAPH_CONTROL_3_TEXTUREPERSPECTIVE :: u32 where "NV_PGRAPH_CONTROL_3_TEXTUREPERSPECTIVE \<equiv> 0x40"
abbreviation (input) NV_PGRAPH_CONTROL_3_PREMULTALPHA :: u32 where "NV_PGRAPH_CONTROL_3_PREMULTALPHA \<equiv> 4"
abbreviation (input) NV_PGRAPH_CONTROL_0_CSCONVERT :: u32 where "NV_PGRAPH_CONTROL_0_CSCONVERT \<equiv> 0xC0000000"
abbreviation (input) NV_PGRAPH_CSV0_D_MODE :: u32 where "NV_PGRAPH_CSV0_D_MODE \<equiv> 0xC0000000"
abbreviation (input) NV_PGRAPH_CLEARRECTX_XMIN :: u32 where "NV_PGRAPH_CLEARRECTX_XMIN \<equiv> 0xFFF"
abbreviation (input) NV_PGRAPH_CLEARRECTX_XMAX :: u32 where "NV_PGRAPH_CLEARRECTX_XMAX \<equiv> 0xFFF0000"
abbreviation (input) NV_PGRAPH_CLEARRECTY_YMIN :: u32 where "NV_PGRAPH_CLEARRECTY_YMIN \<equiv> 0xFFF"
abbreviation (input) NV_PGRAPH_CLEARRECTY_YMAX :: u32 where "NV_PGRAPH_CLEARRECTY_YMAX \<equiv> 0xFFF0000"
abbreviation (input) NV_PGRAPH_CONTROL_3_FOG_MODE_EXP_ABS :: u32 where "NV_PGRAPH_CONTROL_3_FOG_MODE_EXP_ABS \<equiv> 5"
abbreviation (input) NV_PGRAPH_CONTROL_3_FOG_MODE_EXP2_ABS :: u32 where "NV_PGRAPH_CONTROL_3_FOG_MODE_EXP2_ABS \<equiv> 7"
abbreviation (input) NV_PGRAPH_CONTROL_3_FOG_MODE_LINEAR_ABS :: u32 where "NV_PGRAPH_CONTROL_3_FOG_MODE_LINEAR_ABS \<equiv> 4"
abbreviation (input) NV_PGRAPH_CSV0_D_RANGE_MODE :: u32 where "NV_PGRAPH_CSV0_D_RANGE_MODE \<equiv> 0x40000"

section \<open>Methods and their fields\<close>

abbreviation (input) NV097_FUNC_NEVER :: u32 where "NV097_FUNC_NEVER \<equiv> 0x200"
abbreviation (input) NV097_FUNC_LESS :: u32 where "NV097_FUNC_LESS \<equiv> 0x201"
abbreviation (input) NV097_FUNC_EQUAL :: u32 where "NV097_FUNC_EQUAL \<equiv> 0x202"
abbreviation (input) NV097_FUNC_LEQUAL :: u32 where "NV097_FUNC_LEQUAL \<equiv> 0x203"
abbreviation (input) NV097_FUNC_GREATER :: u32 where "NV097_FUNC_GREATER \<equiv> 0x204"
abbreviation (input) NV097_FUNC_NOTEQUAL :: u32 where "NV097_FUNC_NOTEQUAL \<equiv> 0x205"
abbreviation (input) NV097_FUNC_GEQUAL :: u32 where "NV097_FUNC_GEQUAL \<equiv> 0x206"
abbreviation (input) NV097_FUNC_ALWAYS :: u32 where "NV097_FUNC_ALWAYS \<equiv> 0x207"
abbreviation (input) NV097_SET_STENCIL_OP_KEEP :: u32 where "NV097_SET_STENCIL_OP_KEEP \<equiv> 0x1E00"
abbreviation (input) NV097_SET_STENCIL_OP_ZERO :: u32 where "NV097_SET_STENCIL_OP_ZERO \<equiv> 0"
abbreviation (input) NV097_SET_STENCIL_OP_REPLACE :: u32 where "NV097_SET_STENCIL_OP_REPLACE \<equiv> 0x1E01"
abbreviation (input) NV097_SET_STENCIL_OP_INCRSAT :: u32 where "NV097_SET_STENCIL_OP_INCRSAT \<equiv> 0x1E02"
abbreviation (input) NV097_SET_STENCIL_OP_DECRSAT :: u32 where "NV097_SET_STENCIL_OP_DECRSAT \<equiv> 0x1E03"
abbreviation (input) NV097_SET_STENCIL_OP_INVERT :: u32 where "NV097_SET_STENCIL_OP_INVERT \<equiv> 0x150A"
abbreviation (input) NV097_SET_STENCIL_OP_INCR :: u32 where "NV097_SET_STENCIL_OP_INCR \<equiv> 0x8507"
abbreviation (input) NV097_SET_STENCIL_OP_DECR :: u32 where "NV097_SET_STENCIL_OP_DECR \<equiv> 0x8508"
abbreviation (input) NV097_SET_FRONT_FACE_CW :: u32 where "NV097_SET_FRONT_FACE_CW \<equiv> 0x900"
abbreviation (input) NV097_SET_FRONT_FACE_CCW :: u32 where "NV097_SET_FRONT_FACE_CCW \<equiv> 0x901"
abbreviation (input) NV097_SET_CULL_FACE_FRONT :: u32 where "NV097_SET_CULL_FACE_FRONT \<equiv> 0x404"
abbreviation (input) NV097_SET_CULL_FACE_BACK :: u32 where "NV097_SET_CULL_FACE_BACK \<equiv> 0x405"
abbreviation (input) NV097_SET_CULL_FACE_FRONT_AND_BACK :: u32 where "NV097_SET_CULL_FACE_FRONT_AND_BACK \<equiv> 0x408"
abbreviation (input) NV097_SET_BLEND_FUNC_SFACTOR_ZERO :: u32 where "NV097_SET_BLEND_FUNC_SFACTOR_ZERO \<equiv> 0"
abbreviation (input) NV097_SET_BLEND_FUNC_SFACTOR_ONE :: u32 where "NV097_SET_BLEND_FUNC_SFACTOR_ONE \<equiv> 1"
abbreviation (input) NV097_SET_BLEND_FUNC_SFACTOR_SRC_COLOR :: u32 where "NV097_SET_BLEND_FUNC_SFACTOR_SRC_COLOR \<equiv> 0x300"
abbreviation (input) NV097_SET_BLEND_FUNC_SFACTOR_ONE_MINUS_SRC_COLOR :: u32 where "NV097_SET_BLEND_FUNC_SFACTOR_ONE_MINUS_SRC_COLOR \<equiv> 0x301"
abbreviation (input) NV097_SET_BLEND_FUNC_SFACTOR_SRC_ALPHA :: u32 where "NV097_SET_BLEND_FUNC_SFACTOR_SRC_ALPHA \<equiv> 0x302"
abbreviation (input) NV097_SET_BLEND_FUNC_SFACTOR_ONE_MINUS_SRC_ALPHA :: u32 where "NV097_SET_BLEND_FUNC_SFACTOR_ONE_MINUS_SRC_ALPHA \<equiv> 0x303"
abbreviation (input) NV097_SET_BLEND_FUNC_SFACTOR_DST_ALPHA :: u32 where "NV097_SET_BLEND_FUNC_SFACTOR_DST_ALPHA \<equiv> 0x304"
abbreviation (input) NV097_SET_BLEND_FUNC_SFACTOR_ONE_MINUS_DST_ALPHA :: u32 where "NV097_SET_BLEND_FUNC_SFACTOR_ONE_MINUS_DST_ALPHA \<equiv> 0x305"
abbreviation (input) NV097_SET_BLEND_FUNC_SFACTOR_DST_COLOR :: u32 where "NV097_SET_BLEND_FUNC_SFACTOR_DST_COLOR \<equiv> 0x306"
abbreviation (input) NV097_SET_BLEND_FUNC_SFACTOR_ONE_MINUS_DST_COLOR :: u32 where "NV097_SET_BLEND_FUNC_SFACTOR_ONE_MINUS_DST_COLOR \<equiv> 0x307"
abbreviation (input) NV097_SET_BLEND_FUNC_SFACTOR_SRC_ALPHA_SATURATE :: u32 where "NV097_SET_BLEND_FUNC_SFACTOR_SRC_ALPHA_SATURATE \<equiv> 0x308"
abbreviation (input) NV097_SET_BLEND_FUNC_SFACTOR_CONSTANT_COLOR :: u32 where "NV097_SET_BLEND_FUNC_SFACTOR_CONSTANT_COLOR \<equiv> 0x8001"
abbreviation (input) NV097_SET_BLEND_FUNC_SFACTOR_ONE_MINUS_CONSTANT_COLOR :: u32 where "NV097_SET_BLEND_FUNC_SFACTOR_ONE_MINUS_CONSTANT_COLOR \<equiv> 0x8002"
abbreviation (input) NV097_SET_BLEND_FUNC_SFACTOR_CONSTANT_ALPHA :: u32 where "NV097_SET_BLEND_FUNC_SFACTOR_CONSTANT_ALPHA \<equiv> 0x8003"
abbreviation (input) NV097_SET_BLEND_FUNC_SFACTOR_ONE_MINUS_CONSTANT_ALPHA :: u32 where "NV097_SET_BLEND_FUNC_SFACTOR_ONE_MINUS_CONSTANT_ALPHA \<equiv> 0x8004"
abbreviation (input) NV_KELVIN_PRIMITIVE :: u32 where "NV_KELVIN_PRIMITIVE \<equiv> 0x97"
abbreviation (input) NV097_SET_SURFACE_FORMAT_ANTI_ALIASING_CENTER_1 :: u32 where "NV097_SET_SURFACE_FORMAT_ANTI_ALIASING_CENTER_1 \<equiv> 0"
abbreviation (input) NV097_SET_SURFACE_FORMAT_ANTI_ALIASING_CENTER_CORNER_2 :: u32 where "NV097_SET_SURFACE_FORMAT_ANTI_ALIASING_CENTER_CORNER_2 \<equiv> 1"
abbreviation (input) NV097_SET_SURFACE_FORMAT_ANTI_ALIASING_SQUARE_OFFSET_4 :: u32 where "NV097_SET_SURFACE_FORMAT_ANTI_ALIASING_SQUARE_OFFSET_4 \<equiv> 2"
abbreviation (input) NV062_SET_COLOR_FORMAT_LE_Y8 :: u32 where "NV062_SET_COLOR_FORMAT_LE_Y8 \<equiv> 1"
abbreviation (input) NV062_SET_COLOR_FORMAT_LE_A8R8G8B8 :: u32 where "NV062_SET_COLOR_FORMAT_LE_A8R8G8B8 \<equiv> 0xA"
abbreviation (input) NV_CONTEXT_SURFACES_2D :: u32 where "NV_CONTEXT_SURFACES_2D \<equiv> 0x62"
abbreviation (input) NV062_SET_CONTEXT_DMA_IMAGE_SOURCE :: u32 where "NV062_SET_CONTEXT_DMA_IMAGE_SOURCE \<equiv> 0x620184"
abbreviation (input) NV062_SET_CONTEXT_DMA_IMAGE_DESTIN :: u32 where "NV062_SET_CONTEXT_DMA_IMAGE_DESTIN \<equiv> 0x620188"
abbreviation (input) NV062_SET_COLOR_FORMAT :: u32 where "NV062_SET_COLOR_FORMAT \<equiv> 0x620300"
abbreviation (input) NV062_SET_PITCH :: u32 where "NV062_SET_PITCH \<equiv> 0x620304"
abbreviation (input) NV062_SET_OFFSET_SOURCE :: u32 where "NV062_SET_OFFSET_SOURCE \<equiv> 0x620308"
abbreviation (input) NV062_SET_OFFSET_DESTIN :: u32 where "NV062_SET_OFFSET_DESTIN \<equiv> 0x62030C"
abbreviation (input) NV09F_SET_CONTEXT_SURFACES :: u32 where "NV09F_SET_CONTEXT_SURFACES \<equiv> 0x9F019C"
abbreviation (input) NV09F_SET_OPERATION :: u32 where "NV09F_SET_OPERATION \<equiv> 0x9F02FC"
abbreviation (input) NV09F_CONTROL_POINT_IN :: u32 where "NV09F_CONTROL_POINT_IN \<equiv> 0x9F0300"
abbreviation (input) NV09F_CONTROL_POINT_OUT :: u32 where "NV09F_CONTROL_POINT_OUT \<equiv> 0x9F0304"
abbreviation (input) NV09F_SIZE :: u32 where "NV09F_SIZE \<equiv> 0x9F0308"
abbreviation (input) NV09F_SET_OPERATION_SRCCOPY :: u32 where "NV09F_SET_OPERATION_SRCCOPY \<equiv> 3"
abbreviation (input) NV097_NO_OPERATION :: u32 where "NV097_NO_OPERATION \<equiv> 0x970100"
abbreviation (input) NV097_WAIT_FOR_IDLE :: u32 where "NV097_WAIT_FOR_IDLE \<equiv> 0x970110"
abbreviation (input) NV097_FLIP_INCREMENT_WRITE :: u32 where "NV097_FLIP_INCREMENT_WRITE \<equiv> 0x97012C"
abbreviation (input) NV097_FLIP_STALL :: u32 where "NV097_FLIP_STALL \<equiv> 0x970130"
abbreviation (input) NV097_SET_CONTEXT_DMA_NOTIFIES :: u32 where "NV097_SET_CONTEXT_DMA_NOTIFIES \<equiv> 0x970180"
abbreviation (input) NV097_SET_CONTEXT_DMA_A :: u32 where "NV097_SET_CONTEXT_DMA_A \<equiv> 0x970184"
abbreviation (input) NV097_SET_CONTEXT_DMA_B :: u32 where "NV097_SET_CONTEXT_DMA_B \<equiv> 0x970188"
abbreviation (input) NV097_SET_CONTEXT_DMA_STATE :: u32 where "NV097_SET_CONTEXT_DMA_STATE \<equiv> 0x970190"
abbreviation (input) NV097_SET_CONTEXT_DMA_COLOR :: u32 where "NV097_SET_CONTEXT_DMA_COLOR \<equiv> 0x970194"
abbreviation (input) NV097_SET_CONTEXT_DMA_ZETA :: u32 where "NV097_SET_CONTEXT_DMA_ZETA \<equiv> 0x970198"
abbreviation (input) NV097_SET_CONTEXT_DMA_VERTEX_A :: u32 where "NV097_SET_CONTEXT_DMA_VERTEX_A \<equiv> 0x97019C"
abbreviation (input) NV097_SET_CONTEXT_DMA_VERTEX_B :: u32 where "NV097_SET_CONTEXT_DMA_VERTEX_B \<equiv> 0x9701A0"
abbreviation (input) NV097_SET_CONTEXT_DMA_SEMAPHORE :: u32 where "NV097_SET_CONTEXT_DMA_SEMAPHORE \<equiv> 0x9701A4"
abbreviation (input) NV097_SET_SURFACE_CLIP_HORIZONTAL :: u32 where "NV097_SET_SURFACE_CLIP_HORIZONTAL \<equiv> 0x970200"
abbreviation (input) NV097_SET_SURFACE_CLIP_HORIZONTAL_X :: u32 where "NV097_SET_SURFACE_CLIP_HORIZONTAL_X \<equiv> 0xFFFF"
abbreviation (input) NV097_SET_SURFACE_CLIP_HORIZONTAL_WIDTH :: u32 where "NV097_SET_SURFACE_CLIP_HORIZONTAL_WIDTH \<equiv> 0xFFFF0000"
abbreviation (input) NV097_SET_SURFACE_CLIP_VERTICAL :: u32 where "NV097_SET_SURFACE_CLIP_VERTICAL \<equiv> 0x970204"
abbreviation (input) NV097_SET_SURFACE_CLIP_VERTICAL_Y :: u32 where "NV097_SET_SURFACE_CLIP_VERTICAL_Y \<equiv> 0xFFFF"
abbreviation (input) NV097_SET_SURFACE_CLIP_VERTICAL_HEIGHT :: u32 where "NV097_SET_SURFACE_CLIP_VERTICAL_HEIGHT \<equiv> 0xFFFF0000"
abbreviation (input) NV097_SET_SURFACE_FORMAT :: u32 where "NV097_SET_SURFACE_FORMAT \<equiv> 0x970208"
abbreviation (input) NV097_SET_SURFACE_FORMAT_COLOR :: u32 where "NV097_SET_SURFACE_FORMAT_COLOR \<equiv> 0xF"
abbreviation (input) NV097_SET_SURFACE_FORMAT_ZETA :: u32 where "NV097_SET_SURFACE_FORMAT_ZETA \<equiv> 0xF0"
abbreviation (input) NV097_SET_SURFACE_FORMAT_TYPE :: u32 where "NV097_SET_SURFACE_FORMAT_TYPE \<equiv> 0xF00"
abbreviation (input) NV097_SET_SURFACE_FORMAT_ANTI_ALIASING :: u32 where "NV097_SET_SURFACE_FORMAT_ANTI_ALIASING \<equiv> 0xF000"
abbreviation (input) NV097_SET_SURFACE_FORMAT_WIDTH :: u32 where "NV097_SET_SURFACE_FORMAT_WIDTH \<equiv> 0xFF0000"
abbreviation (input) NV097_SET_SURFACE_FORMAT_HEIGHT :: u32 where "NV097_SET_SURFACE_FORMAT_HEIGHT \<equiv> 0xFF000000"
abbreviation (input) NV097_SET_SURFACE_PITCH :: u32 where "NV097_SET_SURFACE_PITCH \<equiv> 0x97020C"
abbreviation (input) NV097_SET_SURFACE_PITCH_COLOR :: u32 where "NV097_SET_SURFACE_PITCH_COLOR \<equiv> 0xFFFF"
abbreviation (input) NV097_SET_SURFACE_PITCH_ZETA :: u32 where "NV097_SET_SURFACE_PITCH_ZETA \<equiv> 0xFFFF0000"
abbreviation (input) NV097_SET_SURFACE_COLOR_OFFSET :: u32 where "NV097_SET_SURFACE_COLOR_OFFSET \<equiv> 0x970210"
abbreviation (input) NV097_SET_SURFACE_ZETA_OFFSET :: u32 where "NV097_SET_SURFACE_ZETA_OFFSET \<equiv> 0x970214"
abbreviation (input) NV097_SET_COMBINER_ALPHA_ICW :: u32 where "NV097_SET_COMBINER_ALPHA_ICW \<equiv> 0x970260"
abbreviation (input) NV097_SET_COMBINER_SPECULAR_FOG_CW0 :: u32 where "NV097_SET_COMBINER_SPECULAR_FOG_CW0 \<equiv> 0x970288"
abbreviation (input) NV097_SET_COMBINER_SPECULAR_FOG_CW1 :: u32 where "NV097_SET_COMBINER_SPECULAR_FOG_CW1 \<equiv> 0x97028C"
abbreviation (input) NV097_SET_STENCIL_TEST_ENABLE :: u32 where "NV097_SET_STENCIL_TEST_ENABLE \<equiv> 0x97032C"
abbreviation (input) NV097_SET_STENCIL_OP_FAIL :: u32 where "NV097_SET_STENCIL_OP_FAIL \<equiv> 0x970370"
abbreviation (input) NV097_SET_STENCIL_OP_ZFAIL :: u32 where "NV097_SET_STENCIL_OP_ZFAIL \<equiv> 0x970374"
abbreviation (input) NV097_SET_STENCIL_OP_ZPASS :: u32 where "NV097_SET_STENCIL_OP_ZPASS \<equiv> 0x970378"
abbreviation (input) NV097_SET_STENCIL_FUNC_REF :: u32 where "NV097_SET_STENCIL_FUNC_REF \<equiv> 0x970368"
abbreviation (input) NV097_SET_STENCIL_FUNC_MASK :: u32 where "NV097_SET_STENCIL_FUNC_MASK \<equiv> 0x97036C"
abbreviation (input) NV097_SET_STENCIL_FUNC :: u32 where "NV097_SET_STENCIL_FUNC \<equiv> 0x970364"
abbreviation (input) NV097_SET_COLOR_MASK :: u32 where "NV097_SET_COLOR_MASK \<equiv> 0x970358"
abbreviation (input) NV097_SET_COLOR_MASK_BLUE_WRITE_ENABLE :: u32 where "NV097_SET_COLOR_MASK_BLUE_WRITE_ENABLE \<equiv> 0xFF"
abbreviation (input) NV097_SET_COLOR_MASK_GREEN_WRITE_ENABLE :: u32 where "NV097_SET_COLOR_MASK_GREEN_WRITE_ENABLE \<equiv> 0xFF00"
abbreviation (input) NV097_SET_COLOR_MASK_RED_WRITE_ENABLE :: u32 where "NV097_SET_COLOR_MASK_RED_WRITE_ENABLE \<equiv> 0xFF0000"
abbreviation (input) NV097_SET_COLOR_MASK_ALPHA_WRITE_ENABLE :: u32 where "NV097_SET_COLOR_MASK_ALPHA_WRITE_ENABLE \<equiv> 0xFF000000"
abbreviation (input) NV097_SET_STENCIL_MASK :: u32 where "NV097_SET_STENCIL_MASK \<equiv> 0x970360"
abbreviation (input) NV097_SET_CONTROL0 :: u32 where "NV097_SET_CONTROL0 \<equiv> 0x970290"
abbreviation (input) NV097_SET_CONTROL0_STENCIL_WRITE_ENABLE :: u32 where "NV097_SET_CONTROL0_STENCIL_WRITE_ENABLE \<equiv> 0xFF"
abbreviation (input) NV097_SET_CONTROL0_Z_FORMAT :: u32 where "NV097_SET_CONTROL0_Z_FORMAT \<equiv> 0xFF00"
abbreviation (input) NV097_SET_CONTROL0_Z_PERSPECTIVE_ENABLE :: u32 where "NV097_SET_CONTROL0_Z_PERSPECTIVE_ENABLE \<equiv> 0xF0000"
abbreviation (input) NV097_SET_CONTROL0_TEXTUREPERSPECTIVE :: u32 where "NV097_SET_CONTROL0_TEXTUREPERSPECTIVE \<equiv> 0xF00000"
abbreviation (input) NV097_SET_CONTROL0_PREMULTIPLIEDALPHA :: u32 where "NV097_SET_CONTROL0_PREMULTIPLIEDALPHA \<equiv> 0xF000000"
abbreviation (input) NV097_SET_CONTROL0_COLOR_SPACE_CONVERT :: u32 where "NV097_SET_CONTROL0_COLOR_SPACE_CONVERT \<equiv> 0xF0000000"
abbreviation (input) NV097_SET_DEPTH_MASK :: u32 where "NV097_SET_DEPTH_MASK \<equiv> 0x97035C"
abbreviation (input) NV097_SET_CLIP_MIN :: u32 where "NV097_SET_CLIP_MIN \<equiv> 0x970394"
abbreviation (input) NV097_SET_CLIP_MAX :: u32 where "NV097_SET_CLIP_MAX \<equiv> 0x970398"
abbreviation (input) NV097_SET_COMPOSITE_MATRIX :: u32 where "NV097_SET_COMPOSITE_MATRIX \<equiv> 0x970680"
abbreviation (input) NV097_SET_TEXTURE_MATRIX_ENABLE :: u32 where "NV097_SET_TEXTURE_MATRIX_ENABLE \<equiv> 0x970420"
abbreviation (input) NV097_SET_TEXTURE_MATRIX0 :: u32 where "NV097_SET_TEXTURE_MATRIX0 \<equiv> 0x9706C0"
abbreviation (input) NV097_SET_TEXTURE_MATRIX1 :: u32 where "NV097_SET_TEXTURE_MATRIX1 \<equiv> 0x970700"
abbreviation (input) NV097_SET_TEXTURE_MATRIX2 :: u32 where "NV097_SET_TEXTURE_MATRIX2 \<equiv> 0x970740"
abbreviation (input) NV097_SET_TEXTURE_MATRIX3 :: u32 where "NV097_SET_TEXTURE_MATRIX3 \<equiv> 0x970780"
abbreviation (input) NV097_SET_VIEWPORT_OFFSET :: u32 where "NV097_SET_VIEWPORT_OFFSET \<equiv> 0x970A20"
abbreviation (input) NV097_SET_COMBINER_FACTOR0 :: u32 where "NV097_SET_COMBINER_FACTOR0 \<equiv> 0x970A60"
abbreviation (input) NV097_SET_COMBINER_FACTOR1 :: u32 where "NV097_SET_COMBINER_FACTOR1 \<equiv> 0x970A80"
abbreviation (input) NV097_SET_COMBINER_ALPHA_OCW :: u32 where "NV097_SET_COMBINER_ALPHA_OCW \<equiv> 0x970AA0"
abbreviation (input) NV097_SET_COMBINER_COLOR_ICW :: u32 where "NV097_SET_COMBINER_COLOR_ICW \<equiv> 0x970AC0"
abbreviation (input) NV097_SET_VIEWPORT_SCALE :: u32 where "NV097_SET_VIEWPORT_SCALE \<equiv> 0x970AF0"
abbreviation (input) NV097_SET_TRANSFORM_PROGRAM :: u32 where "NV097_SET_TRANSFORM_PROGRAM \<equiv> 0x970B00"
abbreviation (input) NV097_SET_TRANSFORM_CONSTANT :: u32 where "NV097_SET_TRANSFORM_CONSTANT \<equiv> 0x970B80"
abbreviation (input) NV097_SET_VERTEX3F :: u32 where "NV097_SET_VERTEX3F \<equiv> 0x971500"
abbreviation (input) NV097_SET_VERTEX4F :: u32 where "NV097_SET_VERTEX4F \<equiv> 0x971518"
abbreviation (input) NV097_SET_NORMAL3F :: u32 where "NV097_SET_NORMAL3F \<equiv> 0x971530"
abbreviation (input) NV097_SET_DIFFUSE_COLOR4F :: u32 where "NV097_SET_DIFFUSE_COLOR4F \<equiv> 0x971550"
abbreviation (input) NV097_SET_DIFFUSE_COLOR3F :: u32 where "NV097_SET_DIFFUSE_COLOR3F \<equiv> 0x971560"
abbreviation (input) NV097_SET_DIFFUSE_COLOR4UB :: u32 where "NV097_SET_DIFFUSE_COLOR4UB \<equiv> 0x97156C"
abbreviation (input) NV097_SET_TEXCOORD0_2F :: u32 where "NV097_SET_TEXCOORD0_2F \<equiv> 0x971590"
abbreviation (input) NV097_SET_TEXCOORD0_4F :: u32 where "NV097_SET_TEXCOORD0_4F \<equiv> 0x9715A0"
abbreviation (input) NV097_SET_TEXCOORD1_2F :: u32 where "NV097_SET_TEXCOORD1_2F \<equiv> 0x9715B8"
abbreviation (input) NV097_SET_TEXCOORD1_4F :: u32 where "NV097_SET_TEXCOORD1_4F \<equiv> 0x9715C8"
abbreviation (input) NV097_SET_TEXCOORD2_2F :: u32 where "NV097_SET_TEXCOORD2_2F \<equiv> 0x9715E0"
abbreviation (input) NV097_SET_TEXCOORD2_4F :: u32 where "NV097_SET_TEXCOORD2_4F \<equiv> 0x9715F0"
abbreviation (input) NV097_SET_TEXCOORD3_2F :: u32 where "NV097_SET_TEXCOORD3_2F \<equiv> 0x971608"
abbreviation (input) NV097_SET_TEXCOORD3_4F :: u32 where "NV097_SET_TEXCOORD3_4F \<equiv> 0x971620"
abbreviation (input) NV097_SET_VERTEX_DATA_ARRAY_FORMAT_TYPE :: u32 where "NV097_SET_VERTEX_DATA_ARRAY_FORMAT_TYPE \<equiv> 0xF"
abbreviation (input) NV097_SET_VERTEX_DATA_ARRAY_FORMAT_SIZE :: u32 where "NV097_SET_VERTEX_DATA_ARRAY_FORMAT_SIZE \<equiv> 0xF0"
abbreviation (input) NV097_SET_VERTEX_DATA_ARRAY_FORMAT_STRIDE :: u32 where "NV097_SET_VERTEX_DATA_ARRAY_FORMAT_STRIDE \<equiv> 0xFFFFFF00"
abbreviation (input) NV097_SET_VERTEX_DATA_ARRAY_FORMAT_TYPE_UB_D3D :: u32 where "NV097_SET_VERTEX_DATA_ARRAY_FORMAT_TYPE_UB_D3D \<equiv> 0"
abbreviation (input) NV097_SET_VERTEX_DATA_ARRAY_FORMAT_TYPE_UB_OGL :: u32 where "NV097_SET_VERTEX_DATA_ARRAY_FORMAT_TYPE_UB_OGL \<equiv> 4"
abbreviation (input) NV097_SET_VERTEX_DATA_ARRAY_FORMAT_TYPE_S1 :: u32 where "NV097_SET_VERTEX_DATA_ARRAY_FORMAT_TYPE_S1 \<equiv> 1"
abbreviation (input) NV097_SET_VERTEX_DATA_ARRAY_FORMAT_TYPE_F :: u32 where "NV097_SET_VERTEX_DATA_ARRAY_FORMAT_TYPE_F \<equiv> 2"
abbreviation (input) NV097_SET_VERTEX_DATA_ARRAY_FORMAT_TYPE_S32K :: u32 where "NV097_SET_VERTEX_DATA_ARRAY_FORMAT_TYPE_S32K \<equiv> 5"
abbreviation (input) NV097_SET_VERTEX_DATA_ARRAY_FORMAT_TYPE_CMP :: u32 where "NV097_SET_VERTEX_DATA_ARRAY_FORMAT_TYPE_CMP \<equiv> 6"
abbreviation (input) NV097_SET_VERTEX_DATA_ARRAY_FORMAT :: u32 where "NV097_SET_VERTEX_DATA_ARRAY_FORMAT \<equiv> 0x971760"
abbreviation (input) NV097_SET_VERTEX_DATA_ARRAY_OFFSET :: u32 where "NV097_SET_VERTEX_DATA_ARRAY_OFFSET \<equiv> 0x971720"
abbreviation (input) NV097_SET_TEXTURE_FORMAT_COLOR_LU_IMAGE_R5G6B5 :: u32 where "NV097_SET_TEXTURE_FORMAT_COLOR_LU_IMAGE_R5G6B5 \<equiv> 0x11"
abbreviation (input) NV097_SET_TEXTURE_FORMAT_COLOR_LU_IMAGE_A8R8G8B8 :: u32 where "NV097_SET_TEXTURE_FORMAT_COLOR_LU_IMAGE_A8R8G8B8 \<equiv> 0x12"
abbreviation (input) NV097_SET_TEXTURE_FORMAT_COLOR_LU_IMAGE_X8R8G8B8 :: u32 where "NV097_SET_TEXTURE_FORMAT_COLOR_LU_IMAGE_X8R8G8B8 \<equiv> 0x1E"
abbreviation (input) NV097_SET_TEXTURE_FORMAT_COLOR_SZ_DEPTH_Y16_FIXED :: u32 where "NV097_SET_TEXTURE_FORMAT_COLOR_SZ_DEPTH_Y16_FIXED \<equiv> 0x2C"
abbreviation (input) NV097_SET_TEXTURE_FORMAT_COLOR_SZ_DEPTH_X8_Y24_FIXED :: u32 where "NV097_SET_TEXTURE_FORMAT_COLOR_SZ_DEPTH_X8_Y24_FIXED \<equiv> 0x2A"
abbreviation (input) NV097_SET_TEXTURE_FORMAT_COLOR_LU_IMAGE_A8B8G8R8 :: u32 where "NV097_SET_TEXTURE_FORMAT_COLOR_LU_IMAGE_A8B8G8R8 \<equiv> 0x3F"
abbreviation (input) NV097_SET_BEGIN_END_OP_POLYGON :: u32 where "NV097_SET_BEGIN_END_OP_POLYGON \<equiv> 0xA"
abbreviation (input) NV097_SET_BEGIN_END :: u32 where "NV097_SET_BEGIN_END \<equiv> 0x9717FC"
abbreviation (input) NV097_SET_BEGIN_END_OP_END :: u32 where "NV097_SET_BEGIN_END_OP_END \<equiv> 0"
abbreviation (input) NV097_SET_TEXTURE_OFFSET :: u32 where "NV097_SET_TEXTURE_OFFSET \<equiv> 0x971B00"
abbreviation (input) NV097_SET_TEXTURE_FORMAT :: u32 where "NV097_SET_TEXTURE_FORMAT \<equiv> 0x971B04"
abbreviation (input) NV097_SET_TEXTURE_FORMAT_CONTEXT_DMA :: u32 where "NV097_SET_TEXTURE_FORMAT_CONTEXT_DMA \<equiv> 3"
abbreviation (input) NV097_SET_TEXTURE_FORMAT_DIMENSIONALITY :: u32 where "NV097_SET_TEXTURE_FORMAT_DIMENSIONALITY \<equiv> 0xF0"
abbreviation (input) NV097_SET_TEXTURE_FORMAT_COLOR :: u32 where "NV097_SET_TEXTURE_FORMAT_COLOR \<equiv> 0xFF00"
abbreviation (input) NV097_SET_TEXTURE_FORMAT_MIPMAP_LEVELS :: u32 where "NV097_SET_TEXTURE_FORMAT_MIPMAP_LEVELS \<equiv> 0xF0000"
abbreviation (input) NV097_SET_TEXTURE_FORMAT_BASE_SIZE_U :: u32 where "NV097_SET_TEXTURE_FORMAT_BASE_SIZE_U \<equiv> 0xF00000"
abbreviation (input) NV097_SET_TEXTURE_FORMAT_BASE_SIZE_V :: u32 where "NV097_SET_TEXTURE_FORMAT_BASE_SIZE_V \<equiv> 0xF000000"
abbreviation (input) NV097_SET_TEXTURE_FORMAT_BASE_SIZE_P :: u32 where "NV097_SET_TEXTURE_FORMAT_BASE_SIZE_P \<equiv> 0xF0000000"
abbreviation (input) NV097_SET_TEXTURE_ADDRESS :: u32 where "NV097_SET_TEXTURE_ADDRESS \<equiv> 0x971B08"
abbreviation (input) NV097_SET_TEXTURE_ADDRESS_U :: u32 where "NV097_SET_TEXTURE_ADDRESS_U \<equiv> 0xF"
abbreviation (input) NV097_SET_TEXTURE_ADDRESS_CYLWRAP_U :: u32 where "NV097_SET_TEXTURE_ADDRESS_CYLWRAP_U \<equiv> 0xF0"
abbreviation (input) NV097_SET_TEXTURE_ADDRESS_V :: u32 where "NV097_SET_TEXTURE_ADDRESS_V \<equiv> 0xF00"
abbreviation (input) NV097_SET_TEXTURE_ADDRESS_CYLWRAP_V :: u32 where "NV097_SET_TEXTURE_ADDRESS_CYLWRAP_V \<equiv> 0xF000"
abbreviation (input) NV097_SET_TEXTURE_ADDRESS_P :: u32 where "NV097_SET_TEXTURE_ADDRESS_P \<equiv> 0xF0000"
abbreviation (input) NV097_SET_TEXTURE_ADDRESS_CYLWRAP_P :: u32 where "NV097_SET_TEXTURE_ADDRESS_CYLWRAP_P \<equiv> 0xF00000"
abbreviation (input) NV097_SET_TEXTURE_ADDRESS_CYLWRAP_Q :: u32 where "NV097_SET_TEXTURE_ADDRESS_CYLWRAP_Q \<equiv> 0xFF000000"
abbreviation (input) NV097_SET_TEXTURE_CONTROL0 :: u32 where "NV097_SET_TEXTURE_CONTROL0 \<equiv> 0x971B0C"
abbreviation (input) NV097_SET_TEXTURE_CONTROL0_ENABLE :: u32 where "NV097_SET_TEXTURE_CONTROL0_ENABLE \<equiv> 0x40000000"
abbreviation (input) NV097_SET_TEXTURE_CONTROL0_MIN_LOD_CLAMP :: u32 where "NV097_SET_TEXTURE_CONTROL0_MIN_LOD_CLAMP \<equiv> 0x3FFC0000"
abbreviation (input) NV097_SET_TEXTURE_CONTROL0_MAX_LOD_CLAMP :: u32 where "NV097_SET_TEXTURE_CONTROL0_MAX_LOD_CLAMP \<equiv> 0x3FFC0"
abbreviation (input) NV097_SET_TEXTURE_CONTROL0_ALPHA_KILL_ENABLE :: u32 where "NV097_SET_TEXTURE_CONTROL0_ALPHA_KILL_ENABLE \<equiv> 4"
abbreviation (input) NV097_SET_TEXTURE_CONTROL1 :: u32 where "NV097_SET_TEXTURE_CONTROL1 \<equiv> 0x971B10"
abbreviation (input) NV097_SET_TEXTURE_CONTROL1_IMAGE_PITCH :: u32 where "NV097_SET_TEXTURE_CONTROL1_IMAGE_PITCH \<equiv> 0xFFFF0000"
abbreviation (input) NV097_SET_TEXTURE_FILTER :: u32 where "NV097_SET_TEXTURE_FILTER \<equiv> 0x971B14"
abbreviation (input) NV097_SET_TEXTURE_FILTER_MIPMAP_LOD_BIAS :: u32 where "NV097_SET_TEXTURE_FILTER_MIPMAP_LOD_BIAS \<equiv> 0x1FFF"
abbreviation (input) NV097_SET_TEXTURE_FILTER_MIN :: u32 where "NV097_SET_TEXTURE_FILTER_MIN \<equiv> 0xFF0000"
abbreviation (input) NV097_SET_TEXTURE_FILTER_MAG :: u32 where "NV097_SET_TEXTURE_FILTER_MAG \<equiv> 0xF000000"
abbreviation (input) NV097_SET_TEXTURE_IMAGE_RECT :: u32 where "NV097_SET_TEXTURE_IMAGE_RECT \<equiv> 0x971B1C"
abbreviation (input) NV097_SET_TEXTURE_IMAGE_RECT_WIDTH :: u32 where "NV097_SET_TEXTURE_IMAGE_RECT_WIDTH \<equiv> 0xFFFF0000"
abbreviation (input) NV097_SET_TEXTURE_IMAGE_RECT_HEIGHT :: u32 where "NV097_SET_TEXTURE_IMAGE_RECT_HEIGHT \<equiv> 0xFFFF"
abbreviation (input) NV097_SET_POINT_SIZE :: u32 where "NV097_SET_POINT_SIZE \<equiv> 0x97043C"
abbreviation (input) NV097_ARRAY_ELEMENT16 :: u32 where "NV097_ARRAY_ELEMENT16 \<equiv> 0x971800"
abbreviation (input) NV097_ARRAY_ELEMENT32 :: u32 where "NV097_ARRAY_ELEMENT32 \<equiv> 0x971808"
abbreviation (input) NV097_DRAW_ARRAYS :: u32 where "NV097_DRAW_ARRAYS \<equiv> 0x971810"
abbreviation (input) NV097_DRAW_ARRAYS_START_INDEX :: u32 where "NV097_DRAW_ARRAYS_START_INDEX \<equiv> 0xFFFFFF"
abbreviation (input) NV097_DRAW_ARRAYS_COUNT :: u32 where "NV097_DRAW_ARRAYS_COUNT \<equiv> 0xFF000000"
abbreviation (input) NV097_INLINE_ARRAY :: u32 where "NV097_INLINE_ARRAY \<equiv> 0x971818"
abbreviation (input) NV097_SET_VERTEX_DATA2F_M :: u32 where "NV097_SET_VERTEX_DATA2F_M \<equiv> 0x971880"
abbreviation (input) NV097_SET_VERTEX_DATA4F_M :: u32 where "NV097_SET_VERTEX_DATA4F_M \<equiv> 0x971A00"
abbreviation (input) NV097_SET_VERTEX_DATA4UB :: u32 where "NV097_SET_VERTEX_DATA4UB \<equiv> 0x971940"
abbreviation (input) NV097_SET_VERTEX_DATA2S :: u32 where "NV097_SET_VERTEX_DATA2S \<equiv> 0x971900"
abbreviation (input) NV097_SET_VERTEX_DATA4S_M :: u32 where "NV097_SET_VERTEX_DATA4S_M \<equiv> 0x971980"
abbreviation (input) NV097_SET_SURFACE_FORMAT_ZETA_Z16 :: u32 where "NV097_SET_SURFACE_FORMAT_ZETA_Z16 \<equiv> 1"
abbreviation (input) NV097_SET_SURFACE_FORMAT_ZETA_Z24S8 :: u32 where "NV097_SET_SURFACE_FORMAT_ZETA_Z24S8 \<equiv> 2"
abbreviation (input) NV097_CLEAR_SURFACE_R :: u32 where "NV097_CLEAR_SURFACE_R \<equiv> 0x10"
abbreviation (input) NV097_CLEAR_SURFACE_G :: u32 where "NV097_CLEAR_SURFACE_G \<equiv> 0x20"
abbreviation (input) NV097_CLEAR_SURFACE_B :: u32 where "NV097_CLEAR_SURFACE_B \<equiv> 0x40"
abbreviation (input) NV097_CLEAR_SURFACE_A :: u32 where "NV097_CLEAR_SURFACE_A \<equiv> 0x80"
abbreviation (input) NV097_CLEAR_SURFACE_Z :: u32 where "NV097_CLEAR_SURFACE_Z \<equiv> 1"
abbreviation (input) NV097_CLEAR_SURFACE_STENCIL :: u32 where "NV097_CLEAR_SURFACE_STENCIL \<equiv> 2"
abbreviation (input) NV097_CLEAR_SURFACE_COLOR :: u32 where "NV097_CLEAR_SURFACE_COLOR \<equiv> 0xF0"
abbreviation (input) NV097_SET_SEMAPHORE_OFFSET :: u32 where "NV097_SET_SEMAPHORE_OFFSET \<equiv> 0x971D6C"
abbreviation (input) NV097_BACK_END_WRITE_SEMAPHORE_RELEASE :: u32 where "NV097_BACK_END_WRITE_SEMAPHORE_RELEASE \<equiv> 0x971D70"
abbreviation (input) NV097_SET_ZSTENCIL_CLEAR_VALUE :: u32 where "NV097_SET_ZSTENCIL_CLEAR_VALUE \<equiv> 0x971D8C"
abbreviation (input) NV097_SET_COLOR_CLEAR_VALUE :: u32 where "NV097_SET_COLOR_CLEAR_VALUE \<equiv> 0x971D90"
abbreviation (input) NV097_CLEAR_SURFACE :: u32 where "NV097_CLEAR_SURFACE \<equiv> 0x971D94"
abbreviation (input) NV097_SET_CLEAR_RECT_HORIZONTAL :: u32 where "NV097_SET_CLEAR_RECT_HORIZONTAL \<equiv> 0x971D98"
abbreviation (input) NV097_SET_CLEAR_RECT_VERTICAL :: u32 where "NV097_SET_CLEAR_RECT_VERTICAL \<equiv> 0x971D9C"
abbreviation (input) NV097_SET_FOG_MODE_LINEAR :: u32 where "NV097_SET_FOG_MODE_LINEAR \<equiv> 0x2601"
abbreviation (input) NV097_SET_FOG_MODE_EXP :: u32 where "NV097_SET_FOG_MODE_EXP \<equiv> 0x800"
abbreviation (input) NV097_SET_FOG_MODE_EXP2 :: u32 where "NV097_SET_FOG_MODE_EXP2 \<equiv> 0x801"
abbreviation (input) NV097_SET_FOG_MODE_EXP_ABS :: u32 where "NV097_SET_FOG_MODE_EXP_ABS \<equiv> 0x802"
abbreviation (input) NV097_SET_FOG_MODE_EXP2_ABS :: u32 where "NV097_SET_FOG_MODE_EXP2_ABS \<equiv> 0x803"
abbreviation (input) NV097_SET_FOG_MODE_LINEAR_ABS :: u32 where "NV097_SET_FOG_MODE_LINEAR_ABS \<equiv> 0x804"
abbreviation (input) NV097_SET_SPECULAR_FOG_FACTOR :: u32 where "NV097_SET_SPECULAR_FOG_FACTOR \<equiv> 0x971E20"
abbreviation (input) NV097_SET_EYE_VECTOR :: u32 where "NV097_SET_EYE_VECTOR \<equiv> 0x97181C"
abbreviation (input) NV097_SET_FOG_MODE :: u32 where "NV097_SET_FOG_MODE \<equiv> 0x97029C"
abbreviation (input) NV097_SET_FOG_ENABLE :: u32 where "NV097_SET_FOG_ENABLE \<equiv> 0x9702A4"
abbreviation (input) NV097_SET_FOG_COLOR :: u32 where "NV097_SET_FOG_COLOR \<equiv> 0x9702A8"
abbreviation (input) NV097_SET_FOG_COLOR_ALPHA :: u32 where "NV097_SET_FOG_COLOR_ALPHA \<equiv> 0xFF000000"
abbreviation (input) NV097_SET_FOG_COLOR_BLUE :: u32 where "NV097_SET_FOG_COLOR_BLUE \<equiv> 0xFF0000"
abbreviation (input) NV097_SET_FOG_COLOR_GREEN :: u32 where "NV097_SET_FOG_COLOR_GREEN \<equiv> 0xFF00"
abbreviation (input) NV097_SET_FOG_COLOR_RED :: u32 where "NV097_SET_FOG_COLOR_RED \<equiv> 0xFF"
abbreviation (input) NV097_SET_SHADER_CLIP_PLANE_MODE :: u32 where "NV097_SET_SHADER_CLIP_PLANE_MODE \<equiv> 0x9717F8"
abbreviation (input) NV097_SET_COMBINER_COLOR_OCW :: u32 where "NV097_SET_COMBINER_COLOR_OCW \<equiv> 0x971E40"
abbreviation (input) NV097_SET_COMBINER_CONTROL :: u32 where "NV097_SET_COMBINER_CONTROL \<equiv> 0x971E60"
abbreviation (input) NV097_SET_SHADER_STAGE_PROGRAM :: u32 where "NV097_SET_SHADER_STAGE_PROGRAM \<equiv> 0x971E70"
abbreviation (input) NV097_SET_SHADER_OTHER_STAGE_INPUT :: u32 where "NV097_SET_SHADER_OTHER_STAGE_INPUT \<equiv> 0x971E78"
abbreviation (input) NV097_SET_TRANSFORM_EXECUTION_MODE :: u32 where "NV097_SET_TRANSFORM_EXECUTION_MODE \<equiv> 0x971E94"
abbreviation (input) NV097_SET_TRANSFORM_EXECUTION_MODE_RANGE_MODE :: u32 where "NV097_SET_TRANSFORM_EXECUTION_MODE_RANGE_MODE \<equiv> 0xFFFFFFFC"
abbreviation (input) NV097_SET_TRANSFORM_EXECUTION_MODE_MODE :: u32 where "NV097_SET_TRANSFORM_EXECUTION_MODE_MODE \<equiv> 3"
abbreviation (input) NV097_SET_TRANSFORM_PROGRAM_CXT_WRITE_EN :: u32 where "NV097_SET_TRANSFORM_PROGRAM_CXT_WRITE_EN \<equiv> 0x971E98"
abbreviation (input) NV097_SET_TRANSFORM_PROGRAM_LOAD :: u32 where "NV097_SET_TRANSFORM_PROGRAM_LOAD \<equiv> 0x971E9C"
abbreviation (input) NV097_SET_TRANSFORM_PROGRAM_START :: u32 where "NV097_SET_TRANSFORM_PROGRAM_START \<equiv> 0x971EA0"
abbreviation (input) NV097_SET_TRANSFORM_CONSTANT_LOAD :: u32 where "NV097_SET_TRANSFORM_CONSTANT_LOAD \<equiv> 0x971EA4"
abbreviation (input) NV097_SET_SHADE_MODE_FLAT :: u32 where "NV097_SET_SHADE_MODE_FLAT \<equiv> 0x1D00"
abbreviation (input) NV097_SET_SHADE_MODE_SMOOTH :: u32 where "NV097_SET_SHADE_MODE_SMOOTH \<equiv> 0x1D01"
abbreviation (input) NV097_SET_SHADE_MODE :: u32 where "NV097_SET_SHADE_MODE \<equiv> 0x97037C"
abbreviation (input) NV097_SET_ALPHA_TEST_ENABLE :: u32 where "NV097_SET_ALPHA_TEST_ENABLE \<equiv> 0x970300"
abbreviation (input) NV097_SET_BLEND_ENABLE :: u32 where "NV097_SET_BLEND_ENABLE \<equiv> 0x970304"
abbreviation (input) NV097_SET_BLEND_FUNC_SFACTOR :: u32 where "NV097_SET_BLEND_FUNC_SFACTOR \<equiv> 0x970344"
abbreviation (input) NV097_SET_BLEND_FUNC_DFACTOR :: u32 where "NV097_SET_BLEND_FUNC_DFACTOR \<equiv> 0x970348"
abbreviation (input) NV097_SET_FRONT_FACE :: u32 where "NV097_SET_FRONT_FACE \<equiv> 0x9703A0"
abbreviation (input) NV097_SET_CULL_FACE_ENABLE :: u32 where "NV097_SET_CULL_FACE_ENABLE \<equiv> 0x970308"
abbreviation (input) NV097_SET_CULL_FACE :: u32 where "NV097_SET_CULL_FACE \<equiv> 0x97039C"
abbreviation (input) NV097_SET_DEPTH_TEST_ENABLE :: u32 where "NV097_SET_DEPTH_TEST_ENABLE \<equiv> 0x97030C"
abbreviation (input) NV097_SET_DEPTH_FUNC :: u32 where "NV097_SET_DEPTH_FUNC \<equiv> 0x970354"
abbreviation (input) NV097_SET_ALPHA_FUNC :: u32 where "NV097_SET_ALPHA_FUNC \<equiv> 0x97033C"
abbreviation (input) NV097_SET_ALPHA_REF :: u32 where "NV097_SET_ALPHA_REF \<equiv> 0x970340"
abbreviation (input) NV097_SET_EDGE_FLAG :: u32 where "NV097_SET_EDGE_FLAG \<equiv> 0x9716BC"
abbreviation (input) NV_SET_OBJECT :: u32 where "NV_SET_OBJECT \<equiv> 0"

end
