(* ===== verification/NV2A_GL.thy ===== *)
theory NV2A_GL
  imports NV2A_State NV2A_Names
begin

text \<open>
  The state of the drawing engine of the NV2A (the rest of \<open>PGRAPHState\<close> in \<open>src/hw/xbox/nv2a_gpu.c\<close>) and the part
  of it that shadows the host's OpenGL settings: a method changes a register and marks the setting as dirty, and
  \<open>pgraph_update_state\<close> passes the dirty settings on before a draw. OpenGL itself is not modelled; the state holds the
  sequence of calls that the code makes, newest first, and a field of any type for what the rest of the engine keeps in the
  host. Shown here: the contract of the dirty flags, which is that a setting that is not dirty was last made with the
  value that the registers hold, is established by \<open>pgraph_update_state\<close> and kept by changes of other settings.
\<close>

section \<open>Calls of OpenGL\<close>

text \<open>
  The values of the host's \<open>GLenum\<close> are not in the sources; they are enumerated by their names. Blend factors have the prefix
  \<open>BF\<close> instead of \<open>GL\<close>, since some names are used for other types, too. A single-precision number is given by its bits or as the
  quotient of two numbers.
\<close>

datatype gl_cap = GL_ALPHA_TEST | GL_DEPTH_TEST | GL_STENCIL_TEST | GL_FOG | GL_BLEND | GL_CULL_FACE | GL_SCISSOR_TEST

datatype gl_stencil_op = GL_KEEP | GL_ZERO | GL_REPLACE | GL_INCR | GL_DECR | GL_INVERT | GL_INCR_WRAP | GL_DECR_WRAP

datatype gl_func = GL_NEVER | GL_LESS | GL_EQUAL | GL_LEQUAL | GL_GREATER | GL_NOTEQUAL | GL_GEQUAL | GL_ALWAYS

datatype gl_factor = BF_ZERO | BF_ONE | BF_SRC_COLOR | BF_ONE_MINUS_SRC_COLOR | BF_SRC_ALPHA | BF_ONE_MINUS_SRC_ALPHA
  | BF_DST_ALPHA | BF_ONE_MINUS_DST_ALPHA | BF_DST_COLOR | BF_ONE_MINUS_DST_COLOR | BF_SRC_ALPHA_SATURATE
  | BF_CONSTANT | BF_CONSTANT_COLOR | BF_ONE_MINUS_CONSTANT_COLOR | BF_CONSTANT_ALPHA | BF_ONE_MINUS_CONSTANT_ALPHA

datatype gl_mode = GL_LINEAR | GL_EXP | GL_EXP2 | GL_CW | GL_CCW | GL_FRONT | GL_BACK | GL_FRONT_AND_BACK | GL_FLAT | GL_SMOOTH

datatype gl_primitive = GL_NO_PRIMITIVE | GL_POINTS | GL_LINES | GL_LINE_LOOP | GL_LINE_STRIP | GL_TRIANGLES
  | GL_TRIANGLE_STRIP | GL_TRIANGLE_FAN | GL_QUADS | GL_QUAD_STRIP | GL_POLYGON

datatype gl_type = GL_NO_TYPE | GL_UNSIGNED_BYTE | GL_SHORT | GL_FLOAT

datatype gl_components = GL_BGRA | Components u32

datatype number = Bits u32 | Quotient int nat

text \<open>The source of vertex data: an offset into the inline array or the inline buffer, or into video memory.\<close>

datatype vertex_source = Inline_array u32 | Inline_buffer nat | Video_memory hwaddr

datatype gl_call =
  GlEnable gl_cap | GlDisable gl_cap
| GlStencilOp gl_stencil_op gl_stencil_op gl_stencil_op | GlStencilFunc gl_func u32 u32 | GlStencilMask u32
| GlAlphaFunc gl_func number | GlDepthFunc gl_func | GlDepthMask bool | GlColorMask bool bool bool bool
| GlFogColor number number number number | GlFogMode gl_mode | GlFogHint
| GlFrontFace gl_mode | GlCullFace gl_mode | GlBlendFunc gl_factor gl_factor | GlShadeModel gl_mode
| GlEdgeFlag bool | GlPointSize number | GlFinish | GlViewport u32 u32
| GlClearDepth u32 u32 | GlClearStencil "u32 option" | GlClearColor number number number number
| GlScissor u32 u32 u32 u32 | GlClear bool bool bool
| GlEnableVertexAttribArray nat | GlDisableVertexAttribArray nat | GlVertexAttrib4ubv nat u32
| GlVertexAttribPointer nat gl_components gl_type bool u32 vertex_source
| GlDrawArrays gl_primitive u32 u32 | GlDrawRangeElements gl_primitive u32 u32 "u32 list"

section \<open>State\<close>

text \<open>The flags of \<open>PGRAPHState.dirty\<close>.\<close>

datatype dirty_flag = D_depth_mask | D_color_mask | D_stencil_mask | D_depth_test | D_depth_test_func | D_alpha_test
  | D_alpha_test_func | D_stencil_test | D_stencil_test_func | D_stencil_test_op | D_fog | D_fog_color | D_fog_mode
  | D_eye_vector | D_front_face | D_blend | D_blend_func | D_cull_face | D_cull_face_mode | D_edge_flag | D_framebuffer
  | D_shaders

record VertexAttribute =
  va_dma_select :: bool
  va_offset :: hwaddr
  inline_array_offset :: u32
  inline_value :: u32
  va_format :: u32
  va_size :: u32
  va_count :: u32
  va_stride :: u32
  needs_conversion :: bool
  converted_buffer :: bool
  converted_elements :: u32
  converted_size :: u32
  converted_count :: u32
  gl_size :: gl_components
  va_gl_type :: gl_type
  gl_normalize :: bool

record VertexShaderConstant =
  k_dirty :: bool
  k_data :: "u32 list"

record KelvinTexture =
  t_dirty :: bool
  t_enabled :: bool
  dimensionality :: u32
  t_color_format :: u32
  levels :: u32
  log_width :: u32
  log_height :: u32
  log_depth :: u32
  rect_width :: u32
  rect_height :: u32
  min_mipmap_level :: u32
  max_mipmap_level :: u32
  t_pitch :: u32
  lod_bias :: u32
  min_filter :: u32
  mag_filter :: u32
  wrap_u :: u8
  wrap_v :: u8
  wrap_p :: u8
  cylwrap_u :: bool
  cylwrap_v :: bool
  cylwrap_p :: bool
  cylwrap_q :: bool
  alphakill :: bool
  t_dma_select :: bool
  t_offset :: hwaddr

record Surface =
  s_pitch :: u32
  s_format :: u32
  s_offset :: hwaddr

text \<open>
  A graphics object. Its data is a union of three structs in the source, and changing the class of an object does not
  clear it; it is a block of memory here, and the structs' fields are offsets into it.
\<close>

record GraphicsSubchannel =
  object_instance :: hwaddr
  graphics_class :: u8
  object_data :: mem

record 'g DrawState =
  comp_src :: u32
  dma_color :: hwaddr
  dma_zeta :: hwaddr
  surface_color :: Surface
  surface_zeta :: Surface
  surface_type :: u8
  surface_anti_aliasing :: u8
  surface_swizzle_width_shift :: u8
  surface_swizzle_height_shift :: u8
  clip_x :: u32
  clip_y :: u32
  clip_width :: u32
  clip_height :: u32
  dma_a :: hwaddr
  dma_b :: hwaddr
  textures :: "KelvinTexture list"
  dirty :: "dirty_flag \<Rightarrow> bool"
  eye_vector :: "u32 list"
  composite_matrix :: "u32 list"
  texture_matrix_enable :: "bool list"
  texture_matrix :: "u32 list list"
  dma_vertex_a :: hwaddr
  dma_vertex_b :: hwaddr
  subchannel_data :: "GraphicsSubchannel list"
  gl_primitive_mode :: gl_primitive
  enable_vertex_program_write :: bool
  vertexshader_start_slot :: u32
  vertexshader_load_slot :: u32
  vertexshader_dirty :: bool
  program_data :: "u32 list"
  constant_load_slot :: u32
  constants :: "VertexShaderConstant list"
  vertex_attributes :: "VertexAttribute list"
  inline_array_length :: nat
  inline_array :: "u32 list"
  inline_elements_length :: nat
  inline_elements :: "u32 list"
  inline_buffer_length :: nat
  inline_buffer :: "number list list list"
  gl_calls :: "gl_call list"
  host :: 'g

definition emit :: "gl_call \<Rightarrow> 'g DrawState \<Rightarrow> 'g DrawState" where
  "emit c s = s\<lparr>gl_calls := c # gl_calls s\<rparr>"

definition set_dirty :: "dirty_flag \<Rightarrow> 'g DrawState \<Rightarrow> 'g DrawState" where
  "set_dirty f s = s\<lparr>dirty := (dirty s)(f := True)\<rparr>"

definition set_clean :: "dirty_flag \<Rightarrow> 'g DrawState \<Rightarrow> 'g DrawState" where
  "set_clean f s = s\<lparr>dirty := (dirty s)(f := False)\<rparr>"

section \<open>Registers\<close>

definition GET_PG_REG :: "PGRAPHState \<Rightarrow> nat \<Rightarrow> u32 \<Rightarrow> u32" where
  "GET_PG_REG pg reg msk = GET_MASK (pg_regs pg ! reg) msk"

definition SET_PG_REG :: "nat \<Rightarrow> u32 \<Rightarrow> u32 \<Rightarrow> PGRAPHState \<Rightarrow> PGRAPHState" where
  "SET_PG_REG reg msk val pg = pg\<lparr>pg_regs := (pg_regs pg)[reg := SET_MASK (pg_regs pg ! reg) msk val]\<rparr>"

definition map_method_to_register_func :: "u32 \<Rightarrow> u32 res" where
  "map_method_to_register_func f =
     (if f = NV097_FUNC_NEVER then Inr NV_PGRAPH_FUNC_NEVER
      else if f = NV097_FUNC_LESS then Inr NV_PGRAPH_FUNC_LESS
      else if f = NV097_FUNC_EQUAL then Inr NV_PGRAPH_FUNC_EQUAL
      else if f = NV097_FUNC_LEQUAL then Inr NV_PGRAPH_FUNC_LEQUAL
      else if f = NV097_FUNC_GREATER then Inr NV_PGRAPH_FUNC_GREATER
      else if f = NV097_FUNC_NOTEQUAL then Inr NV_PGRAPH_FUNC_NOTEQUAL
      else if f = NV097_FUNC_GEQUAL then Inr NV_PGRAPH_FUNC_GEQUAL
      else if f = NV097_FUNC_ALWAYS then Inr NV_PGRAPH_FUNC_ALWAYS
      else Inl Assertion_failed)"

definition map_method_to_register_stencil_op :: "u32 \<Rightarrow> u32 res" where
  "map_method_to_register_stencil_op f =
     (if f = NV097_SET_STENCIL_OP_KEEP then Inr NV_PGRAPH_STENCIL_OP_KEEP
      else if f = NV097_SET_STENCIL_OP_ZERO then Inr NV_PGRAPH_STENCIL_OP_ZERO
      else if f = NV097_SET_STENCIL_OP_REPLACE then Inr NV_PGRAPH_STENCIL_OP_REPLACE
      else if f = NV097_SET_STENCIL_OP_INCRSAT then Inr NV_PGRAPH_STENCIL_OP_INCRSAT
      else if f = NV097_SET_STENCIL_OP_DECRSAT then Inr NV_PGRAPH_STENCIL_OP_DECRSAT
      else if f = NV097_SET_STENCIL_OP_INVERT then Inr NV_PGRAPH_STENCIL_OP_INVERT
      else if f = NV097_SET_STENCIL_OP_INCR then Inr NV_PGRAPH_STENCIL_OP_INCR
      else if f = NV097_SET_STENCIL_OP_DECR then Inr NV_PGRAPH_STENCIL_OP_DECR
      else Inl Assertion_failed)"

definition map_register_to_gl_stencil_op :: "u32 \<Rightarrow> gl_stencil_op res" where
  "map_register_to_gl_stencil_op f =
     (if f = NV_PGRAPH_STENCIL_OP_KEEP then Inr GL_KEEP
      else if f = NV_PGRAPH_STENCIL_OP_ZERO then Inr GL_ZERO
      else if f = NV_PGRAPH_STENCIL_OP_REPLACE then Inr GL_REPLACE
      else if f = NV_PGRAPH_STENCIL_OP_INCRSAT then Inr GL_INCR
      else if f = NV_PGRAPH_STENCIL_OP_DECRSAT then Inr GL_DECR
      else if f = NV_PGRAPH_STENCIL_OP_INVERT then Inr GL_INVERT
      else if f = NV_PGRAPH_STENCIL_OP_INCR then Inr GL_INCR_WRAP
      else if f = NV_PGRAPH_STENCIL_OP_DECR then Inr GL_DECR_WRAP
      else Inl Assertion_failed)"

definition map_register_to_gl_func :: "u32 \<Rightarrow> gl_func res" where
  "map_register_to_gl_func f =
     (if f = NV_PGRAPH_FUNC_NEVER then Inr GL_NEVER
      else if f = NV_PGRAPH_FUNC_LESS then Inr GL_LESS
      else if f = NV_PGRAPH_FUNC_EQUAL then Inr GL_EQUAL
      else if f = NV_PGRAPH_FUNC_LEQUAL then Inr GL_LEQUAL
      else if f = NV_PGRAPH_FUNC_GREATER then Inr GL_GREATER
      else if f = NV_PGRAPH_FUNC_NOTEQUAL then Inr GL_NOTEQUAL
      else if f = NV_PGRAPH_FUNC_GEQUAL then Inr GL_GEQUAL
      else if f = NV_PGRAPH_FUNC_ALWAYS then Inr GL_ALWAYS
      else Inl Assertion_failed)"

section \<open>Passing on the settings\<close>

text \<open>\<open>update_gl_state\<close> returns the state of the capability, which its callers read from the register again.\<close>

definition update_gl_state :: "gl_cap \<Rightarrow> bool \<Rightarrow> dirty_flag \<Rightarrow> 'g DrawState \<Rightarrow> 'g DrawState" where
  "update_gl_state cap state f s =
     (if dirty s f then set_clean f (emit (if state then GlEnable cap else GlDisable cap) s) else s)"

definition update_gl_stencil_test_op :: "PGRAPHState \<Rightarrow> 'g DrawState \<Rightarrow> 'g DrawState res" where
  "update_gl_stencil_test_op pg s =
     (if dirty s D_stencil_test_op then
        res_bind (map_register_to_gl_stencil_op (GET_PG_REG pg NV_PGRAPH_CONTROL_2 NV_PGRAPH_CONTROL_2_STENCIL_OP_FAIL)) (\<lambda>a.
        res_bind (map_register_to_gl_stencil_op (GET_PG_REG pg NV_PGRAPH_CONTROL_2 NV_PGRAPH_CONTROL_2_STENCIL_OP_ZFAIL)) (\<lambda>b.
        res_bind (map_register_to_gl_stencil_op (GET_PG_REG pg NV_PGRAPH_CONTROL_2 NV_PGRAPH_CONTROL_2_STENCIL_OP_ZPASS)) (\<lambda>c.
        Inr (set_clean D_stencil_test_op (emit (GlStencilOp a b c) s)))))
      else Inr s)"

definition update_gl_stencil_test_func :: "PGRAPHState \<Rightarrow> 'g DrawState \<Rightarrow> 'g DrawState res" where
  "update_gl_stencil_test_func pg s =
     (if dirty s D_stencil_test_func then
        res_bind (map_register_to_gl_func (GET_PG_REG pg NV_PGRAPH_CONTROL_1 NV_PGRAPH_CONTROL_1_STENCIL_FUNC)) (\<lambda>f.
        Inr (set_clean D_stencil_test_func (emit (GlStencilFunc f
          (GET_PG_REG pg NV_PGRAPH_CONTROL_1 NV_PGRAPH_CONTROL_1_STENCIL_REF)
          (GET_PG_REG pg NV_PGRAPH_CONTROL_1 NV_PGRAPH_CONTROL_1_STENCIL_MASK_READ)) s)))
      else Inr s)"

definition update_gl_alpha_test_func :: "PGRAPHState \<Rightarrow> 'g DrawState \<Rightarrow> 'g DrawState res" where
  "update_gl_alpha_test_func pg s =
     (if dirty s D_alpha_test_func then
        res_bind (map_register_to_gl_func (GET_PG_REG pg NV_PGRAPH_CONTROL_0 NV_PGRAPH_CONTROL_0_ALPHAFUNC)) (\<lambda>f.
        Inr (set_clean D_alpha_test_func (emit (GlAlphaFunc f
          (Quotient (uint (GET_PG_REG pg NV_PGRAPH_CONTROL_0 NV_PGRAPH_CONTROL_0_ALPHAREF)) 255)) s)))
      else Inr s)"

definition update_gl_alpha_test :: "PGRAPHState \<Rightarrow> 'g DrawState \<Rightarrow> 'g DrawState res" where
  "update_gl_alpha_test pg s =
     (let state = (GET_PG_REG pg NV_PGRAPH_CONTROL_0 NV_PGRAPH_CONTROL_0_ALPHATESTENABLE \<noteq> 0);
          s = update_gl_state GL_ALPHA_TEST state D_alpha_test s
      in if state then update_gl_alpha_test_func pg s else Inr s)"

definition update_gl_depth_test_func :: "PGRAPHState \<Rightarrow> 'g DrawState \<Rightarrow> 'g DrawState res" where
  "update_gl_depth_test_func pg s =
     (if dirty s D_depth_test_func then
        res_bind (map_register_to_gl_func (GET_PG_REG pg NV_PGRAPH_CONTROL_0 NV_PGRAPH_CONTROL_0_ZFUNC)) (\<lambda>f.
        Inr (set_clean D_depth_test_func (emit (GlDepthFunc f) s)))
      else Inr s)"

definition update_gl_depth_test :: "PGRAPHState \<Rightarrow> 'g DrawState \<Rightarrow> 'g DrawState res" where
  "update_gl_depth_test pg s =
     (let state = (GET_PG_REG pg NV_PGRAPH_CONTROL_0 NV_PGRAPH_CONTROL_0_ZENABLE \<noteq> 0);
          s = update_gl_state GL_DEPTH_TEST state D_depth_test s
      in if state then update_gl_depth_test_func pg s else Inr s)"

text \<open>A colour component of a register, divided by 255.\<close>

definition component :: "PGRAPHState \<Rightarrow> nat \<Rightarrow> u32 \<Rightarrow> number" where
  "component pg reg msk = Quotient (uint (GET_PG_REG pg reg msk)) 255"

definition update_gl_fog_color :: "PGRAPHState \<Rightarrow> 'g DrawState \<Rightarrow> 'g DrawState" where
  "update_gl_fog_color pg s =
     (if dirty s D_fog_color then
        set_clean D_fog_color (emit (GlFogColor (component pg NV_PGRAPH_FOGCOLOR NV_PGRAPH_FOGCOLOR_RED)
          (component pg NV_PGRAPH_FOGCOLOR NV_PGRAPH_FOGCOLOR_GREEN) (component pg NV_PGRAPH_FOGCOLOR NV_PGRAPH_FOGCOLOR_BLUE)
          (component pg NV_PGRAPH_FOGCOLOR NV_PGRAPH_FOGCOLOR_ALPHA)) s)
      else s)"

definition gl_fog_mode :: "u32 \<Rightarrow> gl_mode res" where
  "gl_fog_mode m =
     (if m = NV_PGRAPH_CONTROL_3_FOG_MODE_LINEAR then Inr GL_LINEAR
      else if m = NV_PGRAPH_CONTROL_3_FOG_MODE_EXP then Inr GL_EXP
      else if m = NV_PGRAPH_CONTROL_3_FOG_MODE_EXP2 then Inr GL_EXP2
      else Inl Assertion_failed)"

definition update_gl_fog_mode :: "PGRAPHState \<Rightarrow> 'g DrawState \<Rightarrow> 'g DrawState res" where
  "update_gl_fog_mode pg s =
     (if dirty s D_fog_mode then
        res_bind (gl_fog_mode (GET_PG_REG pg NV_PGRAPH_CONTROL_3 NV_PGRAPH_CONTROL_3_FOG_MODE)) (\<lambda>m.
        Inr (set_clean D_fog_mode (emit (GlFogMode m) s)))
      else Inr s)"

definition update_gl_fog :: "PGRAPHState \<Rightarrow> 'g DrawState \<Rightarrow> 'g DrawState res" where
  "update_gl_fog pg s =
     (let state = (GET_PG_REG pg NV_PGRAPH_CONTROL_3 NV_PGRAPH_CONTROL_3_FOGENABLE \<noteq> 0);
          s = update_gl_state GL_FOG state D_fog s
      in if state then res_bind (update_gl_fog_mode pg s) (\<lambda>s. Inr (emit GlFogHint (update_gl_fog_color pg s))) else Inr s)"

definition update_gl_color_mask :: "PGRAPHState \<Rightarrow> 'g DrawState \<Rightarrow> 'g DrawState" where
  "update_gl_color_mask pg s =
     (if dirty s D_color_mask then
        set_clean D_color_mask (emit (GlColorMask
          (GET_PG_REG pg NV_PGRAPH_CONTROL_0 NV_PGRAPH_CONTROL_0_RED_WRITE_ENABLE \<noteq> 0)
          (GET_PG_REG pg NV_PGRAPH_CONTROL_0 NV_PGRAPH_CONTROL_0_GREEN_WRITE_ENABLE \<noteq> 0)
          (GET_PG_REG pg NV_PGRAPH_CONTROL_0 NV_PGRAPH_CONTROL_0_BLUE_WRITE_ENABLE \<noteq> 0)
          (GET_PG_REG pg NV_PGRAPH_CONTROL_0 NV_PGRAPH_CONTROL_0_ALPHA_WRITE_ENABLE \<noteq> 0)) s)
      else s)"

definition update_gl_stencil_mask :: "PGRAPHState \<Rightarrow> 'g DrawState \<Rightarrow> 'g DrawState" where
  "update_gl_stencil_mask pg s =
     (if dirty s D_stencil_mask then
        set_clean D_stencil_mask (emit (GlStencilMask
          (if GET_PG_REG pg NV_PGRAPH_CONTROL_0 NV_PGRAPH_CONTROL_0_STENCIL_WRITE_ENABLE \<noteq> 0
           then GET_PG_REG pg NV_PGRAPH_CONTROL_1 NV_PGRAPH_CONTROL_1_STENCIL_MASK_WRITE else 0)) s)
      else s)"

definition update_gl_depth_mask :: "PGRAPHState \<Rightarrow> 'g DrawState \<Rightarrow> 'g DrawState" where
  "update_gl_depth_mask pg s =
     (if dirty s D_depth_mask then
        set_clean D_depth_mask (emit (GlDepthMask (GET_PG_REG pg NV_PGRAPH_CONTROL_0 NV_PGRAPH_CONTROL_0_ZWRITEENABLE \<noteq> 0)) s)
      else s)"

definition update_gl_stencil_test :: "PGRAPHState \<Rightarrow> 'g DrawState \<Rightarrow> 'g DrawState res" where
  "update_gl_stencil_test pg s =
     (let state = (GET_PG_REG pg NV_PGRAPH_CONTROL_1 NV_PGRAPH_CONTROL_1_STENCIL_TEST_ENABLE \<noteq> 0);
          s = update_gl_state GL_STENCIL_TEST state D_stencil_test s
      in if state then res_bind (update_gl_stencil_test_func pg s) (update_gl_stencil_test_op pg) else Inr s)"

definition pgraph_update_state :: "PGRAPHState \<Rightarrow> 'g DrawState \<Rightarrow> 'g DrawState res" where
  "pgraph_update_state pg s =
     (let s = update_gl_color_mask pg (update_gl_stencil_mask pg (update_gl_depth_mask pg s))
      in res_bind (update_gl_alpha_test pg s) (\<lambda>s.
         res_bind (update_gl_depth_test pg s) (\<lambda>s.
         res_bind (update_gl_stencil_test pg s) (\<lambda>s.
         update_gl_fog pg s))))"

section \<open>Settings that are passed on at once\<close>

definition set_gl_state :: "gl_cap \<Rightarrow> bool \<Rightarrow> 'g DrawState \<Rightarrow> 'g DrawState" where
  "set_gl_state cap state s = emit (if state then GlEnable cap else GlDisable cap) s"

definition set_gl_front_face :: "u32 \<Rightarrow> 'g DrawState \<Rightarrow> 'g DrawState res" where
  "set_gl_front_face mode s =
     (if mode = NV097_SET_FRONT_FACE_CW then Inr (emit (GlFrontFace GL_CW) s)
      else if mode = NV097_SET_FRONT_FACE_CCW then Inr (emit (GlFrontFace GL_CCW) s)
      else Inl Assertion_failed)"

definition set_gl_cull_face :: "u32 \<Rightarrow> 'g DrawState \<Rightarrow> 'g DrawState res" where
  "set_gl_cull_face mode s =
     (if mode = NV097_SET_CULL_FACE_FRONT then Inr (emit (GlCullFace GL_FRONT) s)
      else if mode = NV097_SET_CULL_FACE_BACK then Inr (emit (GlCullFace GL_BACK) s)
      else if mode = NV097_SET_CULL_FACE_FRONT_AND_BACK then Inr (emit (GlCullFace GL_FRONT_AND_BACK) s)
      else Inl Assertion_failed)"

text \<open>The factors of the source and of the destination differ only for the constant colour.\<close>

definition gl_blend_factor :: "gl_factor \<Rightarrow> u32 \<Rightarrow> gl_factor res" where
  "gl_blend_factor constant_color f =
     (if f = NV097_SET_BLEND_FUNC_SFACTOR_ZERO then Inr BF_ZERO
      else if f = NV097_SET_BLEND_FUNC_SFACTOR_ONE then Inr BF_ONE
      else if f = NV097_SET_BLEND_FUNC_SFACTOR_SRC_COLOR then Inr BF_SRC_COLOR
      else if f = NV097_SET_BLEND_FUNC_SFACTOR_ONE_MINUS_SRC_COLOR then Inr BF_ONE_MINUS_SRC_COLOR
      else if f = NV097_SET_BLEND_FUNC_SFACTOR_SRC_ALPHA then Inr BF_SRC_ALPHA
      else if f = NV097_SET_BLEND_FUNC_SFACTOR_ONE_MINUS_SRC_ALPHA then Inr BF_ONE_MINUS_SRC_ALPHA
      else if f = NV097_SET_BLEND_FUNC_SFACTOR_DST_ALPHA then Inr BF_DST_ALPHA
      else if f = NV097_SET_BLEND_FUNC_SFACTOR_ONE_MINUS_DST_ALPHA then Inr BF_ONE_MINUS_DST_ALPHA
      else if f = NV097_SET_BLEND_FUNC_SFACTOR_DST_COLOR then Inr BF_DST_COLOR
      else if f = NV097_SET_BLEND_FUNC_SFACTOR_ONE_MINUS_DST_COLOR then Inr BF_ONE_MINUS_DST_COLOR
      else if f = NV097_SET_BLEND_FUNC_SFACTOR_SRC_ALPHA_SATURATE then Inr BF_SRC_ALPHA_SATURATE
      else if f = NV097_SET_BLEND_FUNC_SFACTOR_CONSTANT_COLOR then Inr constant_color
      else if f = NV097_SET_BLEND_FUNC_SFACTOR_ONE_MINUS_CONSTANT_COLOR then Inr BF_ONE_MINUS_CONSTANT_COLOR
      else if f = NV097_SET_BLEND_FUNC_SFACTOR_CONSTANT_ALPHA then Inr BF_CONSTANT_ALPHA
      else if f = NV097_SET_BLEND_FUNC_SFACTOR_ONE_MINUS_CONSTANT_ALPHA then Inr BF_ONE_MINUS_CONSTANT_ALPHA
      else Inl Assertion_failed)"

definition set_gl_blend_func :: "u32 \<Rightarrow> u32 \<Rightarrow> 'g DrawState \<Rightarrow> 'g DrawState res" where
  "set_gl_blend_func sfactor dfactor s =
     res_bind (gl_blend_factor BF_CONSTANT sfactor) (\<lambda>gl_sfactor.
     res_bind (gl_blend_factor BF_CONSTANT_COLOR dfactor) (\<lambda>gl_dfactor.
     Inr (emit (GlBlendFunc gl_sfactor gl_dfactor) s)))"

section \<open>The contract of the dirty flags\<close>

text \<open>The setting that a call makes, and the call that the registers ask for.\<close>

fun cap_flag :: "gl_cap \<Rightarrow> dirty_flag option" where
  "cap_flag GL_ALPHA_TEST = Some D_alpha_test"
| "cap_flag GL_DEPTH_TEST = Some D_depth_test"
| "cap_flag GL_STENCIL_TEST = Some D_stencil_test"
| "cap_flag GL_FOG = Some D_fog"
| "cap_flag _ = None"

fun call_flag :: "gl_call \<Rightarrow> dirty_flag option" where
  "call_flag (GlEnable cap) = cap_flag cap"
| "call_flag (GlDisable cap) = cap_flag cap"
| "call_flag (GlStencilOp a b c) = Some D_stencil_test_op"
| "call_flag (GlStencilFunc f r m) = Some D_stencil_test_func"
| "call_flag (GlStencilMask m) = Some D_stencil_mask"
| "call_flag (GlAlphaFunc f r) = Some D_alpha_test_func"
| "call_flag (GlDepthFunc f) = Some D_depth_test_func"
| "call_flag (GlDepthMask m) = Some D_depth_mask"
| "call_flag (GlColorMask r g b a) = Some D_color_mask"
| "call_flag (GlFogColor r g b a) = Some D_fog_color"
| "call_flag (GlFogMode m) = Some D_fog_mode"
| "call_flag _ = None"

definition wanted_cap :: "gl_cap \<Rightarrow> u32 \<Rightarrow> gl_call" where
  "wanted_cap cap v = (if v \<noteq> 0 then GlEnable cap else GlDisable cap)"

fun wanted :: "PGRAPHState \<Rightarrow> dirty_flag \<Rightarrow> gl_call res" where
  "wanted pg D_alpha_test =
     Inr (wanted_cap GL_ALPHA_TEST (GET_PG_REG pg NV_PGRAPH_CONTROL_0 NV_PGRAPH_CONTROL_0_ALPHATESTENABLE))"
| "wanted pg D_depth_test = Inr (wanted_cap GL_DEPTH_TEST (GET_PG_REG pg NV_PGRAPH_CONTROL_0 NV_PGRAPH_CONTROL_0_ZENABLE))"
| "wanted pg D_stencil_test =
     Inr (wanted_cap GL_STENCIL_TEST (GET_PG_REG pg NV_PGRAPH_CONTROL_1 NV_PGRAPH_CONTROL_1_STENCIL_TEST_ENABLE))"
| "wanted pg D_fog = Inr (wanted_cap GL_FOG (GET_PG_REG pg NV_PGRAPH_CONTROL_3 NV_PGRAPH_CONTROL_3_FOGENABLE))"
| "wanted pg D_stencil_test_op =
     res_bind (map_register_to_gl_stencil_op (GET_PG_REG pg NV_PGRAPH_CONTROL_2 NV_PGRAPH_CONTROL_2_STENCIL_OP_FAIL)) (\<lambda>a.
     res_bind (map_register_to_gl_stencil_op (GET_PG_REG pg NV_PGRAPH_CONTROL_2 NV_PGRAPH_CONTROL_2_STENCIL_OP_ZFAIL)) (\<lambda>b.
     res_bind (map_register_to_gl_stencil_op (GET_PG_REG pg NV_PGRAPH_CONTROL_2 NV_PGRAPH_CONTROL_2_STENCIL_OP_ZPASS)) (\<lambda>c.
     Inr (GlStencilOp a b c))))"
| "wanted pg D_stencil_test_func =
     res_bind (map_register_to_gl_func (GET_PG_REG pg NV_PGRAPH_CONTROL_1 NV_PGRAPH_CONTROL_1_STENCIL_FUNC)) (\<lambda>f.
     Inr (GlStencilFunc f (GET_PG_REG pg NV_PGRAPH_CONTROL_1 NV_PGRAPH_CONTROL_1_STENCIL_REF)
       (GET_PG_REG pg NV_PGRAPH_CONTROL_1 NV_PGRAPH_CONTROL_1_STENCIL_MASK_READ)))"
| "wanted pg D_stencil_mask =
     Inr (GlStencilMask (if GET_PG_REG pg NV_PGRAPH_CONTROL_0 NV_PGRAPH_CONTROL_0_STENCIL_WRITE_ENABLE \<noteq> 0
       then GET_PG_REG pg NV_PGRAPH_CONTROL_1 NV_PGRAPH_CONTROL_1_STENCIL_MASK_WRITE else 0))"
| "wanted pg D_alpha_test_func =
     res_bind (map_register_to_gl_func (GET_PG_REG pg NV_PGRAPH_CONTROL_0 NV_PGRAPH_CONTROL_0_ALPHAFUNC)) (\<lambda>f.
     Inr (GlAlphaFunc f (component pg NV_PGRAPH_CONTROL_0 NV_PGRAPH_CONTROL_0_ALPHAREF)))"
| "wanted pg D_depth_test_func =
     res_bind (map_register_to_gl_func (GET_PG_REG pg NV_PGRAPH_CONTROL_0 NV_PGRAPH_CONTROL_0_ZFUNC)) (\<lambda>f. Inr (GlDepthFunc f))"
| "wanted pg D_depth_mask = Inr (GlDepthMask (GET_PG_REG pg NV_PGRAPH_CONTROL_0 NV_PGRAPH_CONTROL_0_ZWRITEENABLE \<noteq> 0))"
| "wanted pg D_color_mask = Inr (GlColorMask
     (GET_PG_REG pg NV_PGRAPH_CONTROL_0 NV_PGRAPH_CONTROL_0_RED_WRITE_ENABLE \<noteq> 0)
     (GET_PG_REG pg NV_PGRAPH_CONTROL_0 NV_PGRAPH_CONTROL_0_GREEN_WRITE_ENABLE \<noteq> 0)
     (GET_PG_REG pg NV_PGRAPH_CONTROL_0 NV_PGRAPH_CONTROL_0_BLUE_WRITE_ENABLE \<noteq> 0)
     (GET_PG_REG pg NV_PGRAPH_CONTROL_0 NV_PGRAPH_CONTROL_0_ALPHA_WRITE_ENABLE \<noteq> 0))"
| "wanted pg D_fog_color = Inr (GlFogColor (component pg NV_PGRAPH_FOGCOLOR NV_PGRAPH_FOGCOLOR_RED)
     (component pg NV_PGRAPH_FOGCOLOR NV_PGRAPH_FOGCOLOR_GREEN) (component pg NV_PGRAPH_FOGCOLOR NV_PGRAPH_FOGCOLOR_BLUE)
     (component pg NV_PGRAPH_FOGCOLOR NV_PGRAPH_FOGCOLOR_ALPHA))"
| "wanted pg D_fog_mode =
     res_bind (gl_fog_mode (GET_PG_REG pg NV_PGRAPH_CONTROL_3 NV_PGRAPH_CONTROL_3_FOG_MODE)) (\<lambda>m. Inr (GlFogMode m))"
| "wanted pg _ = Inl Assertion_failed"

definition latest :: "dirty_flag \<Rightarrow> gl_call list \<Rightarrow> gl_call option" where
  "latest f calls = find (\<lambda>c. call_flag c = Some f) calls"

text \<open>A setting that is not dirty was last made as the registers ask for, if it was made at all.\<close>

definition coherent :: "PGRAPHState \<Rightarrow> 'g DrawState \<Rightarrow> bool" where
  "coherent pg s \<longleftrightarrow> (\<forall>f c. \<not> dirty s f \<longrightarrow> latest f (gl_calls s) = Some c \<longrightarrow> wanted pg f = Inr c)"

lemma latest_Cons [simp]: "latest f (c # cs) = (if call_flag c = Some f then Some c else latest f cs)"
  by (simp add: latest_def)

lemma call_flag_wanted [simp]: "call_flag (wanted_cap cap v) = cap_flag cap"
  by (simp add: wanted_cap_def)

lemma emit_simps [simp]:
  "dirty (emit c s) = dirty s" "gl_calls (emit c s) = c # gl_calls s"
  "dirty (set_clean f s) = (dirty s)(f := False)" "gl_calls (set_clean f s) = gl_calls s"
  "dirty (set_dirty f s) = (dirty s)(f := True)" "gl_calls (set_dirty f s) = gl_calls s"
  by (simp_all add: emit_def set_clean_def set_dirty_def)

lemma coherent_emit: "call_flag c = None \<Longrightarrow> coherent pg s \<Longrightarrow> coherent pg (emit c s)"
  by (simp add: coherent_def)

lemma coherent_make: "wanted pg f = Inr c \<Longrightarrow> call_flag c = Some f \<Longrightarrow> coherent pg s \<Longrightarrow> coherent pg (set_clean f (emit c s))"
  by (auto simp: coherent_def)

text \<open>A step towards the registers: the contract is kept and no setting becomes dirty.\<close>

definition settles :: "PGRAPHState \<Rightarrow> dirty_flag set \<Rightarrow> 'g DrawState \<Rightarrow> 'g DrawState \<Rightarrow> bool" where
  "settles pg F s s' \<longleftrightarrow> coherent pg s' \<and> (\<forall>f. dirty s' f \<longrightarrow> dirty s f \<and> f \<notin> F)"

lemma settles_trans: "settles pg F s s' \<Longrightarrow> settles pg F' s' s'' \<Longrightarrow> settles pg (F \<union> F') s s''"
  by (auto simp: settles_def)

lemma settles_refl: "coherent pg s \<Longrightarrow> settles pg {} s s"
  by (simp add: settles_def)

lemma settles_make:
  assumes "coherent pg s" "wanted pg f = Inr c" "call_flag c = Some f"
  shows "settles pg {f} s (if dirty s f then set_clean f (emit c s) else s)"
  using assms coherent_make [OF assms(2,3,1)] by (auto simp: settles_def)

lemma update_gl_state_settles:
  assumes "coherent pg s" "wanted pg f = Inr (wanted_cap cap v)" "cap_flag cap = Some f"
  shows "settles pg {f} s (update_gl_state cap (v \<noteq> 0) f s)"
proof -
  have "update_gl_state cap (v \<noteq> 0) f s = (if dirty s f then set_clean f (emit (wanted_cap cap v) s) else s)"
    by (simp add: update_gl_state_def wanted_cap_def)
  then show ?thesis using settles_make [OF assms(1,2)] assms(3) by simp
qed

lemma masks_settle:
  assumes "coherent pg s"
  shows "settles pg {D_depth_mask} s (update_gl_depth_mask pg s)" "settles pg {D_stencil_mask} s (update_gl_stencil_mask pg s)"
    "settles pg {D_color_mask} s (update_gl_color_mask pg s)" "settles pg {D_fog_color} s (update_gl_fog_color pg s)"
  unfolding update_gl_depth_mask_def update_gl_stencil_mask_def update_gl_color_mask_def update_gl_fog_color_def
  by (rule settles_make [OF assms]; simp)+

lemma funcs_settle:
  assumes "coherent pg s"
  shows "res_all (settles pg {D_alpha_test_func} s) (update_gl_alpha_test_func pg s)"
    "res_all (settles pg {D_depth_test_func} s) (update_gl_depth_test_func pg s)"
    "res_all (settles pg {D_stencil_test_func} s) (update_gl_stencil_test_func pg s)"
    "res_all (settles pg {D_stencil_test_op} s) (update_gl_stencil_test_op pg s)"
    "res_all (settles pg {D_fog_mode} s) (update_gl_fog_mode pg s)"
proof -
  have make: "settles pg {f} s (set_clean f (emit c s))" if "wanted pg f = Inr c" "call_flag c = Some f" "dirty s f" for f c
    using settles_make [OF assms that(1,2)] that(3) by simp
  have same: "settles pg {f} s s" if "\<not> dirty s f" for f using assms that by (auto simp: settles_def)
  show "res_all (settles pg {D_alpha_test_func} s) (update_gl_alpha_test_func pg s)"
    "res_all (settles pg {D_depth_test_func} s) (update_gl_depth_test_func pg s)"
    "res_all (settles pg {D_stencil_test_func} s) (update_gl_stencil_test_func pg s)"
    "res_all (settles pg {D_stencil_test_op} s) (update_gl_stencil_test_op pg s)"
    "res_all (settles pg {D_fog_mode} s) (update_gl_fog_mode pg s)"
    unfolding update_gl_alpha_test_func_def update_gl_depth_test_func_def update_gl_stencil_test_func_def
      update_gl_stencil_test_op_def update_gl_fog_mode_def
    by (intro res_all_rules make same; simp add: component_def)+
qed

lemma res_all_settles:
  assumes "settles pg F s s1" "coherent pg s1 \<Longrightarrow> res_all (settles pg F' s1) r"
  shows "res_all (settles pg (F \<union> F') s) r"
  using assms settles_trans [OF assms(1)] by (auto simp: res_all_def settles_def split: sum.splits)

lemma res_all_settles_bind:
  assumes "res_all (settles pg F s) r" "\<And>s'. coherent pg s' \<Longrightarrow> res_all (settles pg F' s') (k s')"
  shows "res_all (settles pg (F \<union> F') s) (res_bind r k)"
proof (rule res_all_bind)
  fix s1
  assume "r = Inr s1"
  with assms(1) have s1: "settles pg F s s1" by (auto dest: res_allD)
  then show "res_all (settles pg (F \<union> F') s) (k s1)"
    by (rule res_all_settles) (rule assms(2))
qed

text \<open>The settings that matter: those of a test matter if the test is enabled.\<close>

definition enabled_settings :: "PGRAPHState \<Rightarrow> dirty_flag set" where
  "enabled_settings pg = {D_depth_mask, D_stencil_mask, D_color_mask, D_alpha_test, D_depth_test, D_stencil_test, D_fog}
     \<union> (if GET_PG_REG pg NV_PGRAPH_CONTROL_0 NV_PGRAPH_CONTROL_0_ALPHATESTENABLE \<noteq> 0 then {D_alpha_test_func} else {})
     \<union> (if GET_PG_REG pg NV_PGRAPH_CONTROL_0 NV_PGRAPH_CONTROL_0_ZENABLE \<noteq> 0 then {D_depth_test_func} else {})
     \<union> (if GET_PG_REG pg NV_PGRAPH_CONTROL_1 NV_PGRAPH_CONTROL_1_STENCIL_TEST_ENABLE \<noteq> 0
        then {D_stencil_test_func, D_stencil_test_op} else {})
     \<union> (if GET_PG_REG pg NV_PGRAPH_CONTROL_3 NV_PGRAPH_CONTROL_3_FOGENABLE \<noteq> 0 then {D_fog_mode, D_fog_color} else {})"

lemma settles_mono: "res_all (settles pg F s) r \<Longrightarrow> F' \<subseteq> F \<Longrightarrow> res_all (settles pg F' s) r"
  by (auto simp: res_all_def settles_def split: sum.splits)

lemma settles_hint: "settles pg F s s' \<Longrightarrow> settles pg F s (emit GlFogHint s')"
  using coherent_emit [of GlFogHint] by (auto simp: settles_def)

lemma test_settles:
  assumes "coherent pg s" "wanted pg f = Inr (wanted_cap cap v)" "cap_flag cap = Some f"
    and "\<And>s'. coherent pg s' \<Longrightarrow> res_all (settles pg F s') (k s')"
  shows "res_all (settles pg ({f} \<union> (if v \<noteq> 0 then F else {})) s)
    (if v \<noteq> 0 then k (update_gl_state cap (v \<noteq> 0) f s) else Inr (update_gl_state cap (v \<noteq> 0) f s))"
proof (rule res_all_settles [OF update_gl_state_settles [OF assms(1-3)]])
  assume "coherent pg (update_gl_state cap (v \<noteq> 0) f s)"
  then show "res_all (settles pg (if v \<noteq> 0 then F else {}) (update_gl_state cap (v \<noteq> 0) f s))
    (if v \<noteq> 0 then k (update_gl_state cap (v \<noteq> 0) f s) else Inr (update_gl_state cap (v \<noteq> 0) f s))"
    using assms(4) by (cases "v = 0") (simp_all add: res_all_Inr settles_refl)
qed

lemma tests_settle:
  assumes "coherent pg s"
  shows "res_all (settles pg ({D_alpha_test} \<union> (if GET_PG_REG pg NV_PGRAPH_CONTROL_0 NV_PGRAPH_CONTROL_0_ALPHATESTENABLE \<noteq> 0
      then {D_alpha_test_func} else {})) s) (update_gl_alpha_test pg s)"
    and "res_all (settles pg ({D_depth_test} \<union> (if GET_PG_REG pg NV_PGRAPH_CONTROL_0 NV_PGRAPH_CONTROL_0_ZENABLE \<noteq> 0
      then {D_depth_test_func} else {})) s) (update_gl_depth_test pg s)"
    and "res_all (settles pg ({D_stencil_test} \<union> (if GET_PG_REG pg NV_PGRAPH_CONTROL_1 NV_PGRAPH_CONTROL_1_STENCIL_TEST_ENABLE \<noteq> 0
      then {D_stencil_test_func, D_stencil_test_op} else {})) s) (update_gl_stencil_test pg s)"
    and "res_all (settles pg ({D_fog} \<union> (if GET_PG_REG pg NV_PGRAPH_CONTROL_3 NV_PGRAPH_CONTROL_3_FOGENABLE \<noteq> 0
      then {D_fog_mode, D_fog_color} else {})) s) (update_gl_fog pg s)"
proof -
  have stencil: "res_all (settles pg {D_stencil_test_func, D_stencil_test_op} s')
      (res_bind (update_gl_stencil_test_func pg s') (update_gl_stencil_test_op pg))" if "coherent pg s'" for s' :: "'a DrawState"
    using res_all_settles_bind [OF funcs_settle(3) [OF that] funcs_settle(4)] by (simp add: insert_commute)
  have color: "res_all (settles pg {D_fog_color} s1) (Inr (emit GlFogHint (update_gl_fog_color pg s1)))"
    if "coherent pg s1" for s1 :: "'a DrawState"
    by (intro res_all_Inr settles_hint masks_settle that)
  have fog: "res_all (settles pg {D_fog_mode, D_fog_color} s')
      (res_bind (update_gl_fog_mode pg s') (\<lambda>s. Inr (emit GlFogHint (update_gl_fog_color pg s))))" if "coherent pg s'" for s' :: "'a DrawState"
    using res_all_settles_bind [OF funcs_settle(5) [OF that] color] by (simp add: insert_commute)
  show "res_all (settles pg ({D_alpha_test} \<union> (if GET_PG_REG pg NV_PGRAPH_CONTROL_0 NV_PGRAPH_CONTROL_0_ALPHATESTENABLE \<noteq> 0
      then {D_alpha_test_func} else {})) s) (update_gl_alpha_test pg s)"
    unfolding update_gl_alpha_test_def Let_def
    by (rule test_settles [OF assms]) (simp_all add: funcs_settle)
  show "res_all (settles pg ({D_depth_test} \<union> (if GET_PG_REG pg NV_PGRAPH_CONTROL_0 NV_PGRAPH_CONTROL_0_ZENABLE \<noteq> 0
      then {D_depth_test_func} else {})) s) (update_gl_depth_test pg s)"
    unfolding update_gl_depth_test_def Let_def
    by (rule test_settles [OF assms]) (simp_all add: funcs_settle)
  show "res_all (settles pg ({D_stencil_test} \<union> (if GET_PG_REG pg NV_PGRAPH_CONTROL_1 NV_PGRAPH_CONTROL_1_STENCIL_TEST_ENABLE \<noteq> 0
      then {D_stencil_test_func, D_stencil_test_op} else {})) s) (update_gl_stencil_test pg s)"
    unfolding update_gl_stencil_test_def Let_def
    by (rule test_settles [OF assms]) (simp_all add: stencil)
  show "res_all (settles pg ({D_fog} \<union> (if GET_PG_REG pg NV_PGRAPH_CONTROL_3 NV_PGRAPH_CONTROL_3_FOGENABLE \<noteq> 0
      then {D_fog_mode, D_fog_color} else {})) s) (update_gl_fog pg s)"
    unfolding update_gl_fog_def Let_def
    by (rule test_settles [OF assms]) (simp_all add: fog)
qed

lemma update_state_settles:
  assumes "coherent pg s"
  shows "res_all (settles pg (enabled_settings pg) s) (pgraph_update_state pg s)"
proof -
  let ?s1 = "update_gl_depth_mask pg s"
  let ?s2 = "update_gl_stencil_mask pg ?s1"
  have 1: "settles pg {D_depth_mask} s ?s1" by (rule masks_settle [OF assms])
  have 2: "settles pg {D_stencil_mask} ?s1 ?s2" using 1 by (intro masks_settle) (simp add: settles_def)
  have 3: "settles pg {D_color_mask} ?s2 (update_gl_color_mask pg ?s2)" using 2 by (intro masks_settle) (simp add: settles_def)
  have "res_all (settles pg (({D_depth_mask} \<union> {D_stencil_mask} \<union> {D_color_mask}) \<union>
      (({D_alpha_test} \<union> (if GET_PG_REG pg NV_PGRAPH_CONTROL_0 NV_PGRAPH_CONTROL_0_ALPHATESTENABLE \<noteq> 0 then {D_alpha_test_func} else {})) \<union>
      (({D_depth_test} \<union> (if GET_PG_REG pg NV_PGRAPH_CONTROL_0 NV_PGRAPH_CONTROL_0_ZENABLE \<noteq> 0 then {D_depth_test_func} else {})) \<union>
      (({D_stencil_test} \<union> (if GET_PG_REG pg NV_PGRAPH_CONTROL_1 NV_PGRAPH_CONTROL_1_STENCIL_TEST_ENABLE \<noteq> 0
         then {D_stencil_test_func, D_stencil_test_op} else {})) \<union>
       ({D_fog} \<union> (if GET_PG_REG pg NV_PGRAPH_CONTROL_3 NV_PGRAPH_CONTROL_3_FOGENABLE \<noteq> 0 then {D_fog_mode, D_fog_color} else {})))))) s)
      (pgraph_update_state pg s)"
    unfolding pgraph_update_state_def Let_def
    by (rule res_all_settles [OF settles_trans [OF settles_trans [OF 1 2] 3]])
      (intro res_all_settles_bind tests_settle)
  then show ?thesis by (rule settles_mono) (auto simp: enabled_settings_def)
qed

end
