(* ===== verification/NV2A_Pusher.thy ===== *)
theory NV2A_Pusher
  imports NV2A_State
begin

text \<open>
  The DMA pusher of the NV2A (\<open>pfifo_run_pusher\<close> of \<open>src/hw/xbox/nv2a_gpu.c\<close>): it reads a push buffer in
  video memory from the channel's get pointer to its put pointer and turns its words into commands of
  the FIFO. The format of the buffer is given by an encoder of packets. Shown here: the pusher turns encoded
  packets into exactly their commands and stops at the put pointer; it follows jumps, calls and returns; the
  loop ends unless the buffer jumps, and a jump to itself makes it run forever; every error of the
  buffer ends the emulator.
\<close>

section \<open>The pusher\<close>

definition NV_PFIFO_CACHE1_DMA_STATE_ERROR_NONE :: u32 where "NV_PFIFO_CACHE1_DMA_STATE_ERROR_NONE = 0"
definition NV_PFIFO_CACHE1_DMA_STATE_ERROR_CALL :: u32 where "NV_PFIFO_CACHE1_DMA_STATE_ERROR_CALL = 1"
definition NV_PFIFO_CACHE1_DMA_STATE_ERROR_RETURN :: u32 where "NV_PFIFO_CACHE1_DMA_STATE_ERROR_RETURN = 3"
definition NV_PFIFO_CACHE1_DMA_STATE_ERROR_RESERVED_CMD :: u32 where "NV_PFIFO_CACHE1_DMA_STATE_ERROR_RESERVED_CMD = 4"
definition NV_PFIFO_CACHE1_DMA_STATE_ERROR_PROTECTION :: u32 where "NV_PFIFO_CACHE1_DMA_STATE_ERROR_PROTECTION = 6"

text \<open>A data word of the active method.\<close>

definition pusher_data :: "u32 \<Rightarrow> Cache1State \<Rightarrow> Cache1State" where
  "pusher_data word state =
     (let command = \<lparr>e_method = c_method state, e_subchannel = c_subchannel state,
                     e_nonincreasing = method_nonincreasing state, e_parameter = word\<rparr>
      in state\<lparr>c_method := (if method_nonincreasing state then c_method state else c_method state + 4),
               method_count := method_count state - 1,
               dcount := dcount state + 1,
               data_shadow := word,
               cache_size := cache_size state + 1,
               cache := cache state @ [command]\<rparr>)"

text \<open>The first word of a command. The flag says whether the loop goes on.\<close>

definition pusher_methods :: "bool \<Rightarrow> u32 \<Rightarrow> Cache1State \<Rightarrow> Cache1State" where
  "pusher_methods nonincreasing word state =
     state\<lparr>method_nonincreasing := nonincreasing,
           c_method := ucast (word AND 0x1fff),
           c_subchannel := ucast (drop_bit 13 word AND 7),
           method_count := ucast (drop_bit 18 word AND 0x7ff),
           dcount := 0\<rparr>"

definition pusher_command ::
    "u32 \<Rightarrow> Cache1State \<Rightarrow> ChannelControl \<Rightarrow> bool \<times> Cache1State \<times> ChannelControl" where
  "pusher_command word state0 control =
     (let state = state0\<lparr>rsvd_shadow := word\<rparr>
      in if word AND 0xe0000003 = 0x20000000
         then (True, state\<lparr>get_jmp_shadow := dma_get control\<rparr>, control\<lparr>dma_get := ucast (word AND 0x1fffffff)\<rparr>)
         else if word AND 3 = 1
         then (True, state\<lparr>get_jmp_shadow := dma_get control\<rparr>, control\<lparr>dma_get := ucast (word AND 0xfffffffc)\<rparr>)
         else if word AND 3 = 2
         then if subroutine_active state
              then (False, state\<lparr>c_error := NV_PFIFO_CACHE1_DMA_STATE_ERROR_CALL\<rparr>, control)
              else (True, state\<lparr>subroutine_active := True, subroutine_return := dma_get control\<rparr>,
                    control\<lparr>dma_get := ucast (word AND 0xfffffffc)\<rparr>)
         else if word = 0x00020000
         then if \<not> subroutine_active state
              then (False, state\<lparr>c_error := NV_PFIFO_CACHE1_DMA_STATE_ERROR_RETURN\<rparr>, control)
              else (True, state\<lparr>subroutine_active := False\<rparr>, control\<lparr>dma_get := subroutine_return state\<rparr>)
         else if word AND 0xe0030003 = 0 then (True, pusher_methods False word state, control)
         else if word AND 0xe0030003 = 0x40000000 then (True, pusher_methods True word state, control)
         else (False, state\<lparr>c_error := NV_PFIFO_CACHE1_DMA_STATE_ERROR_RESERVED_CMD\<rparr>, control))"

text \<open>One turn of the loop; \<open>dma\<close> is the offset of the push buffer in video memory.\<close>

definition pusher_step ::
    "NV2A_GPUState \<Rightarrow> hwaddr \<Rightarrow> hwaddr \<Rightarrow> Cache1State \<times> ChannelControl \<Rightarrow> (bool \<times> Cache1State \<times> ChannelControl) res" where
  "pusher_step d dma dma_len = (\<lambda>(state, control).
     if dma_get control \<ge> dma_len
     then Inr (False, state\<lparr>c_error := NV_PFIFO_CACHE1_DMA_STATE_ERROR_PROTECTION\<rparr>, control)
     else res_bind (vram_ldl d (unat dma + unat (dma_get control))) (\<lambda>word.
       let control = control\<lparr>dma_get := dma_get control + 4\<rparr>
       in if method_count state \<noteq> 0 then Inr (True, pusher_data word state, control)
          else Inr (pusher_command word state control)))"

text \<open>The loop. \<open>None\<close> stands for a loop that does not end.\<close>

partial_function (option) pusher_loop ::
    "NV2A_GPUState \<Rightarrow> hwaddr \<Rightarrow> hwaddr \<Rightarrow> Cache1State \<times> ChannelControl \<Rightarrow> (Cache1State \<times> ChannelControl) res option" where
  [code]: "pusher_loop d dma dma_len sc =
     (if dma_get (snd sc) = dma_put (snd sc) then Some (Inr sc)
      else let r = pusher_step d dma dma_len sc
           in if isl r then Some (Inl (projl r))
              else if fst (projr r) then pusher_loop d dma dma_len (snd (projr r))
              else Some (Inr (snd (projr r))))"

text \<open>
  The whole pusher. An error runs into \<open>assert(false)\<close>, so that the code behind it, which suspends the
  pusher and raises the interrupt, is never reached.
\<close>

definition pfifo_run_pusher :: "NV2A_GPUState \<Rightarrow> NV2A_GPUState res option" where
  "pfifo_run_pusher d =
     (let state = cache1 d;
          channel_id = unat (ucast (c_channel_id state) :: u8)
      in if \<not> push_enabled state then Some (Inr d)
         else if \<not> bit (channel_modes d) channel_id then Some (Inl Assertion_failed)
         else if c_mode state \<noteq> FIFO_DMA then Some (Inl Assertion_failed)
         else if \<not> dma_push_enabled state then Some (Inr d)
         else if dma_push_suspended state then Some (Inr d)
         else if c_error state \<noteq> NV_PFIFO_CACHE1_DMA_STATE_ERROR_NONE then Some (Inl Assertion_failed)
         else case nv_dma_load_and_map d (dma_instance state) of
           Inl e \<Rightarrow> Some (Inl e)
         | Inr (dma, dma_len) \<Rightarrow>
             (case arr_get (channel_control d) channel_id of
                Inl e \<Rightarrow> Some (Inl e)
              | Inr control \<Rightarrow> map_option (\<lambda>r. res_bind r (\<lambda>(state, control).
                  if c_error state \<noteq> 0 then Inl Assertion_failed
                  else Inr (d\<lparr>cache1 := state, channel_control := (channel_control d)[channel_id := control]\<rparr>)))
                  (pusher_loop d dma dma_len (state, control))))"

section \<open>The format of the push buffer\<close>

text \<open>A packet: methods of one subchannel with their parameters.\<close>

record packet =
  p_nonincreasing :: bool
  p_method :: "13 word"
  p_subchannel :: "3 word"
  p_params :: "u32 list"

definition packet_ok :: "packet \<Rightarrow> bool" where
  "packet_ok p \<longleftrightarrow> length (p_params p) < 0x800 \<and> take_bit 2 (p_method p) = 0"

definition packet_header :: "packet \<Rightarrow> u32" where
  "packet_header p = (if p_nonincreasing p then 0x40000000 else 0)
     OR push_bit 18 (of_nat (length (p_params p))) OR push_bit 13 (ucast (p_subchannel p)) OR ucast (p_method p)"

definition packet_words :: "packet \<Rightarrow> u32 list" where
  "packet_words p = packet_header p # p_params p"

text \<open>The commands that a packet stands for.\<close>

fun method_commands :: "bool \<Rightarrow> 14 word \<Rightarrow> 3 word \<Rightarrow> u32 list \<Rightarrow> CacheEntry list" where
  "method_commands non mthd sub [] = []"
| "method_commands non mthd sub (w # ws) =
     \<lparr>e_method = mthd, e_subchannel = sub, e_nonincreasing = non, e_parameter = w\<rparr>
       # method_commands non (if non then mthd else mthd + 4) sub ws"

definition packet_commands :: "packet \<Rightarrow> CacheEntry list" where
  "packet_commands p = method_commands (p_nonincreasing p) (ucast (p_method p)) (p_subchannel p) (p_params p)"

section \<open>Decoding a header\<close>

lemma bit_length_field:
  assumes "packet_ok p" "11 \<le> n"
  shows "\<not> bit (length (p_params p)) n"
proof -
  have "(2 :: nat) ^ 11 \<le> 2 ^ n" using assms(2) by (intro power_increasing) simp_all
  then have "length (p_params p) < 2 ^ n" using assms(1) by (simp add: packet_ok_def)
  then show ?thesis by (simp add: bit_iff_odd)
qed

lemma bit_thirty: "bit (0x40000000 :: u32) n \<longleftrightarrow> n = 30"
proof -
  have "(0x40000000 :: u32) = push_bit 30 1" by simp
  then show ?thesis by (simp only: bit_push_bit_iff bit_1_iff) auto
qed

lemma bit_header:
  assumes "packet_ok p"
  shows "bit (packet_header p) n \<longleftrightarrow>
    (if n < 13 then bit (p_method p) n else if n < 16 then bit (p_subchannel p) (n - 13) else if n < 18 then False
     else if n < 29 then bit (length (p_params p)) (n - 18) else n = 30 \<and> p_nonincreasing p)"
proof -
  define c where "c = (0x40000000 :: u32)"
  have c: "bit c n \<longleftrightarrow> n = 30" unfolding c_def using bit_thirty by simp
  show ?thesis
    using bit_length_field [OF assms, of "n - 18"] bit_imp_le_length [of "p_method p" n]
      bit_imp_le_length [of "p_subchannel p" "n - 13"]
    unfolding packet_header_def c_def [symmetric] by (auto simp: bit_simps not_less c)
qed

lemma low_method_bits: "packet_ok p \<Longrightarrow> n < 2 \<Longrightarrow> \<not> bit (p_method p) n"
  unfolding packet_ok_def by (metis bit_take_bit_iff bit_0_eq bot_apply bot_bool_def)

lemma command_masks:
  "(0xe0000003 :: u32) = push_bit 29 (mask 3) OR mask 2" "(0xe0030003 :: u32) = push_bit 29 (mask 3) OR push_bit 16 (mask 2) OR mask 2"
  "(3 :: u32) = mask 2" "(0x1fff :: u32) = mask 13" "(7 :: u32) = mask 3" "(0x7ff :: u32) = mask 11"
  by (simp_all add: mask_eq_exp_minus_1)

lemma header_masks:
  assumes "packet_ok p"
  shows "packet_header p AND 0xe0030003 = (if p_nonincreasing p then 0x40000000 else 0)"
    "packet_header p AND 0xe0000003 = (if p_nonincreasing p then 0x40000000 else 0)" "packet_header p AND 3 = 0"
proof -
  define c where "c = (0x40000000 :: u32)"
  have c: "bit c n \<longleftrightarrow> n = 30" for n unfolding c_def using bit_thirty by simp
  have "bit (packet_header p AND 0xe0030003) n = bit (if p_nonincreasing p then c else 0 :: u32) n"
    "bit (packet_header p AND 0xe0000003) n = bit (if p_nonincreasing p then c else 0 :: u32) n"
    "\<not> bit (packet_header p AND 3) n" if "n < 32" for n
    unfolding command_masks bit_and_iff bit_or_iff bit_header [OF assms]
    using low_method_bits [OF assms, of n] that by (auto simp: bit_simps c)
  then show "packet_header p AND 0xe0030003 = (if p_nonincreasing p then 0x40000000 else 0)"
    "packet_header p AND 0xe0000003 = (if p_nonincreasing p then 0x40000000 else 0)" "packet_header p AND 3 = 0"
    unfolding c_def [symmetric] by (auto intro!: bit_word_eqI)
qed

lemma header_fields:
  assumes "packet_ok p"
  shows "(ucast (packet_header p AND 0x1fff) :: 14 word) = ucast (p_method p)"
    "(ucast (drop_bit 13 (packet_header p) AND 7) :: 3 word) = p_subchannel p"
    "(ucast (drop_bit 18 (packet_header p) AND 0x7ff) :: 24 word) = of_nat (length (p_params p))"
    "packet_header p \<noteq> 0x00020000"
proof -
  show "(ucast (packet_header p AND 0x1fff) :: 14 word) = ucast (p_method p)"
    unfolding command_masks by (rule bit_word_eqI) (auto simp: bit_simps bit_header [OF assms] dest: bit_imp_le_length)
  show "(ucast (drop_bit 13 (packet_header p) AND 7) :: 3 word) = p_subchannel p"
    unfolding command_masks by (rule bit_word_eqI) (auto simp: bit_simps bit_header [OF assms])
  show "(ucast (drop_bit 18 (packet_header p) AND 0x7ff) :: 24 word) = of_nat (length (p_params p))"
    unfolding command_masks using bit_length_field [OF assms]
    by (intro bit_word_eqI) (auto simp: bit_simps bit_header [OF assms] not_less)
  show "packet_header p \<noteq> 0x00020000"
  proof
    assume "packet_header p = 0x00020000"
    then have "bit (packet_header p) 17" by simp
    then show False by (simp add: bit_header [OF assms])
  qed
qed

section \<open>Running over words\<close>

definition words_at :: "NV2A_GPUState \<Rightarrow> hwaddr \<Rightarrow> nat \<Rightarrow> u32 list \<Rightarrow> bool" where
  "words_at d dma g ws \<longleftrightarrow> (\<forall>i<length ws. vram_ldl d (unat dma + (g + 4 * i)) = Inr (ws ! i))"

lemma words_at_Cons:
  "words_at d dma g (w # ws) \<longleftrightarrow> vram_ldl d (unat dma + g) = Inr w \<and> words_at d dma (g + 4) ws"
  by (auto simp: words_at_def less_Suc_eq_0_disj algebra_simps)

lemma words_at_append:
  "words_at d dma g (vs @ ws) \<longleftrightarrow> words_at d dma g vs \<and> words_at d dma (g + 4 * length vs) ws"
proof (induction vs arbitrary: g)
  case Nil
  show ?case by (simp add: words_at_def [of _ _ _ "[]"])
next
  case (Cons v vs)
  then show ?case by (simp add: words_at_Cons add.assoc add.left_commute)
qed

text \<open>The get pointer after \<open>n\<close> words, as long as it stays below the put pointer.\<close>

lemma get_advance:
  assumes "unat g + 4 \<le> unat (put :: hwaddr)"
  shows "unat (g + 4) = unat g + 4" "g \<noteq> put"
proof -
  have "unat g + 4 < 2 ^ 64" using assms unsigned_less [of put, where ?'a = nat] by simp
  then show "unat (g + 4) = unat g + 4" by (simp add: unat_word_ariths)
  show "g \<noteq> put" using assms by auto
qed

lemma loop_word:
  assumes "vram_ldl d (unat dma + unat (dma_get c)) = Inr w" "unat (dma_get c) + 4 \<le> unat (dma_put c)"
    "unat (dma_put c) \<le> unat dma_len"
    "(if method_count s \<noteq> 0 then (True, pusher_data w s, c\<lparr>dma_get := dma_get c + 4\<rparr>)
      else pusher_command w s (c\<lparr>dma_get := dma_get c + 4\<rparr>)) = (True, s', c')"
  shows "pusher_loop d dma dma_len (s, c) = pusher_loop d dma dma_len (s', c')"
proof -
  have "\<not> dma_len \<le> dma_get c" using assms(2,3) by (simp add: word_le_nat_alt)
  then have "pusher_step d dma dma_len (s, c) = Inr (True, s', c')"
    using assms(1,4) by (simp add: pusher_step_def split: if_splits)
  then show ?thesis
    using get_advance(2) [OF assms(2)] by (subst pusher_loop.simps) simp
qed

lemma data_loop:
  assumes "words_at d dma (unat (dma_get c)) ws" "unat (method_count s) = length ws"
    "unat (dma_get c) + 4 * length ws \<le> unat (dma_put c)" "unat (dma_put c) \<le> unat dma_len"
  shows "pusher_loop d dma dma_len (s, c) =
    pusher_loop d dma dma_len (fold pusher_data ws s, c\<lparr>dma_get := dma_get c + 4 * of_nat (length ws)\<rparr>)"
  using assms
proof (induction ws arbitrary: s c)
  case (Cons w ws)
  have room: "unat (dma_get c) + 4 \<le> unat (dma_put c)" using Cons.prems(3) by simp
  define c' where "c' = c\<lparr>dma_get := dma_get c + 4\<rparr>"
  have "method_count s \<noteq> 0" using Cons.prems(2) by auto
  then have count: "unat (method_count (pusher_data w s)) = length ws" "method_count s \<noteq> 0"
    using Cons.prems(2) by (simp_all add: pusher_data_def Let_def unat_minus_one)
  have "pusher_loop d dma dma_len (s, c) = pusher_loop d dma dma_len (pusher_data w s, c')"
    using Cons.prems room count(2) by (intro loop_word [of _ _ _ w]) (simp_all add: words_at_Cons c'_def)
  also have "\<dots> = pusher_loop d dma dma_len (fold pusher_data ws (pusher_data w s), c'\<lparr>dma_get := dma_get c' + 4 * of_nat (length ws)\<rparr>)"
    using Cons.prems count(1) get_advance(1) [OF room] by (intro Cons.IH) (simp_all add: words_at_Cons c'_def)
  finally show ?case by (simp add: c'_def algebra_simps)
qed simp

lemma length_method_commands [simp]: "length (method_commands non mthd sub ws) = length ws"
  by (induction ws arbitrary: mthd) simp_all

lemma fold_pusher_data:
  assumes "unat (method_count s) = length ws"
  shows "cache (fold pusher_data ws s) = cache s @ method_commands (method_nonincreasing s) (c_method s) (c_subchannel s) ws
    \<and> cache_size (fold pusher_data ws s) = cache_size s + int (length ws)
    \<and> method_count (fold pusher_data ws s) = 0 \<and> c_error (fold pusher_data ws s) = c_error s"
  using assms
proof (induction ws arbitrary: s)
  case (Cons w ws)
  have "method_count s \<noteq> 0" using Cons.prems by auto
  then have count: "unat (method_count (pusher_data w s)) = length ws"
    using Cons.prems by (simp add: pusher_data_def Let_def unat_minus_one)
  show ?case using Cons.IH [OF count] by (simp add: pusher_data_def Let_def)
qed (simp add: unat_eq_0)

section \<open>Running over packets\<close>

lemma packet_loop:
  assumes "packet_ok p" "words_at d dma (unat (dma_get c)) (packet_words p)" "method_count s = 0"
    "unat (dma_get c) + 4 * length (packet_words p) \<le> unat (dma_put c)" "unat (dma_put c) \<le> unat dma_len"
  obtains s' where "pusher_loop d dma dma_len (s, c) =
      pusher_loop d dma dma_len (s', c\<lparr>dma_get := dma_get c + 4 * of_nat (length (packet_words p))\<rparr>)"
    "cache s' = cache s @ packet_commands p" "cache_size s' = cache_size s + int (length (p_params p))"
    "method_count s' = 0" "c_error s' = c_error s"
proof -
  define s1 where "s1 = pusher_methods (p_nonincreasing p) (packet_header p) (s\<lparr>rsvd_shadow := packet_header p\<rparr>)"
  define c1 where "c1 = c\<lparr>dma_get := dma_get c + 4\<rparr>"
  have room: "unat (dma_get c) + 4 \<le> unat (dma_put c)" using assms(4) by (simp add: packet_words_def)
  have "pusher_command (packet_header p) s c1 = (True, s1, c1)"
    using header_masks [OF assms(1)] header_fields(4) [OF assms(1)]
    by (simp add: pusher_command_def s1_def Let_def)
  then have 1: "pusher_loop d dma dma_len (s, c) = pusher_loop d dma dma_len (s1, c1)"
    using assms(2,3,5) room by (intro loop_word [of _ _ _ "packet_header p"]) (simp_all add: packet_words_def words_at_Cons c1_def)
  have "length (p_params p) < 2 ^ 24" using assms(1) by (simp add: packet_ok_def)
  then have count: "unat (method_count s1) = length (p_params p)"
    using header_fields(3) [OF assms(1)] by (simp add: s1_def pusher_methods_def unat_of_nat_small)
  have 2: "pusher_loop d dma dma_len (s1, c1) =
      pusher_loop d dma dma_len (fold pusher_data (p_params p) s1, c1\<lparr>dma_get := dma_get c1 + 4 * of_nat (length (p_params p))\<rparr>)"
    using assms(2,4,5) get_advance(1) [OF room] count
    by (intro data_loop) (simp_all add: packet_words_def words_at_Cons c1_def)
  note f = fold_pusher_data [OF count, THEN conjunct1] fold_pusher_data [OF count, THEN conjunct2]
  show ?thesis
  proof (rule that)
    show "pusher_loop d dma dma_len (s, c) = pusher_loop d dma dma_len (fold pusher_data (p_params p) s1,
        c\<lparr>dma_get := dma_get c + 4 * of_nat (length (packet_words p))\<rparr>)"
      using 1 2 by (simp add: c1_def packet_words_def algebra_simps)
    show "cache (fold pusher_data (p_params p) s1) = cache s @ packet_commands p"
      using f(1) header_fields(1,2) [OF assms(1)] by (simp add: s1_def pusher_methods_def packet_commands_def)
  qed (use f in \<open>simp_all add: s1_def pusher_methods_def\<close>)
qed

lemma packets_loop:
  assumes "\<forall>p \<in> set ps. packet_ok p" "words_at d dma (unat (dma_get c)) (concat (map packet_words ps))" "method_count s = 0"
    "unat (dma_get c) + 4 * length (concat (map packet_words ps)) = unat (dma_put c)" "unat (dma_put c) \<le> unat dma_len"
  shows "\<exists>s'. pusher_loop d dma dma_len (s, c) = Some (Inr (s', c\<lparr>dma_get := dma_put c\<rparr>)) \<and>
    cache s' = cache s @ concat (map packet_commands ps) \<and>
    cache_size s' = cache_size s + int (length (concat (map packet_commands ps))) \<and> method_count s' = 0 \<and> c_error s' = c_error s"
  using assms
proof (induction ps arbitrary: s c)
  case Nil
  then have "dma_get c = dma_put c" by (simp add: word_unat_eq_iff)
  with Nil show ?case by (subst pusher_loop.simps) (cases c, simp)
next
  case (Cons p ps)
  have len: "length (packet_commands p) = length (p_params p)" by (simp add: packet_commands_def)
  define c' where "c' = c\<lparr>dma_get := dma_get c + 4 * of_nat (length (packet_words p))\<rparr>"
  have words: "words_at d dma (unat (dma_get c)) (packet_words p)"
    "words_at d dma (unat (dma_get c) + 4 * length (packet_words p)) (concat (map packet_words ps))"
    using Cons.prems(2) by (simp_all add: words_at_append)
  obtain s' where s': "pusher_loop d dma dma_len (s, c) = pusher_loop d dma dma_len (s', c')"
    "cache s' = cache s @ packet_commands p" "cache_size s' = cache_size s + int (length (p_params p))"
    "method_count s' = 0" "c_error s' = c_error s"
    using packet_loop [of p d dma c s dma_len] Cons.prems words(1) unfolding c'_def by (auto simp: )
  have get': "unat (dma_get c') = unat (dma_get c) + 4 * length (packet_words p)"
  proof -
    have "unat (dma_get c) + 4 * length (packet_words p) < 2 ^ 64"
      using Cons.prems(4) unsigned_less [of "dma_put c", where ?'a = nat] by simp
    then show ?thesis unfolding c'_def by (simp add: unat_word_ariths unat_of_nat_small)
  qed
  obtain s'' where "pusher_loop d dma dma_len (s', c') = Some (Inr (s'', c'\<lparr>dma_get := dma_put c'\<rparr>))"
    "cache s'' = cache s' @ concat (map packet_commands ps)"
    "cache_size s'' = cache_size s' + int (length (concat (map packet_commands ps)))" "method_count s'' = 0" "c_error s'' = c_error s'"
    using Cons.IH [of c' s'] Cons.prems words(2) s'(4) get' by (auto simp: c'_def)
  with s' len show ?case by (auto simp: c'_def)
qed

section \<open>Jumps\<close>

definition jump_word :: "u32 \<Rightarrow> bool" where
  "jump_word w \<longleftrightarrow> w AND 0xe0000003 = 0x20000000 \<or> w AND 3 = 1 \<or> w AND 3 = 2 \<or> w = 0x00020000"

lemma command_no_jump:
  "\<not> jump_word w \<Longrightarrow> \<exists>go s'. pusher_command w s c = (go, s', c)"
  unfolding pusher_command_def jump_word_def Let_def by auto

lemma loop_ends:
  assumes "unat (dma_get c) + 4 * n = unat (dma_put c)" "unat (dma_put c) \<le> unat dma_len"
    "\<forall>i<n. \<exists>w. vram_ldl d (unat dma + (unat (dma_get c) + 4 * i)) = Inr w \<and> \<not> jump_word w"
  shows "\<exists>s' c'. pusher_loop d dma dma_len (s, c) = Some (Inr (s', c')) \<and> dma_put c' = dma_put c"
  using assms
proof (induction n arbitrary: s c)
  case 0
  then have "dma_get c = dma_put c" by (simp add: word_unat_eq_iff)
  then show ?case by (subst pusher_loop.simps) simp
next
  case (Suc n)
  obtain w where w: "vram_ldl d (unat dma + unat (dma_get c)) = Inr w" "\<not> jump_word w" using Suc.prems(3) by fastforce
  have room: "unat (dma_get c) + 4 \<le> unat (dma_put c)" using Suc.prems(1) by simp
  define c' where "c' = c\<lparr>dma_get := dma_get c + 4\<rparr>"
  have get': "unat (dma_get c') = unat (dma_get c) + 4" using get_advance(1) [OF room] by (simp add: c'_def)
  have rest: "\<exists>s'' c''. pusher_loop d dma dma_len (s', c') = Some (Inr (s'', c'')) \<and> dma_put c'' = dma_put c'" for s'
  proof (rule Suc.IH)
    show "\<forall>i<n. \<exists>w. vram_ldl d (unat dma + (unat (dma_get c') + 4 * i)) = Inr w \<and> \<not> jump_word w"
    proof (intro allI impI)
      fix i assume "i < n"
      then show "\<exists>w. vram_ldl d (unat dma + (unat (dma_get c') + 4 * i)) = Inr w \<and> \<not> jump_word w"
        using Suc.prems(3) [rule_format, of "Suc i"] by (simp add: get' add.assoc)
    qed
  qed (use Suc.prems get' in \<open>simp_all add: c'_def\<close>)
  obtain go s' where step: "pusher_step d dma dma_len (s, c) = Inr (go, s', c')"
  proof -
    have "\<not> dma_len \<le> dma_get c" using room Suc.prems(2) by (simp add: word_le_nat_alt)
    then show ?thesis using that command_no_jump [OF w(2), of s c'] w(1)
      by (cases "method_count s \<noteq> 0") (auto simp: pusher_step_def c'_def)
  qed
  show ?case using rest [of s'] get_advance(2) [OF room]
    by (subst pusher_loop.simps) (cases go, auto simp: step c'_def Let_def)
qed

text \<open>A buffer whose next command jumps to itself.\<close>

definition stuck :: "NV2A_GPUState \<Rightarrow> hwaddr \<Rightarrow> hwaddr \<Rightarrow> Cache1State \<times> ChannelControl \<Rightarrow> bool" where
  "stuck d dma dma_len = (\<lambda>(s, c). method_count s = 0 \<and> dma_get c < dma_len \<and> dma_get c \<noteq> dma_put c
     \<and> (\<exists>w. vram_ldl d (unat dma + unat (dma_get c)) = Inr w \<and> w AND 3 = 1 \<and> w AND 0xe0000003 \<noteq> 0x20000000
          \<and> ucast (w AND 0xfffffffc) = dma_get c))"

lemma stuck_step: "stuck d dma dma_len sc \<Longrightarrow> \<exists>sc'. pusher_step d dma dma_len sc = Inr (True, sc') \<and> stuck d dma dma_len sc'"
  by (auto simp: stuck_def pusher_step_def pusher_command_def Let_def not_le split: prod.splits)

lemma stuck_loop:
  assumes "stuck d dma dma_len sc"
  shows "pusher_loop d dma dma_len sc = None"
proof (rule ccontr)
  assume "pusher_loop d dma dma_len sc \<noteq> None"
  then obtain r where r: "pusher_loop d dma dma_len sc = Some r" by blast
  have "\<not> stuck d dma dma_len sc"
  proof (induction rule: pusher_loop.raw_induct)
    case (1 f d dma dma_len sc r)
    show ?case
    proof
      assume st: "stuck d dma dma_len sc"
      then obtain sc' where "pusher_step d dma dma_len sc = Inr (True, sc')" "stuck d dma dma_len sc'"
        using stuck_step by blast
      moreover have "dma_get (snd sc) \<noteq> dma_put (snd sc)" using st by (auto simp: stuck_def)
      ultimately have "f d dma dma_len sc' = Some r" using 1(2) by (simp add: Let_def)
      then show False using 1(1) \<open>stuck d dma dma_len sc'\<close> by blast
    qed
  qed (rule r)
  with assms show False by contradiction
qed

section \<open>What the pusher leaves alone\<close>

text \<open>The pusher only appends to the FIFO and does not touch the puller's part of its state.\<close>

definition pusher_frame :: "Cache1State \<Rightarrow> Cache1State \<Rightarrow> bool" where
  "pusher_frame s s' \<longleftrightarrow> c_channel_id s' = c_channel_id s \<and> dma_instance s' = dma_instance s
     \<and> bound_engines s' = bound_engines s \<and> pull_enabled s' = pull_enabled s \<and> (\<exists>new. cache s' = cache s @ new)"

lemma pusher_frame_refl: "pusher_frame s s"
  by (simp add: pusher_frame_def)

lemma pusher_frame_trans: "pusher_frame s s' \<Longrightarrow> pusher_frame s' s'' \<Longrightarrow> pusher_frame s s''"
  by (auto simp: pusher_frame_def)

lemma pusher_command_frame: "pusher_command w s c = (b, s', c') \<Longrightarrow> pusher_frame s s'"
  by (auto simp: pusher_command_def pusher_methods_def pusher_frame_def Let_def split: if_splits)

lemma pusher_step_frame: "pusher_step d dma dma_len (s, c) = Inr (b, s', c') \<Longrightarrow> pusher_frame s s'"
  by (auto simp: pusher_step_def Let_def res_bind_Inr_iff split: if_splits dest: pusher_command_frame)
    (auto simp: pusher_frame_def pusher_data_def Let_def)

lemma pusher_loop_frame:
  assumes "pusher_loop d dma dma_len sc = Some r" "r = Inr (s', c')"
  shows "pusher_frame (fst sc) s'"
proof -
  have "\<forall>s' c'. r = Inr (s', c') \<longrightarrow> pusher_frame (fst sc) s'"
  proof (induction rule: pusher_loop.raw_induct)
    case (1 f d dma dma_len sc r)
    obtain s c where sc: "sc = (s, c)" by (cases sc)
    show ?case
    proof (cases "dma_get c = dma_put c")
      case True
      then show ?thesis using 1(2) by (auto simp: sc pusher_frame_refl)
    next
      case False
      show ?thesis
      proof (cases "pusher_step d dma dma_len (s, c)")
        case (Inl e)
        then show ?thesis using 1(2) False by (auto simp: sc)
      next
        case (Inr x)
        obtain b s1 c1 where x: "x = (b, s1, c1)" by (cases x)
        have frame: "pusher_frame s s1" using Inr by (simp add: x pusher_step_frame)
        show ?thesis
        proof (cases b)
          case True
          then have "f d dma dma_len (s1, c1) = Some r" using 1(2) False Inr by (simp add: sc x Let_def)
          then show ?thesis using 1(1) frame by (fastforce simp: sc intro: pusher_frame_trans)
        next
          case b: False
          then show ?thesis using 1(2) False Inr frame by (auto simp: sc x Let_def)
        qed
      qed
    qed
  qed (rule assms(1))
  with assms(2) show ?thesis by blast
qed

lemma run_pusher_frame:
  assumes run: "pfifo_run_pusher d = Some (Inr d')"
  shows "\<exists>s control. d' = d\<lparr>cache1 := s, channel_control := control\<rparr> \<and> pusher_frame (cache1 d) s
    \<and> length control = length (channel_control d)"
proof (cases "d' = d")
  case True
  then show ?thesis by (intro exI [of _ "cache1 d"] exI [of _ "channel_control d"]) (simp add: pusher_frame_refl)
next
  case False
  define ch where "ch = unat (ucast (c_channel_id (cache1 d)) :: u8)"
  have on: "push_enabled (cache1 d)" by (rule ccontr) (use run False in \<open>simp add: pfifo_run_pusher_def Let_def\<close>)
  have modes: "bit (channel_modes d) ch" by (rule ccontr) (use run on in \<open>simp add: pfifo_run_pusher_def Let_def ch_def\<close>)
  have "c_mode (cache1 d) = FIFO_DMA" "dma_push_enabled (cache1 d)" "\<not> dma_push_suspended (cache1 d)"
      "c_error (cache1 d) = NV_PFIFO_CACHE1_DMA_STATE_ERROR_NONE"
    by (rule ccontr, use run on modes False in \<open>simp add: pfifo_run_pusher_def Let_def ch_def split: if_splits\<close>)+
  note on = on modes this
  obtain dma len where map: "nv_dma_load_and_map d (dma_instance (cache1 d)) = Inr (dma, len)"
    using run on by (cases "nv_dma_load_and_map d (dma_instance (cache1 d))") (auto simp: pfifo_run_pusher_def Let_def ch_def)
  obtain control where control: "arr_get (channel_control d) ch = Inr control"
    using run on map by (cases "arr_get (channel_control d) ch") (simp_all add: pfifo_run_pusher_def Let_def ch_def)
  obtain r where r: "pusher_loop d dma len (cache1 d, control) = Some r"
      "res_bind r (\<lambda>(state, control). if c_error state \<noteq> 0 then Inl Assertion_failed
         else Inr (d\<lparr>cache1 := state, channel_control := (channel_control d)[ch := control]\<rparr>)) = Inr d'"
    using run on map control unfolding pfifo_run_pusher_def Let_def ch_def [symmetric] by auto
  then obtain s c where sc: "r = Inr (s, c)" by (auto simp: res_bind_Inr_iff)
  then have "d' = d\<lparr>cache1 := s, channel_control := (channel_control d)[ch := c]\<rparr>"
    using r(2) by (simp split: if_splits)
  moreover have "pusher_frame (cache1 d) s" using pusher_loop_frame [OF r(1) sc] by simp
  ultimately show ?thesis by (intro exI [of _ s] exI [of _ "(channel_control d)[ch := c]"]) simp
qed

lemma run_pusher_ok: "gpu_ok d \<Longrightarrow> pfifo_run_pusher d = Some (Inr d') \<Longrightarrow> gpu_ok d'"
  by (drule run_pusher_frame) (auto simp: gpu_ok_def cache1_ok_def pusher_frame_def)

section \<open>The whole pusher\<close>

text \<open>A pusher that is switched on, with its push buffer at \<open>dma\<close> in video memory.\<close>

definition pusher_ready :: "NV2A_GPUState \<Rightarrow> nat \<Rightarrow> hwaddr \<Rightarrow> hwaddr \<Rightarrow> bool" where
  "pusher_ready d ch dma dma_len \<longleftrightarrow> push_enabled (cache1 d) \<and> bit (channel_modes d) ch \<and> c_mode (cache1 d) = FIFO_DMA
     \<and> dma_push_enabled (cache1 d) \<and> \<not> dma_push_suspended (cache1 d) \<and> c_error (cache1 d) = 0
     \<and> unat (c_channel_id (cache1 d)) = ch \<and> ch < length (channel_control d) \<and> ch < 32
     \<and> nv_dma_load_and_map d (dma_instance (cache1 d)) = Inr (dma, dma_len)"

lemma run_pusher_ready:
  assumes "pusher_ready d ch dma dma_len"
  shows "pfifo_run_pusher d = map_option (\<lambda>r. res_bind r (\<lambda>(state, control).
      if c_error state \<noteq> 0 then Inl Assertion_failed
      else Inr (d\<lparr>cache1 := state, channel_control := (channel_control d)[ch := control]\<rparr>)))
    (pusher_loop d dma dma_len (cache1 d, channel_control d ! ch))"
proof -
  note ready = assms [unfolded pusher_ready_def]
  have "unat (ucast (c_channel_id (cache1 d)) :: u8) = take_bit 8 (unat (c_channel_id (cache1 d)))"
    by (simp add: unsigned_ucast_eq)
  also have "\<dots> = ch" using ready by (simp add: take_bit_nat_eq_self_iff)
  finally have ch: "unat (ucast (c_channel_id (cache1 d)) :: u8) = ch" .
  have "arr_get (channel_control d) ch = Inr (channel_control d ! ch)" using ready by simp
  moreover have "nv_dma_load_and_map d (dma_instance (cache1 d)) = Inr (dma, dma_len)"
    "push_enabled (cache1 d)" "bit (channel_modes d) ch" "c_mode (cache1 d) = FIFO_DMA" "dma_push_enabled (cache1 d)"
    "\<not> dma_push_suspended (cache1 d)" "c_error (cache1 d) = 0"
    using ready by blast+
  ultimately show ?thesis
    unfolding pfifo_run_pusher_def Let_def ch by (simp add: NV_PFIFO_CACHE1_DMA_STATE_ERROR_NONE_def)
qed

section \<open>Properties\<close>

text \<open>
  C8. The pusher decodes the push buffer. When the words between the get and the put pointer are encoded
  packets, it ends without an error, with exactly the packets' commands appended to the FIFO in order, and
  with the get pointer at the put pointer.
\<close>

theorem pusher_packets:
  assumes "pusher_ready d ch dma dma_len" "method_count (cache1 d) = 0" "\<forall>p \<in> set ps. packet_ok p"
    "words_at d dma (unat (dma_get (channel_control d ! ch))) (concat (map packet_words ps))"
    "unat (dma_get (channel_control d ! ch)) + 4 * length (concat (map packet_words ps)) = unat (dma_put (channel_control d ! ch))"
    "unat (dma_put (channel_control d ! ch)) \<le> unat dma_len"
  shows "\<exists>d'. pfifo_run_pusher d = Some (Inr d') \<and> cache (cache1 d') = cache (cache1 d) @ concat (map packet_commands ps)
    \<and> cache_size (cache1 d') = cache_size (cache1 d) + int (length (concat (map packet_commands ps)))
    \<and> channel_control d' ! ch = (channel_control d ! ch)\<lparr>dma_get := dma_put (channel_control d ! ch)\<rparr>"
proof -
  obtain s' where "pusher_loop d dma dma_len (cache1 d, channel_control d ! ch) =
      Some (Inr (s', (channel_control d ! ch)\<lparr>dma_get := dma_put (channel_control d ! ch)\<rparr>))"
    "cache s' = cache (cache1 d) @ concat (map packet_commands ps)"
    "cache_size s' = cache_size (cache1 d) + int (length (concat (map packet_commands ps)))" "c_error s' = c_error (cache1 d)"
    using packets_loop [OF assms(3,4,2,5,6)] by blast
  moreover have "c_error (cache1 d) = 0" "ch < length (channel_control d)" using assms(1) by (simp_all add: pusher_ready_def)
  ultimately show ?thesis by (simp add: run_pusher_ready [OF assms(1)])
qed

text \<open>An instance: a ready device with the given words at the start of video memory.\<close>

definition demo_gpu :: "u32 \<Rightarrow> u32 \<Rightarrow> u32 \<Rightarrow> hwaddr \<Rightarrow> NV2A_GPUState" where
  "demo_gpu w0 w1 w2 put = (nv2a_gpu_initfn (stl_le (stl_le (stl_le (\<lambda>_. 0) 0 w0) 4 w1) 8 w2) 0x4000000 (\<lambda>_. 0))\<lparr>
     ramin := stl_le (\<lambda>_. 0) 4 0x100, channel_modes := 1,
     cache1 := cache1_reset\<lparr>push_enabled := True, c_mode := 1, dma_push_enabled := True\<rparr>,
     channel_control := \<lparr>dma_put = put, dma_get = 0, ref = 0\<rparr> # replicate 31 \<lparr>dma_put = 0, dma_get = 0, ref = 0\<rparr>\<rparr>"

lemma demo_gpu_ready: "pusher_ready (demo_gpu w0 w1 w2 put) 0 0 0x100"
proof -
  have [simp]: "GET_MASK 0 m = 0" for m by (simp add: GET_MASK_def)
  have "ldl_le (stl_le (\<lambda>_. 0) 4 0x100) 0 = 0" "ldl_le (stl_le (\<lambda>_. 0) 4 0x100) 8 = 0"
    by (simp_all add: ldl_le_def stl_le_def le32_def)
  then show ?thesis
    by (simp add: pusher_ready_def demo_gpu_def nv2a_gpu_initfn_def cache1_reset_def FIFO_DMA_def nv_dma_load_and_map_def
        nv_dma_load_def ramin_ldl_def ldl_stl_same)
qed

lemma demo_gpu_words: "words_at (demo_gpu w0 w1 w2 put) 0 0 [w0, w1, w2]"
proof -
  have "ldl_le (stl_le (stl_le (stl_le (\<lambda>_. 0) 0 w0) 4 w1) 8 w2) 0 = w0"
    "ldl_le (stl_le (stl_le (stl_le (\<lambda>_. 0) 0 w0) 4 w1) 8 w2) 4 = w1"
    "ldl_le (stl_le (stl_le (stl_le (\<lambda>_. 0) 0 w0) 4 w1) 8 w2) 8 = w2"
    by (simp_all add: ldl_le_def stl_le_def)
  then show ?thesis
    by (simp add: words_at_Cons words_at_def [of _ _ _ "[]"] vram_ldl_def demo_gpu_def nv2a_gpu_initfn_def)
qed

theorem pusher_packets_witness:
  "\<exists>d'. pfifo_run_pusher (demo_gpu 0x00080200 7 8 12) = Some (Inr d') \<and>
     cache (cache1 d') = [\<lparr>e_method = 0x200, e_subchannel = 0, e_nonincreasing = False, e_parameter = 7\<rparr>,
       \<lparr>e_method = 0x204, e_subchannel = 0, e_nonincreasing = False, e_parameter = 8\<rparr>]"
proof -
  define p where "p = \<lparr>p_nonincreasing = False, p_method = 0x200, p_subchannel = 0, p_params = [7, 8]\<rparr>"
  have words: "concat (map packet_words [p]) = [0x00080200, 7, 8]" by (simp add: packet_words_def packet_header_def p_def)
  have "packet_ok p" by (simp add: packet_ok_def p_def)
  then have "\<exists>d'. pfifo_run_pusher (demo_gpu 0x00080200 7 8 12) = Some (Inr d') \<and>
      cache (cache1 d') = cache (cache1 (demo_gpu 0x00080200 7 8 12)) @ concat (map packet_commands [p])"
    using pusher_packets [OF demo_gpu_ready [of "0x00080200" 7 8 12], of "[p]"] demo_gpu_words [of "0x00080200" 7 8 12] unfolding words
    by (auto simp: demo_gpu_def cache1_reset_def)
  moreover have "concat (map packet_commands [p]) = [\<lparr>e_method = 0x200, e_subchannel = 0, e_nonincreasing = False, e_parameter = 7\<rparr>,
       \<lparr>e_method = 0x204, e_subchannel = 0, e_nonincreasing = False, e_parameter = 8\<rparr>]"
    by (simp add: packet_commands_def p_def)
  ultimately show ?thesis by (simp add: demo_gpu_def cache1_reset_def)
qed



text \<open>
  C39. A push buffer whose next command is a jump to itself makes the pusher run forever. The pusher runs
  inside of the guest's register write, so that the guest's processor never continues.
\<close>

theorem pusher_self_jump_hangs:
  assumes "pusher_ready d ch dma dma_len" "method_count (cache1 d) = 0"
    "dma_get (channel_control d ! ch) \<noteq> dma_put (channel_control d ! ch)" "dma_get (channel_control d ! ch) < dma_len"
    "vram_ldl d (unat dma + unat (dma_get (channel_control d ! ch))) = Inr w" "w AND 3 = 1"
    "ucast (w AND 0xfffffffc) = dma_get (channel_control d ! ch)"
  shows "pfifo_run_pusher d = None"
proof -
  have "w AND 0xe0000003 \<noteq> 0x20000000"
  proof
    assume "w AND 0xe0000003 = 0x20000000"
    then have "(w AND 0xe0000003) AND 3 = 0" by simp
    then show False using assms(6) by (simp add: and.assoc)
  qed
  then have "stuck d dma dma_len (cache1 d, channel_control d ! ch)" using assms(2-) by (simp add: stuck_def)
  then show ?thesis by (simp add: run_pusher_ready [OF assms(1)] stuck_loop)
qed

theorem pusher_self_jump_hangs_witness: "pfifo_run_pusher (demo_gpu 1 0 0 4) = None"
  using pusher_self_jump_hangs [OF demo_gpu_ready [of 1 0 0 4], of 1] demo_gpu_words [of 1 0 0 4]
  by (simp add: demo_gpu_def cache1_reset_def words_at_Cons)



end
