(* ===== verification/NV2A_Regs.thy ===== *)
theory NV2A_Regs
  imports NV2A_Registers NV2A_Pusher
begin

text \<open>
  The register blocks of the NV2A (\<open>src/hw/xbox/nv2a_gpu.c\<close>) that control its interrupts, its command FIFO,
  the drawing engine's context and the scan-out: PMC, PBUS, PFIFO, PVIDEO, PFB, PGRAPH, PCRTC and USER.
  The memory core hands a handler at most four bytes and keeps the low four bytes of what it returns, so that
  values are 32 bits wide. A write may run the pusher, so that its result is \<open>None\<close> when the pusher runs
  forever. Shown here: which registers read back what was written; no access leaves the device's arrays and
  every access keeps the device's invariant; what the interrupt line reflects.
\<close>

section \<open>PMC\<close>

definition pmc_read :: "NV2A_GPUState \<Rightarrow> hwaddr \<Rightarrow> u32" where
  "pmc_read d addr =
     (if addr = NV_PMC_BOOT_0 then 0x02A000A2
      else if addr = NV_PMC_INTR_0 then pmc_pending d
      else if addr = NV_PMC_INTR_EN_0 then pmc_enabled d
      else 0)"

definition pmc_write :: "NV2A_GPUState \<Rightarrow> hwaddr \<Rightarrow> u32 \<Rightarrow> NV2A_GPUState" where
  "pmc_write d addr val =
     (if addr = NV_PMC_INTR_0 then update_irq (d\<lparr>pmc_pending := pmc_pending d AND NOT val\<rparr>)
      else if addr = NV_PMC_INTR_EN_0 then update_irq (d\<lparr>pmc_enabled := val\<rparr>)
      else d)"

section \<open>PBUS\<close>

text \<open>The registers that show the PCI configuration space, with their offsets there.\<close>

definition PCI_VENDOR_ID :: hwaddr where "PCI_VENDOR_ID = 0x00"
definition PCI_COMMAND :: hwaddr where "PCI_COMMAND = 0x04"
definition PCI_CLASS_REVISION :: hwaddr where "PCI_CLASS_REVISION = 0x08"
definition PCI_CACHE_LINE_SIZE :: hwaddr where "PCI_CACHE_LINE_SIZE = 0x0c"
definition PCI_BASE_ADDRESS_0 :: hwaddr where "PCI_BASE_ADDRESS_0 = 0x10"
definition PCI_BASE_ADDRESS_1 :: hwaddr where "PCI_BASE_ADDRESS_1 = 0x14"
definition PCI_BASE_ADDRESS_2 :: hwaddr where "PCI_BASE_ADDRESS_2 = 0x18"
definition PCI_SUBSYSTEM_VENDOR_ID :: hwaddr where "PCI_SUBSYSTEM_VENDOR_ID = 0x2c"
definition PCI_ROM_ADDRESS :: hwaddr where "PCI_ROM_ADDRESS = 0x30"
definition PCI_CAPABILITY_LIST :: hwaddr where "PCI_CAPABILITY_LIST = 0x34"
definition PCI_INTERRUPT_LINE :: hwaddr where "PCI_INTERRUPT_LINE = 0x3c"

definition pbus_read :: "NV2A_GPUState \<Rightarrow> hwaddr \<Rightarrow> u32" where
  "pbus_read d addr =
     (if addr = NV_PBUS_PCI_NV_0 then ldl_le (config d) PCI_VENDOR_ID
      else if addr = NV_PBUS_PCI_NV_1 then ldl_le (config d) PCI_COMMAND
      else if addr = NV_PBUS_PCI_NV_2 then ldl_le (config d) PCI_CLASS_REVISION
      else if addr = NV_PBUS_PCI_NV_3 then ldl_le (config d) PCI_CACHE_LINE_SIZE
      else if addr = NV_PBUS_PCI_NV_4 then ldl_le (config d) PCI_BASE_ADDRESS_0
      else if addr = NV_PBUS_PCI_NV_5 then ldl_le (config d) PCI_BASE_ADDRESS_1
      else if addr = NV_PBUS_PCI_NV_6 then ldl_le (config d) PCI_BASE_ADDRESS_2
      else if addr = NV_PBUS_PCI_NV_11 then ldl_le (config d) PCI_SUBSYSTEM_VENDOR_ID
      else if addr = NV_PBUS_PCI_NV_12 then ldl_le (config d) PCI_ROM_ADDRESS
      else if addr = NV_PBUS_PCI_NV_13 then ldl_le (config d) PCI_CAPABILITY_LIST
      else if addr = NV_PBUS_PCI_NV_15 then ldl_le (config d) PCI_INTERRUPT_LINE
      else 0)"

definition pbus_write :: "NV2A_GPUState \<Rightarrow> hwaddr \<Rightarrow> u32 \<Rightarrow> NV2A_GPUState" where
  "pbus_write d addr val =
     (if addr = NV_PBUS_PCI_NV_0 then d
      else if addr = NV_PBUS_PCI_NV_1 then d\<lparr>config := stl_le (config d) PCI_COMMAND val\<rparr>
      else if addr = NV_PBUS_PCI_NV_2 then d
      else if addr = NV_PBUS_PCI_NV_3 then d\<lparr>config := stl_le (config d) PCI_CACHE_LINE_SIZE val\<rparr>
      else if addr = NV_PBUS_PCI_NV_4 then d\<lparr>config := stl_le (config d) PCI_BASE_ADDRESS_0 val\<rparr>
      else if addr = NV_PBUS_PCI_NV_5 then d\<lparr>config := stl_le (config d) PCI_BASE_ADDRESS_1 val\<rparr>
      else if addr = NV_PBUS_PCI_NV_6 then d\<lparr>config := stl_le (config d) PCI_BASE_ADDRESS_2 val\<rparr>
      else if addr = NV_PBUS_PCI_NV_11 then d
      else if addr = NV_PBUS_PCI_NV_12 then d\<lparr>config := stl_le (config d) PCI_ROM_ADDRESS val\<rparr>
      else if addr = NV_PBUS_PCI_NV_13 then d\<lparr>config := stl_le (config d) PCI_CAPABILITY_LIST val\<rparr>
      else if addr = NV_PBUS_PCI_NV_15 then d\<lparr>config := stl_le (config d) PCI_INTERRUPT_LINE val\<rparr>
      else d)"

section \<open>PFIFO\<close>

text \<open>The engines bound to the subchannels, two bits each.\<close>

definition engine_read :: "u32 list \<Rightarrow> u32" where
  "engine_read engines = fold (\<lambda>i r. r OR push_bit (2 * i) (engines ! i)) [0..<NV2A_GPU_NUM_SUBCHANNELS] 0"

definition engine_write :: "u32 \<Rightarrow> u32 list" where
  "engine_write val = map (\<lambda>i. drop_bit (2 * i) val AND 3) [0..<NV2A_GPU_NUM_SUBCHANNELS]"

definition pfifo_read :: "NV2A_GPUState \<Rightarrow> hwaddr \<Rightarrow> u32 res" where
  "pfifo_read d addr =
     (let c = cache1 d
      in if addr = NV_PFIFO_INTR_0 then Inr (pfifo_pending d)
      else if addr = NV_PFIFO_INTR_EN_0 then Inr (pfifo_enabled d)
      else if addr = NV_PFIFO_RAMHT then
        Inr (SET_MASK (SET_MASK (SET_MASK 0
          NV_PFIFO_RAMHT_BASE_ADDRESS (ucast (drop_bit 12 (ramht_address d))))
          NV_PFIFO_RAMHT_SEARCH (ramht_search d))
          NV_PFIFO_RAMHT_SIZE (of_int (int (ffs (ramht_size d)) - 13)))
      else if addr = NV_PFIFO_RAMFC then
        Inr (SET_MASK (SET_MASK (SET_MASK 0
          NV_PFIFO_RAMFC_BASE_ADDRESS1 (ucast (drop_bit 10 (ramfc_address1 d))))
          NV_PFIFO_RAMFC_BASE_ADDRESS2 (ucast (drop_bit 10 (ramfc_address2 d))))
          NV_PFIFO_RAMFC_SIZE (ramfc_size d))
      else if addr = NV_PFIFO_RUNOUT_STATUS then Inr NV_PFIFO_RUNOUT_STATUS_LOW_MARK
      else if addr = NV_PFIFO_MODE then Inr (channel_modes d)
      else if addr = NV_PFIFO_DMA then Inr (channels_pending_push d)
      else if addr = NV_PFIFO_CACHE1_PUSH0 then Inr (of_bool (push_enabled c))
      else if addr = NV_PFIFO_CACHE1_PUSH1 then
        Inr (SET_MASK (SET_MASK 0 NV_PFIFO_CACHE1_PUSH1_CHID (c_channel_id c)) NV_PFIFO_CACHE1_PUSH1_MODE (c_mode c))
      else if addr = NV_PFIFO_CACHE1_STATUS then Inr (if cache c = [] then NV_PFIFO_CACHE1_STATUS_LOW_MARK else 0)
      else if addr = NV_PFIFO_CACHE1_DMA_PUSH then
        Inr (SET_MASK (SET_MASK (SET_MASK 0
          NV_PFIFO_CACHE1_DMA_PUSH_ACCESS (of_bool (dma_push_enabled c)))
          NV_PFIFO_CACHE1_DMA_PUSH_STATUS (of_bool (dma_push_suspended c)))
          NV_PFIFO_CACHE1_DMA_PUSH_BUFFER 1)
      else if addr = NV_PFIFO_CACHE1_DMA_STATE then
        Inr (SET_MASK (SET_MASK (SET_MASK (SET_MASK (SET_MASK 0
          NV_PFIFO_CACHE1_DMA_STATE_METHOD_TYPE (of_bool (method_nonincreasing c)))
          NV_PFIFO_CACHE1_DMA_STATE_METHOD (ucast (drop_bit 2 (c_method c))))
          NV_PFIFO_CACHE1_DMA_STATE_SUBCHANNEL (ucast (c_subchannel c)))
          NV_PFIFO_CACHE1_DMA_STATE_METHOD_COUNT (ucast (method_count c)))
          NV_PFIFO_CACHE1_DMA_STATE_ERROR (c_error c))
      else if addr = NV_PFIFO_CACHE1_DMA_INSTANCE then
        Inr (SET_MASK 0 NV_PFIFO_CACHE1_DMA_INSTANCE_ADDRESS (ucast (drop_bit 4 (dma_instance c))))
      else if addr = NV_PFIFO_CACHE1_DMA_PUT then
        res_bind (arr_get (channel_control d) (unat (c_channel_id c))) (\<lambda>control. Inr (ucast (dma_put control)))
      else if addr = NV_PFIFO_CACHE1_DMA_GET then
        res_bind (arr_get (channel_control d) (unat (c_channel_id c))) (\<lambda>control. Inr (ucast (dma_get control)))
      else if addr = NV_PFIFO_CACHE1_DMA_SUBROUTINE then
        Inr (ucast (subroutine_return c OR of_bool (subroutine_active c)))
      else if addr = NV_PFIFO_CACHE1_PULL0 then Inr (of_bool (pull_enabled c))
      else if addr = NV_PFIFO_CACHE1_ENGINE then Inr (engine_read (bound_engines c))
      else if addr = NV_PFIFO_CACHE1_DMA_DCOUNT then Inr (dcount c)
      else if addr = NV_PFIFO_CACHE1_DMA_GET_JMP_SHADOW then Inr (ucast (get_jmp_shadow c))
      else if addr = NV_PFIFO_CACHE1_DMA_RSVD_SHADOW then Inr (rsvd_shadow c)
      else if addr = NV_PFIFO_CACHE1_DMA_DATA_SHADOW then Inr (data_shadow c)
      else Inr 0)"

text \<open>Updates of the pointers of the current channel.\<close>

definition control_write :: "NV2A_GPUState \<Rightarrow> nat \<Rightarrow> (ChannelControl \<Rightarrow> ChannelControl) \<Rightarrow> NV2A_GPUState res" where
  "control_write d channel_id f =
     res_bind (arr_get (channel_control d) channel_id) (\<lambda>control.
     Inr (d\<lparr>channel_control := (channel_control d)[channel_id := f control]\<rparr>))"

text \<open>The pusher's control register: a write that clears the suspension runs the pusher.\<close>

definition dma_push_write :: "NV2A_GPUState \<Rightarrow> u32 \<Rightarrow> NV2A_GPUState res option" where
  "dma_push_write d0 val =
     (let d = d0\<lparr>cache1 := (cache1 d0)\<lparr>dma_push_enabled := (GET_MASK val NV_PFIFO_CACHE1_DMA_PUSH_ACCESS \<noteq> 0)\<rparr>\<rparr>;
          suspend = (GET_MASK val NV_PFIFO_CACHE1_DMA_PUSH_STATUS \<noteq> 0);
          ran = (if dma_push_suspended (cache1 d) \<and> \<not> suspend
                 then pfifo_run_pusher (d\<lparr>cache1 := (cache1 d)\<lparr>dma_push_suspended := False\<rparr>\<rparr>)
                 else Some (Inr d))
      in map_option (\<lambda>r. res_bind r (\<lambda>d. Inr (d\<lparr>cache1 := (cache1 d)\<lparr>dma_push_suspended := suspend\<rparr>\<rparr>))) ran)"

text \<open>The puller's control register: enabling creates the thread, disabling asks it to end.\<close>

definition pull0_write :: "NV2A_GPUState \<Rightarrow> u32 \<Rightarrow> NV2A_GPUState" where
  "pull0_write d val =
     (if val AND NV_PFIFO_CACHE1_PULL0_ACCESS \<noteq> 0 \<and> \<not> pull_enabled (cache1 d)
      then d\<lparr>cache1 := (cache1 d)\<lparr>pull_enabled := True\<rparr>, pullers_created := pullers_created d + 1\<rparr>
      else if val AND NV_PFIFO_CACHE1_PULL0_ACCESS = 0 \<and> pull_enabled (cache1 d)
      then d\<lparr>cache1 := (cache1 d)\<lparr>pull_enabled := False\<rparr>\<rparr>
      else d)"

definition dma_state_write :: "Cache1State \<Rightarrow> u32 \<Rightarrow> Cache1State" where
  "dma_state_write c val =
     c\<lparr>method_nonincreasing := (GET_MASK val NV_PFIFO_CACHE1_DMA_STATE_METHOD_TYPE \<noteq> 0),
       c_method := ucast (push_bit 2 (GET_MASK val NV_PFIFO_CACHE1_DMA_STATE_METHOD)),
       c_subchannel := ucast (GET_MASK val NV_PFIFO_CACHE1_DMA_STATE_SUBCHANNEL),
       method_count := ucast (GET_MASK val NV_PFIFO_CACHE1_DMA_STATE_METHOD_COUNT),
       c_error := GET_MASK val NV_PFIFO_CACHE1_DMA_STATE_ERROR\<rparr>"

definition pfifo_write :: "NV2A_GPUState \<Rightarrow> hwaddr \<Rightarrow> u32 \<Rightarrow> NV2A_GPUState res option" where
  "pfifo_write d addr val =
     (let c = cache1 d
      in if addr = NV_PFIFO_INTR_0 then Some (Inr (update_irq (d\<lparr>pfifo_pending := pfifo_pending d AND NOT val\<rparr>)))
      else if addr = NV_PFIFO_INTR_EN_0 then Some (Inr (update_irq (d\<lparr>pfifo_enabled := val\<rparr>)))
      else if addr = NV_PFIFO_RAMHT then
        Some (Inr (d\<lparr>ramht_address := push_bit 12 (ucast (GET_MASK val NV_PFIFO_RAMHT_BASE_ADDRESS)),
          ramht_size := push_bit (unat (GET_MASK val NV_PFIFO_RAMHT_SIZE + 12)) 1,
          ramht_search := GET_MASK val NV_PFIFO_RAMHT_SEARCH\<rparr>))
      else if addr = NV_PFIFO_RAMFC then
        Some (Inr (d\<lparr>ramfc_address1 := push_bit 10 (ucast (GET_MASK val NV_PFIFO_RAMFC_BASE_ADDRESS1)),
          ramfc_address2 := push_bit 10 (ucast (GET_MASK val NV_PFIFO_RAMFC_BASE_ADDRESS2)),
          ramfc_size := GET_MASK val NV_PFIFO_RAMFC_SIZE\<rparr>))
      else if addr = NV_PFIFO_MODE then Some (Inr (d\<lparr>channel_modes := val\<rparr>))
      else if addr = NV_PFIFO_DMA then Some (Inr (d\<lparr>channels_pending_push := val\<rparr>))
      else if addr = NV_PFIFO_CACHE1_PUSH0 then
        Some (Inr (d\<lparr>cache1 := c\<lparr>push_enabled := (val AND NV_PFIFO_CACHE1_PUSH0_ACCESS \<noteq> 0)\<rparr>\<rparr>))
      else if addr = NV_PFIFO_CACHE1_PUSH1 then
        (let c' = c\<lparr>c_channel_id := GET_MASK val NV_PFIFO_CACHE1_PUSH1_CHID, c_mode := GET_MASK val NV_PFIFO_CACHE1_PUSH1_MODE\<rparr>
         in Some (res_bind (assert_res (unat (c_channel_id c') < NV2A_GPU_NUM_CHANNELS)) (\<lambda>_. Inr (d\<lparr>cache1 := c'\<rparr>))))
      else if addr = NV_PFIFO_CACHE1_DMA_PUSH then dma_push_write d val
      else if addr = NV_PFIFO_CACHE1_DMA_STATE then Some (Inr (d\<lparr>cache1 := dma_state_write c val\<rparr>))
      else if addr = NV_PFIFO_CACHE1_DMA_INSTANCE then
        Some (Inr (d\<lparr>cache1 := c\<lparr>dma_instance := ucast (push_bit 4 (GET_MASK val NV_PFIFO_CACHE1_DMA_INSTANCE_ADDRESS))\<rparr>\<rparr>))
      else if addr = NV_PFIFO_CACHE1_DMA_PUT then
        Some (control_write d (unat (c_channel_id c)) (\<lambda>control. control\<lparr>dma_put := ucast val\<rparr>))
      else if addr = NV_PFIFO_CACHE1_DMA_GET then
        Some (control_write d (unat (c_channel_id c)) (\<lambda>control. control\<lparr>dma_get := ucast val\<rparr>))
      else if addr = NV_PFIFO_CACHE1_DMA_SUBROUTINE then
        Some (Inr (d\<lparr>cache1 := c\<lparr>subroutine_active := (val AND NV_PFIFO_CACHE1_DMA_SUBROUTINE_STATE \<noteq> 0),
          subroutine_return := ucast (val AND NV_PFIFO_CACHE1_DMA_SUBROUTINE_RETURN_OFFSET)\<rparr>\<rparr>))
      else if addr = NV_PFIFO_CACHE1_PULL0 then Some (Inr (pull0_write d val))
      else if addr = NV_PFIFO_CACHE1_ENGINE then Some (Inr (d\<lparr>cache1 := c\<lparr>bound_engines := engine_write val\<rparr>\<rparr>))
      else if addr = NV_PFIFO_CACHE1_DMA_DCOUNT then
        Some (Inr (d\<lparr>cache1 := c\<lparr>dcount := val AND NV_PFIFO_CACHE1_DMA_DCOUNT_VALUE\<rparr>\<rparr>))
      else if addr = NV_PFIFO_CACHE1_DMA_GET_JMP_SHADOW then
        Some (Inr (d\<lparr>cache1 := c\<lparr>get_jmp_shadow := ucast (val AND NV_PFIFO_CACHE1_DMA_GET_JMP_SHADOW_OFFSET)\<rparr>\<rparr>))
      else if addr = NV_PFIFO_CACHE1_DMA_RSVD_SHADOW then Some (Inr (d\<lparr>cache1 := c\<lparr>rsvd_shadow := val\<rparr>\<rparr>))
      else if addr = NV_PFIFO_CACHE1_DMA_DATA_SHADOW then Some (Inr (d\<lparr>cache1 := c\<lparr>data_shadow := val\<rparr>\<rparr>))
      else Some (Inr d))"

section \<open>PVIDEO and PFB\<close>

text \<open>The overlay's registers. The invalidation of the screen's lines is a matter of the VGA core.\<close>

definition pvideo_read :: "NV2A_GPUState \<Rightarrow> hwaddr \<Rightarrow> u32 res" where
  "pvideo_read d addr = (if addr = NV_PVIDEO_STOP then Inr 0 else arr_get (pvideo_regs d) (unat addr))"

definition pvideo_write :: "NV2A_GPUState \<Rightarrow> hwaddr \<Rightarrow> u32 \<Rightarrow> NV2A_GPUState res" where
  "pvideo_write d addr val =
     (if addr = NV_PVIDEO_BUFFER then
        res_bind (arr_set (pvideo_regs d) (unat addr) val) (\<lambda>r. Inr (d\<lparr>pvideo_regs := r, enable_overlay := True\<rparr>))
      else if addr = NV_PVIDEO_STOP then
        res_bind (arr_set (pvideo_regs d) (unat NV_PVIDEO_BUFFER) 0) (\<lambda>r. Inr (d\<lparr>pvideo_regs := r, enable_overlay := False\<rparr>))
      else res_bind (arr_set (pvideo_regs d) (unat addr) val) (\<lambda>r. Inr (d\<lparr>pvideo_regs := r\<rparr>)))"

definition pfb_read :: "NV2A_GPUState \<Rightarrow> hwaddr \<Rightarrow> u32 res" where
  "pfb_read d addr =
     (if addr = NV_PFB_CFG0 then Inr 3
      else if addr = NV_PFB_CSTATUS then Inr (ucast (vram_size d))
      else if addr = NV_PFB_WBC then Inr 0
      else arr_get (pfb_regs d) (unat addr))"

definition pfb_write :: "NV2A_GPUState \<Rightarrow> hwaddr \<Rightarrow> u32 \<Rightarrow> NV2A_GPUState res" where
  "pfb_write d addr val = res_bind (arr_set (pfb_regs d) (unat addr) val) (\<lambda>r. Inr (d\<lparr>pfb_regs := r\<rparr>))"

section \<open>PGRAPH\<close>

definition pgraph_read :: "NV2A_GPUState \<Rightarrow> hwaddr \<Rightarrow> u32 res" where
  "pgraph_read d addr =
     (let g = pgraph d
      in if addr = NV_PGRAPH_INTR then Inr (pg_pending g)
      else if addr = NV_PGRAPH_INTR_EN then Inr (pg_enabled g)
      else if addr = NV_PGRAPH_NSOURCE then Inr (notify_source g)
      else if addr = NV_PGRAPH_CTX_USER then
        res_bind (arr_get (pg_context g) (unat (pg_channel_id g))) (\<lambda>ctx.
        Inr (SET_MASK (SET_MASK (SET_MASK (SET_MASK 0
          NV_PGRAPH_CTX_USER_CHANNEL_3D (of_bool (channel_3d ctx)))
          NV_PGRAPH_CTX_USER_CHANNEL_3D_VALID 1)
          NV_PGRAPH_CTX_USER_SUBCH (push_bit 13 (ctx_subchannel ctx)))
          NV_PGRAPH_CTX_USER_CHID (pg_channel_id g)))
      else if addr = NV_PGRAPH_TRAPPED_ADDR then
        Inr (SET_MASK (SET_MASK (SET_MASK 0
          NV_PGRAPH_TRAPPED_ADDR_CHID (trapped_channel_id g))
          NV_PGRAPH_TRAPPED_ADDR_SUBCH (trapped_subchannel g))
          NV_PGRAPH_TRAPPED_ADDR_MTHD (trapped_method g))
      else if addr = NV_PGRAPH_TRAPPED_DATA_LOW then Inr (trapped_data_low g)
      else if addr = NV_PGRAPH_FIFO then Inr (SET_MASK 0 NV_PGRAPH_FIFO_ACCESS (of_bool (fifo_access g)))
      else if addr = NV_PGRAPH_CHANNEL_CTX_TABLE then Inr (ucast (drop_bit 4 (context_table g)))
      else if addr = NV_PGRAPH_CHANNEL_CTX_POINTER then Inr (ucast (drop_bit 4 (context_address g)))
      else arr_get (pg_regs g) (unat addr))"

definition pgraph_set_context_user :: "PGRAPHState \<Rightarrow> u32 \<Rightarrow> PGRAPHState res" where
  "pgraph_set_context_user g val =
     (let channel_id = drop_bit 24 (val AND NV_PGRAPH_CTX_USER_CHID)
      in res_bind (arr_set (pg_context g) (unat channel_id)
           \<lparr>channel_3d = (GET_MASK val NV_PGRAPH_CTX_USER_CHANNEL_3D \<noteq> 0),
            ctx_subchannel = GET_MASK val NV_PGRAPH_CTX_USER_SUBCH\<rparr>) (\<lambda>ctxs.
         Inr (g\<lparr>pg_channel_id := channel_id, pg_context := ctxs\<rparr>)))"

text \<open>The broadcasts of the condition variables wake the puller; the semaphore \<open>read_3d\<close> is a count.\<close>

definition pgraph_write :: "NV2A_GPUState \<Rightarrow> hwaddr \<Rightarrow> u32 \<Rightarrow> NV2A_GPUState res" where
  "pgraph_write d addr val =
     (let g = pgraph d
      in if addr = NV_PGRAPH_INTR then Inr (d\<lparr>pgraph := g\<lparr>pg_pending := pg_pending g AND NOT val\<rparr>\<rparr>)
      else if addr = NV_PGRAPH_INTR_EN then Inr (d\<lparr>pgraph := g\<lparr>pg_enabled := val\<rparr>\<rparr>)
      else if addr = NV_PGRAPH_CTX_CONTROL then
        Inr (d\<lparr>pgraph := g\<lparr>channel_valid := (val AND NV_PGRAPH_CTX_CONTROL_CHID \<noteq> 0)\<rparr>\<rparr>)
      else if addr = NV_PGRAPH_CTX_USER then
        res_bind (pgraph_set_context_user g val) (\<lambda>g'. Inr (d\<lparr>pgraph := g'\<rparr>))
      else if addr = NV_PGRAPH_INCREMENT then
        Inr (if val AND NV_PGRAPH_INCREMENT_READ_3D \<noteq> 0 then d\<lparr>pgraph := g\<lparr>read_3d := read_3d g + 1\<rparr>\<rparr> else d)
      else if addr = NV_PGRAPH_FIFO then
        Inr (d\<lparr>pgraph := g\<lparr>fifo_access := (GET_MASK val NV_PGRAPH_FIFO_ACCESS \<noteq> 0)\<rparr>\<rparr>)
      else if addr = NV_PGRAPH_CHANNEL_CTX_TABLE then
        Inr (d\<lparr>pgraph := g\<lparr>context_table := push_bit 4 (ucast (val AND NV_PGRAPH_CHANNEL_CTX_TABLE_INST))\<rparr>\<rparr>)
      else if addr = NV_PGRAPH_CHANNEL_CTX_POINTER then
        Inr (d\<lparr>pgraph := g\<lparr>context_address := push_bit 4 (ucast (val AND NV_PGRAPH_CHANNEL_CTX_POINTER_INST))\<rparr>\<rparr>)
      else if addr = NV_PGRAPH_CHANNEL_CTX_TRIGGER then
        (if val AND NV_PGRAPH_CHANNEL_CTX_TRIGGER_READ_IN \<noteq> 0
         then res_bind (ramin_ldl d (unat (context_address g))) (\<lambda>context_user.
              res_bind (pgraph_set_context_user g context_user) (\<lambda>g'. Inr (d\<lparr>pgraph := g'\<rparr>)))
         else Inr d)
      else res_bind (arr_set (pg_regs g) (unat addr) val) (\<lambda>r. Inr (d\<lparr>pgraph := g\<lparr>pg_regs := r\<rparr>\<rparr>)))"

section \<open>PCRTC\<close>

definition pcrtc_read :: "NV2A_GPUState \<Rightarrow> hwaddr \<Rightarrow> u32" where
  "pcrtc_read d addr =
     (if addr = NV_PCRTC_INTR_0 then pcrtc_pending d
      else if addr = NV_PCRTC_INTR_EN_0 then pcrtc_enabled d
      else if addr = NV_PCRTC_START then ucast (pcrtc_start d)
      else 0)"

definition pcrtc_write :: "NV2A_GPUState \<Rightarrow> hwaddr \<Rightarrow> u32 \<Rightarrow> NV2A_GPUState res" where
  "pcrtc_write d addr val =
     (if addr = NV_PCRTC_INTR_0 then Inr (update_irq (d\<lparr>pcrtc_pending := pcrtc_pending d AND NOT val\<rparr>))
      else if addr = NV_PCRTC_INTR_EN_0 then Inr (update_irq (d\<lparr>pcrtc_enabled := val\<rparr>))
      else if addr = NV_PCRTC_START then
        (let start = ucast (val AND 0x03FFFFFF)
         in res_bind (assert_res (start < vram_size d)) (\<lambda>_. Inr (d\<lparr>pcrtc_start := start\<rparr>)))
      else Inr d)"

section \<open>USER\<close>

text \<open>The channels' submission areas, one of 64 kB for each channel.\<close>

definition user_read :: "NV2A_GPUState \<Rightarrow> hwaddr \<Rightarrow> u32 res" where
  "user_read d addr =
     (let channel_id = unat (ucast (drop_bit 16 addr) :: u32)
      in res_bind (assert_res (channel_id < NV2A_GPU_NUM_CHANNELS)) (\<lambda>_.
         res_bind (arr_get (channel_control d) channel_id) (\<lambda>control.
         res_bind (assert_res (bit (channel_modes d) channel_id)) (\<lambda>_.
         if addr AND 0xFFFF = NV_USER_DMA_PUT then Inr (ucast (dma_put control))
         else if addr AND 0xFFFF = NV_USER_DMA_GET then Inr (ucast (dma_get control))
         else if addr AND 0xFFFF = NV_USER_REF then Inr (ref control)
         else Inr 0))))"

definition user_write :: "NV2A_GPUState \<Rightarrow> hwaddr \<Rightarrow> u32 \<Rightarrow> NV2A_GPUState res option" where
  "user_write d addr val =
     (let channel_id = unat (ucast (drop_bit 16 addr) :: u32)
      in if \<not> channel_id < NV2A_GPU_NUM_CHANNELS then Some (Inl Assertion_failed)
         else if \<not> bit (channel_modes d) channel_id then Some (Inl Assertion_failed)
         else if addr AND 0xFFFF = NV_USER_DMA_PUT then
           (case control_write d channel_id (\<lambda>control. control\<lparr>dma_put := ucast val\<rparr>) of
              Inl e \<Rightarrow> Some (Inl e)
            | Inr d' \<Rightarrow> if push_enabled (cache1 d') then pfifo_run_pusher d' else Some (Inr d'))
         else if addr AND 0xFFFF = NV_USER_DMA_GET then
           Some (control_write d channel_id (\<lambda>control. control\<lparr>dma_get := ucast val\<rparr>))
         else if addr AND 0xFFFF = NV_USER_REF then
           Some (control_write d channel_id (\<lambda>control. control\<lparr>ref := val\<rparr>))
         else Some (Inr d))"

text \<open>\<open>nv2a_gpu_vga_gfx_update\<close>: each refresh of the screen raises the vertical blank interrupt.\<close>

definition nv2a_gpu_vga_gfx_update :: "NV2A_GPUState \<Rightarrow> NV2A_GPUState" where
  "nv2a_gpu_vga_gfx_update d = update_irq (d\<lparr>pcrtc_pending := pcrtc_pending d OR 1\<rparr>)"

section \<open>The invariant\<close>

text \<open>A write that may run the pusher: every result has the property, if there is one.\<close>

definition run_all :: "('a \<Rightarrow> bool) \<Rightarrow> 'a res option \<Rightarrow> bool" where
  "run_all P r \<longleftrightarrow> (\<forall>x. r = Some (Inr x) \<longrightarrow> P x)"

lemma run_all_Some: "P x \<Longrightarrow> run_all P (Some (Inr x))"
  by (simp add: run_all_def)

lemma run_all_if: "(c \<Longrightarrow> run_all P r) \<Longrightarrow> (\<not> c \<Longrightarrow> run_all P r') \<Longrightarrow> run_all P (if c then r else r')"
  by simp

lemma run_all_res: "res_all P r \<Longrightarrow> run_all P (Some r)"
  by (simp add: run_all_def res_all_def)

lemma update_irq_frame:
  "\<exists>p l. update_irq d = d\<lparr>pmc_pending := p, irq := l\<rparr>"
  by (auto simp: update_irq_def Let_def)

lemma gpu_ok_irq [simp]: "gpu_ok (update_irq d) = gpu_ok d"
  using update_irq_frame [of d] by (auto simp: gpu_ok_def)

lemma gpu_ok_lines [simp]:
  "gpu_ok (d\<lparr>pfifo_pending := a\<rparr>) = gpu_ok d" "gpu_ok (d\<lparr>pfifo_enabled := a\<rparr>) = gpu_ok d"
  "gpu_ok (d\<lparr>pmc_pending := a\<rparr>) = gpu_ok d" "gpu_ok (d\<lparr>pmc_enabled := a\<rparr>) = gpu_ok d"
  "gpu_ok (d\<lparr>pcrtc_pending := a\<rparr>) = gpu_ok d" "gpu_ok (d\<lparr>pcrtc_enabled := a\<rparr>) = gpu_ok d"
  "gpu_ok (d\<lparr>ptimer_pending := a\<rparr>) = gpu_ok d" "gpu_ok (d\<lparr>ptimer_enabled := a\<rparr>) = gpu_ok d"
  "gpu_ok (d\<lparr>config := m\<rparr>) = gpu_ok d" "gpu_ok (d\<lparr>pcrtc_start := h\<rparr>) = gpu_ok d"
  "gpu_ok (d\<lparr>channel_modes := a\<rparr>) = gpu_ok d" "gpu_ok (d\<lparr>channels_pending_push := a\<rparr>) = gpu_ok d"
  by (simp_all add: gpu_ok_def)

lemma gpu_ok_cache1: "gpu_ok d \<Longrightarrow> cache1_ok c \<Longrightarrow> gpu_ok (d\<lparr>cache1 := c\<rparr>)"
  by (simp add: gpu_ok_def)

lemma gpu_ok_pgraph: "gpu_ok d \<Longrightarrow> pgraph_ok g \<Longrightarrow> gpu_ok (d\<lparr>pgraph := g\<rparr>)"
  by (simp add: gpu_ok_def)

lemma gpu_okD:
  assumes "gpu_ok d"
  shows "cache1_ok (cache1 d)" "pgraph_ok (pgraph d)" "length (channel_control d) = 32" "length (pvideo_regs d) = 0x1000"
    "length (pfb_regs d) = 0x1000" "unat (c_channel_id (cache1 d)) < 32" "unat (pg_channel_id (pgraph d)) < 32"
    "length (pg_context (pgraph d)) = 32" "length (pg_regs (pgraph d)) = 0x2000"
  using assms by (simp_all add: gpu_ok_def cache1_ok_def pgraph_ok_def)

lemma pmc_write_ok: "gpu_ok d \<Longrightarrow> gpu_ok (pmc_write d addr val)"
  by (simp add: pmc_write_def)

lemma pbus_write_ok: "gpu_ok d \<Longrightarrow> gpu_ok (pbus_write d addr val)"
  by (simp add: pbus_write_def)

lemma control_write_ok: "gpu_ok d \<Longrightarrow> n < 32 \<Longrightarrow> res_ok gpu_ok (control_write d n f)"
  by (simp add: control_write_def gpu_okD res_ok_def) (simp add: gpu_ok_def)

lemma pfifo_read_ok: "gpu_ok d \<Longrightarrow> res_ok (\<lambda>_. True) (pfifo_read d addr)"
  unfolding pfifo_read_def Let_def by (intro res_ok_if res_ok_Inr TrueI) (simp_all add: gpu_okD res_ok_def)

text \<open>The fields of the registers keep the addresses and sizes inside of instance memory.\<close>

lemma ramht_address_ok: "unat (push_bit 12 (ucast (GET_MASK v NV_PFIFO_RAMHT_BASE_ADDRESS)) :: u64) \<le> 0x1F000"
  using ramht_base.get_less [of v] by (simp add: push_bit_eq_mult unat_word_ariths unat_ucast_u64)

lemma ramht_size_ok: "push_bit (unat (GET_MASK v NV_PFIFO_RAMHT_SIZE + 12)) (1 :: u32) \<in> {0x1000, 0x2000, 0x4000, 0x8000}"
proof -
  have "unat (GET_MASK v NV_PFIFO_RAMHT_SIZE) < 4" using ramht_size.get_less [of v] by simp
  moreover from this have "unat (GET_MASK v NV_PFIFO_RAMHT_SIZE + 12) = unat (GET_MASK v NV_PFIFO_RAMHT_SIZE) + 12"
    by (simp add: unat_word_ariths)
  ultimately have "unat (GET_MASK v NV_PFIFO_RAMHT_SIZE + 12) \<in> {12, 13, 14, 15}" by auto
  then show ?thesis by auto
qed

lemma dma_instance_ok: "unat (ucast (push_bit 4 (GET_MASK v NV_PFIFO_CACHE1_DMA_INSTANCE_ADDRESS)) :: u64) \<le> 0xFFFF0"
  using dma_instance.get_less [of v] by (simp add: push_bit_eq_mult unat_word_ariths unat_ucast_u64)

lemma dma_push_write_ok: "gpu_ok d \<Longrightarrow> run_all gpu_ok (dma_push_write d val)"
proof -
  assume ok: "gpu_ok d"
  have c1: "gpu_ok (d'\<lparr>cache1 := (cache1 d')\<lparr>dma_push_suspended := b\<rparr>\<rparr>)" if "gpu_ok d'" for d' b
    using that by (simp add: gpu_ok_def cache1_ok_def)
  have "gpu_ok (d\<lparr>cache1 := (cache1 d)\<lparr>dma_push_enabled := b, dma_push_suspended := e\<rparr>\<rparr>)" for b e
    using ok by (simp add: gpu_ok_def cache1_ok_def)
  then show ?thesis
    unfolding dma_push_write_def Let_def run_all_def
    by (auto simp: res_bind_Inr_iff split: if_splits intro!: c1 elim!: run_pusher_ok [rotated])
qed

lemma pull0_write_ok: "gpu_ok d \<Longrightarrow> gpu_ok (pull0_write d val)"
  by (simp add: pull0_write_def gpu_ok_def cache1_ok_def)

lemma pfifo_write_ok:
  assumes "gpu_ok d"
  shows "run_all gpu_ok (pfifo_write d addr val)"
proof -
  have c: "gpu_ok (d\<lparr>cache1 := c'\<rparr>)" if "unat (c_channel_id c') < 32" "length (bound_engines c') = 8"
      "unat (dma_instance c') \<le> 0xFFFF0" for c'
    using assms that by (simp add: gpu_ok_def cache1_ok_def)
  have k: "length (bound_engines (cache1 d)) = 8" "unat (dma_instance (cache1 d)) \<le> 0xFFFF0"
      "unat (c_channel_id (cache1 d)) < 32"
    using assms by (simp_all add: gpu_ok_def cache1_ok_def)
  have ht: "gpu_ok (d\<lparr>ramht_address := push_bit 12 (ucast (GET_MASK val NV_PFIFO_RAMHT_BASE_ADDRESS)),
      ramht_size := push_bit (unat (GET_MASK val NV_PFIFO_RAMHT_SIZE + 12)) 1, ramht_search := s\<rparr>)" for s
    using assms ramht_address_ok [of val] ramht_size_ok [of val] by (simp add: gpu_ok_def)
  have fc: "gpu_ok (d\<lparr>ramfc_address1 := a, ramfc_address2 := b, ramfc_size := s\<rparr>)" for a b s
    using assms by (simp add: gpu_ok_def)
  have control: "run_all gpu_ok (Some (control_write d (unat (c_channel_id (cache1 d))) f))" for f
    using control_write_ok [OF assms gpu_okD(6) [OF assms], of f] by (auto simp: run_all_def res_ok_def)
  show ?thesis
    unfolding pfifo_write_def Let_def
    by (intro run_all_if run_all_Some control dma_push_write_ok pull0_write_ok assms ht fc run_all_res res_all_bind res_all_Inr c)
      (simp_all add: assms k dma_instance_ok dma_state_write_def engine_write_def NV2A_GPU_NUM_SUBCHANNELS_def NV2A_GPU_NUM_CHANNELS_def)
qed

lemma pvideo_ok:
  assumes "gpu_ok d" "unat addr < 0x1000"
  shows "res_ok (\<lambda>_. True) (pvideo_read d addr)" "res_ok gpu_ok (pvideo_write d addr val)"
proof -
  have "unat NV_PVIDEO_BUFFER < 0x1000" by (simp add: reg_defs)
  moreover have "gpu_ok (d\<lparr>pvideo_regs := (pvideo_regs d)[i := v]\<rparr>)"
      "gpu_ok (d\<lparr>pvideo_regs := (pvideo_regs d)[i := v], enable_overlay := e\<rparr>)" for i v e
    using assms by (simp_all add: gpu_ok_def)
  ultimately show "res_ok (\<lambda>_. True) (pvideo_read d addr)" "res_ok gpu_ok (pvideo_write d addr val)"
    using assms by (simp_all add: pvideo_read_def pvideo_write_def gpu_okD res_ok_def)
qed

lemma pfb_ok:
  assumes "gpu_ok d" "unat addr < 0x1000"
  shows "res_ok (\<lambda>_. True) (pfb_read d addr)" "res_ok gpu_ok (pfb_write d addr val)"
  using assms by (simp_all add: pfb_read_def pfb_write_def gpu_okD res_ok_def) (simp add: gpu_ok_def)

lemma set_context_user_ok: "pgraph_ok g \<Longrightarrow> res_ok pgraph_ok (pgraph_set_context_user g val)"
proof -
  assume ok: "pgraph_ok g"
  have "GET_MASK val NV_PGRAPH_CTX_USER_CHID = drop_bit 24 (val AND NV_PGRAPH_CTX_USER_CHID)"
    by (simp add: GET_MASK_def ctx_user_chid.ffs_msk)
  then have "unat (drop_bit 24 (val AND NV_PGRAPH_CTX_USER_CHID)) < 32" using ctx_user_chid.get_less [of val] by simp
  then show ?thesis using ok by (simp add: pgraph_set_context_user_def Let_def res_ok_def pgraph_ok_def)
qed

lemma context_address_ok: "unat (push_bit 4 (ucast (val AND NV_PGRAPH_CHANNEL_CTX_POINTER_INST)) :: u64) \<le> 0xFFFF0"
proof -
  have "unat (val AND NV_PGRAPH_CHANNEL_CTX_POINTER_INST) \<le> 0xFFFF"
    using word_and_le1 [of val NV_PGRAPH_CHANNEL_CTX_POINTER_INST]
    by (simp add: word_le_nat_alt) (simp add: reg_defs)
  then show ?thesis by (simp add: push_bit_eq_mult unat_word_ariths unat_ucast_u64)
qed

lemma pgraph_read_ok:
  assumes "gpu_ok d" "unat addr < 0x2000"
  shows "res_ok (\<lambda>_. True) (pgraph_read d addr)"
  using assms unfolding pgraph_read_def Let_def
  by (intro res_ok_if res_ok_Inr TrueI) (simp_all add: gpu_okD res_ok_def)

lemma pgraph_write_ok:
  assumes "gpu_ok d" "unat addr < 0x2000"
  shows "res_ok gpu_ok (pgraph_write d addr val)"
proof -
  have g: "gpu_ok (d\<lparr>pgraph := g'\<rparr>)" if "pg_channel_id g' = pg_channel_id (pgraph d)" "pg_context g' = pg_context (pgraph d)"
      "unat (context_address g') \<le> 0xFFFF0" "length (pg_regs g') = 0x2000" for g'
    using assms that by (simp add: gpu_ok_def pgraph_ok_def)
  have k: "length (pg_regs (pgraph d)) = 0x2000" "unat (context_address (pgraph d)) \<le> 0xFFFF0"
    using assms(1) by (simp_all add: gpu_ok_def pgraph_ok_def)
  have user: "res_ok gpu_ok (res_bind (pgraph_set_context_user (pgraph d) v) (\<lambda>g'. Inr (d\<lparr>pgraph := g'\<rparr>)))" for v
    using set_context_user_ok [OF gpu_okD(2) [OF assms(1)]]
    by (rule res_ok_bind) (intro res_ok_Inr gpu_ok_pgraph [OF assms(1)])
  show ?thesis
    unfolding pgraph_write_def Let_def
    by (intro res_ok_if res_ok_Inr user g)
      (use assms k user in \<open>simp_all add: context_address_ok ramin_ldl_ok res_ok_Inr g\<close>)
qed

lemma pcrtc_write_ok: "gpu_ok d \<Longrightarrow> res_safe Out_of_bounds gpu_ok (pcrtc_write d addr val)"
  unfolding pcrtc_write_def Let_def by (intro res_safe_if res_safe_assert res_safe_Inr) simp_all

lemma user_read_ok: "gpu_ok d \<Longrightarrow> res_safe Out_of_bounds (\<lambda>_. True) (user_read d addr)"
  unfolding user_read_def Let_def
  by (intro res_safe_assert) (simp add: gpu_okD NV2A_GPU_NUM_CHANNELS_def res_safe_def assert_res_def)

lemma user_write_ok:
  assumes "gpu_ok d"
  shows "run_all gpu_ok (user_write d addr val)"
proof -
  have put: "run_all gpu_ok (case control_write d n f of Inl e \<Rightarrow> Some (Inl e)
      | Inr d' \<Rightarrow> if push_enabled (cache1 d') then pfifo_run_pusher d' else Some (Inr d'))" if "n < 32" for n f
    using control_write_ok [OF assms that, of f] by (auto simp: run_all_def res_ok_def split: if_splits intro: run_pusher_ok)
  have control: "run_all gpu_ok (Some (control_write d n f))" if "n < 32" for n f
    using control_write_ok [OF assms that, of f] by (auto simp: run_all_def res_ok_def)
  have err: "run_all gpu_ok (Some (Inl e))" for e by (simp add: run_all_def)
  show ?thesis
    unfolding user_write_def Let_def NV2A_GPU_NUM_CHANNELS_def
    by (intro run_all_if err put control run_all_Some assms) simp_all
qed

section \<open>Interrupts\<close>

text \<open>The PMC's pending register as a function of the three units' requests.\<close>

definition irq_lines :: "bool \<Rightarrow> bool \<Rightarrow> bool \<Rightarrow> u32 \<Rightarrow> u32" where
  "irq_lines a b c p =
     (let p = (if a then p OR NV_PMC_INTR_0_PFIFO else p AND NOT NV_PMC_INTR_0_PFIFO);
          p = (if b then p OR NV_PMC_INTR_0_PCRTC else p AND NOT NV_PMC_INTR_0_PCRTC)
      in if c then p OR NV_PMC_INTR_0_PGRAPH else p AND NOT NV_PMC_INTR_0_PGRAPH)"

definition irq_pending :: "NV2A_GPUState \<Rightarrow> u32" where
  "irq_pending d = irq_lines (pfifo_pending d AND pfifo_enabled d \<noteq> 0) (pcrtc_pending d AND pcrtc_enabled d \<noteq> 0)
     (pg_pending (pgraph d) AND pg_enabled (pgraph d) \<noteq> 0) (pmc_pending d)"

lemma update_irq_eq: "update_irq d = d\<lparr>pmc_pending := irq_pending d, irq := (irq_pending d \<noteq> 0 \<and> pmc_enabled d \<noteq> 0)\<rparr>"
  by (simp only: update_irq_def irq_pending_def irq_lines_def Let_def)

lemma irq_lines_idem: "irq_lines a b c (irq_lines a b c p) = irq_lines a b c p"
  unfolding irq_lines_def Let_def by (rule bit_word_eqI) (auto simp: bit_simps)

lemma irq_pending_idem: "irq_pending (d\<lparr>pmc_pending := irq_pending d, irq := l\<rparr>) = irq_pending d"
  by (simp add: irq_pending_def irq_lines_idem)

lemma update_irq_idem: "update_irq (update_irq d) = update_irq d"
  by (simp only: update_irq_eq irq_pending_idem) simp

text \<open>The line and the PMC's register agree with the units' registers.\<close>

definition irq_settled :: "NV2A_GPUState \<Rightarrow> bool" where
  "irq_settled d \<longleftrightarrow> update_irq d = d"

lemma irq_settled_update [simp]: "irq_settled (update_irq d)"
  by (simp add: irq_settled_def update_irq_idem)

lemma irq_settled_iff:
  "irq_settled d \<longleftrightarrow> irq_pending d = pmc_pending d \<and> irq d = (pmc_pending d \<noteq> 0 \<and> pmc_enabled d \<noteq> 0)"
proof
  assume "irq_pending d = pmc_pending d \<and> irq d = (pmc_pending d \<noteq> 0 \<and> pmc_enabled d \<noteq> 0)"
  then have "update_irq d = d\<lparr>pmc_pending := pmc_pending d, irq := irq d\<rparr>" by (simp only: update_irq_eq)
  then show "irq_settled d" by (simp add: irq_settled_def)
next
  assume "irq_settled d"
  then have "pmc_pending (update_irq d) = pmc_pending d" "irq (update_irq d) = irq d" by (simp_all only: irq_settled_def)
  then show "irq_pending d = pmc_pending d \<and> irq d = (pmc_pending d \<noteq> 0 \<and> pmc_enabled d \<noteq> 0)"
    by (simp add: update_irq_eq)
qed

text \<open>Only the interrupt registers matter.\<close>

lemma irq_settled_cong:
  assumes "pmc_pending d' = pmc_pending d" "pmc_enabled d' = pmc_enabled d" "irq d' = irq d"
    "pfifo_pending d' = pfifo_pending d" "pfifo_enabled d' = pfifo_enabled d"
    "pcrtc_pending d' = pcrtc_pending d" "pcrtc_enabled d' = pcrtc_enabled d"
    "pg_pending (pgraph d') = pg_pending (pgraph d)" "pg_enabled (pgraph d') = pg_enabled (pgraph d)"
  shows "irq_settled d' = irq_settled d"
  using assms by (simp only: irq_settled_iff irq_pending_def)

lemma irq_settled_updates [simp]:
  "irq_settled (d\<lparr>cache1 := c\<rparr>) = irq_settled d" "irq_settled (d\<lparr>channel_control := cc\<rparr>) = irq_settled d"
  "irq_settled (d\<lparr>config := m\<rparr>) = irq_settled d" "irq_settled (d\<lparr>pcrtc_start := h\<rparr>) = irq_settled d"
  "irq_settled (d\<lparr>channel_modes := a\<rparr>) = irq_settled d" "irq_settled (d\<lparr>channels_pending_push := a\<rparr>) = irq_settled d"
  "irq_settled (d\<lparr>pvideo_regs := rs\<rparr>) = irq_settled d" "irq_settled (d\<lparr>pfb_regs := rs\<rparr>) = irq_settled d"
  "irq_settled (d\<lparr>enable_overlay := b\<rparr>) = irq_settled d" "irq_settled (d\<lparr>pullers_created := n\<rparr>) = irq_settled d"
  "irq_settled (d\<lparr>ramht_address := h, ramht_size := a, ramht_search := e\<rparr>) = irq_settled d"
  "irq_settled (d\<lparr>ramfc_address1 := h, ramfc_address2 := h', ramfc_size := a\<rparr>) = irq_settled d"
  by (rule irq_settled_cong; simp)+

lemma irq_settled_pusher: "pfifo_run_pusher d = Some (Inr d') \<Longrightarrow> irq_settled d' = irq_settled d"
  by (drule run_pusher_frame) auto

section \<open>Registers that read back\<close>

text \<open>The bits that the registers of PFIFO keep of what is written to them.\<close>

definition pfifo_mask :: "hwaddr \<Rightarrow> u32 option" where
  "pfifo_mask addr = map_of
     [(NV_PFIFO_INTR_EN_0, 0xFFFFFFFF), (NV_PFIFO_RAMHT, 0x030301F0), (NV_PFIFO_RAMFC, 0x00FF01FC),
      (NV_PFIFO_MODE, 0xFFFFFFFF), (NV_PFIFO_DMA, 0xFFFFFFFF), (NV_PFIFO_CACHE1_PUSH0, 1),
      (NV_PFIFO_CACHE1_PUSH1, 0x11F), (NV_PFIFO_CACHE1_DMA_STATE, 0xFFFCFFFD),
      (NV_PFIFO_CACHE1_DMA_INSTANCE, 0xFFFF), (NV_PFIFO_CACHE1_DMA_PUT, 0xFFFFFFFF),
      (NV_PFIFO_CACHE1_DMA_GET, 0xFFFFFFFF), (NV_PFIFO_CACHE1_DMA_SUBROUTINE, 0x1FFFFFFD),
      (NV_PFIFO_CACHE1_PULL0, 1), (NV_PFIFO_CACHE1_ENGINE, 0xFFFF), (NV_PFIFO_CACHE1_DMA_DCOUNT, 0x1FFC),
      (NV_PFIFO_CACHE1_DMA_GET_JMP_SHADOW, 0x1FFFFFFC), (NV_PFIFO_CACHE1_DMA_RSVD_SHADOW, 0xFFFFFFFF),
      (NV_PFIFO_CACHE1_DMA_DATA_SHADOW, 0xFFFFFFFF)] addr"

lemma ucast_drop_push: "k \<le> 32 \<Longrightarrow> ucast (drop_bit k (push_bit k (ucast (x :: u32)) :: u64)) = x"
  by (rule bit_word_eqI) (auto simp: bit_simps)

lemma add_field: "((v AND m) AND NOT n) OR (v AND n) = v AND (m OR n)" for v m n :: u32
  by (rule bit_word_eqI) (auto simp: bit_simps)

lemma first_field: "(0 AND NOT n) OR (v AND n) = v AND n" for v n :: u32
  by simp

lemmas reassemble = first_field add_field
  ramht_base.set_get_eq ramht_search.set_get_eq ramht_size.set_get_eq ramfc_base1.set_get_eq ramfc_base2.set_get_eq
  ramfc_size.set_get_eq push1_chid.set_get_eq push1_mode.set_get_eq dma_state_type.set_get_eq dma_state_method.set_get_eq
  dma_state_subch.set_get_eq dma_state_count.set_get_eq dma_state_error.set_get_eq dma_instance.set_get_eq

lemma ramht_readback:
  "SET_MASK (SET_MASK (SET_MASK 0
     NV_PFIFO_RAMHT_BASE_ADDRESS (ucast (drop_bit 12 (push_bit 12 (ucast (GET_MASK v NV_PFIFO_RAMHT_BASE_ADDRESS)) :: u64))))
     NV_PFIFO_RAMHT_SEARCH (GET_MASK v NV_PFIFO_RAMHT_SEARCH))
     NV_PFIFO_RAMHT_SIZE (of_int (int (ffs (push_bit (unat (GET_MASK v NV_PFIFO_RAMHT_SIZE + 12)) 1)) - 13))
   = v AND 0x030301F0"
proof -
  define g where "g = GET_MASK v NV_PFIFO_RAMHT_SIZE"
  have g: "unat g < 4" using ramht_size.get_less [of v] by (simp add: g_def)
  then have "unat (g + 12) = unat g + 12" by (simp add: unat_word_ariths)
  then have "ffs (push_bit (unat (g + 12)) 1) = unat g + 13" using g ffs_two_power [of "unat g + 12"] by simp
  then have size: "(of_int (int (ffs (push_bit (unat (g + 12)) 1)) - 13) :: u32) = g" by simp
  have base: "ucast (drop_bit 12 (push_bit 12 (ucast x)) :: u64) = x" for x :: u32 by (rule ucast_drop_push) simp
  show ?thesis by (simp only: base size [unfolded g_def] reassemble) (simp add: reg_defs)
qed

lemma ramfc_readback:
  "SET_MASK (SET_MASK (SET_MASK 0
     NV_PFIFO_RAMFC_BASE_ADDRESS1 (ucast (drop_bit 10 (push_bit 10 (ucast (GET_MASK v NV_PFIFO_RAMFC_BASE_ADDRESS1)) :: u64))))
     NV_PFIFO_RAMFC_BASE_ADDRESS2 (ucast (drop_bit 10 (push_bit 10 (ucast (GET_MASK v NV_PFIFO_RAMFC_BASE_ADDRESS2)) :: u64))))
     NV_PFIFO_RAMFC_SIZE (GET_MASK v NV_PFIFO_RAMFC_SIZE)
   = v AND 0x00FF01FC"
proof -
  have base: "ucast (drop_bit 10 (push_bit 10 (ucast x)) :: u64) = x" for x :: u32 by (rule ucast_drop_push) simp
  show ?thesis by (simp only: base reassemble) (simp add: reg_defs)
qed

lemma dma_state_readback:
  "SET_MASK (SET_MASK (SET_MASK (SET_MASK (SET_MASK 0
     NV_PFIFO_CACHE1_DMA_STATE_METHOD_TYPE (of_bool (method_nonincreasing (dma_state_write c v))))
     NV_PFIFO_CACHE1_DMA_STATE_METHOD (ucast (drop_bit 2 (c_method (dma_state_write c v)))))
     NV_PFIFO_CACHE1_DMA_STATE_SUBCHANNEL (ucast (c_subchannel (dma_state_write c v))))
     NV_PFIFO_CACHE1_DMA_STATE_METHOD_COUNT (ucast (method_count (dma_state_write c v))))
     NV_PFIFO_CACHE1_DMA_STATE_ERROR (c_error (dma_state_write c v))
   = v AND 0xFFFCFFFD"
proof -
  have m: "ucast (drop_bit 2 (ucast (push_bit 2 (GET_MASK v NV_PFIFO_CACHE1_DMA_STATE_METHOD)) :: 14 word))
      = GET_MASK v NV_PFIFO_CACHE1_DMA_STATE_METHOD"
    by (rule bit_word_eqI) (auto simp: bit_simps dma_state_method.bit_get)
  have t: "of_bool (GET_MASK v NV_PFIFO_CACHE1_DMA_STATE_METHOD_TYPE \<noteq> 0) = GET_MASK v NV_PFIFO_CACHE1_DMA_STATE_METHOD_TYPE"
    by (rule dma_state_type.flag_get) simp
  have s: "ucast (ucast (GET_MASK v NV_PFIFO_CACHE1_DMA_STATE_SUBCHANNEL) :: 3 word) = GET_MASK v NV_PFIFO_CACHE1_DMA_STATE_SUBCHANNEL"
    by (rule dma_state_subch.narrow_get) simp
  have n: "ucast (ucast (GET_MASK v NV_PFIFO_CACHE1_DMA_STATE_METHOD_COUNT) :: 24 word) = GET_MASK v NV_PFIFO_CACHE1_DMA_STATE_METHOD_COUNT"
    by (rule dma_state_count.narrow_get) simp
  have sel: "method_nonincreasing (dma_state_write c v) = (GET_MASK v NV_PFIFO_CACHE1_DMA_STATE_METHOD_TYPE \<noteq> 0)"
      "c_method (dma_state_write c v) = ucast (push_bit 2 (GET_MASK v NV_PFIFO_CACHE1_DMA_STATE_METHOD))"
      "c_subchannel (dma_state_write c v) = ucast (GET_MASK v NV_PFIFO_CACHE1_DMA_STATE_SUBCHANNEL)"
      "method_count (dma_state_write c v) = ucast (GET_MASK v NV_PFIFO_CACHE1_DMA_STATE_METHOD_COUNT)"
      "c_error (dma_state_write c v) = GET_MASK v NV_PFIFO_CACHE1_DMA_STATE_ERROR"
    by (simp_all add: dma_state_write_def)
  show ?thesis by (simp only: sel m t s n reassemble) (simp add: reg_defs)
qed

lemma dma_instance_readback:
  "SET_MASK 0 NV_PFIFO_CACHE1_DMA_INSTANCE_ADDRESS
     (ucast (drop_bit 4 (ucast (push_bit 4 (GET_MASK v NV_PFIFO_CACHE1_DMA_INSTANCE_ADDRESS)) :: u64))) = v AND 0xFFFF"
proof -
  have "ucast (drop_bit 4 (ucast (push_bit 4 (GET_MASK v NV_PFIFO_CACHE1_DMA_INSTANCE_ADDRESS)) :: u64))
      = GET_MASK v NV_PFIFO_CACHE1_DMA_INSTANCE_ADDRESS"
    by (rule bit_word_eqI) (auto simp: bit_simps dma_instance.bit_get)
  then show ?thesis by (simp only: reassemble) (simp add: reg_defs)
qed

lemma bit_fold_or: "bit (fold (\<lambda>i r. r OR f i) is r) n \<longleftrightarrow> bit r n \<or> (\<exists>i\<in>set is. bit (f i) n)" for r :: u32
  by (induction "is" arbitrary: r) (auto simp: bit_simps)

lemma engine_readback: "engine_read (engine_write v) = v AND 0xFFFF"
proof -
  have three: "x AND 3 = take_bit 2 x" for x :: u32 by (simp add: take_bit_eq_mask mask_eq_exp_minus_1)
  have low: "v AND 0xFFFF = take_bit 16 v" by (simp add: take_bit_eq_mask mask_eq_exp_minus_1)
  have "engine_read (engine_write v) = fold (\<lambda>i r. r OR push_bit (2 * i) (take_bit 2 (drop_bit (2 * i) v))) [0..<8] 0"
    unfolding engine_read_def by (rule fold_cong) (simp_all add: engine_write_def three NV2A_GPU_NUM_SUBCHANNELS_def)
  also have "\<dots> = take_bit 16 v"
  proof (rule bit_word_eqI)
    fix n :: nat
    assume n: "n < LENGTH(32)"
    have "(\<exists>i\<in>{0..<8}. bit (push_bit (2 * i) (take_bit 2 (drop_bit (2 * i) v))) n) \<longleftrightarrow> n < 16 \<and> bit v n"
    proof
      assume "n < 16 \<and> bit v n"
      then show "\<exists>i\<in>{0..<8}. bit (push_bit (2 * i) (take_bit 2 (drop_bit (2 * i) v))) n"
        using n by (intro bexI [of _ "n div 2"]) (auto simp: bit_simps)
    qed (auto simp: bit_simps)
    then show "bit (fold (\<lambda>i r. r OR push_bit (2 * i) (take_bit 2 (drop_bit (2 * i) v))) [0..<8] 0) n = bit (take_bit 16 v) n"
      by (simp add: bit_fold_or bit_take_bit_iff del: upt_Suc)
  qed
  finally show ?thesis by (simp only: low)
qed

lemmas pfifo_offsets =
  NV_PFIFO_INTR_0_def NV_PFIFO_INTR_EN_0_def NV_PFIFO_RAMHT_def NV_PFIFO_RAMFC_def
  NV_PFIFO_RUNOUT_STATUS_def NV_PFIFO_MODE_def NV_PFIFO_DMA_def NV_PFIFO_CACHE1_PUSH0_def
  NV_PFIFO_CACHE1_PUSH1_def NV_PFIFO_CACHE1_STATUS_def NV_PFIFO_CACHE1_DMA_PUSH_def
  NV_PFIFO_CACHE1_DMA_STATE_def NV_PFIFO_CACHE1_DMA_INSTANCE_def NV_PFIFO_CACHE1_DMA_PUT_def
  NV_PFIFO_CACHE1_DMA_GET_def NV_PFIFO_CACHE1_DMA_SUBROUTINE_def NV_PFIFO_CACHE1_PULL0_def
  NV_PFIFO_CACHE1_ENGINE_def NV_PFIFO_CACHE1_DMA_DCOUNT_def NV_PFIFO_CACHE1_DMA_GET_JMP_SHADOW_def
  NV_PFIFO_CACHE1_DMA_RSVD_SHADOW_def NV_PFIFO_CACHE1_DMA_DATA_SHADOW_def

text \<open>A register that keeps the bits of a mask.\<close>

definition reads_back :: "NV2A_GPUState \<Rightarrow> u32 \<Rightarrow> hwaddr \<Rightarrow> u32 \<Rightarrow> bool" where
  "reads_back d val addr m \<longleftrightarrow> (\<exists>d'. pfifo_write d addr val = Some (Inr d') \<and> pfifo_read d' addr = Inr (val AND m))"

lemma all_bits: "val AND 0xFFFFFFFF = val" for val :: u32
proof -
  have "(0xFFFFFFFF :: u32) = -1" by simp
  then show ?thesis by (simp only: and.right_neutral)
qed

lemma irq_enable_reads_back: "reads_back d val NV_PFIFO_INTR_EN_0 0xFFFFFFFF"
proof -
  obtain p l where "update_irq (d\<lparr>pfifo_enabled := val\<rparr>) = d\<lparr>pfifo_enabled := val, pmc_pending := p, irq := l\<rparr>"
    using update_irq_frame by blast
  then show ?thesis by (simp add: reads_back_def pfifo_write_def pfifo_read_def pfifo_offsets all_bits)
qed

lemma plain_registers_read_back:
  "reads_back d val NV_PFIFO_MODE 0xFFFFFFFF" "reads_back d val NV_PFIFO_DMA 0xFFFFFFFF"
  "reads_back d val NV_PFIFO_CACHE1_DMA_RSVD_SHADOW 0xFFFFFFFF" "reads_back d val NV_PFIFO_CACHE1_DMA_DATA_SHADOW 0xFFFFFFFF"
  "reads_back d val NV_PFIFO_CACHE1_DMA_DCOUNT 0x1FFC"
  by (simp_all add: reads_back_def pfifo_write_def pfifo_read_def pfifo_offsets all_bits NV_PFIFO_CACHE1_DMA_DCOUNT_VALUE_def)

lemma ramht_reads_back: "reads_back d val NV_PFIFO_RAMHT 0x030301F0"
  using ramht_readback [of val] by (simp add: reads_back_def pfifo_write_def pfifo_read_def pfifo_offsets)

lemma ramfc_reads_back: "reads_back d val NV_PFIFO_RAMFC 0x00FF01FC"
  using ramfc_readback [of val] by (simp add: reads_back_def pfifo_write_def pfifo_read_def pfifo_offsets)

lemma dma_state_reads_back: "reads_back d val NV_PFIFO_CACHE1_DMA_STATE 0xFFFCFFFD"
  using dma_state_readback [of "cache1 d" val] by (simp add: reads_back_def pfifo_write_def pfifo_read_def pfifo_offsets)

lemma dma_instance_reads_back: "reads_back d val NV_PFIFO_CACHE1_DMA_INSTANCE 0xFFFF"
  using dma_instance_readback [of val] by (simp add: reads_back_def pfifo_write_def pfifo_read_def pfifo_offsets)

lemma engine_reads_back: "reads_back d val NV_PFIFO_CACHE1_ENGINE 0xFFFF"
  using engine_readback [of val] by (simp add: reads_back_def pfifo_write_def pfifo_read_def pfifo_offsets)

lemma and_one_flag: "of_bool (v AND 1 \<noteq> 0) = v AND 1" for v :: u32
proof -
  have "v AND 1 = of_bool (bit v 0)" by (rule bit_word_eqI) (auto simp: bit_simps bit_1_iff)
  then show ?thesis by simp
qed

lemma ucast_ucast_u64: "ucast (ucast x :: u64) = x" for x :: u32
  by (rule bit_word_eqI) (auto simp: bit_simps)

lemma push0_reads_back: "reads_back d val NV_PFIFO_CACHE1_PUSH0 1"
  using and_one_flag [of val] by (simp add: reads_back_def pfifo_write_def pfifo_read_def pfifo_offsets NV_PFIFO_CACHE1_PUSH0_ACCESS_def)

lemma pull0_reads_back: "reads_back d val NV_PFIFO_CACHE1_PULL0 1"
  using and_one_flag [of val]
  by (auto simp: reads_back_def pfifo_write_def pfifo_read_def pfifo_offsets pull0_write_def NV_PFIFO_CACHE1_PULL0_ACCESS_def)

lemma push1_reads_back: "reads_back d val NV_PFIFO_CACHE1_PUSH1 0x11F"
proof -
  have "SET_MASK (SET_MASK 0 NV_PFIFO_CACHE1_PUSH1_CHID (GET_MASK val NV_PFIFO_CACHE1_PUSH1_CHID))
      NV_PFIFO_CACHE1_PUSH1_MODE (GET_MASK val NV_PFIFO_CACHE1_PUSH1_MODE) = val AND 0x11F"
    by (simp only: reassemble) (simp add: reg_defs)
  then show ?thesis using push1_chid.get_less [of val]
    by (simp add: reads_back_def pfifo_write_def pfifo_read_def pfifo_offsets NV2A_GPU_NUM_CHANNELS_def)
qed

lemma pointers_read_back:
  assumes "gpu_ok d"
  shows "reads_back d val NV_PFIFO_CACHE1_DMA_PUT 0xFFFFFFFF" "reads_back d val NV_PFIFO_CACHE1_DMA_GET 0xFFFFFFFF"
  using gpu_okD(3,6) [OF assms]
  by (simp_all add: reads_back_def pfifo_write_def pfifo_read_def control_write_def pfifo_offsets all_bits Let_def ucast_ucast_u64)

lemma subroutine_reads_back: "reads_back d val NV_PFIFO_CACHE1_DMA_SUBROUTINE 0x1FFFFFFD"
proof -
  have "ucast (ucast (val AND m) OR of_bool (val AND 1 \<noteq> 0) :: u64) = val AND (m OR 1)" for m
  proof -
    have "(of_bool (val AND 1 \<noteq> 0) :: u64) = ucast (of_bool (val AND 1 \<noteq> 0) :: u32)" by simp
    then have "(of_bool (val AND 1 \<noteq> 0) :: u64) = ucast (val AND 1)" by (simp only: and_one_flag)
    then show ?thesis by (simp only:) (rule bit_word_eqI, auto simp: bit_simps)
  qed
  from this [of "0x1FFFFFFC"] show ?thesis
    by (simp add: reads_back_def pfifo_write_def pfifo_read_def pfifo_offsets NV_PFIFO_CACHE1_DMA_SUBROUTINE_RETURN_OFFSET_def
        NV_PFIFO_CACHE1_DMA_SUBROUTINE_STATE_def)
qed

lemma jmp_shadow_reads_back: "reads_back d val NV_PFIFO_CACHE1_DMA_GET_JMP_SHADOW 0x1FFFFFFC"
  using ucast_ucast_u64 [of "val AND 0x1FFFFFFC"]
  by (simp add: reads_back_def pfifo_write_def pfifo_read_def pfifo_offsets NV_PFIFO_CACHE1_DMA_GET_JMP_SHADOW_OFFSET_def)

lemmas pfifo_read_backs = irq_enable_reads_back plain_registers_read_back ramht_reads_back ramfc_reads_back dma_state_reads_back
  dma_instance_reads_back engine_reads_back push0_reads_back pull0_reads_back push1_reads_back subroutine_reads_back
  jmp_shadow_reads_back pointers_read_back

text \<open>
  C32. Every register of PFIFO that stores a value reads back the bits it has of what was written, although
  the device keeps them as separate addresses, sizes, flags and counts.
\<close>

theorem pfifo_registers_read_back:
  assumes "gpu_ok d" "pfifo_mask addr = Some m"
  shows "\<exists>d'. pfifo_write d addr val = Some (Inr d') \<and> pfifo_read d' addr = Inr (val AND m)"
proof -
  have "reads_back d val addr m"
    using assms(2) pfifo_read_backs [of d val] assms(1) unfolding pfifo_mask_def
    by (simp split: if_splits)
  then show ?thesis by (simp add: reads_back_def)
qed

theorem pfifo_registers_read_back_witness:
  "\<exists>d'. pfifo_write (nv2a_gpu_initfn (\<lambda>_. 0) 0x4000000 (\<lambda>_. 0)) NV_PFIFO_RAMHT 0xFFFFFFFF = Some (Inr d')
     \<and> pfifo_read d' NV_PFIFO_RAMHT = Inr 0x030301F0"
  using pfifo_registers_read_back [OF gpu_ok_init, of NV_PFIFO_RAMHT "0x030301F0" "\<lambda>_. 0" "0x4000000" "\<lambda>_. 0" "0xFFFFFFFF"]
  by (simp add: pfifo_mask_def pfifo_offsets)

lemma ctx_user_value:
  "SET_MASK (SET_MASK (SET_MASK (SET_MASK 0
      NV_PGRAPH_CTX_USER_CHANNEL_3D (of_bool (GET_MASK val NV_PGRAPH_CTX_USER_CHANNEL_3D \<noteq> 0)))
      NV_PGRAPH_CTX_USER_CHANNEL_3D_VALID 1)
      NV_PGRAPH_CTX_USER_SUBCH (push_bit 13 (GET_MASK val NV_PGRAPH_CTX_USER_SUBCH)))
      NV_PGRAPH_CTX_USER_CHID (drop_bit 24 (val AND NV_PGRAPH_CTX_USER_CHID))
   = (val AND (NV_PGRAPH_CTX_USER_CHID OR NV_PGRAPH_CTX_USER_CHANNEL_3D)) OR NV_PGRAPH_CTX_USER_CHANNEL_3D_VALID"
proof -
  have flag: "of_bool (GET_MASK val NV_PGRAPH_CTX_USER_CHANNEL_3D \<noteq> 0) = GET_MASK val NV_PGRAPH_CTX_USER_CHANNEL_3D"
    by (rule ctx_user_3d.flag_get) simp
  show ?thesis unfolding flag
  proof (rule bit_word_eqI)
    fix n :: nat
    assume "n < LENGTH(32)"
    then show "bit (SET_MASK (SET_MASK (SET_MASK (SET_MASK 0 NV_PGRAPH_CTX_USER_CHANNEL_3D (GET_MASK val NV_PGRAPH_CTX_USER_CHANNEL_3D))
        NV_PGRAPH_CTX_USER_CHANNEL_3D_VALID 1) NV_PGRAPH_CTX_USER_SUBCH (push_bit 13 (GET_MASK val NV_PGRAPH_CTX_USER_SUBCH)))
        NV_PGRAPH_CTX_USER_CHID (drop_bit 24 (val AND NV_PGRAPH_CTX_USER_CHID))) n
      = bit ((val AND (NV_PGRAPH_CTX_USER_CHID OR NV_PGRAPH_CTX_USER_CHANNEL_3D)) OR NV_PGRAPH_CTX_USER_CHANNEL_3D_VALID) n"
      by (auto simp: ctx_user_3d.bit_set ctx_user_valid.bit_set ctx_user_subch.bit_set ctx_user_chid.bit_set ctx_user_3d.bit_get
          bit_simps ctx_user_3d.bit_msk ctx_user_valid.bit_msk ctx_user_chid.bit_msk)
  qed
qed

text \<open>
  The context register of PGRAPH reads back the channel and its 3D flag, but never the subchannel, because
  the read shifts it into place twice.
\<close>

lemma ctx_user_subchannel_lost:
  assumes "gpu_ok d"
  shows "\<exists>d'. pgraph_write d NV_PGRAPH_CTX_USER val = Inr d' \<and> pgraph_read d' NV_PGRAPH_CTX_USER
    = Inr ((val AND (NV_PGRAPH_CTX_USER_CHID OR NV_PGRAPH_CTX_USER_CHANNEL_3D)) OR NV_PGRAPH_CTX_USER_CHANNEL_3D_VALID)"
proof -
  have "GET_MASK val NV_PGRAPH_CTX_USER_CHID = drop_bit 24 (val AND NV_PGRAPH_CTX_USER_CHID)"
    by (simp add: GET_MASK_def ctx_user_chid.ffs_msk)
  then have "unat (drop_bit 24 (val AND NV_PGRAPH_CTX_USER_CHID)) < length (pg_context (pgraph d))"
    using ctx_user_chid.get_less [of val] gpu_okD(8) [OF assms] by simp
  then show ?thesis using ctx_user_value [of val]
    by (simp add: pgraph_write_def pgraph_read_def pgraph_set_context_user_def Let_def
        NV_PGRAPH_INTR_def NV_PGRAPH_INTR_EN_def NV_PGRAPH_CTX_CONTROL_def NV_PGRAPH_CTX_USER_def NV_PGRAPH_NSOURCE_def)
qed

lemma ctx_user_subchannel_lost_witness:
  "\<exists>d'. pgraph_write (nv2a_gpu_initfn (\<lambda>_. 0) 0x4000000 (\<lambda>_. 0)) NV_PGRAPH_CTX_USER 0x0200E001 = Inr d'
     \<and> pgraph_read d' NV_PGRAPH_CTX_USER = Inr 0x02000011"
  using ctx_user_subchannel_lost [OF gpu_ok_init, of "\<lambda>_. 0" "0x4000000" "\<lambda>_. 0" "0x0200E001"]
  by (simp add: NV_PGRAPH_CTX_USER_CHID_def NV_PGRAPH_CTX_USER_CHANNEL_3D_def NV_PGRAPH_CTX_USER_CHANNEL_3D_VALID_def)

end
