(* ===== verification/NV2A_Clock.thy ===== *)
theory NV2A_Clock
  imports NV2A_Registers NV2A_State
begin

text \<open>
  The clocks of the NV2A: the PLL registers of PRAMDAC and the timer of PTIMER (\<open>src/hw/xbox/nv2a_gpu.c\<close>),
  with \<open>muldiv64\<close> of \<open>src/include/qemu-common.h\<close>. Shown here: \<open>muldiv64\<close> is the quotient of the full
  product; the frequency of the core clock never overflows; the two halves of the time that the guest reads
  are the virtual clock scaled by the registers, as long as the factors fit 32 bits; reading the time
  before the guest has set a denominator divides by zero.
\<close>

section \<open>Scaling\<close>

text \<open>
  The product is computed in two halves of 32 bits. The host's union puts the high and low word of the
  quotient together.
\<close>

definition muldiv64 :: "u64 \<Rightarrow> u32 \<Rightarrow> u32 \<Rightarrow> u64 res" where
  "muldiv64 a b c =
     (let rl = ucast (ucast a :: u32) * ucast b;
          rh = ucast (ucast (drop_bit 32 a) :: u32) * ucast b + drop_bit 32 rl;
          c' = ucast c :: u64
      in if c = 0 then Inl Division_by_zero
         else let hi = ucast (rh div c') :: u32;
                  lo = ucast ((push_bit 32 (rh mod c') + (rl AND 0xffffffff)) div c') :: u32
              in Inr (push_bit 32 (ucast hi) OR ucast lo))"

text \<open>Long division by one digit of 32 bits.\<close>

lemma long_division:
  fixes rh l c :: nat
  assumes "0 < c" "l < 2 ^ 32"
  shows "(rh * 2 ^ 32 + l) div c = (rh div c) * 2 ^ 32 + ((rh mod c) * 2 ^ 32 + l) div c"
    and "((rh mod c) * 2 ^ 32 + l) div c < 2 ^ 32"
proof -
  have "rh * 2 ^ 32 + l = c * ((rh div c) * 2 ^ 32) + ((rh mod c) * 2 ^ 32 + l)"
    using mult_div_mod_eq [of c rh] by (metis add.assoc mult.assoc distrib_right)
  then show "(rh * 2 ^ 32 + l) div c = (rh div c) * 2 ^ 32 + ((rh mod c) * 2 ^ 32 + l) div c"
    using assms(1) by (simp only: div_mult_self4)
  have "Suc (rh mod c) * 2 ^ 32 \<le> c * 2 ^ 32" using assms(1) by (intro mult_le_mono1) (simp add: Suc_leI)
  with assms(2) have "(rh mod c) * 2 ^ 32 + l < 2 ^ 32 * c" by (simp add: mult.commute)
  then show "((rh mod c) * 2 ^ 32 + l) div c < 2 ^ 32" by (rule less_mult_imp_div_less)
qed

lemma mod_digits:
  fixes q y :: nat
  assumes "y < 2 ^ 32"
  shows "(q * 2 ^ 32 + y) mod 2 ^ 64 = (q mod 2 ^ 32) * 2 ^ 32 + y"
proof -
  define h m where "h = q div 2 ^ 32" and "m = q mod 2 ^ 32"
  have "q = h * 2 ^ 32 + m" by (simp add: h_def m_def)
  then have "q * 2 ^ 32 + y = m * 2 ^ 32 + y + 2 ^ 64 * h" by simp
  then have "q * 2 ^ 32 + y = (q mod 2 ^ 32) * 2 ^ 32 + y + 2 ^ 64 * (q div 2 ^ 32)" by (simp only: h_def m_def)
  moreover have "(q mod 2 ^ 32) * 2 ^ 32 + y < 2 ^ 64" 
  proof -
    have "q mod 2 ^ 32 \<le> 2 ^ 32 - 1" by (simp add: less_Suc_eq_le [symmetric])
    then show ?thesis using assms by simp
  qed
  ultimately show ?thesis by (simp only: mod_mult_self2 mod_less)
qed

lemma unat_low32: "unat (ucast (a :: u64) :: u32) = unat a mod 2 ^ 32"
  by (simp add: unsigned_ucast_eq take_bit_eq_mod)

lemma low32_mask: "unat (rl AND 0xffffffff :: u64) = unat rl mod 2 ^ 32"
proof -
  have "rl AND 0xffffffff = take_bit 32 rl" by (simp add: take_bit_eq_mask mask_eq_exp_minus_1)
  then show ?thesis by (simp only: unsigned_take_bit_eq) (simp add: take_bit_eq_mod)
qed

lemma unat_high32: "unat (drop_bit 32 (a :: u64)) = unat a div 2 ^ 32"
  by (simp only: unat_drop_bit_eq) (rule drop_bit_eq_div)

lemma unat_push32: "unat x < 2 ^ 32 \<Longrightarrow> unat (push_bit 32 x :: u64) = unat x * 2 ^ 32"
  by (simp add: push_bit_eq_mult unat_word_ariths)

lemma unat_combine:
  "unat (push_bit 32 (ucast (hi :: u32)) OR ucast (lo :: u32) :: u64) = unat hi * 2 ^ 32 + unat lo"
proof -
  have "push_bit 32 (ucast hi) AND (ucast lo :: u64) = 0"
    by (rule bit_word_eqI) (auto simp: bit_simps dest: bit_imp_le_length)
  then have "push_bit 32 (ucast hi) OR (ucast lo :: u64) = push_bit 32 (ucast hi) + ucast lo"
    by (simp add: disjunctive_add_eq_or)
  moreover have "unat hi < 2 ^ 32" "unat lo < 2 ^ 32"
    using unsigned_less [of hi, where ?'a = nat] unsigned_less [of lo, where ?'a = nat] by simp_all
  ultimately show ?thesis
    by (simp add: push_bit_eq_mult unat_word_ariths unat_ucast_u64)
qed

text \<open>The code's division of the two digits of the product.\<close>

lemma muldiv64_digits:
  assumes "c \<noteq> 0" "unat (ucast (ucast a :: u32) * ucast b :: u64) = rl"
    "unat (ucast (ucast (drop_bit 32 a) :: u32) * ucast b + drop_bit 32 (ucast (ucast a :: u32) * ucast b) :: u64) = rh"
    "unat a * unat b = rh * 2 ^ 32 + rl mod 2 ^ 32"
  shows "muldiv64 a b c = Inr (of_nat (unat a * unat b div unat c))"
proof -
  define w v c' where "w = (ucast (ucast a :: u32) * ucast b :: u64)"
    and "v = (ucast (ucast (drop_bit 32 a) :: u32) * ucast b + drop_bit 32 (ucast (ucast a :: u32) * ucast b) :: u64)"
    and "c' = (ucast c :: u64)"
  define x where "x = (rh mod unat c) * 2 ^ 32 + rl mod 2 ^ 32"
  have w: "unat w = rl" and v: "unat v = rh" and c': "unat c' = unat c"
    using assms(2,3) by (simp_all add: w_def v_def c'_def unat_ucast_u64)
  have c: "0 < unat c" "unat c \<le> 2 ^ 32"
    using assms(1) unsigned_less [of c, where ?'a = nat] by (simp_all add: unat_gt_0)
  have mod_low: "rl mod 2 ^ 32 < 2 ^ 32" by simp
  note ld = long_division(2) [OF c(1) mod_low, of rh, folded x_def]
  have "rh mod unat c < 2 ^ 32" using c by (meson mod_less_divisor order_less_le_trans)
  then have x: "x < 2 ^ 64" by (simp add: x_def)
  have hi: "unat (ucast (v div c') :: u32) = rh div unat c mod 2 ^ 32"
    by (simp only: unat_low32 unat_div_distrib v c')
  have "unat (push_bit 32 (v mod c')) = (rh mod unat c) * 2 ^ 32"
    using unat_push32 [of "v mod c'"] \<open>rh mod unat c < 2 ^ 32\<close> by (simp only: unat_mod_distrib v c')
  then have "unat (push_bit 32 (v mod c') + (w AND 0xffffffff)) = x"
    using x by (simp add: unat_word_ariths(1) low32_mask w x_def)
  then have lo: "unat (ucast ((push_bit 32 (v mod c') + (w AND 0xffffffff)) div c') :: u32) = x div unat c"
    using ld by (simp add: unat_low32 unat_div_distrib c')
  have "unat (push_bit 32 (ucast (ucast (v div c') :: u32)) OR ucast (ucast ((push_bit 32 (v mod c') + (w AND 0xffffffff)) div c') :: u32) :: u64)
      = (rh div unat c mod 2 ^ 32) * 2 ^ 32 + x div unat c"
    by (simp only: unat_combine hi lo)
  also have "\<dots> = (unat a * unat b div unat c) mod 2 ^ 64"
    by (simp only: assms(4) long_division(1) [OF c(1) mod_low, of rh, folded x_def] mod_digits [OF ld])
  also have "\<dots> = unat (of_nat (unat a * unat b div unat c) :: u64)" by (simp add: unat_of_nat)
  finally have "push_bit 32 (ucast (ucast (v div c') :: u32)) OR ucast (ucast ((push_bit 32 (v mod c') + (w AND 0xffffffff)) div c') :: u32)
      = (of_nat (unat a * unat b div unat c) :: u64)" by (simp only: word_unat_eq_iff)
  then show ?thesis using assms(1)
    by (simp only: muldiv64_def Let_def if_False w_def v_def c'_def)
qed

lemma muldiv64_eq:
  assumes "c \<noteq> 0"
  shows "muldiv64 a b c = Inr (of_nat (unat a * unat b div unat c))"
proof -
  define al ah rl rh l where "al = unat a mod 2 ^ 32" and "ah = unat a div 2 ^ 32" and "rl = al * unat b"
    and "rh = ah * unat b + rl div 2 ^ 32" and "l = rl mod 2 ^ 32"
  have b: "unat b \<le> 2 ^ 32 - 1" using unsigned_less [of b, where ?'a = nat] by simp
  have c: "0 < unat c" "unat c \<le> 2 ^ 32 - 1"
    using assms unsigned_less [of c, where ?'a = nat] by (simp_all add: unat_gt_0)
  have al: "al \<le> 2 ^ 32 - 1" and l: "l < 2 ^ 32" by (simp_all add: al_def l_def less_Suc_eq_le [symmetric])
  have ah: "ah \<le> 2 ^ 32 - 1" using unsigned_less [of a, where ?'a = nat] by (simp add: ah_def)
  have rl: "rl \<le> (2 ^ 32 - 1) * (2 ^ 32 - 1)" unfolding rl_def by (rule mult_le_mono [OF al b])
  have "ah * unat b \<le> (2 ^ 32 - 1) * (2 ^ 32 - 1)" by (rule mult_le_mono [OF ah b])
  then have rh: "rh < 2 ^ 64" using rl by (simp add: rh_def)
  have prod: "unat a * unat b = rh * 2 ^ 32 + l"
  proof -
    have "unat a = ah * 2 ^ 32 + al" by (simp add: ah_def al_def)
    then have "unat a * unat b = ah * unat b * 2 ^ 32 + rl" by (simp add: rl_def algebra_simps)
    also have "rl = rl div 2 ^ 32 * 2 ^ 32 + l" by (simp add: l_def)
    finally show ?thesis by (simp add: rh_def algebra_simps)
  qed
  have wl: "unat (ucast (ucast a :: u32) * ucast b :: u64) = rl"
    using rl by (simp add: unat_word_ariths unat_ucast_u64 unat_low32 rl_def al_def)
  have "unat (ucast (ucast (drop_bit 32 a) :: u32) * ucast b :: u64) = ah * unat b"
    using ah \<open>ah * unat b \<le> _\<close> by (simp add: unat_word_ariths unat_ucast_u64 unat_low32 unat_high32 ah_def)
  moreover have "unat (drop_bit 32 (ucast (ucast a :: u32) * ucast b :: u64)) = rl div 2 ^ 32" by (simp only: unat_high32 wl)
  ultimately have wh: "unat (ucast (ucast (drop_bit 32 a) :: u32) * ucast b + drop_bit 32 (ucast (ucast a :: u32) * ucast b) :: u64) = rh"
    using rh by (simp add: unat_word_ariths(1) rh_def)
  show ?thesis
    by (rule muldiv64_digits [OF assms wl wh]) (simp_all add: prod l_def)
qed

section \<open>PRAMDAC\<close>

definition NV2A_GPU_CRYSTAL_FREQ :: u32 where "NV2A_GPU_CRYSTAL_FREQ = 13500000"

text \<open>
  The locked PLLs are a negative \<open>int\<close> in C, so that its conversion to 64 bits extends the sign. A shift by
  a negative number of bits is undefined.
\<close>

definition pramdac_read :: "NV2A_GPUState \<Rightarrow> hwaddr \<Rightarrow> nat \<Rightarrow> u64 res" where
  "pramdac_read d addr sz =
     (let reg = addr AND NOT 3;
          r = (if reg = NV_PRAMDAC_NVPLL_COEFF then ucast (core_clock_coeff d)
               else if reg = NV_PRAMDAC_MPLL_COEFF then ucast (memory_clock_coeff d)
               else if reg = NV_PRAMDAC_VPLL_COEFF then ucast (video_clock_coeff d)
               else if reg = NV_PRAMDAC_PLL_TEST_COUNTER then
                 scast (NV_PRAMDAC_PLL_TEST_COUNTER_VPLL2_LOCK OR NV_PRAMDAC_PLL_TEST_COUNTER_NVPLL_LOCK
                   OR NV_PRAMDAC_PLL_TEST_COUNTER_MPLL_LOCK OR NV_PRAMDAC_PLL_TEST_COUNTER_VPLL_LOCK)
               else 0);
          shift = 32 - 8 * int sz - 8 * int (unat (addr AND 3))
      in if shift < 0 then Inl Undefined_shift else Inr (drop_bit (nat shift) r))"

definition pramdac_write :: "NV2A_GPUState \<Rightarrow> hwaddr \<Rightarrow> u32 \<Rightarrow> NV2A_GPUState" where
  "pramdac_write d addr val =
     (if addr = NV_PRAMDAC_NVPLL_COEFF then
        (let m = val AND NV_PRAMDAC_NVPLL_COEFF_MDIV;
             n = drop_bit 8 (val AND NV_PRAMDAC_NVPLL_COEFF_NDIV);
             p = drop_bit 16 (val AND NV_PRAMDAC_NVPLL_COEFF_PDIV)
         in d\<lparr>core_clock_coeff := val,
              core_clock_freq := (if m = 0 then 0 else ucast (NV2A_GPU_CRYSTAL_FREQ * n div push_bit (unat p) 1 div m))\<rparr>)
      else if addr = NV_PRAMDAC_MPLL_COEFF then d\<lparr>memory_clock_coeff := val\<rparr>
      else if addr = NV_PRAMDAC_VPLL_COEFF then d\<lparr>video_clock_coeff := val\<rparr>
      else d)"

section \<open>PTIMER\<close>

text \<open>\<open>get_ticks_per_sec\<close>, the frequency of the virtual clock, whose nanoseconds are an argument.\<close>

definition get_ticks_per_sec :: u64 where "get_ticks_per_sec = 1000000000"

definition ptimer_get_clock :: "NV2A_GPUState \<Rightarrow> u64 \<Rightarrow> u64 res" where
  "ptimer_get_clock d ns =
     muldiv64 ns (ucast (core_clock_freq d * ucast (numerator d))) (ucast (get_ticks_per_sec * ucast (denominator d)))"

definition ptimer_read :: "NV2A_GPUState \<Rightarrow> u64 \<Rightarrow> hwaddr \<Rightarrow> u64 res" where
  "ptimer_read d ns addr =
     (if addr = NV_PTIMER_INTR_0 then Inr (ucast (ptimer_pending d))
      else if addr = NV_PTIMER_INTR_EN_0 then Inr (ucast (ptimer_enabled d))
      else if addr = NV_PTIMER_NUMERATOR then Inr (ucast (numerator d))
      else if addr = NV_PTIMER_DENOMINATOR then Inr (ucast (denominator d))
      else if addr = NV_PTIMER_TIME_0 then
        res_bind (ptimer_get_clock d ns) (\<lambda>t. Inr (push_bit 5 (t AND 0x7ffffff)))
      else if addr = NV_PTIMER_TIME_1 then
        res_bind (ptimer_get_clock d ns) (\<lambda>t. Inr (drop_bit 27 t AND 0x1fffffff))
      else Inr 0)"

definition ptimer_write :: "NV2A_GPUState \<Rightarrow> hwaddr \<Rightarrow> u32 \<Rightarrow> NV2A_GPUState" where
  "ptimer_write d addr val =
     (if addr = NV_PTIMER_INTR_0 then update_irq (d\<lparr>ptimer_pending := ptimer_pending d AND NOT val\<rparr>)
      else if addr = NV_PTIMER_INTR_EN_0 then update_irq (d\<lparr>ptimer_enabled := val\<rparr>)
      else if addr = NV_PTIMER_DENOMINATOR then d\<lparr>denominator := val\<rparr>
      else if addr = NV_PTIMER_NUMERATOR then d\<lparr>numerator := val\<rparr>
      else if addr = NV_PTIMER_ALARM_0 then d\<lparr>alarm_time := val\<rparr>
      else d)"

section \<open>Properties\<close>

lemma ucast_product:
  assumes "unat x * unat y < 2 ^ 32"
  shows "unat (ucast (x * ucast (y :: u32) :: u64) :: u32) = unat x * unat y"
  using assms by (simp add: unat_low32 unat_word_ariths unat_ucast_u64)

lemma ptimer_get_clock_eq:
  assumes "denominator d \<noteq> 0" "unat (core_clock_freq d) * unat (numerator d) < 2 ^ 32"
    "1000000000 * unat (denominator d) < 2 ^ 32"
  shows "ptimer_get_clock d ns
     = Inr (of_nat (unat ns * (unat (core_clock_freq d) * unat (numerator d)) div (1000000000 * unat (denominator d))))"
proof -
  have "unat (ucast (get_ticks_per_sec * ucast (denominator d)) :: u32) = unat get_ticks_per_sec * unat (denominator d)"
    using assms(3) by (intro ucast_product) (simp add: get_ticks_per_sec_def)
  then have den: "unat (ucast (get_ticks_per_sec * ucast (denominator d)) :: u32) = 1000000000 * unat (denominator d)"
    by (simp add: get_ticks_per_sec_def)
  moreover have "0 < unat (denominator d)" using assms(1) by (simp add: unat_gt_0)
  ultimately have "0 < unat (ucast (get_ticks_per_sec * ucast (denominator d)) :: u32)" by linarith
  then have "(ucast (get_ticks_per_sec * ucast (denominator d)) :: u32) \<noteq> 0" by (metis less_numeral_extra(3) unsigned_0)
  from muldiv64_eq [OF this] show ?thesis by (simp only: ptimer_get_clock_def den ucast_product [OF assms(2)])
qed

lemma time_halves: "push_bit 27 (drop_bit 27 t AND 0x1fffffff) OR drop_bit 5 (push_bit 5 (t AND 0x7ffffff)) = take_bit 56 t"
  for t :: u64
proof -
  have "t AND 0x7ffffff = take_bit 27 t" "drop_bit 27 t AND 0x1fffffff = take_bit 29 (drop_bit 27 t)"
    by (simp_all add: take_bit_eq_mask mask_eq_exp_minus_1)
  then show ?thesis by (auto intro!: bit_word_eqI simp: bit_simps)
qed

lemma ptimer_halves:
  assumes "ptimer_get_clock d ns = Inr t"
  shows "\<exists>lo hi. ptimer_read d ns NV_PTIMER_TIME_0 = Inr lo \<and> ptimer_read d ns NV_PTIMER_TIME_1 = Inr hi \<and>
    push_bit 27 hi OR drop_bit 5 lo = take_bit 56 t"
proof -
  have "ptimer_read d ns NV_PTIMER_TIME_0 = Inr (push_bit 5 (t AND 0x7ffffff))"
    "ptimer_read d ns NV_PTIMER_TIME_1 = Inr (drop_bit 27 t AND 0x1fffffff)"
    using assms by (simp_all add: ptimer_read_def reg_defs)
  then show ?thesis using time_halves [of t] by blast
qed



text \<open>
  Reading the time divides by zero while the guest has not written the denominator, as after the start of the
  machine, and also when the product of the denominator and a billion is a multiple of \<open>2 ^ 32\<close>.
\<close>

lemma ptimer_divides_by_zero:
  assumes "2 ^ 23 dvd unat (denominator d)"
  shows "ptimer_read d ns NV_PTIMER_TIME_0 = Inl Division_by_zero \<and> ptimer_read d ns NV_PTIMER_TIME_1 = Inl Division_by_zero"
proof -
  obtain k where "unat (denominator d) = 2 ^ 23 * k" using assms by (rule dvdE)
  then have "1000000000 * unat (denominator d) = 2 ^ 32 * (1953125 * k)" by simp
  then have "(1000000000 * unat (denominator d)) mod 2 ^ 64 mod 2 ^ 32 = 0" by (simp add: mod_mod_cancel)
  then have "unat (ucast (get_ticks_per_sec * ucast (denominator d)) :: u32) = 0"
    by (simp add: unat_low32 unat_word_ariths(2) unat_ucast_u64 get_ticks_per_sec_def)
  then have "(ucast (get_ticks_per_sec * ucast (denominator d)) :: u32) = 0" by (simp only: unat_eq_zero)
  then show ?thesis by (simp add: ptimer_read_def ptimer_get_clock_def muldiv64_def Let_def) (simp add: reg_defs)
qed

lemma ptimer_divides_by_zero_witness:
  "ptimer_read (nv2a_gpu_initfn (\<lambda>_. 0) 0x4000000 (\<lambda>_. 0)) 0 NV_PTIMER_TIME_0 = Inl Division_by_zero"
  using ptimer_divides_by_zero [of "nv2a_gpu_initfn (\<lambda>_. 0) 0x4000000 (\<lambda>_. 0)" 0] by (simp add: nv2a_gpu_initfn_def)

lemma unat_field: "unat (drop_bit k (v AND push_bit k (mask w)) :: u32) = unat v div 2 ^ k mod 2 ^ w" if "k + w \<le> 32"
proof -
  have "drop_bit k (v AND push_bit k (mask w)) = take_bit w (drop_bit k v)"
    using that by (intro bit_word_eqI) (auto simp: bit_simps)
  moreover have "unat (drop_bit k v) = unat v div 2 ^ k" by (simp only: unat_drop_bit_eq) (rule drop_bit_eq_div)
  ultimately show ?thesis by (simp only: unsigned_take_bit_eq) (simp add: take_bit_eq_mod)
qed

text \<open>
  The frequency of the core clock is the crystal's, multiplied and divided by the fields of the PLL's
  register, without overflow for every value of the register; a divisor of zero stops the clock.
\<close>

lemma pramdac_core_clock:
  "unat (core_clock_freq (pramdac_write d NV_PRAMDAC_NVPLL_COEFF val))
     = 13500000 * (unat val div 2 ^ 8 mod 2 ^ 8) div 2 ^ (unat val div 2 ^ 16 mod 2 ^ 3) div (unat val mod 2 ^ 8)"
proof -
  define m n p where "m = val AND NV_PRAMDAC_NVPLL_COEFF_MDIV" and "n = drop_bit 8 (val AND NV_PRAMDAC_NVPLL_COEFF_NDIV)"
    and "p = drop_bit 16 (val AND NV_PRAMDAC_NVPLL_COEFF_PDIV)"
  have m: "unat m = unat val mod 2 ^ 8" using unat_field [of 0 8 val] by (simp add: m_def reg_defs mask_eq_exp_minus_1)
  have n: "unat n = unat val div 2 ^ 8 mod 2 ^ 8" using unat_field [of 8 8 val] by (simp add: n_def reg_defs mask_eq_exp_minus_1)
  have p: "unat p = unat val div 2 ^ 16 mod 2 ^ 3" using unat_field [of 16 3 val] by (simp add: p_def reg_defs mask_eq_exp_minus_1)
  have "unat n < 256" "unat p < 8" by (simp_all add: n p)
  then have "unat (NV2A_GPU_CRYSTAL_FREQ * n) = 13500000 * unat n" by (simp add: unat_word_ariths NV2A_GPU_CRYSTAL_FREQ_def)
  moreover have "unat (push_bit (unat p) (1 :: u32)) = 2 ^ unat p"
    using \<open>unat p < 8\<close> unat_two_power [of "unat p", where 'a = 32] by simp
  ultimately have "unat (NV2A_GPU_CRYSTAL_FREQ * n div push_bit (unat p) 1 div m) = 13500000 * unat n div 2 ^ unat p div unat m"
    by (simp only: unat_div_distrib)
  then have "unat (core_clock_freq (pramdac_write d NV_PRAMDAC_NVPLL_COEFF val)) = 13500000 * unat n div 2 ^ unat p div unat m"
    unfolding pramdac_write_def Let_def m_def [symmetric] n_def [symmetric] p_def [symmetric] by (simp add: unat_ucast_u64)
  then show ?thesis by (simp only: m n p)
qed

text \<open>
  Reading a PLL register byte by byte gives its bytes in reversed order: the byte at the lowest address is
  the most significant one, although the guest is little-endian.
\<close>

lemma pramdac_bytes_reversed:
  assumes "i < 4"
  shows "\<exists>r. pramdac_read d (NV_PRAMDAC_NVPLL_COEFF + of_nat i) 1 = Inr r \<and> ucast r = byte_of (3 - i) (core_clock_coeff d)"
proof -
  have i: "i = 0 \<or> i = 1 \<or> i = 2 \<or> i = 3" using assms by auto
  have reg: "(NV_PRAMDAC_NVPLL_COEFF + of_nat i) AND NOT 3 = NV_PRAMDAC_NVPLL_COEFF"
    and off: "(NV_PRAMDAC_NVPLL_COEFF + of_nat i) AND 3 = of_nat i"
    using i by (auto simp: reg_defs)
  have "nat (32 - 8 * int 1 - 8 * int (unat (of_nat i :: u64))) = 8 * (3 - i)" and "0 \<le> 32 - 8 * int 1 - 8 * int (unat (of_nat i :: u64))"
    using i by auto
  then have "pramdac_read d (NV_PRAMDAC_NVPLL_COEFF + of_nat i) 1 = Inr (drop_bit (8 * (3 - i)) (ucast (core_clock_coeff d)))"
    by (simp only: pramdac_read_def Let_def reg off if_True not_less [symmetric] if_False simp_thms)
  moreover have "ucast (drop_bit (8 * (3 - i)) (ucast (core_clock_coeff d) :: u64)) = byte_of (3 - i) (core_clock_coeff d)"
    using i by (auto intro!: bit_word_eqI simp: byte_of_def bit_simps)
  ultimately show ?thesis by blast
qed

end
