(* ===== verification/NV2A_MMIO.thy ===== *)
theory NV2A_MMIO
  imports NV2A_Regs NV2A_Clock
begin

text \<open>
  The register space of the NV2A as a whole: \<open>blocktable\<close> of \<open>src/hw/xbox/nv2a_gpu.c\<close>, which places the blocks
  in the device's BAR, and the accesses to them. Two blocks hand their accesses on to the VGA core of
  \<open>src/hw/display/vga.c\<close>, whose state and handlers are arguments. Shown here: the blocks do not overlap;
  every access keeps the device's invariant and stays inside of its arrays; the interrupt line follows the
  units' registers after every write but those to the interrupt registers of PGRAPH.
\<close>

section \<open>The table of blocks\<close>

datatype nv2a_block =
  NV_PMC | NV_PBUS | NV_PFIFO | NV_PRMA | NV_PVIDEO | NV_PTIMER | NV_PCOUNTER | NV_PVPE | NV_PTV | NV_PRMFB
| NV_PRMVIO | NV_PFB | NV_PSTRAPS | NV_PGRAPH | NV_PCRTC | NV_PRMCIO | NV_PRAMDAC | NV_PRMDIO | NV_USER

text \<open>Offset and size of the blocks.\<close>

definition blocktable :: "(nv2a_block \<times> nat \<times> nat) list" where
  "blocktable =
     [(NV_PMC, 0x000000, 0x001000), (NV_PBUS, 0x001000, 0x001000), (NV_PFIFO, 0x002000, 0x002000),
      (NV_PRMA, 0x007000, 0x001000), (NV_PVIDEO, 0x008000, 0x001000), (NV_PTIMER, 0x009000, 0x001000),
      (NV_PCOUNTER, 0x00a000, 0x001000), (NV_PVPE, 0x00b000, 0x001000), (NV_PTV, 0x00d000, 0x001000),
      (NV_PRMFB, 0x0a0000, 0x020000), (NV_PRMVIO, 0x0c0000, 0x001000), (NV_PFB, 0x100000, 0x001000),
      (NV_PSTRAPS, 0x101000, 0x001000), (NV_PGRAPH, 0x400000, 0x002000), (NV_PCRTC, 0x600000, 0x001000),
      (NV_PRMCIO, 0x601000, 0x001000), (NV_PRAMDAC, 0x680000, 0x001000), (NV_PRMDIO, 0x681000, 0x001000),
      (NV_USER, 0x800000, 0x800000)]"

text \<open>The block at an offset into the BAR, and the offset into the block.\<close>

definition block_at :: "hwaddr \<Rightarrow> (nv2a_block \<times> hwaddr) option" where
  "block_at addr = map_option (\<lambda>(b, off, n). (b, addr - of_nat off))
     (find (\<lambda>(b, off, n). off \<le> unat addr \<and> unat addr < off + n) blocktable)"

section \<open>The blocks that alias the VGA core\<close>

record 'v vga_ops =
  vga_ioport_read :: "'v \<Rightarrow> hwaddr \<Rightarrow> u32 \<times> 'v"
  vga_ioport_write :: "'v \<Rightarrow> hwaddr \<Rightarrow> u32 \<Rightarrow> 'v"
  ar_flip_flop :: "'v \<Rightarrow> bool"

definition VGA_ATT_W :: hwaddr where "VGA_ATT_W = 0x3C0"
definition VGA_AR_ENABLE_DISPLAY :: u32 where "VGA_AR_ENABLE_DISPLAY = 0x20"

definition prmcio_write :: "'v vga_ops \<Rightarrow> 'v \<Rightarrow> hwaddr \<Rightarrow> u32 \<Rightarrow> 'v" where
  "prmcio_write ops vga addr val =
     vga_ioport_write ops vga addr
       (if addr = VGA_ATT_W \<and> \<not> ar_flip_flop ops vga then val OR VGA_AR_ENABLE_DISPLAY else val)"

section \<open>Accesses\<close>

text \<open>A read of at most four bytes, at the virtual time \<open>ns\<close>; only the VGA core's state may change.\<close>

fun block_read :: "'v vga_ops \<Rightarrow> u64 \<Rightarrow> NV2A_GPUState \<times> 'v \<Rightarrow> nv2a_block \<Rightarrow> hwaddr \<Rightarrow> nat \<Rightarrow> (u32 \<times> 'v) res" where
  "block_read ops ns (d, vga) NV_PMC addr sz = Inr (pmc_read d addr, vga)"
| "block_read ops ns (d, vga) NV_PBUS addr sz = Inr (pbus_read d addr, vga)"
| "block_read ops ns (d, vga) NV_PFIFO addr sz = res_bind (pfifo_read d addr) (\<lambda>r. Inr (r, vga))"
| "block_read ops ns (d, vga) NV_PVIDEO addr sz = res_bind (pvideo_read d addr) (\<lambda>r. Inr (r, vga))"
| "block_read ops ns (d, vga) NV_PTIMER addr sz = res_bind (ptimer_read d ns addr) (\<lambda>r. Inr (ucast r, vga))"
| "block_read ops ns (d, vga) NV_PFB addr sz = res_bind (pfb_read d addr) (\<lambda>r. Inr (r, vga))"
| "block_read ops ns (d, vga) NV_PGRAPH addr sz = res_bind (pgraph_read d addr) (\<lambda>r. Inr (r, vga))"
| "block_read ops ns (d, vga) NV_PCRTC addr sz = Inr (pcrtc_read d addr, vga)"
| "block_read ops ns (d, vga) NV_PRAMDAC addr sz = res_bind (pramdac_read d addr sz) (\<lambda>r. Inr (ucast r, vga))"
| "block_read ops ns (d, vga) NV_USER addr sz = res_bind (user_read d addr) (\<lambda>r. Inr (r, vga))"
| "block_read ops ns (d, vga) NV_PRMVIO addr sz = Inr (vga_ioport_read ops vga addr)"
| "block_read ops ns (d, vga) NV_PRMCIO addr sz = Inr (vga_ioport_read ops vga addr)"
| "block_read ops ns (d, vga) _ addr sz = Inr (0, vga)"

fun block_write :: "'v vga_ops \<Rightarrow> NV2A_GPUState \<times> 'v \<Rightarrow> nv2a_block \<Rightarrow> hwaddr \<Rightarrow> u32 \<Rightarrow> (NV2A_GPUState \<times> 'v) res option" where
  "block_write ops (d, vga) NV_PMC addr val = Some (Inr (pmc_write d addr val, vga))"
| "block_write ops (d, vga) NV_PBUS addr val = Some (Inr (pbus_write d addr val, vga))"
| "block_write ops (d, vga) NV_PFIFO addr val = map_option (\<lambda>r. res_bind r (\<lambda>d. Inr (d, vga))) (pfifo_write d addr val)"
| "block_write ops (d, vga) NV_PVIDEO addr val = Some (res_bind (pvideo_write d addr val) (\<lambda>d. Inr (d, vga)))"
| "block_write ops (d, vga) NV_PTIMER addr val = Some (Inr (ptimer_write d addr val, vga))"
| "block_write ops (d, vga) NV_PFB addr val = Some (res_bind (pfb_write d addr val) (\<lambda>d. Inr (d, vga)))"
| "block_write ops (d, vga) NV_PGRAPH addr val = Some (res_bind (pgraph_write d addr val) (\<lambda>d. Inr (d, vga)))"
| "block_write ops (d, vga) NV_PCRTC addr val = Some (res_bind (pcrtc_write d addr val) (\<lambda>d. Inr (d, vga)))"
| "block_write ops (d, vga) NV_PRAMDAC addr val = Some (Inr (pramdac_write d addr val, vga))"
| "block_write ops (d, vga) NV_USER addr val = map_option (\<lambda>r. res_bind r (\<lambda>d. Inr (d, vga))) (user_write d addr val)"
| "block_write ops (d, vga) NV_PRMVIO addr val = Some (Inr (d, vga_ioport_write ops vga addr val))"
| "block_write ops (d, vga) NV_PRMCIO addr val = Some (Inr (d, prmcio_write ops vga addr val))"
| "block_write ops (d, vga) _ addr val = Some (Inr (d, vga))"

lemma block_at_bounds:
  assumes "block_at addr = Some (b, off)"
  shows "\<exists>start n. (b, start, n) \<in> set blocktable \<and> unat off < n \<and> unat addr = start + unat off"
proof -
  obtain start n where *: "find (\<lambda>(b, off, n). off \<le> unat addr \<and> unat addr < off + n) blocktable = Some (b, start, n)"
      "off = addr - of_nat start"
    using assms by (auto simp: block_at_def)
  then have in_table: "(b, start, n) \<in> set blocktable" and le: "start \<le> unat addr" "unat addr < start + n"
    by (auto simp: find_Some_iff) (metis nth_mem)
  have "start < 2 ^ 64" using le(1) unsigned_less [of addr, where ?'a = nat] by simp
  then have "unat (of_nat start :: u64) = start" by (intro unat_of_nat_small) simp
  then have "unat off = unat addr - start" using le(1) *(2) by (simp add: unat_sub_if' word_le_nat_alt)
  then show ?thesis using in_table le by (intro exI [of _ start] exI [of _ n]) auto
qed

section \<open>Bounds\<close>

text \<open>The write does not leave the device's arrays.\<close>

definition in_bounds :: "'a res option \<Rightarrow> bool" where
  "in_bounds r \<longleftrightarrow> r \<noteq> Some (Inl Out_of_bounds)"

lemma in_bounds_Some: "in_bounds (Some (Inr x))"
  by (simp add: in_bounds_def)

lemma in_bounds_if: "(c \<Longrightarrow> in_bounds r) \<Longrightarrow> (\<not> c \<Longrightarrow> in_bounds r') \<Longrightarrow> in_bounds (if c then r else r')"
  by simp

lemma in_bounds_assert: "in_bounds (Some (res_bind (assert_res b) (\<lambda>_. Inr x)))"
  by (cases b) (simp_all add: in_bounds_def)

lemma pfifo_write_in_bounds:
  assumes "gpu_ok d" "addr \<noteq> NV_PFIFO_CACHE1_DMA_PUSH"
  shows "in_bounds (pfifo_write d addr val)"
proof -
  have control: "in_bounds (Some (control_write d (unat (c_channel_id (cache1 d))) f))" for f
    using control_write_ok [OF assms(1) gpu_okD(6) [OF assms(1)], of f] by (auto simp: in_bounds_def res_ok_def)
  show ?thesis
    unfolding pfifo_write_def Let_def
    by (intro in_bounds_if in_bounds_Some control in_bounds_assert) (use assms(2) in simp_all)
qed

lemma res_ok_in_bounds: "res_ok P r \<Longrightarrow> in_bounds (Some (res_bind r (\<lambda>d. Inr (d, v))))"
  by (auto simp: in_bounds_def res_ok_def)

lemma res_safe_in_bounds: "res_safe Out_of_bounds P r \<Longrightarrow> in_bounds (Some (res_bind r (\<lambda>d. Inr (d, v))))"
  by (cases r) (auto simp: in_bounds_def res_safe_def)

lemma block_sizes:
  assumes "block_at a = Some (b, off)"
  shows "b = NV_PVIDEO \<Longrightarrow> unat off < 0x1000" "b = NV_PFB \<Longrightarrow> unat off < 0x1000" "b = NV_PGRAPH \<Longrightarrow> unat off < 0x2000"
  using block_at_bounds [OF assms] by (auto simp: blocktable_def)

lemma ptimer_read_in_bounds: "ptimer_read d ns addr \<noteq> Inl Out_of_bounds"
  by (simp add: ptimer_read_def ptimer_get_clock_def muldiv64_def Let_def)

lemma pramdac_read_in_bounds: "pramdac_read d addr sz \<noteq> Inl Out_of_bounds"
  by (simp add: pramdac_read_def Let_def)

lemma read_in_bounds:
  "res_ok P r \<Longrightarrow> res_bind r (\<lambda>x. Inr (f x)) \<noteq> Inl Out_of_bounds"
  "res_safe Out_of_bounds P r \<Longrightarrow> res_bind r (\<lambda>x. Inr (f x)) \<noteq> Inl Out_of_bounds"
  "r \<noteq> Inl Out_of_bounds \<Longrightarrow> res_bind r (\<lambda>x. Inr (f x)) \<noteq> Inl Out_of_bounds"
  by (cases r; simp add: res_ok_def res_safe_def)+

lemma block_read_in_bounds:
  assumes "gpu_ok d" "block_at a = Some (b, off)"
  shows "block_read ops ns (d, vga) b off sz \<noteq> Inl Out_of_bounds"
  using block_sizes [OF assms(2)]
  by (cases b) (simp_all add: read_in_bounds(1) [OF pfifo_read_ok [OF assms(1)]] read_in_bounds(1) [OF pvideo_ok(1) [OF assms(1)]]
      read_in_bounds(1) [OF pfb_ok(1) [OF assms(1)]] read_in_bounds(1) [OF pgraph_read_ok [OF assms(1)]]
      read_in_bounds(2) [OF user_read_ok [OF assms(1)]] read_in_bounds(3) [OF ptimer_read_in_bounds]
      read_in_bounds(3) [OF pramdac_read_in_bounds])

lemma map_in_bounds: "in_bounds (map_option (\<lambda>r. res_bind r (\<lambda>d. Inr (d, v))) r) = in_bounds r"
  by (cases r) (auto simp: in_bounds_def res_bind_def split: sum.splits)

lemma block_write_in_bounds:
  assumes "gpu_ok d" "block_at a = Some (b, off)" "b \<noteq> NV_USER" "b = NV_PFIFO \<Longrightarrow> off \<noteq> NV_PFIFO_CACHE1_DMA_PUSH"
  shows "in_bounds (block_write ops (d, vga) b off val)"
  using block_sizes [OF assms(2)] assms(3,4)
  by (cases b) (simp_all add: in_bounds_Some map_in_bounds pfifo_write_in_bounds [OF assms(1)] res_ok_in_bounds [OF pvideo_ok(2) [OF assms(1)]]
      res_ok_in_bounds [OF pfb_ok(2) [OF assms(1)]] res_ok_in_bounds [OF pgraph_write_ok [OF assms(1)]]
      res_safe_in_bounds [OF pcrtc_write_ok [OF assms(1)]])

section \<open>The invariant\<close>

lemma clock_write_ok: "gpu_ok d \<Longrightarrow> gpu_ok (ptimer_write d addr val)" "gpu_ok d \<Longrightarrow> gpu_ok (pramdac_write d addr val)"
proof -
  assume ok: "gpu_ok d"
  have p: "gpu_ok (d\<lparr>denominator := v\<rparr>)" "gpu_ok (d\<lparr>numerator := v\<rparr>)" "gpu_ok (d\<lparr>alarm_time := v\<rparr>)" for v
    using ok by (simp_all add: gpu_ok_def)
  show "gpu_ok (ptimer_write d addr val)" using ok by (simp add: ptimer_write_def p)
  have "gpu_ok (d\<lparr>core_clock_coeff := a, core_clock_freq := f\<rparr>)" "gpu_ok (d\<lparr>memory_clock_coeff := a\<rparr>)"
      "gpu_ok (d\<lparr>video_clock_coeff := a\<rparr>)" for a f
    using ok by (simp_all add: gpu_ok_def)
  then show "gpu_ok (pramdac_write d addr val)" using ok by (simp add: pramdac_write_def Let_def)
qed

lemma run_allD: "run_all P r \<Longrightarrow> map_option (\<lambda>r. res_bind r (\<lambda>d. Inr (d, v))) r = Some (Inr (d', v')) \<Longrightarrow> P d'"
  by (auto simp: run_all_def res_bind_Inr_iff)

lemma block_write_ok:
  assumes "gpu_ok d" "block_at a = Some (b, off)" "block_write ops (d, vga) b off val = Some (Inr (d', vga'))"
  shows "gpu_ok d'"
proof (cases b)
  case NV_PFIFO
  then show ?thesis using run_allD [OF pfifo_write_ok [OF assms(1)]] assms(3) by simp
next
  case NV_USER
  then show ?thesis using run_allD [OF user_write_ok [OF assms(1)]] assms(3) by simp
next
  case NV_PVIDEO
  then show ?thesis using pvideo_ok(2) [OF assms(1), of off val] block_sizes [OF assms(2)] assms(3) by (auto simp: res_ok_def)
next
  case NV_PFB
  then show ?thesis using pfb_ok(2) [OF assms(1), of off val] block_sizes [OF assms(2)] assms(3) by (auto simp: res_ok_def)
next
  case NV_PGRAPH
  then show ?thesis using pgraph_write_ok [OF assms(1), of off val] block_sizes [OF assms(2)] assms(3) by (auto simp: res_ok_def)
next
  case NV_PCRTC
  then show ?thesis using pcrtc_write_ok [OF assms(1), of off val] assms(3) by (auto simp: res_safe_def res_bind_Inr_iff)
qed (use assms(1,3) in \<open>auto simp: pmc_write_ok pbus_write_ok clock_write_ok\<close>)



section \<open>The interrupt line\<close>

lemma bit_irq_lines:
  "n < 32 \<Longrightarrow> bit (irq_lines a b c p) n = (if n = 12 then c else if n = 24 then b else if n = 8 then a else bit p n)"
proof -
  assume n: "n < 32"
  have m: "NV_PMC_INTR_0_PFIFO = push_bit 8 1" "NV_PMC_INTR_0_PCRTC = push_bit 24 1" "NV_PMC_INTR_0_PGRAPH = push_bit 12 1"
    by (simp_all add: reg_defs)
  have b: "bit NV_PMC_INTR_0_PFIFO k \<longleftrightarrow> k = 8" "bit NV_PMC_INTR_0_PCRTC k \<longleftrightarrow> k = 24" "bit NV_PMC_INTR_0_PGRAPH k \<longleftrightarrow> k = 12" for k
    unfolding m bit_push_bit_iff by (auto simp: bit_1_iff)
  show ?thesis unfolding irq_lines_def Let_def using n by (auto simp: bit_simps b)
qed

lemma irq_lines_zero:
  "irq_lines a b c p = 0 \<longleftrightarrow> \<not> a \<and> \<not> b \<and> \<not> c \<and> p AND NOT (NV_PMC_INTR_0_PFIFO OR NV_PMC_INTR_0_PCRTC OR NV_PMC_INTR_0_PGRAPH) = 0"
    (is "?l = 0 \<longleftrightarrow> _ \<and> _ \<and> _ \<and> ?r = 0")
proof -
  have eq: "?l = ?r" if "\<not> a" "\<not> b" "\<not> c"
    using that unfolding irq_lines_def Let_def by (intro bit_word_eqI) (auto simp: bit_simps)
  have "\<not> a \<and> \<not> b \<and> \<not> c" if "?l = 0"
  proof -
    have bits: "\<not> bit ?l n" for n by (simp add: that)
    from bits [of 8] bits [of 12] bits [of 24] show ?thesis by (simp add: bit_irq_lines)
  qed
  with eq show ?thesis by metis
qed

text \<open>Some unit requests an interrupt, or a bit of the PMC that belongs to no unit is pending.\<close>

definition irq_requested :: "NV2A_GPUState \<Rightarrow> bool" where
  "irq_requested d \<longleftrightarrow> pfifo_pending d AND pfifo_enabled d \<noteq> 0 \<or> pcrtc_pending d AND pcrtc_enabled d \<noteq> 0
     \<or> pg_pending (pgraph d) AND pg_enabled (pgraph d) \<noteq> 0
     \<or> pmc_pending d AND NOT (NV_PMC_INTR_0_PFIFO OR NV_PMC_INTR_0_PCRTC OR NV_PMC_INTR_0_PGRAPH) \<noteq> 0"

lemma irq_settledD: "irq_settled d \<Longrightarrow> irq d \<longleftrightarrow> pmc_enabled d \<noteq> 0 \<and> irq_requested d"
proof -
  assume "irq_settled d"
  then have "irq_pending d = pmc_pending d" "irq d \<longleftrightarrow> pmc_pending d \<noteq> 0 \<and> pmc_enabled d \<noteq> 0" by (simp_all only: irq_settled_iff)
  moreover have "irq_pending d = 0 \<longleftrightarrow> \<not> irq_requested d"
    unfolding irq_pending_def irq_requested_def irq_lines_zero by blast
  ultimately show ?thesis by auto
qed

lemma irq_settled_pgraph:
  "pg_pending g = pg_pending (pgraph d) \<Longrightarrow> pg_enabled g = pg_enabled (pgraph d) \<Longrightarrow> irq_settled (d\<lparr>pgraph := g\<rparr>) = irq_settled d"
  by (rule irq_settled_cong) simp_all

lemma irq_settled_clock:
  "irq_settled (d\<lparr>denominator := v\<rparr>) = irq_settled d" "irq_settled (d\<lparr>numerator := v\<rparr>) = irq_settled d"
  "irq_settled (d\<lparr>alarm_time := v\<rparr>) = irq_settled d" "irq_settled (d\<lparr>core_clock_coeff := v, core_clock_freq := f\<rparr>) = irq_settled d"
  "irq_settled (d\<lparr>memory_clock_coeff := v\<rparr>) = irq_settled d" "irq_settled (d\<lparr>video_clock_coeff := v\<rparr>) = irq_settled d"
  by (rule irq_settled_cong; simp)+

lemma pfifo_write_settled: "irq_settled d \<Longrightarrow> run_all irq_settled (pfifo_write d addr val)"
proof -
  assume d: "irq_settled d"
  have control: "run_all irq_settled (Some (control_write d n f))" for n f
    using d by (auto simp: run_all_def control_write_def res_bind_Inr_iff)
  have push: "run_all irq_settled (dma_push_write d val)"
    using d by (auto simp: run_all_def dma_push_write_def Let_def res_bind_Inr_iff dest!: irq_settled_pusher split: if_splits)
  show ?thesis
    unfolding pfifo_write_def Let_def
    by (intro run_all_if run_all_Some control push run_all_res res_all_bind res_all_Inr)
      (use d in \<open>simp_all add: pull0_write_def\<close>)
qed

lemma user_write_settled: "irq_settled d \<Longrightarrow> run_all irq_settled (user_write d addr val)"
proof -
  assume d: "irq_settled d"
  have control: "run_all irq_settled (Some (control_write d n f))" for n f
    using d by (auto simp: run_all_def control_write_def res_bind_Inr_iff)
  have put: "run_all irq_settled (case control_write d n f of Inl e \<Rightarrow> Some (Inl e)
      | Inr d' \<Rightarrow> if push_enabled (cache1 d') then pfifo_run_pusher d' else Some (Inr d'))" for n f
    using d by (auto simp: run_all_def control_write_def arr_get_def dest!: irq_settled_pusher split: if_splits sum.splits)
  have err: "run_all irq_settled (Some (Inl e))" for e by (simp add: run_all_def)
  show ?thesis
    unfolding user_write_def Let_def by (intro run_all_if err put control run_all_Some d)
qed

lemma pgraph_write_settled:
  assumes "irq_settled d" "addr \<noteq> NV_PGRAPH_INTR" "addr \<noteq> NV_PGRAPH_INTR_EN"
  shows "res_all irq_settled (pgraph_write d addr val)"
proof -
  have user: "res_all irq_settled (res_bind (pgraph_set_context_user (pgraph d) v) (\<lambda>g'. Inr (d\<lparr>pgraph := g'\<rparr>)))" for v
    using assms(1) by (auto simp: res_all_def res_bind_Inr_iff pgraph_set_context_user_def Let_def irq_settled_pgraph)
  show ?thesis
    unfolding pgraph_write_def Let_def
    by (intro res_all_if res_all_Inr user res_all_bind) (use assms in \<open>simp_all add: irq_settled_pgraph\<close>)
qed

lemma simple_writes_settled:
  assumes "irq_settled d"
  shows "irq_settled (pmc_write d addr val)" "irq_settled (pbus_write d addr val)" "irq_settled (ptimer_write d addr val)"
    "irq_settled (pramdac_write d addr val)"
  using assms by (simp_all add: pmc_write_def pbus_write_def ptimer_write_def pramdac_write_def irq_settled_clock Let_def)



text \<open>
  When PGRAPH alone has raised the line, the guest's acknowledgement in the interrupt register of PGRAPH leaves the
  line raised, although no unit requests an interrupt any more.
\<close>

lemma pgraph_acknowledge_leaves_irq:
  assumes "irq d" "pmc_pending d = NV_PMC_INTR_0_PGRAPH" "pfifo_pending d AND pfifo_enabled d = 0"
    "pcrtc_pending d AND pcrtc_enabled d = 0" "pg_pending (pgraph d) AND NOT val = 0" "pgraph_write d NV_PGRAPH_INTR val = Inr d'"
  shows "irq d' \<and> \<not> irq_requested d' \<and> \<not> irq (update_irq d')"
proof -
  have d': "d' = d\<lparr>pgraph := (pgraph d)\<lparr>pg_pending := 0\<rparr>\<rparr>"
    using assms(5,6) by (simp add: pgraph_write_def Let_def)
  have idle: "\<not> irq_requested d'" using assms(2-4) by (simp add: d' irq_requested_def reg_defs)
  obtain p l where u: "update_irq d' = d'\<lparr>pmc_pending := p, irq := l\<rparr>" using update_irq_frame by blast
  have "irq_pending d' = 0"
    using idle unfolding irq_pending_def irq_requested_def irq_lines_zero by blast
  then have "\<not> irq (update_irq d')" by (simp add: update_irq_eq)
  with idle show ?thesis using assms(1) by (simp add: d')
qed

lemma pgraph_acknowledge_leaves_irq_witness:
  "irq (projr (pgraph_write ((nv2a_gpu_initfn (\<lambda>_. 0) 0x4000000 (\<lambda>_. 0))\<lparr>irq := True, pmc_pending := NV_PMC_INTR_0_PGRAPH, pmc_enabled := 1,
     pgraph := pgraph_reset\<lparr>pg_pending := 1, pg_enabled := 1\<rparr>\<rparr>) NV_PGRAPH_INTR 1))"
proof -
  define d where "d = (nv2a_gpu_initfn (\<lambda>_. 0) 0x4000000 (\<lambda>_. 0))\<lparr>irq := True, pmc_pending := NV_PMC_INTR_0_PGRAPH, pmc_enabled := 1,
     pgraph := pgraph_reset\<lparr>pg_pending := 1, pg_enabled := 1\<rparr>\<rparr>"
  obtain d' where w: "pgraph_write d NV_PGRAPH_INTR 1 = Inr d'" by (simp add: pgraph_write_def Let_def)
  have "irq d'" using pgraph_acknowledge_leaves_irq [of d 1 d'] w by (simp add: d_def nv2a_gpu_initfn_def)
  with w show ?thesis by (simp add: d_def)
qed

end
