(* ===== verification/NV2A_Puller.thy ===== *)
theory NV2A_Puller
  imports NV2A_MMIO
begin

text \<open>
  The puller of the NV2A (\<open>pfifo_puller_thread\<close> of \<open>src/hw/xbox/nv2a_gpu.c\<close>), a thread that takes the commands
  from the FIFO and hands them to the drawing engine, and the device as a system of threads: the guest's accesses, the
  screen refresh and the pullers take turns. A thread is a program counter; a step of it runs from one point
  where it takes or waits for a lock to the next, and a wait on a condition variable is a step that is not enabled. The engine
  (\<open>pgraph_method\<close>) is an argument, which may change PGRAPH and video memory, fail, or wait. Shown here: as
  long as only one puller was created, the engine executes the commands in the order in which they were pushed; after the guest has
  disabled and enabled the puller again there can be two, and commands are executed out of order; the puller raises an interrupt
  and waits when the channel changes; the invariant of the device holds in every reachable state.
\<close>

section \<open>The thread\<close>

text \<open>What the engine waits for after a method: nothing, the acknowledgement of a notification, or a flip.\<close>

datatype engine_wait = Runs_on | Waits_notify | Waits_flip

type_synonym 'x engine = "'x \<Rightarrow> NV2A_GPUState \<Rightarrow> 3 word \<Rightarrow> u32 \<Rightarrow> u32 \<Rightarrow> ('x \<times> PGRAPHState \<times> mem \<times> engine_wait) res"

datatype puller_pc =
  Pull_check
| Pull_fetch
| Pull_woken
| Pull_exec CacheEntry
| Pull_switch CacheEntry RAMHTEntry
| Pull_access CacheEntry u32 "u32 option"
| Pull_wait engine_wait CacheEntry "u32 option"
| Pull_bind CacheEntry "u32 option"
| Pull_end

text \<open>The lookup of a handle, with the assertions of the puller.\<close>

definition puller_lookup :: "NV2A_GPUState \<Rightarrow> u32 \<Rightarrow> RAMHTEntry res" where
  "puller_lookup d handl =
     res_bind (ramht_lookup d handl) (\<lambda>entry.
     res_bind (assert_res (entry_valid entry)) (\<lambda>_.
     res_bind (assert_res (ucast (entry_channel_id entry) = c_channel_id (cache1 d))) (\<lambda>_. Inr entry)))"

text \<open>
  \<open>pgraph_context_switch\<close> up to its wait: unless the channel is the current one, the guest is asked to switch. The
  flag says whether the thread waits.
\<close>

definition pgraph_context_switch :: "NV2A_GPUState \<Rightarrow> u32 \<Rightarrow> bool \<times> NV2A_GPUState" where
  "pgraph_context_switch d channel_id =
     (let g = pgraph d
      in if channel_valid g \<and> pg_channel_id g = channel_id then (False, d)
         else (True, update_irq (d\<lparr>pgraph := g\<lparr>trapped_channel_id := channel_id,
                 pg_pending := pg_pending g OR NV_PGRAPH_INTR_CONTEXT_SWITCH\<rparr>\<rparr>)))"

text \<open>The execution of a command up to the point where the engine runs it.\<close>

definition puller_exec :: "NV2A_GPUState \<Rightarrow> CacheEntry \<Rightarrow> (puller_pc \<times> NV2A_GPUState) res" where
  "puller_exec d command =
     (if e_method command = 0 then
        res_bind (puller_lookup d (e_parameter command)) (\<lambda>entry.
        if engine entry = ENGINE_GRAPHICS then
          let (wait, d') = pgraph_context_switch d (ucast (entry_channel_id entry))
          in Inr (if wait then Pull_switch command entry
                  else Pull_access command (ucast (instance_address entry)) (Some (engine entry)), d')
        else Inl Assertion_failed)
      else if e_method command \<ge> 0x100 then
        res_bind (if e_method command \<ge> 0x180 \<and> e_method command < 0x200
                  then res_bind (puller_lookup d (e_parameter command)) (\<lambda>entry. Inr (ucast (instance_address entry)))
                  else Inr (e_parameter command)) (\<lambda>parameter.
        res_bind (arr_get (bound_engines (cache1 d)) (unat (e_subchannel command))) (\<lambda>eng.
        if eng = ENGINE_GRAPHICS then Inr (Pull_access command parameter None, d) else Inl Assertion_failed))
      else Inr (Pull_check, d))"

text \<open>The update after the engine: the bound engine, for a command that binds, and the last engine.\<close>

definition puller_bind :: "NV2A_GPUState \<Rightarrow> CacheEntry \<Rightarrow> u32 option \<Rightarrow> NV2A_GPUState res" where
  "puller_bind d command bound =
     (let c = cache1 d; sub = unat (e_subchannel command)
      in case bound of
           Some eng \<Rightarrow> res_bind (arr_set (bound_engines c) sub eng) (\<lambda>bs. Inr (d\<lparr>cache1 := c\<lparr>bound_engines := bs, last_engine := eng\<rparr>\<rparr>))
         | None \<Rightarrow> res_bind (arr_get (bound_engines c) sub) (\<lambda>eng. Inr (d\<lparr>cache1 := c\<lparr>last_engine := eng\<rparr>\<rparr>)))"

text \<open>The engine runs a method; it raises the interrupt line itself when it notifies the guest.\<close>

definition puller_method ::
  "'x engine \<Rightarrow> 'x \<Rightarrow> NV2A_GPUState \<Rightarrow> CacheEntry \<Rightarrow> u32 \<Rightarrow> u32 option \<Rightarrow> (puller_pc \<times> NV2A_GPUState \<times> 'x) res" where
  "puller_method eng x d command parameter bound =
     res_bind (eng x d (e_subchannel command) (ucast (e_method command)) parameter) (\<lambda>(x', g, m, wait).
     let d' = d\<lparr>pgraph := g, vram := m\<rparr>
     in Inr (if wait = Runs_on then Pull_bind command bound else Pull_wait wait command bound,
             if wait = Waits_notify then update_irq d' else d', x'))"

text \<open>Whether the thread can run: its waits on condition variables and on the semaphore.\<close>

fun puller_enabled :: "puller_pc \<Rightarrow> NV2A_GPUState \<Rightarrow> bool" where
  "puller_enabled (Pull_switch command entry) d \<longleftrightarrow> pg_pending (pgraph d) AND NV_PGRAPH_INTR_CONTEXT_SWITCH = 0"
| "puller_enabled (Pull_access command parameter bound) d \<longleftrightarrow> fifo_access (pgraph d)"
| "puller_enabled (Pull_wait Waits_notify command bound) d \<longleftrightarrow> pg_pending (pgraph d) AND 1 = 0"
| "puller_enabled (Pull_wait Waits_flip command bound) d \<longleftrightarrow> read_3d (pgraph d) > 0"
| "puller_enabled Pull_end d \<longleftrightarrow> False"
| "puller_enabled _ d \<longleftrightarrow> True"

fun puller_step :: "'x engine \<Rightarrow> puller_pc \<Rightarrow> NV2A_GPUState \<Rightarrow> 'x \<Rightarrow> (puller_pc \<times> NV2A_GPUState \<times> 'x) res" where
  "puller_step eng Pull_check d x = Inr (if pull_enabled (cache1 d) then Pull_fetch else Pull_end, d, x)"
| "puller_step eng Pull_fetch d x =
     (case cache (cache1 d) of
        [] \<Rightarrow> Inr (Pull_woken, d, x)
      | command # rest \<Rightarrow> Inr (Pull_exec command,
          d\<lparr>cache1 := (cache1 d)\<lparr>cache := rest, cache_size := cache_size (cache1 d) - 1\<rparr>\<rparr>, x))"
| "puller_step eng Pull_woken d x = Inr (if pull_enabled (cache1 d) then Pull_fetch else Pull_end, d, x)"
| "puller_step eng (Pull_exec command) d x = res_bind (puller_exec d command) (\<lambda>(pc, d). Inr (pc, d, x))"
| "puller_step eng (Pull_switch command entry) d x =
     Inr (Pull_access command (ucast (instance_address entry)) (Some (engine entry)), d, x)"
| "puller_step eng (Pull_access command parameter bound) d x = puller_method eng x d command parameter bound"
| "puller_step eng (Pull_wait wait command bound) d x =
     Inr (Pull_bind command bound,
       if wait = Waits_flip then d\<lparr>pgraph := (pgraph d)\<lparr>read_3d := read_3d (pgraph d) - 1\<rparr>\<rparr> else d, x)"
| "puller_step eng (Pull_bind command bound) d x = res_bind (puller_bind d command bound) (\<lambda>d. Inr (Pull_check, d, x))"
| "puller_step eng Pull_end d x = Inr (Pull_end, d, x)"

section \<open>The system\<close>

text \<open>The command that a thread has taken from the FIFO and not yet given to the engine.\<close>

fun in_flight :: "puller_pc \<Rightarrow> CacheEntry list" where
  "in_flight (Pull_exec command) = [command]"
| "in_flight (Pull_switch command entry) = [command]"
| "in_flight (Pull_access command parameter bound) = [command]"
| "in_flight _ = []"

text \<open>The command that a step of a thread gives to the engine, or ignores because it is none for an engine.\<close>

fun executes :: "puller_pc \<Rightarrow> CacheEntry list" where
  "executes (Pull_access command parameter bound) = [command]"
| "executes (Pull_exec command) = (if 0 < e_method command \<and> e_method command < 0x100 then [command] else [])"
| "executes _ = []"

record ('v, 'x) gpu_system =
  dev :: NV2A_GPUState
  engine_state :: 'x
  vga_state :: 'v
  pullers :: "puller_pc list"

text \<open>What an observer sees of a step: commands pushed into the FIFO, or a command executed by a puller.\<close>

datatype gpu_event = Pushed CacheEntry | Executed CacheEntry

inductive gpu_step :: "'v vga_ops \<Rightarrow> 'x engine \<Rightarrow> ('v, 'x) gpu_system \<Rightarrow> gpu_event list \<Rightarrow> ('v, 'x) gpu_system \<Rightarrow> bool"
  for ops :: "'v vga_ops" and eng :: "'x engine" where
  guest_write: "block_at a = Some (b, off) \<Longrightarrow> block_write ops (dev s, vga_state s) b off val = Some (Inr (d', v')) \<Longrightarrow>
    gpu_step ops eng s (map Pushed (drop (length (cache (cache1 (dev s)))) (cache (cache1 d'))))
      (s\<lparr>dev := d', vga_state := v', pullers := pullers s @ replicate (pullers_created d' - pullers_created (dev s)) Pull_check\<rparr>)"
| guest_read: "block_at a = Some (b, off) \<Longrightarrow> block_read ops ns (dev s, vga_state s) b off sz = Inr (r, v') \<Longrightarrow>
    gpu_step ops eng s [] (s\<lparr>vga_state := v'\<rparr>)"
| guest_memory: "gpu_step ops eng s [] (s\<lparr>dev := (dev s)\<lparr>ramin := m, vram := m'\<rparr>\<rparr>)"
| refresh: "gpu_step ops eng s [] (s\<lparr>dev := nv2a_gpu_vga_gfx_update (dev s)\<rparr>)"
| puller: "i < length (pullers s) \<Longrightarrow> puller_enabled (pullers s ! i) (dev s) \<Longrightarrow>
    puller_step eng (pullers s ! i) (dev s) (engine_state s) = Inr (pc', d', x') \<Longrightarrow>
    gpu_step ops eng s (map Executed (executes (pullers s ! i)))
      (s\<lparr>dev := d', engine_state := x', pullers := (pullers s)[i := pc']\<rparr>)"

inductive gpu_run :: "'v vga_ops \<Rightarrow> 'x engine \<Rightarrow> ('v, 'x) gpu_system \<Rightarrow> gpu_event list \<Rightarrow> ('v, 'x) gpu_system \<Rightarrow> bool"
  for ops :: "'v vga_ops" and eng :: "'x engine" where
  run_start: "gpu_run ops eng s [] s"
| run_step: "gpu_run ops eng s evs s' \<Longrightarrow> gpu_step ops eng s' evs' s'' \<Longrightarrow> gpu_run ops eng s (evs @ evs') s''"

definition gpu_start :: "mem \<Rightarrow> hwaddr \<Rightarrow> mem \<Rightarrow> 'v \<Rightarrow> 'x \<Rightarrow> ('v, 'x) gpu_system" where
  "gpu_start ram ram_size pci_config v x =
     \<lparr>dev = nv2a_gpu_initfn ram ram_size pci_config, engine_state = x, vga_state = v, pullers = []\<rparr>"

inductive_cases gpu_stepE: "gpu_step ops eng s evs s'"

section \<open>What writes do to the FIFO\<close>

text \<open>The guest's writes only append to the FIFO, and never take back a thread.\<close>

definition fifo_grows :: "NV2A_GPUState \<Rightarrow> NV2A_GPUState \<Rightarrow> bool" where
  "fifo_grows d d' \<longleftrightarrow> (\<exists>new. cache (cache1 d') = cache (cache1 d) @ new) \<and> pullers_created d \<le> pullers_created d'"

lemma fifo_grows_same: "cache (cache1 d') = cache (cache1 d) \<Longrightarrow> pullers_created d' = pullers_created d \<Longrightarrow> fifo_grows d d'"
  by (simp add: fifo_grows_def)

lemma update_irq_fifo [simp]:
  "cache1 (update_irq d) = cache1 d" "pullers_created (update_irq d) = pullers_created d" "pgraph (update_irq d) = pgraph d"
  using update_irq_frame [of d] by auto

lemma run_pusher_grows: "pfifo_run_pusher d = Some (Inr d') \<Longrightarrow> fifo_grows d d'"
  by (drule run_pusher_frame) (auto simp: fifo_grows_def pusher_frame_def)

lemma control_write_grows: "run_all (fifo_grows d) (Some (control_write d n f))"
  by (auto simp: run_all_def control_write_def res_bind_Inr_iff fifo_grows_same)

lemma dma_push_grows: "run_all (fifo_grows d) (dma_push_write d val)"
proof -
  have eq: "fifo_grows (d\<lparr>cache1 := (cache1 d)\<lparr>dma_push_enabled := b, dma_push_suspended := e\<rparr>\<rparr>) d1
      \<Longrightarrow> fifo_grows d (d1\<lparr>cache1 := (cache1 d1)\<lparr>dma_push_suspended := e'\<rparr>\<rparr>)" for b e e' d1
    by (auto simp: fifo_grows_def)
  show ?thesis
    unfolding run_all_def dma_push_write_def Let_def
    by (auto simp: res_bind_Inr_iff split: if_splits dest!: run_pusher_grows intro: eq fifo_grows_same)
qed

lemma pull0_write_grows: "fifo_grows d (pull0_write d val)"
  by (simp add: pull0_write_def fifo_grows_def)

lemma pfifo_write_grows: "run_all (fifo_grows d) (pfifo_write d addr val)"
  unfolding pfifo_write_def Let_def
  by (intro run_all_if run_all_Some control_write_grows dma_push_grows pull0_write_grows run_all_res res_all_bind res_all_Inr)
    (rule fifo_grows_same; simp add: dma_state_write_def)+

lemma user_write_grows: "run_all (fifo_grows d) (user_write d addr val)"
proof -
  have put: "run_all (fifo_grows d) (case control_write d n f of Inl e \<Rightarrow> Some (Inl e)
      | Inr d' \<Rightarrow> if push_enabled (cache1 d') then pfifo_run_pusher d' else Some (Inr d'))" for n f
    unfolding run_all_def control_write_def
    by (auto simp: arr_get_def fifo_grows_def split: if_splits sum.splits dest!: run_pusher_grows)
  have err: "run_all (fifo_grows d) (Some (Inl e))" for e by (simp add: run_all_def)
  show ?thesis
    unfolding user_write_def Let_def
    by (intro run_all_if err put control_write_grows run_all_Some) (simp add: fifo_grows_same)
qed

lemma simple_writes_grow:
  "fifo_grows d (pmc_write d addr val)" "fifo_grows d (pbus_write d addr val)" "fifo_grows d (ptimer_write d addr val)"
  "fifo_grows d (pramdac_write d addr val)"
  by (rule fifo_grows_same; simp add: pmc_write_def pbus_write_def ptimer_write_def pramdac_write_def Let_def)+

lemma pgraph_write_grows: "res_all (fifo_grows d) (pgraph_write d addr val)"
proof -
  have g: "fifo_grows d (d\<lparr>pgraph := g\<rparr>)" for g by (simp add: fifo_grows_def)
  have same: "fifo_grows d d" by (simp add: fifo_grows_def)
  show ?thesis
    unfolding pgraph_write_def Let_def by (intro res_all_if res_all_Inr res_all_bind g) (simp_all add: g same)
qed

lemma block_write_grows:
  assumes "block_write ops (d, vga) b off val = Some (Inr (d', vga'))"
  shows "fifo_grows d d'"
proof (cases b)
  case NV_PFIFO
  then show ?thesis using run_allD [OF pfifo_write_grows] assms by simp
next
  case NV_USER
  then show ?thesis using run_allD [OF user_write_grows] assms by simp
next
  case NV_PGRAPH
  then show ?thesis using pgraph_write_grows [of d off val] assms by (auto simp: res_all_def res_bind_Inr_iff)
next
  case NV_PVIDEO
  then show ?thesis using assms by (auto simp: pvideo_write_def res_bind_Inr_iff fifo_grows_def split: if_splits)
next
  case NV_PFB
  then show ?thesis using assms by (auto simp: pfb_write_def res_bind_Inr_iff fifo_grows_def)
next
  case NV_PCRTC
  then show ?thesis using assms by (auto simp: pcrtc_write_def res_bind_Inr_iff Let_def fifo_grows_def split: if_splits)
qed (use assms simple_writes_grow in \<open>auto simp: fifo_grows_same\<close>)

section \<open>Order\<close>

fun pushed :: "gpu_event list \<Rightarrow> CacheEntry list" where
  "pushed [] = []"
| "pushed (Pushed e # evs) = e # pushed evs"
| "pushed (Executed e # evs) = pushed evs"

fun executed :: "gpu_event list \<Rightarrow> CacheEntry list" where
  "executed [] = []"
| "executed (Pushed e # evs) = executed evs"
| "executed (Executed e # evs) = e # executed evs"

lemma events_append [simp]: "pushed (a @ b) = pushed a @ pushed b" "executed (a @ b) = executed a @ executed b"
  by (induction a rule: pushed.induct) simp_all

lemma events_map [simp]:
  "pushed (map Pushed es) = es" "executed (map Pushed es) = []" "pushed (map Executed es) = []" "executed (map Executed es) = es"
  by (induction es) simp_all

lemma context_switch_fifo:
  "pgraph_context_switch d ch = (w, d') \<Longrightarrow> cache1 d' = cache1 d \<and> pullers_created d' = pullers_created d"
  by (auto simp: pgraph_context_switch_def Let_def split: if_splits)

lemma puller_exec_fifo:
  assumes "puller_exec d command = Inr (pc', d')"
  shows "cache1 d' = cache1 d \<and> pullers_created d' = pullers_created d \<and>
    [command] = executes (Pull_exec command) @ in_flight pc'"
proof (cases "e_method command = 0")
  case True
  then show ?thesis using assms unfolding puller_exec_def
    by (auto simp: res_bind_Inr_iff split: if_splits prod.splits dest: context_switch_fifo)
next
  case False
  then have "0 < e_method command" by (simp add: word_gt_0)
  then show ?thesis using assms False unfolding puller_exec_def by (auto simp: res_bind_Inr_iff not_less split: if_splits)
qed

lemma puller_bind_fifo:
  "puller_bind d command bound = Inr d' \<Longrightarrow> cache (cache1 d') = cache (cache1 d) \<and> pullers_created d' = pullers_created d"
  by (auto simp: puller_bind_def Let_def res_bind_Inr_iff split: option.splits)

text \<open>A step of a thread either takes the first command, or keeps its command, or gives it to the engine.\<close>

lemma puller_step_fifo:
  assumes "puller_step eng pc d x = Inr (pc', d', x')"
  shows "pullers_created d' = pullers_created d \<and>
    in_flight pc @ cache (cache1 d) = executes pc @ in_flight pc' @ cache (cache1 d')"
proof (cases pc)
  case (Pull_exec command)
  then show ?thesis using puller_exec_fifo [of d command pc' d'] assms by (auto simp: res_bind_Inr_iff)
next
  case (Pull_bind command bound)
  then show ?thesis using puller_bind_fifo [of d command bound d'] assms by (auto simp: res_bind_Inr_iff)
next
  case (Pull_access command parameter bound)
  then show ?thesis using assms by (auto simp: puller_method_def res_bind_Inr_iff Let_def)
next
  case Pull_fetch
  then show ?thesis using assms by (cases "cache (cache1 d)") auto
qed (use assms in auto)

text \<open>The threads are those that were created, and with at most one of them nothing overtakes.\<close>

lemma gpu_step_threads:
  assumes "gpu_step ops eng s evs s'" "length (pullers s) = pullers_created (dev s)"
  shows "length (pullers s') = pullers_created (dev s') \<and> pullers_created (dev s) \<le> pullers_created (dev s')"
  using assms
proof (cases rule: gpu_step.cases)
  case (guest_write a b off val d' v')
  then show ?thesis using block_write_grows [of ops "dev s" "vga_state s" b off val d' v'] assms(2) by (simp add: fifo_grows_def)
next
  case (puller i pc' d' x')
  then show ?thesis using puller_step_fifo [of eng "pullers s ! i" "dev s" "engine_state s" pc' d' x'] assms(2) by simp
qed (use assms in \<open>simp_all add: nv2a_gpu_vga_gfx_update_def\<close>)

lemma gpu_step_order:
  assumes "gpu_step ops eng s evs s'" "length (pullers s) = pullers_created (dev s)" "pullers_created (dev s') \<le> 1"
  shows "concat (map in_flight (pullers s)) @ cache (cache1 (dev s)) @ pushed evs
    = executed evs @ concat (map in_flight (pullers s')) @ cache (cache1 (dev s'))"
  using assms(1)
proof (cases rule: gpu_step.cases)
  case (guest_write a b off val d' v')
  obtain new where "cache (cache1 d') = cache (cache1 (dev s)) @ new"
    using block_write_grows [OF guest_write(4)] by (auto simp: fifo_grows_def)
  then show ?thesis by (simp add: guest_write)
next
  case (puller i pc' d' x')
  have "length (pullers s) \<le> 1" using gpu_step_threads [OF assms(1,2)] assms by simp
  then have "pullers s = [pullers s ! i]" using puller(3) by (cases "pullers s") auto
  then obtain pc where pc: "pullers s = [pc]" "i = 0" using puller(3) by (metis length_Cons less_one list.size(3) One_nat_def)
  show ?thesis using puller_step_fifo [OF puller(5)] by (simp add: puller pc)
qed (simp_all add: nv2a_gpu_vga_gfx_update_def)

lemma gpu_run_threads:
  "gpu_run ops eng s evs s' \<Longrightarrow> length (pullers s) = pullers_created (dev s) \<Longrightarrow> length (pullers s') = pullers_created (dev s')"
  by (induction rule: gpu_run.induct) (auto dest: gpu_step_threads)

lemma gpu_run_order:
  assumes "gpu_run ops eng s evs s'" "length (pullers s) = pullers_created (dev s)" "pullers_created (dev s') \<le> 1"
  shows "concat (map in_flight (pullers s)) @ cache (cache1 (dev s)) @ pushed evs
    = executed evs @ concat (map in_flight (pullers s')) @ cache (cache1 (dev s'))"
  using assms
proof (induction rule: gpu_run.induct)
  case (run_step s evs s' evs' s'')
  have len: "length (pullers s') = pullers_created (dev s')" using gpu_run_threads run_step by blast
  have "pullers_created (dev s') \<le> 1" using gpu_step_threads [OF run_step.hyps(2) len] run_step.prems(2) by simp
  from run_step.IH [OF run_step.prems(1) this] gpu_step_order [OF run_step.hyps(2) len run_step.prems(2)]
  show ?case by (metis append_assoc events_append)
qed simp

section \<open>Runs of one thread\<close>

lemma gpu_run_trans:
  assumes "gpu_run ops eng s evs s'" "gpu_run ops eng s' evs' s''"
  shows "gpu_run ops eng s (evs @ evs') s''"
  using assms(2,1)
proof (induction rule: gpu_run.induct)
  case (run_step s1 evs1 s2 evs2 s3)
  then show ?case using gpu_run.run_step by (metis append_assoc)
qed simp

lemma gpu_run_one: "gpu_step ops eng s evs s' \<Longrightarrow> gpu_run ops eng s evs s'"
  using gpu_run.run_step [OF gpu_run.run_start] by force

lemma pull0_at: "block_at 0x3250 = Some (NV_PFIFO, NV_PFIFO_CACHE1_PULL0)"
  by (simp add: block_at_def blocktable_def NV_PFIFO_CACHE1_PULL0_def)

lemma pull0_step:
  "gpu_step ops eng s [] (s\<lparr>dev := pull0_write (dev s) val,
     pullers := pullers s @ replicate (pullers_created (pull0_write (dev s) val) - pullers_created (dev s)) Pull_check\<rparr>)"
proof -
  have w: "block_write ops (dev s, vga_state s) NV_PFIFO NV_PFIFO_CACHE1_PULL0 val = Some (Inr (pull0_write (dev s) val, vga_state s))"
    by (simp add: pfifo_write_def pfifo_offsets Let_def)
  have "cache (cache1 (pull0_write (dev s) val)) = cache (cache1 (dev s))" by (simp add: pull0_write_def)
  then show ?thesis using guest_write [OF pull0_at w, of eng] by simp
qed

text \<open>A command that the drawing engine executes.\<close>

definition graphics_command :: "NV2A_GPUState \<Rightarrow> CacheEntry \<Rightarrow> bool" where
  "graphics_command d c \<longleftrightarrow> 0x200 \<le> e_method c \<and> unat (e_subchannel c) < length (bound_engines (cache1 d))
     \<and> bound_engines (cache1 d) ! unat (e_subchannel c) = ENGINE_GRAPHICS"

text \<open>An engine that neither fails nor waits, nor closes its access to the FIFO.\<close>

definition smooth_engine :: "'x engine \<Rightarrow> bool" where
  "smooth_engine eng \<longleftrightarrow>
     (\<forall>x d sub mth par. \<exists>x' g m. eng x d sub mth par = Inr (x', g, m, Runs_on) \<and> (fifo_access (pgraph d) \<longrightarrow> fifo_access g))"

lemma thread_fetch:
  assumes "i < length (pullers s)" "pullers s ! i = Pull_check" "pull_enabled (cache1 (dev s))" "cache (cache1 (dev s)) = c # rest"
  shows "gpu_run ops eng s [] (s\<lparr>dev := (dev s)\<lparr>cache1 := (cache1 (dev s))\<lparr>cache := rest, cache_size := cache_size (cache1 (dev s)) - 1\<rparr>\<rparr>,
    pullers := (pullers s)[i := Pull_exec c]\<rparr>)"
proof -
  have "gpu_step ops eng s [] (s\<lparr>dev := dev s, pullers := (pullers s)[i := Pull_fetch]\<rparr>)"
    using puller [OF assms(1), of eng Pull_fetch "dev s" "engine_state s" ops] assms by simp
  moreover have "gpu_step ops eng (s\<lparr>dev := dev s, pullers := (pullers s)[i := Pull_fetch]\<rparr>) []
      (s\<lparr>dev := (dev s)\<lparr>cache1 := (cache1 (dev s))\<lparr>cache := rest, cache_size := cache_size (cache1 (dev s)) - 1\<rparr>\<rparr>,
        pullers := (pullers s)[i := Pull_exec c]\<rparr>)"
    using puller [of i "s\<lparr>dev := dev s, pullers := (pullers s)[i := Pull_fetch]\<rparr>" eng "Pull_exec c"
      "(dev s)\<lparr>cache1 := (cache1 (dev s))\<lparr>cache := rest, cache_size := cache_size (cache1 (dev s)) - 1\<rparr>\<rparr>" "engine_state s" ops] assms by simp
  ultimately show ?thesis using gpu_run_trans [OF gpu_run_one gpu_run_one] by fastforce
qed

lemma thread_finish:
  assumes "i < length (pullers s)" "pullers s ! i = Pull_exec c" "graphics_command (dev s) c" "smooth_engine eng"
    "fifo_access (pgraph (dev s))"
  shows "\<exists>d' x'. gpu_run ops eng s [Executed c] (s\<lparr>dev := d', engine_state := x', pullers := (pullers s)[i := Pull_check]\<rparr>)
    \<and> fifo_access (pgraph d') \<and> bound_engines (cache1 d') = bound_engines (cache1 (dev s))
    \<and> cache (cache1 d') = cache (cache1 (dev s)) \<and> pull_enabled (cache1 d') = pull_enabled (cache1 (dev s))"
proof -
  let ?p = "e_parameter c"
  obtain x' g m where e: "eng (engine_state s) (dev s) (e_subchannel c) (ucast (e_method c)) ?p = Inr (x', g, m, Runs_on)" and acc: "fifo_access g"
    using assms(4,5) by (metis smooth_engine_def)
  let ?d = "(dev s)\<lparr>pgraph := g, vram := m\<rparr>"
  let ?d' = "?d\<lparr>cache1 := (cache1 (dev s))\<lparr>last_engine := ENGINE_GRAPHICS\<rparr>\<rparr>"
  let ?s = "\<lambda>d x pc. s\<lparr>dev := d, engine_state := x, pullers := (pullers s)[i := pc]\<rparr>"
  have "\<not> e_method c < 0x200" using assms(3) by (simp add: graphics_command_def not_less)
  moreover have m: "e_method c \<noteq> 0" "0x100 \<le> e_method c"
    using assms(3) by (auto simp: graphics_command_def word_le_nat_alt)
  ultimately have "puller_exec (dev s) c = Inr (Pull_access c ?p None, dev s)"
    using assms(3) by (simp add: puller_exec_def graphics_command_def)
  then have 1: "gpu_step ops eng s [] (?s (dev s) (engine_state s) (Pull_access c ?p None))"
    using puller [OF assms(1), of eng "Pull_access c ?p None" "dev s" "engine_state s" ops] assms leD [OF m(2)] by simp
  have 2: "gpu_step ops eng (?s (dev s) (engine_state s) (Pull_access c ?p None)) [Executed c] (?s ?d x' (Pull_bind c None))"
    using puller [of i "?s (dev s) (engine_state s) (Pull_access c ?p None)" eng "Pull_bind c None" ?d x' ops] assms e
    by (simp add: puller_method_def)
  have 3: "gpu_step ops eng (?s ?d x' (Pull_bind c None)) [] (?s ?d' x' Pull_check)"
    using puller [of i "?s ?d x' (Pull_bind c None)" eng Pull_check ?d' x' ops] assms by (simp add: puller_bind_def graphics_command_def Let_def)
  have "gpu_run ops eng s ([] @ [Executed c] @ []) (?s ?d' x' Pull_check)"
    by (intro gpu_run_trans [OF gpu_run_one [OF 1]] gpu_run_trans [OF gpu_run_one [OF 2]] gpu_run_one [OF 3])
  then show ?thesis using acc by (intro exI [of _ ?d'] exI [of _ x']) simp
qed

text \<open>Enabling the puller creates a thread.\<close>

lemma enable_puller:
  assumes "\<not> pull_enabled (cache1 (dev s))"
  shows "gpu_run ops eng s [] (s\<lparr>dev := (dev s)\<lparr>cache1 := (cache1 (dev s))\<lparr>pull_enabled := True\<rparr>,
    pullers_created := pullers_created (dev s) + 1\<rparr>, pullers := pullers s @ [Pull_check]\<rparr>)"
  using gpu_run_one [OF pull0_step [of ops eng s 1]] assms by (simp add: pull0_write_def NV_PFIFO_CACHE1_PULL0_ACCESS_def)

lemma disable_puller:
  assumes "pull_enabled (cache1 (dev s))"
  shows "gpu_run ops eng s [] (s\<lparr>dev := (dev s)\<lparr>cache1 := (cache1 (dev s))\<lparr>pull_enabled := False\<rparr>\<rparr>, pullers := pullers s\<rparr>)"
  using gpu_run_one [OF pull0_step [of ops eng s 0]] assms by (simp add: pull0_write_def NV_PFIFO_CACHE1_PULL0_ACCESS_def)

section \<open>Properties\<close>

text \<open>
  C12. As long as the guest has enabled the puller at most once, the FIFO is a channel: at every moment, whatever the guest
  writes in between, the commands that were in the FIFO and were pushed since are those that the engine has executed,
  followed by the one that the puller holds and those that still wait, in this order. None is lost, repeated or
  overtaken.
\<close>

theorem fifo_order:
  assumes "gpu_run ops eng s evs s'" "pullers s = []" "pullers_created (dev s) = 0" "pullers_created (dev s') \<le> 1"
  shows "cache (cache1 (dev s)) @ pushed evs = executed evs @ concat (map in_flight (pullers s')) @ cache (cache1 (dev s'))"
  using gpu_run_order [OF assms(1)] assms(2-) by simp

definition demo_system :: "CacheEntry list \<Rightarrow> (unit, unit) gpu_system" where
  "demo_system es = \<lparr>dev = (nv2a_gpu_initfn (\<lambda>_. 0) 0x4000000 (\<lambda>_. 0))\<lparr>
     cache1 := cache1_reset\<lparr>cache := es, bound_engines := replicate 8 ENGINE_GRAPHICS\<rparr>, pgraph := pgraph_reset\<lparr>fifo_access := True\<rparr>\<rparr>,
     engine_state = (), vga_state = (), pullers = []\<rparr>"

definition demo_command :: "u32 \<Rightarrow> CacheEntry" where
  "demo_command p = \<lparr>e_method = 0x200, e_subchannel = 0, e_nonincreasing = False, e_parameter = p\<rparr>"

definition demo_ops :: "unit vga_ops" where
  "demo_ops = \<lparr>vga_ioport_read = \<lambda>v _. (0, v), vga_ioport_write = \<lambda>v _ _. v, ar_flip_flop = \<lambda>_. False\<rparr>"

definition idle_engine :: "unit engine" where
  "idle_engine x d sub mth par = Inr (x, pgraph d, vram d, Runs_on)"

lemma idle_engine_smooth: "smooth_engine idle_engine"
  by (simp add: smooth_engine_def idle_engine_def)

lemma demo_system_graphics: "graphics_command (dev (demo_system es)) (demo_command p)"
  by (simp add: graphics_command_def demo_system_def demo_command_def)

theorem fifo_order_witness:
  "\<exists>s'. gpu_run demo_ops idle_engine (demo_system [demo_command 1, demo_command 2]) [Executed (demo_command 1)] s'
    \<and> cache (cache1 (dev s')) = [demo_command 2]
    \<and> [demo_command 1, demo_command 2] = [demo_command 1] @ concat (map in_flight (pullers s')) @ cache (cache1 (dev s'))"
proof -
  let ?s = "demo_system [demo_command 1, demo_command 2]"
  let ?s1 = "?s\<lparr>dev := (dev ?s)\<lparr>cache1 := (cache1 (dev ?s))\<lparr>pull_enabled := True\<rparr>, pullers_created := 1\<rparr>, pullers := [Pull_check]\<rparr>"
  let ?s2 = "?s1\<lparr>dev := (dev ?s1)\<lparr>cache1 := (cache1 (dev ?s1))\<lparr>cache := [demo_command 2], cache_size := cache_size (cache1 (dev ?s1)) - 1\<rparr>\<rparr>,
      pullers := [Pull_exec (demo_command 1)]\<rparr>"
  have 1: "gpu_run demo_ops idle_engine ?s [] ?s1"
    using enable_puller [of ?s demo_ops idle_engine] by (simp add: demo_system_def cache1_reset_def nv2a_gpu_initfn_def)
  have 2: "gpu_run demo_ops idle_engine ?s1 [] ?s2"
    using thread_fetch [of 0 ?s1 "demo_command 1" "[demo_command 2]" demo_ops idle_engine] by (simp add: demo_system_def)
  have g: "graphics_command (dev ?s2) (demo_command 1)" "fifo_access (pgraph (dev ?s2))"
    by (simp_all add: graphics_command_def demo_system_def demo_command_def)
  obtain d' where 3: "gpu_run demo_ops idle_engine ?s2 [Executed (demo_command 1)] (?s2\<lparr>dev := d', engine_state := (), pullers := [Pull_check]\<rparr>)"
      and c: "cache (cache1 d') = [demo_command 2]"
    using thread_finish [of 0 ?s2, OF _ _ g(1) idle_engine_smooth g(2), of demo_ops] by auto
  let ?s3 = "?s2\<lparr>dev := d', engine_state := (), pullers := [Pull_check]\<rparr>"
  have run: "gpu_run demo_ops idle_engine ?s [Executed (demo_command 1)] ?s3"
    using gpu_run_trans [OF gpu_run_trans [OF 1 2] 3] by simp
  have "length (pullers ?s) = pullers_created (dev ?s)" by (simp add: demo_system_def nv2a_gpu_initfn_def)
  from gpu_run_threads [OF run this] have "pullers_created (dev ?s3) \<le> 1" by simp
  from fifo_order [OF run _ _ this] show ?thesis using run c
    by (intro exI [of _ ?s3]) (simp add: demo_system_def nv2a_gpu_initfn_def)
qed



section \<open>The invariant of the system\<close>

lemma gpu_ok_memory [simp]: "gpu_ok (d\<lparr>ramin := m, vram := m'\<rparr>) = gpu_ok d"
  by (simp add: gpu_ok_def)

lemma context_switch_ok: "gpu_ok d \<Longrightarrow> pgraph_context_switch d ch = (w, d') \<Longrightarrow> gpu_ok d'"
  unfolding pgraph_context_switch_def Let_def
  by (auto intro!: gpu_ok_pgraph split: if_splits) (simp_all add: gpu_ok_def pgraph_ok_def)

lemma puller_exec_ok: "gpu_ok d \<Longrightarrow> puller_exec d command = Inr (pc', d') \<Longrightarrow> gpu_ok d'"
  unfolding puller_exec_def
  by (auto simp: res_bind_Inr_iff split: if_splits prod.splits dest: context_switch_ok)

lemma puller_bind_ok: "gpu_ok d \<Longrightarrow> puller_bind d command bound = Inr d' \<Longrightarrow> gpu_ok d'"
  by (auto simp: puller_bind_def Let_def res_bind_Inr_iff gpu_ok_def cache1_ok_def arr_set_def split: option.splits if_splits)

text \<open>An engine that keeps an invariant of its own state and respects the bounds of PGRAPH.\<close>

definition engine_keeps_ok :: "('x \<Rightarrow> bool) \<Rightarrow> 'x engine \<Rightarrow> bool" where
  "engine_keeps_ok keep eng \<longleftrightarrow> (\<forall>x d sub mth par x' g m w.
     keep x \<longrightarrow> gpu_ok d \<longrightarrow> eng x d sub mth par = Inr (x', g, m, w) \<longrightarrow> keep x' \<and> pgraph_ok g)"

lemma puller_method_ok:
  assumes "engine_keeps_ok keep eng" "keep x" "gpu_ok d" "puller_method eng x d command parameter bound = Inr (pc', d', x')"
  shows "gpu_ok d' \<and> keep x'"
proof -
  obtain g m w where e: "eng x d (e_subchannel command) (ucast (e_method command)) parameter = Inr (x', g, m, w)"
      and d': "d' = (if w = Waits_notify then update_irq (d\<lparr>pgraph := g, vram := m\<rparr>) else d\<lparr>pgraph := g, vram := m\<rparr>)"
    using assms(4) by (auto simp: puller_method_def res_bind_Inr_iff Let_def)
  have "keep x' \<and> pgraph_ok g" using assms(1-3) e unfolding engine_keeps_ok_def by blast
  moreover from this have "gpu_ok (d\<lparr>pgraph := g, vram := m\<rparr>)" using assms(3) by (simp add: gpu_ok_def)
  ultimately show ?thesis by (simp add: d')
qed

lemma puller_step_ok:
  assumes "engine_keeps_ok keep eng" "keep x" "gpu_ok d" "puller_step eng pc d x = Inr (pc', d', x')"
  shows "gpu_ok d' \<and> keep x'"
proof (cases pc)
  case (Pull_exec command)
  then show ?thesis using assms puller_exec_ok by (auto simp: res_bind_Inr_iff)
next
  case (Pull_access command parameter bound)
  then show ?thesis using assms puller_method_ok by simp
next
  case (Pull_bind command bound)
  then show ?thesis using assms by (auto simp: res_bind_Inr_iff intro: puller_bind_ok)
next
  case Pull_fetch
  then show ?thesis using assms by (cases "cache (cache1 d)") (auto simp: gpu_ok_def cache1_ok_def)
next
  case (Pull_wait w command bound)
  then show ?thesis using assms by (auto simp: gpu_ok_def pgraph_ok_def split: if_splits)
qed (use assms in auto)

lemma gpu_step_ok:
  assumes "gpu_step ops eng s evs s'" "engine_keeps_ok keep eng" "gpu_ok (dev s)" "keep (engine_state s)"
  shows "gpu_ok (dev s') \<and> keep (engine_state s')"
  using assms(1)
proof (cases rule: gpu_step.cases)
  case (guest_write a b off val d' v')
  then show ?thesis using block_write_ok [OF assms(3) guest_write(3,4)] assms(4) by simp
next
  case (puller i pc' d' x')
  then show ?thesis using puller_step_ok [OF assms(2,4,3) puller(5)] by simp
qed (use assms(3,4) in \<open>simp_all add: nv2a_gpu_vga_gfx_update_def\<close>)

lemma gpu_run_ok:
  assumes "gpu_run ops eng s evs s'" "engine_keeps_ok keep eng" "gpu_ok (dev s)" "keep (engine_state s)"
  shows "gpu_ok (dev s') \<and> keep (engine_state s')"
  using assms(1,3,4)
proof (induction rule: gpu_run.induct)
  case (run_step s1 evs1 s2 evs2 s3)
  then show ?case using gpu_step_ok [OF run_step.hyps(2) assms(2)] by blast
qed simp

text \<open>
  In every state that the machine reaches, however the guest's accesses, the screen refresh and any number of pullers
  interleave, the device's channel numbers index its arrays, and the addresses of its tables and objects lie in
  instance memory, as long as the drawing engine respects this itself.
\<close>

lemma gpu_invariant:
  assumes "gpu_run ops eng (gpu_start ram ram_size pci_config v x) evs s" "engine_keeps_ok keep eng" "keep x"
  shows "gpu_ok (dev s) \<and> keep (engine_state s)"
  using gpu_run_ok [OF assms(1,2)] assms(3) by (simp add: gpu_start_def gpu_ok_init)

lemma gpu_invariant_witness:
  "gpu_ok (pull0_write (nv2a_gpu_initfn (\<lambda>_. 0) 0x4000000 (\<lambda>_. 0)) 1)"
proof -
  let ?s = "gpu_start (\<lambda>_. 0) 0x4000000 (\<lambda>_. 0) () ()"
  have eng: "engine_keeps_ok (\<lambda>_. True) idle_engine" by (simp add: engine_keeps_ok_def idle_engine_def gpu_ok_def)
  have "gpu_run demo_ops idle_engine ?s [] (?s\<lparr>dev := pull0_write (dev ?s) 1,
      pullers := pullers ?s @ replicate (pullers_created (pull0_write (dev ?s) 1) - pullers_created (dev ?s)) Pull_check\<rparr>)"
    by (rule gpu_run_one [OF pull0_step])
  from gpu_invariant [OF this eng] show ?thesis by (simp add: gpu_start_def)
qed

section \<open>Handles and channels\<close>

lemma ramht_fold_small: "unat h < 2 ^ bits \<Longrightarrow> 0 < bits \<Longrightarrow> bits < 32 \<Longrightarrow> ramht_fold bits h hash = hash XOR h"
proof -
  assume h: "unat h < 2 ^ bits" and b: "0 < bits" "bits < 32"
  have "h AND (push_bit bits 1 - 1) = h"
  proof (rule bit_word_eqI)
    fix n :: nat
    assume "n < LENGTH(32)"
    have "push_bit bits 1 - 1 = (mask bits :: u32)" by (simp add: mask_eq_exp_minus_1)
    then show "bit (h AND (push_bit bits 1 - 1)) n = bit h n"
      using unat_less_two_powerD [OF h, of n] \<open>n < LENGTH(32)\<close> by (auto simp: bit_simps not_le [symmetric])
  qed
  moreover have "drop_bit bits h = 0"
    by (rule bit_word_eqI) (use unat_less_two_powerD [OF h] in \<open>auto simp: bit_simps\<close>)
  ultimately show ?thesis using b by (simp add: ramht_fold.simps [of bits h] ramht_fold.simps [of bits 0])
qed

text \<open>
  The hash of a handle has two bits more than the table's index. A handle of channel 0 beyond the number of the
  table's entries fails the lookup's assertion, which ends the emulator, instead of finding an entry.
\<close>

lemma ramht_handle_asserts:
  assumes "ramht_size d = push_bit k 1" "12 \<le> k" "k \<le> 15" "c_channel_id (cache1 d) = 0" "2 ^ (k - 3) \<le> unat h" "unat h < 2 ^ (k - 1)"
  shows "ramht_lookup d h = Inl Assertion_failed"
proof -
  have "ffs (ramht_size d) = Suc k" using assms(1,3) ffs_two_power [of k] by simp
  then have bits: "int (ffs (ramht_size d)) - 2 = int (k - 1)" using assms(2) by simp
  have "ramht_fold (k - 1) h 0 = h" using ramht_fold_small [OF assms(6)] assms(2,3) by simp
  moreover have "\<not> (int (k - 1) < 4 \<or> 31 < int (k - 1))" using assms(2,3) by linarith
  ultimately have hash: "ramht_hash d h = Inr h" using assms(4) by (simp only: ramht_hash_def bits Let_def if_False nat_int) simp
  have "unat h * 8 < 2 ^ (k - 1) * 8" using assms(6) by simp
  also have "2 ^ (k - 1) * 8 \<le> (2 ^ 14 * 8 :: nat)" using assms(3) by (intro mult_le_mono1 power_increasing) auto
  finally have "unat (h * 8) = unat h * 8" by (simp add: unat_word_ariths)
  moreover have "unat (ramht_size d) = 2 ^ k" using assms(1,3) unat_two_power [of k, where 'a = 32] by simp
  moreover have "2 ^ k = 2 ^ (k - 3) * (8 :: nat)" using assms(2) power_add [of "2 :: nat" "k - 3" 3] by simp
  ultimately have "\<not> h * 8 < ramht_size d" using assms(5) by (simp add: word_less_nat_alt)
  then show ?thesis by (simp add: ramht_lookup_def hash)
qed

lemma ramht_handle_asserts_witness:
  "ramht_lookup ((nv2a_gpu_initfn (\<lambda>_. 0) 0x4000000 (\<lambda>_. 0))\<lparr>ramht_size := 0x1000\<rparr>) 0x200 = Inl Assertion_failed"
  using ramht_handle_asserts [of "(nv2a_gpu_initfn (\<lambda>_. 0) 0x4000000 (\<lambda>_. 0))\<lparr>ramht_size := 0x1000\<rparr>" 12 "0x200"]
  by (simp add: nv2a_gpu_initfn_def cache1_reset_def)

lemma update_irq_raises:
  assumes "bit (pg_pending (pgraph d)) n" "bit (pg_enabled (pgraph d)) n" "pmc_enabled d \<noteq> 0"
  shows "irq (update_irq d)"
proof -
  have "bit (pg_pending (pgraph d) AND pg_enabled (pgraph d)) n" using assms by (simp add: bit_and_iff)
  then have on: "pg_pending (pgraph d) AND pg_enabled (pgraph d) \<noteq> 0" by (metis bit_0_eq bot_apply bot_bool_def)
  have "p OR NV_PMC_INTR_0_PGRAPH \<noteq> 0" for p
  proof -
    have "bit (p OR NV_PMC_INTR_0_PGRAPH) 12" by (simp add: bit_or_iff NV_PMC_INTR_0_PGRAPH_def)
    then show ?thesis by (metis bit_0_eq bot_apply bot_bool_def)
  qed
  then show ?thesis using on assms(3) by (simp add: update_irq_def Let_def)
qed

lemma puller_exec_switch:
  assumes "puller_exec d command = Inr (Pull_switch command' entry, d')"
  shows "d' = update_irq (d\<lparr>pgraph := (pgraph d)\<lparr>trapped_channel_id := ucast (entry_channel_id entry),
           pg_pending := pg_pending (pgraph d) OR NV_PGRAPH_INTR_CONTEXT_SWITCH\<rparr>\<rparr>)"
  using assms unfolding puller_exec_def pgraph_context_switch_def
  by (auto simp: res_bind_Inr_iff Let_def split: if_splits)



end
