(* ===== verification/NV2A_Methods.thy ===== *)
theory NV2A_Methods
  imports NV2A_GL NV2A_Puller
begin

text \<open>
  The methods of the drawing engine of the NV2A (\<open>pgraph_method\<close> of \<open>src/hw/xbox/nv2a_gpu.c\<close>): the 2D copy engine, and the
  3D class with its surfaces, registers, textures, vertex programs, vertex batches and draws. A method changes the
  registers of PGRAPH, the state of \<open>NV2A_GL\<close>, and video memory. What stays an argument are the caches of textures, pixels and
  shader programs in the host's OpenGL context, by which the engine binds its surfaces and programs (\<open>draw_ops\<close>).
\<close>

section \<open>Arguments\<close>

text \<open>The key of a shader program.\<close>

record ShaderState =
  combiner_control :: u32
  shader_stage_program :: u32
  other_stage_input :: u32
  final_inputs_0 :: u32
  final_inputs_1 :: u32
  rgb_inputs :: "u32 list"
  rgb_outputs :: "u32 list"
  alpha_inputs :: "u32 list"
  alpha_outputs :: "u32 list"
  rect_tex :: "bool list"
  compare_mode :: "bool list list"
  sh_alphakill :: "bool list"
  vertex_shader_hash :: u32

text \<open>
  The operations on the host's context: binding the framebuffer for the surfaces, downloading its pixels
  to memory, marking it as drawn to, finding or generating the program for a key, passing on the program's uniforms, binding
  the textures, which says which of them were passed on, converting vertices, and whether the context reports no error.
\<close>

record 'g draw_ops =
  op_bind_framebuffer :: "NV2A_GPUState \<Rightarrow> 'g DrawState \<Rightarrow> bool \<Rightarrow> bool \<Rightarrow> (mem \<times> 'g) res"
  op_download :: "NV2A_GPUState \<Rightarrow> 'g \<Rightarrow> bool \<Rightarrow> bool \<Rightarrow> (mem \<times> 'g) res"
  op_mark_dirty :: "'g \<Rightarrow> bool \<Rightarrow> bool \<Rightarrow> 'g res"
  op_program :: "ShaderState \<Rightarrow> PGRAPHState \<Rightarrow> 'g DrawState \<Rightarrow> 'g res"
  op_uniforms :: "PGRAPHState \<Rightarrow> 'g DrawState \<Rightarrow> 'g res"
  op_bind_textures :: "NV2A_GPUState \<Rightarrow> 'g DrawState \<Rightarrow> ('g \<times> (nat \<Rightarrow> bool)) res"
  op_convert :: "NV2A_GPUState \<Rightarrow> 'g DrawState \<Rightarrow> nat \<Rightarrow> vertex_source \<Rightarrow> u32 \<Rightarrow> 'g res"
  op_no_error :: "'g DrawState \<Rightarrow> bool"

type_synonym 'g outcome = "(NV2A_GPUState \<times> 'g DrawState \<times> engine_wait) res"

definition ret :: "NV2A_GPUState \<Rightarrow> 'g DrawState \<Rightarrow> 'g outcome" where
  "ret d s = Inr (d, s, Runs_on)"

definition upd_pg :: "(PGRAPHState \<Rightarrow> PGRAPHState) \<Rightarrow> NV2A_GPUState \<Rightarrow> NV2A_GPUState" where
  "upd_pg f d = d\<lparr>pgraph := f (pgraph d)\<rparr>"

text \<open>The macros \<open>CASE_RANGE\<close> and \<open>CASE_4\<close>.\<close>

definition case_range :: "u32 \<Rightarrow> u32 \<Rightarrow> u32 \<Rightarrow> bool" where
  "case_range v count class_method \<longleftrightarrow> v \<le> class_method \<and> class_method \<le> v + (count - 1) * 4"

definition slot_of :: "u32 \<Rightarrow> u32 \<Rightarrow> nat" where
  "slot_of v class_method = unat ((class_method - v) div 4)"

definition case_4 :: "u32 \<Rightarrow> u32 \<Rightarrow> u32 \<Rightarrow> bool" where
  "case_4 v step class_method \<longleftrightarrow> class_method \<in> {v, v + step, v + step * 2, v + step * 3}"

definition slot_4 :: "u32 \<Rightarrow> u32 \<Rightarrow> u32 \<Rightarrow> nat" where
  "slot_4 v step class_method = unat ((class_method - v) div step)"

section \<open>Graphics objects\<close>

text \<open>
  The fields of the union \<open>GraphicsObject.data\<close>, by their offsets: the members of a struct are aligned to their size, and
  \<open>hwaddr\<close> has eight bytes. The host is little-endian.
\<close>

abbreviation (input) SURFACES_dma_image_source :: u64 where "SURFACES_dma_image_source \<equiv> 0"
abbreviation (input) SURFACES_dma_image_dest :: u64 where "SURFACES_dma_image_dest \<equiv> 8"
abbreviation (input) SURFACES_color_format :: u64 where "SURFACES_color_format \<equiv> 16"
abbreviation (input) SURFACES_source_pitch :: u64 where "SURFACES_source_pitch \<equiv> 20"
abbreviation (input) SURFACES_dest_pitch :: u64 where "SURFACES_dest_pitch \<equiv> 24"
abbreviation (input) SURFACES_source_offset :: u64 where "SURFACES_source_offset \<equiv> 32"
abbreviation (input) SURFACES_dest_offset :: u64 where "SURFACES_dest_offset \<equiv> 40"
abbreviation (input) BLIT_context_surfaces :: u64 where "BLIT_context_surfaces \<equiv> 0"
abbreviation (input) BLIT_operation :: u64 where "BLIT_operation \<equiv> 8"
abbreviation (input) BLIT_in_x :: u64 where "BLIT_in_x \<equiv> 12"
abbreviation (input) BLIT_in_y :: u64 where "BLIT_in_y \<equiv> 16"
abbreviation (input) BLIT_out_x :: u64 where "BLIT_out_x \<equiv> 20"
abbreviation (input) BLIT_out_y :: u64 where "BLIT_out_y \<equiv> 24"
abbreviation (input) BLIT_width :: u64 where "BLIT_width \<equiv> 28"
abbreviation (input) BLIT_height :: u64 where "BLIT_height \<equiv> 32"
abbreviation (input) KELVIN_dma_notifies :: u64 where "KELVIN_dma_notifies \<equiv> 0"
abbreviation (input) KELVIN_dma_state :: u64 where "KELVIN_dma_state \<equiv> 8"
abbreviation (input) KELVIN_dma_semaphore :: u64 where "KELVIN_dma_semaphore \<equiv> 16"
abbreviation (input) KELVIN_semaphore_offset :: u64 where "KELVIN_semaphore_offset \<equiv> 24"
abbreviation (input) KELVIN_shade_mode :: u64 where "KELVIN_shade_mode \<equiv> 28"
abbreviation (input) KELVIN_blend_enable :: u64 where "KELVIN_blend_enable \<equiv> 32"
abbreviation (input) KELVIN_cull_face_enable :: u64 where "KELVIN_cull_face_enable \<equiv> 33"
abbreviation (input) KELVIN_blend_func_sfactor :: u64 where "KELVIN_blend_func_sfactor \<equiv> 36"
abbreviation (input) KELVIN_blend_func_dfactor :: u64 where "KELVIN_blend_func_dfactor \<equiv> 40"
abbreviation (input) KELVIN_cull_face :: u64 where "KELVIN_cull_face \<equiv> 44"
abbreviation (input) KELVIN_front_face :: u64 where "KELVIN_front_face \<equiv> 48"
abbreviation (input) KELVIN_edge_flag :: u64 where "KELVIN_edge_flag \<equiv> 52"

definition get64 :: "mem \<Rightarrow> u64 \<Rightarrow> u64" where
  "get64 m off = ucast (ldl_le m off) OR push_bit 32 (ucast (ldl_le m (off + 4)))"

definition put64 :: "u64 \<Rightarrow> u64 \<Rightarrow> mem \<Rightarrow> mem" where
  "put64 off v m = stl_le (stl_le m off (ucast v)) (off + 4) (ucast (drop_bit 32 v))"

definition put32 :: "u64 \<Rightarrow> u32 \<Rightarrow> mem \<Rightarrow> mem" where
  "put32 off v m = stl_le m off v"

definition put_bool :: "u64 \<Rightarrow> bool \<Rightarrow> mem \<Rightarrow> mem" where
  "put_bool off b m = m(off := of_bool b)"

text \<open>A change of the object that is bound to a subchannel.\<close>

definition set_object :: "3 word \<Rightarrow> (mem \<Rightarrow> mem) \<Rightarrow> 'g DrawState \<Rightarrow> 'g DrawState res" where
  "set_object sub f s =
     res_bind (arr_get (subchannel_data s) (unat sub)) (\<lambda>c.
     res_bind (arr_set (subchannel_data s) (unat sub) (c\<lparr>object_data := f (object_data c)\<rparr>)) (\<lambda>cs.
     Inr (s\<lparr>subchannel_data := cs\<rparr>)))"

definition load_graphics_object :: "NV2A_GPUState \<Rightarrow> 3 word \<Rightarrow> hwaddr \<Rightarrow> 'g DrawState \<Rightarrow> 'g DrawState res" where
  "load_graphics_object d sub instance_addr s =
     res_bind (assert_res (instance_addr < ramin_size d)) (\<lambda>_.
     res_bind (ramin_ldl d (unat instance_addr)) (\<lambda>switch1.
     res_bind (ramin_ldl d (unat instance_addr + 4)) (\<lambda>switch2.
     res_bind (ramin_ldl d (unat instance_addr + 8)) (\<lambda>switch3.
     res_bind (arr_get (subchannel_data s) (unat sub)) (\<lambda>c.
     res_bind (arr_set (subchannel_data s) (unat sub)
         (c\<lparr>graphics_class := ucast (switch1 AND NV_PGRAPH_CTX_SWITCH1_GRCLASS)\<rparr>)) (\<lambda>cs.
     let s = s\<lparr>subchannel_data := cs\<rparr>
     in if (ucast (switch1 AND NV_PGRAPH_CTX_SWITCH1_GRCLASS) :: u8) = ucast NV_KELVIN_PRIMITIVE
        then res_bind (arr_get (vertex_attributes s) NV2A_GPU_VERTEX_ATTR_DIFFUSE) (\<lambda>a.
             res_bind (arr_set (vertex_attributes s) NV2A_GPU_VERTEX_ATTR_DIFFUSE (a\<lparr>inline_value := 0xFFFFFFF\<rparr>)) (\<lambda>vas.
             Inr (s\<lparr>vertex_attributes := vas\<rparr>)))
        else Inr s))))))"

definition lookup_graphics_object :: "'g DrawState \<Rightarrow> hwaddr \<Rightarrow> GraphicsSubchannel option" where
  "lookup_graphics_object s instance_addr = find (\<lambda>c. object_instance c = instance_addr) (subchannel_data s)"

section \<open>Surfaces\<close>

definition get_surface_dimensions :: "'g DrawState \<Rightarrow> (u32 \<times> u32) res" where
  "get_surface_dimensions s =
     (let aa = (ucast (surface_anti_aliasing s) :: u32)
      in if aa = NV097_SET_SURFACE_FORMAT_ANTI_ALIASING_CENTER_1 then Inr (clip_width s, clip_height s)
         else if aa = NV097_SET_SURFACE_FORMAT_ANTI_ALIASING_CENTER_CORNER_2 then Inr (clip_width s * 2, clip_height s)
         else if aa = NV097_SET_SURFACE_FORMAT_ANTI_ALIASING_SQUARE_OFFSET_4 then Inr (clip_width s * 2, clip_height s * 2)
         else Inl Assertion_failed)"

text \<open>
  \<open>pgraph_update_surfaces\<close>. The framebuffer is marked dirty before it is bound, so that \<open>bind_gl_framebuffer\<close> always binds it,
  which marks it clean.
\<close>

definition pgraph_update_surfaces ::
  "'g draw_ops \<Rightarrow> bool \<Rightarrow> bool \<Rightarrow> bool \<Rightarrow> NV2A_GPUState \<Rightarrow> 'g DrawState \<Rightarrow> (NV2A_GPUState \<times> 'g DrawState) res" where
  "pgraph_update_surfaces ops upload zeta color d s =
     (if upload then
        res_bind (op_bind_framebuffer ops d (set_dirty D_framebuffer s) zeta color) (\<lambda>(m, h).
        Inr (d\<lparr>vram := m\<rparr>, set_clean D_framebuffer (s\<lparr>host := h\<rparr>)))
      else
        res_bind (op_download ops d (host s) zeta color) (\<lambda>(m, h). Inr (d\<lparr>vram := m\<rparr>, s\<lparr>host := h\<rparr>)))"

text \<open>Methods that download the framebuffer before they change the state.\<close>

definition after_download ::
  "'g draw_ops \<Rightarrow> bool \<Rightarrow> bool \<Rightarrow> NV2A_GPUState \<Rightarrow> 'g DrawState \<Rightarrow> ('g DrawState \<Rightarrow> 'g DrawState) \<Rightarrow> 'g outcome" where
  "after_download ops zeta color d s f =
     res_bind (pgraph_update_surfaces ops False zeta color d s) (\<lambda>(d, s). ret d (f s))"

section \<open>The 2D classes\<close>

text \<open>\<open>memmove\<close> inside of video memory, by offsets.\<close>

definition vram_memmove :: "hwaddr \<Rightarrow> nat \<Rightarrow> nat \<Rightarrow> nat \<Rightarrow> mem \<Rightarrow> mem res" where
  "vram_memmove msize dst src n m =
     (if n = 0 then Inr m
      else if dst + n \<le> unat msize \<and> src + n \<le> unat msize
      then Inr (\<lambda>a. if dst \<le> unat a \<and> unat a < dst + n then m (of_nat (src + (unat a - dst))) else m a)
      else Inl Out_of_bounds)"

text \<open>One row of the copy. The offsets in the surface are computed in 32 bits and added to the pointers one by one.\<close>

definition blit_row :: "hwaddr \<Rightarrow> nat \<Rightarrow> nat \<Rightarrow> mem \<Rightarrow> mem \<Rightarrow> u32 \<Rightarrow> nat \<Rightarrow> mem \<Rightarrow> mem res" where
  "blit_row msize source dest b surf bytes_per_pixel y m =
     vram_memmove msize
       (dest + unat ((ldl_le b BLIT_out_y + of_nat y) * ldl_le surf SURFACES_dest_pitch)
             + unat (ldl_le b BLIT_out_x * bytes_per_pixel))
       (source + unat ((ldl_le b BLIT_in_y + of_nat y) * ldl_le surf SURFACES_source_pitch)
               + unat (ldl_le b BLIT_in_x * bytes_per_pixel))
       (unat (ldl_le b BLIT_width * bytes_per_pixel)) m"

definition blit_bytes_per_pixel :: "u32 \<Rightarrow> u32 res" where
  "blit_bytes_per_pixel color_format =
     (if color_format = NV062_SET_COLOR_FORMAT_LE_Y8 then Inr 1
      else if color_format = NV062_SET_COLOR_FORMAT_LE_A8R8G8B8 then Inr 4
      else Inl Assertion_failed)"

text \<open>The copy of \<open>NV09F_SET_OPERATION_SRCCOPY\<close>; \<open>b\<close> is the data of the object of the copy.\<close>

definition image_blit :: "NV2A_GPUState \<Rightarrow> 'g DrawState \<Rightarrow> mem \<Rightarrow> NV2A_GPUState res" where
  "image_blit d s b =
     (case lookup_graphics_object s (get64 b BLIT_context_surfaces) of
        None \<Rightarrow> Inl Assertion_failed
      | Some obj \<Rightarrow>
          let surf = object_data obj in
          res_bind (assert_res (ucast (graphics_class obj) = NV_CONTEXT_SURFACES_2D)) (\<lambda>_.
          res_bind (blit_bytes_per_pixel (ldl_le surf SURFACES_color_format)) (\<lambda>bytes_per_pixel.
          res_bind (nv_dma_load_and_map d (get64 surf SURFACES_dma_image_source)) (\<lambda>(source, source_dma_len).
          res_bind (assert_res (get64 surf SURFACES_source_offset < source_dma_len)) (\<lambda>_.
          res_bind (nv_dma_load_and_map d (get64 surf SURFACES_dma_image_dest)) (\<lambda>(dest, dest_dma_len).
          res_bind (assert_res (get64 surf SURFACES_dest_offset < dest_dma_len)) (\<lambda>_.
          res_bind (fold_res (blit_row (vram_size d) (unat source + unat (get64 surf SURFACES_source_offset))
              (unat dest + unat (get64 surf SURFACES_dest_offset)) b surf bytes_per_pixel)
            [0..<unat (ldl_le b BLIT_height)] (vram d)) (\<lambda>m.
          Inr (d\<lparr>vram := m\<rparr>)))))))))"

text \<open>The methods of the classes \<open>NV_CONTEXT_SURFACES_2D\<close> and \<open>NV_IMAGE_BLIT\<close>.\<close>

definition method_2d ::
  "'g draw_ops \<Rightarrow> NV2A_GPUState \<Rightarrow> 'g DrawState \<Rightarrow> 3 word \<Rightarrow> u32 \<Rightarrow> u32 \<Rightarrow> 'g outcome option" where
  "method_2d ops d s sub class_method parameter =
     (let obj = (\<lambda>f. res_bind (set_object sub f s) (\<lambda>s. ret d s))
      in if class_method = NV062_SET_CONTEXT_DMA_IMAGE_SOURCE then Some (obj (put64 SURFACES_dma_image_source (ucast parameter)))
      else if class_method = NV062_SET_CONTEXT_DMA_IMAGE_DESTIN then Some (obj (put64 SURFACES_dma_image_dest (ucast parameter)))
      else if class_method = NV062_SET_COLOR_FORMAT then Some (obj (put32 SURFACES_color_format parameter))
      else if class_method = NV062_SET_PITCH then
        Some (obj (put32 SURFACES_dest_pitch (drop_bit 16 parameter) \<circ> put32 SURFACES_source_pitch (parameter AND 0xFFFF)))
      else if class_method = NV062_SET_OFFSET_SOURCE then Some (obj (put64 SURFACES_source_offset (ucast parameter)))
      else if class_method = NV062_SET_OFFSET_DESTIN then Some (obj (put64 SURFACES_dest_offset (ucast parameter)))
      else if class_method = NV09F_SET_CONTEXT_SURFACES then Some (obj (put64 BLIT_context_surfaces (ucast parameter)))
      else if class_method = NV09F_SET_OPERATION then Some (obj (put32 BLIT_operation parameter))
      else if class_method = NV09F_CONTROL_POINT_IN then
        Some (obj (put32 BLIT_in_y (drop_bit 16 parameter) \<circ> put32 BLIT_in_x (parameter AND 0xFFFF)))
      else if class_method = NV09F_CONTROL_POINT_OUT then
        Some (obj (put32 BLIT_out_y (drop_bit 16 parameter) \<circ> put32 BLIT_out_x (parameter AND 0xFFFF)))
      else if class_method = NV09F_SIZE then
        Some (res_bind (set_object sub (put32 BLIT_height (drop_bit 16 parameter) \<circ> put32 BLIT_width (parameter AND 0xFFFF)) s) (\<lambda>s.
              res_bind (pgraph_update_surfaces ops False True True d s) (\<lambda>(d, s).
              res_bind (arr_get (subchannel_data s) (unat sub)) (\<lambda>c.
              if ldl_le (object_data c) BLIT_operation = NV09F_SET_OPERATION_SRCCOPY
              then res_bind (image_blit d s (object_data c)) (\<lambda>d. ret d s)
              else Inl Assertion_failed))))
      else None)"

section \<open>Synchronisation and surfaces\<close>

definition method_surface ::
  "'g draw_ops \<Rightarrow> NV2A_GPUState \<Rightarrow> 'g DrawState \<Rightarrow> 3 word \<Rightarrow> u32 \<Rightarrow> u32 \<Rightarrow> u32 \<Rightarrow> 'g outcome option" where
  "method_surface ops d s sub mthd class_method parameter =
     (let obj = (\<lambda>f. res_bind (set_object sub f s) (\<lambda>s. ret d s));
          surf = (\<lambda>zeta color f. after_download ops zeta color d s (\<lambda>s. set_dirty D_framebuffer (f s)))
      in if class_method = NV097_NO_OPERATION then
        Some (if parameter \<noteq> 0
              then Inr (upd_pg (\<lambda>pg. pg\<lparr>trapped_channel_id := pg_channel_id pg, trapped_subchannel := ucast sub, trapped_method := mthd,
                     trapped_data_low := parameter, notify_source := NV_PGRAPH_NSOURCE_NOTIFICATION,
                     pg_pending := pg_pending pg OR NV_PGRAPH_INTR_NOTIFY\<rparr>) d, s, Waits_notify)
              else ret d s)
      else if class_method = NV097_WAIT_FOR_IDLE then Some (after_download ops True True d (emit GlFinish s) id)
      else if class_method = NV097_FLIP_INCREMENT_WRITE then Some (after_download ops True True d s id)
      else if class_method = NV097_FLIP_STALL then
        Some (res_bind (pgraph_update_surfaces ops False True True d s) (\<lambda>(d, s). Inr (d, s, Waits_flip)))
      else if class_method = NV097_SET_CONTEXT_DMA_NOTIFIES then Some (obj (put64 KELVIN_dma_notifies (ucast parameter)))
      else if class_method = NV097_SET_CONTEXT_DMA_A then Some (ret d (s\<lparr>dma_a := ucast parameter\<rparr>))
      else if class_method = NV097_SET_CONTEXT_DMA_B then Some (ret d (s\<lparr>dma_b := ucast parameter\<rparr>))
      else if class_method = NV097_SET_CONTEXT_DMA_STATE then Some (obj (put64 KELVIN_dma_state (ucast parameter)))
      else if class_method = NV097_SET_CONTEXT_DMA_COLOR then Some (surf False True (\<lambda>s. s\<lparr>dma_color := ucast parameter\<rparr>))
      else if class_method = NV097_SET_CONTEXT_DMA_ZETA then Some (surf True False (\<lambda>s. s\<lparr>dma_zeta := ucast parameter\<rparr>))
      else if class_method = NV097_SET_CONTEXT_DMA_VERTEX_A then Some (ret d (s\<lparr>dma_vertex_a := ucast parameter\<rparr>))
      else if class_method = NV097_SET_CONTEXT_DMA_VERTEX_B then Some (ret d (s\<lparr>dma_vertex_b := ucast parameter\<rparr>))
      else if class_method = NV097_SET_CONTEXT_DMA_SEMAPHORE then Some (obj (put64 KELVIN_dma_semaphore (ucast parameter)))
      else if class_method = NV097_SET_SURFACE_CLIP_HORIZONTAL then
        Some (surf True True (\<lambda>s. s\<lparr>clip_x := GET_MASK parameter NV097_SET_SURFACE_CLIP_HORIZONTAL_X,
          clip_width := GET_MASK parameter NV097_SET_SURFACE_CLIP_HORIZONTAL_WIDTH\<rparr>))
      else if class_method = NV097_SET_SURFACE_CLIP_VERTICAL then
        Some (surf True True (\<lambda>s. s\<lparr>clip_y := GET_MASK parameter NV097_SET_SURFACE_CLIP_VERTICAL_Y,
          clip_height := GET_MASK parameter NV097_SET_SURFACE_CLIP_VERTICAL_HEIGHT\<rparr>))
      else if class_method = NV097_SET_SURFACE_FORMAT then
        Some (surf True True (\<lambda>s. s\<lparr>surface_color := (surface_color s)\<lparr>s_format := GET_MASK parameter NV097_SET_SURFACE_FORMAT_COLOR\<rparr>,
          surface_zeta := (surface_zeta s)\<lparr>s_format := GET_MASK parameter NV097_SET_SURFACE_FORMAT_ZETA\<rparr>,
          surface_type := ucast (GET_MASK parameter NV097_SET_SURFACE_FORMAT_TYPE),
          surface_anti_aliasing := ucast (GET_MASK parameter NV097_SET_SURFACE_FORMAT_ANTI_ALIASING),
          surface_swizzle_width_shift := ucast (GET_MASK parameter NV097_SET_SURFACE_FORMAT_WIDTH),
          surface_swizzle_height_shift := ucast (GET_MASK parameter NV097_SET_SURFACE_FORMAT_HEIGHT)\<rparr>))
      else if class_method = NV097_SET_SURFACE_PITCH then
        Some (surf True True (\<lambda>s. s\<lparr>surface_color := (surface_color s)\<lparr>s_pitch := GET_MASK parameter NV097_SET_SURFACE_PITCH_COLOR\<rparr>,
          surface_zeta := (surface_zeta s)\<lparr>s_pitch := GET_MASK parameter NV097_SET_SURFACE_PITCH_ZETA\<rparr>\<rparr>))
      else if class_method = NV097_SET_SURFACE_COLOR_OFFSET then
        Some (surf False True (\<lambda>s. s\<lparr>surface_color := (surface_color s)\<lparr>s_offset := ucast parameter\<rparr>\<rparr>))
      else if class_method = NV097_SET_SURFACE_ZETA_OFFSET then
        Some (surf True False (\<lambda>s. s\<lparr>surface_zeta := (surface_zeta s)\<lparr>s_offset := ucast parameter\<rparr>\<rparr>))
      else None)"

section \<open>Registers of the pipeline\<close>

definition WRITE_PG_REG :: "nat \<Rightarrow> u32 \<Rightarrow> PGRAPHState \<Rightarrow> PGRAPHState" where
  "WRITE_PG_REG reg val pg = pg\<lparr>pg_regs := (pg_regs pg)[reg := val]\<rparr>"

text \<open>A register of an array of registers, of which the shaders depend.\<close>

definition write_slot :: "nat \<Rightarrow> nat \<Rightarrow> u32 \<Rightarrow> NV2A_GPUState \<Rightarrow> 'g DrawState \<Rightarrow> 'g outcome" where
  "write_slot reg slot parameter d s =
     res_bind (arr_set (pg_regs (pgraph d)) (reg + slot * 4) parameter) (\<lambda>regs.
     ret (upd_pg (\<lambda>pg. pg\<lparr>pg_regs := regs\<rparr>) d) (set_dirty D_shaders s))"

definition method_raster :: "NV2A_GPUState \<Rightarrow> 'g DrawState \<Rightarrow> u32 \<Rightarrow> u32 \<Rightarrow> 'g outcome option" where
  "method_raster d s class_method parameter =
     (let reg = (\<lambda>r msk val flag. ret (upd_pg (SET_PG_REG r msk val) d) (set_dirty flag s));
          mapped = (\<lambda>f r msk flag. res_bind (f parameter) (\<lambda>val. ret (upd_pg (SET_PG_REG r msk val) d) (set_dirty flag s)))
      in if case_range NV097_SET_COMBINER_ALPHA_ICW 8 class_method then
        Some (write_slot NV_PGRAPH_COMBINEALPHAI0 (slot_of NV097_SET_COMBINER_ALPHA_ICW class_method) parameter d s)
      else if class_method = NV097_SET_COMBINER_SPECULAR_FOG_CW0 then
        Some (ret (upd_pg (WRITE_PG_REG NV_PGRAPH_COMBINESPECFOG0 parameter) d) (set_dirty D_shaders s))
      else if class_method = NV097_SET_COMBINER_SPECULAR_FOG_CW1 then
        Some (ret (upd_pg (WRITE_PG_REG NV_PGRAPH_COMBINESPECFOG1 parameter) d) (set_dirty D_shaders s))
      else if class_method = NV097_SET_STENCIL_TEST_ENABLE then
        Some (reg NV_PGRAPH_CONTROL_1 NV_PGRAPH_CONTROL_1_STENCIL_TEST_ENABLE parameter D_stencil_test)
      else if class_method = NV097_SET_STENCIL_OP_FAIL then
        Some (mapped map_method_to_register_stencil_op NV_PGRAPH_CONTROL_2 NV_PGRAPH_CONTROL_2_STENCIL_OP_FAIL D_stencil_test_op)
      else if class_method = NV097_SET_STENCIL_OP_ZFAIL then
        Some (mapped map_method_to_register_stencil_op NV_PGRAPH_CONTROL_2 NV_PGRAPH_CONTROL_2_STENCIL_OP_ZFAIL D_stencil_test_op)
      else if class_method = NV097_SET_STENCIL_OP_ZPASS then
        Some (mapped map_method_to_register_stencil_op NV_PGRAPH_CONTROL_2 NV_PGRAPH_CONTROL_2_STENCIL_OP_ZPASS D_stencil_test_op)
      else if class_method = NV097_SET_STENCIL_FUNC_REF then
        Some (reg NV_PGRAPH_CONTROL_1 NV_PGRAPH_CONTROL_1_STENCIL_REF parameter D_stencil_test_func)
      else if class_method = NV097_SET_STENCIL_FUNC_MASK then
        Some (reg NV_PGRAPH_CONTROL_1 NV_PGRAPH_CONTROL_1_STENCIL_MASK_READ parameter D_stencil_test_func)
      else if class_method = NV097_SET_STENCIL_FUNC then
        Some (mapped map_method_to_register_func NV_PGRAPH_CONTROL_1 NV_PGRAPH_CONTROL_1_STENCIL_FUNC D_stencil_test_func)
      else if class_method = NV097_SET_COLOR_MASK then
        Some (ret (upd_pg (SET_PG_REG NV_PGRAPH_CONTROL_0 NV_PGRAPH_CONTROL_0_BLUE_WRITE_ENABLE (GET_MASK parameter NV097_SET_COLOR_MASK_BLUE_WRITE_ENABLE) \<circ>
            SET_PG_REG NV_PGRAPH_CONTROL_0 NV_PGRAPH_CONTROL_0_GREEN_WRITE_ENABLE (GET_MASK parameter NV097_SET_COLOR_MASK_GREEN_WRITE_ENABLE) \<circ>
            SET_PG_REG NV_PGRAPH_CONTROL_0 NV_PGRAPH_CONTROL_0_RED_WRITE_ENABLE (GET_MASK parameter NV097_SET_COLOR_MASK_RED_WRITE_ENABLE) \<circ>
            SET_PG_REG NV_PGRAPH_CONTROL_0 NV_PGRAPH_CONTROL_0_ALPHA_WRITE_ENABLE (GET_MASK parameter NV097_SET_COLOR_MASK_ALPHA_WRITE_ENABLE)) d)
          (set_dirty D_color_mask s))
      else if class_method = NV097_SET_STENCIL_MASK then
        Some (reg NV_PGRAPH_CONTROL_1 NV_PGRAPH_CONTROL_1_STENCIL_MASK_WRITE parameter D_stencil_mask)
      else if class_method = NV097_SET_CONTROL0 then
        Some (ret (upd_pg (SET_PG_REG NV_PGRAPH_CONTROL_0 NV_PGRAPH_CONTROL_0_STENCIL_WRITE_ENABLE (GET_MASK parameter NV097_SET_CONTROL0_STENCIL_WRITE_ENABLE) \<circ>
            SET_PG_REG NV_PGRAPH_SETUPRASTER NV_PGRAPH_SETUPRASTER_Z_FORMAT (GET_MASK parameter NV097_SET_CONTROL0_Z_FORMAT) \<circ>
            SET_PG_REG NV_PGRAPH_CONTROL_0 NV_PGRAPH_CONTROL_0_Z_PERSPECTIVE_ENABLE (GET_MASK parameter NV097_SET_CONTROL0_Z_PERSPECTIVE_ENABLE) \<circ>
            SET_PG_REG NV_PGRAPH_CONTROL_3 NV_PGRAPH_CONTROL_3_TEXTUREPERSPECTIVE (GET_MASK parameter NV097_SET_CONTROL0_TEXTUREPERSPECTIVE) \<circ>
            SET_PG_REG NV_PGRAPH_CONTROL_3 NV_PGRAPH_CONTROL_3_PREMULTALPHA (GET_MASK parameter NV097_SET_CONTROL0_PREMULTIPLIEDALPHA) \<circ>
            SET_PG_REG NV_PGRAPH_CONTROL_0 NV_PGRAPH_CONTROL_0_CSCONVERT (GET_MASK parameter NV097_SET_CONTROL0_COLOR_SPACE_CONVERT)) d)
          (set_dirty D_stencil_mask s))
      else if class_method = NV097_SET_DEPTH_MASK then
        Some (reg NV_PGRAPH_CONTROL_0 NV_PGRAPH_CONTROL_0_ZWRITEENABLE parameter D_depth_mask)
      else if class_method = NV097_SET_CLIP_MIN then Some (ret (upd_pg (WRITE_PG_REG NV_PGRAPH_ZCLIPMIN parameter) d) s)
      else if class_method = NV097_SET_CLIP_MAX then Some (ret (upd_pg (WRITE_PG_REG NV_PGRAPH_ZCLIPMAX parameter) d) s)
      else None)"

section \<open>Matrices and vertex programs\<close>

definition set_constant :: "nat \<Rightarrow> nat \<Rightarrow> u32 \<Rightarrow> 'g DrawState \<Rightarrow> 'g DrawState res" where
  "set_constant i j v s =
     res_bind (arr_get (constants s) i) (\<lambda>k.
     res_bind (arr_set (k_data k) j v) (\<lambda>ws.
     res_bind (arr_set (constants s) i (k\<lparr>k_dirty := True, k_data := ws\<rparr>)) (\<lambda>ks.
     Inr (s\<lparr>constants := ks\<rparr>))))"

definition set_texture_matrix :: "nat \<Rightarrow> nat \<Rightarrow> u32 \<Rightarrow> 'g DrawState \<Rightarrow> 'g DrawState res" where
  "set_texture_matrix n i v s =
     res_bind (arr_get (texture_matrix s) n) (\<lambda>mat.
     res_bind (arr_set mat i v) (\<lambda>mat.
     res_bind (arr_set (texture_matrix s) n mat) (\<lambda>mats.
     Inr (s\<lparr>texture_matrix := mats\<rparr>))))"

definition method_transform :: "NV2A_GPUState \<Rightarrow> 'g DrawState \<Rightarrow> u32 \<Rightarrow> u32 \<Rightarrow> 'g outcome option" where
  "method_transform d s class_method parameter =
     (let finish = (\<lambda>r. res_bind r (ret d));
          slot = (\<lambda>v. slot_of v class_method)
      in if case_range NV097_SET_COMPOSITE_MATRIX 16 class_method then
        Some (finish (res_bind (arr_set (composite_matrix s) (slot NV097_SET_COMPOSITE_MATRIX) parameter) (\<lambda>mat.
          Inr (s\<lparr>composite_matrix := mat, comp_src := 2\<rparr>))))
      else if case_4 NV097_SET_TEXTURE_MATRIX_ENABLE 4 class_method then
        Some (finish (res_bind (arr_set (texture_matrix_enable s) (slot_4 NV097_SET_TEXTURE_MATRIX_ENABLE 4 class_method) (parameter \<noteq> 0)) (\<lambda>es.
          Inr (s\<lparr>texture_matrix_enable := es\<rparr>))))
      else if case_range NV097_SET_TEXTURE_MATRIX0 16 class_method then
        Some (finish (set_texture_matrix 0 (slot NV097_SET_TEXTURE_MATRIX0) parameter s))
      else if case_range NV097_SET_TEXTURE_MATRIX1 16 class_method then
        Some (finish (set_texture_matrix 1 (slot NV097_SET_TEXTURE_MATRIX1) parameter s))
      else if case_range NV097_SET_TEXTURE_MATRIX2 16 class_method then
        Some (finish (set_texture_matrix 2 (slot NV097_SET_TEXTURE_MATRIX2) parameter s))
      else if case_range NV097_SET_TEXTURE_MATRIX3 16 class_method then
        Some (finish (set_texture_matrix 3 (slot NV097_SET_TEXTURE_MATRIX3) parameter s))
      else if case_range NV097_SET_VIEWPORT_OFFSET 4 class_method then
        Some (finish (set_constant 59 (slot NV097_SET_VIEWPORT_OFFSET) parameter s))
      else if case_range NV097_SET_COMBINER_FACTOR0 8 class_method then
        Some (write_slot NV_PGRAPH_COMBINEFACTOR0 (slot NV097_SET_COMBINER_FACTOR0) parameter d s)
      else if case_range NV097_SET_COMBINER_FACTOR1 8 class_method then
        Some (write_slot NV_PGRAPH_COMBINEFACTOR1 (slot NV097_SET_COMBINER_FACTOR1) parameter d s)
      else if case_range NV097_SET_COMBINER_ALPHA_OCW 8 class_method then
        Some (write_slot NV_PGRAPH_COMBINEALPHAO0 (slot NV097_SET_COMBINER_ALPHA_OCW) parameter d s)
      else if case_range NV097_SET_COMBINER_COLOR_ICW 8 class_method then
        Some (write_slot NV_PGRAPH_COMBINECOLORI0 (slot NV097_SET_COMBINER_COLOR_ICW) parameter d s)
      else if case_range NV097_SET_VIEWPORT_SCALE 4 class_method then
        Some (finish (set_constant 58 (slot NV097_SET_VIEWPORT_SCALE) parameter s))
      else if case_range NV097_SET_TRANSFORM_PROGRAM 32 class_method then
        Some (finish (
          res_bind (assert_res (unat (vertexshader_load_slot s) < NV2A_GPU_MAX_VERTEXSHADER_LENGTH * 4)) (\<lambda>_.
          res_bind (arr_set (program_data s) (unat (vertexshader_load_slot s)) parameter) (\<lambda>ws.
          Inr (s\<lparr>program_data := ws, vertexshader_load_slot := vertexshader_load_slot s + 1, vertexshader_dirty := True\<rparr>)))))
      else if case_range NV097_SET_TRANSFORM_CONSTANT 32 class_method then
        Some (finish (
          res_bind (assert_res (unat (constant_load_slot s) div 4 < NV2A_GPU_VERTEXSHADER_CONSTANTS)) (\<lambda>_.
          res_bind (set_constant (unat (constant_load_slot s) div 4) (unat (constant_load_slot s) mod 4) parameter s) (\<lambda>s.
          Inr (s\<lparr>constant_load_slot := constant_load_slot s + 1, comp_src := 1\<rparr>)))))
      else None)"

section \<open>Inline vertices\<close>

text \<open>A component of an attribute of the vertex that is being assembled.\<close>

definition inline_set :: "nat \<Rightarrow> nat \<Rightarrow> number \<Rightarrow> 'g DrawState \<Rightarrow> 'g DrawState res" where
  "inline_set attr i v s =
     res_bind (arr_get (inline_buffer s) (inline_buffer_length s)) (\<lambda>entry.
     res_bind (arr_get entry attr) (\<lambda>vec.
     res_bind (arr_set vec i v) (\<lambda>vec.
     res_bind (arr_set entry attr vec) (\<lambda>entry.
     res_bind (arr_set (inline_buffer s) (inline_buffer_length s) entry) (\<lambda>buf.
     Inr (s\<lparr>inline_buffer := buf\<rparr>))))))"

definition next_vertex :: "'g DrawState \<Rightarrow> 'g DrawState" where
  "next_vertex s = s\<lparr>inline_buffer_length := inline_buffer_length s + 1\<rparr>"

definition method_vertex :: "NV2A_GPUState \<Rightarrow> 'g DrawState \<Rightarrow> u32 \<Rightarrow> u32 \<Rightarrow> 'g outcome option" where
  "method_vertex d s class_method parameter =
     (let slot = (\<lambda>v. slot_of v class_method);
          attr = (\<lambda>v a. Some (res_bind (inline_set a (slot v) (Bits parameter) s) (ret d)));
          position = (\<lambda>v n. Some (res_bind (inline_set NV2A_GPU_VERTEX_ATTR_POSITION (slot v) (Bits parameter) s) (\<lambda>s.
            if slot v = n
            then res_bind (assert_res (inline_buffer_length (next_vertex s) < NV2A_GPU_MAX_BATCH_LENGTH)) (\<lambda>_. ret d (next_vertex s))
            else ret d s)))
      in if case_range NV097_SET_VERTEX3F 3 class_method then position NV097_SET_VERTEX3F 2
      else if case_range NV097_SET_VERTEX4F 4 class_method then position NV097_SET_VERTEX4F 3
      else if case_range NV097_SET_NORMAL3F 3 class_method then attr NV097_SET_NORMAL3F NV2A_GPU_VERTEX_ATTR_NORMAL
      else if case_range NV097_SET_DIFFUSE_COLOR4F 4 class_method then attr NV097_SET_DIFFUSE_COLOR4F NV2A_GPU_VERTEX_ATTR_DIFFUSE
      else if case_range NV097_SET_DIFFUSE_COLOR3F 3 class_method then attr NV097_SET_DIFFUSE_COLOR3F NV2A_GPU_VERTEX_ATTR_DIFFUSE
      else if case_range NV097_SET_DIFFUSE_COLOR4UB 1 class_method then attr NV097_SET_DIFFUSE_COLOR4UB NV2A_GPU_VERTEX_ATTR_DIFFUSE
      else if case_range NV097_SET_TEXCOORD0_2F 2 class_method then attr NV097_SET_TEXCOORD0_2F NV2A_GPU_VERTEX_ATTR_TEXTURE0
      else if case_range NV097_SET_TEXCOORD0_4F 4 class_method then attr NV097_SET_TEXCOORD0_4F NV2A_GPU_VERTEX_ATTR_TEXTURE0
      else if case_range NV097_SET_TEXCOORD1_2F 2 class_method then attr NV097_SET_TEXCOORD1_2F NV2A_GPU_VERTEX_ATTR_TEXTURE1
      else if case_range NV097_SET_TEXCOORD1_4F 4 class_method then attr NV097_SET_TEXCOORD1_4F NV2A_GPU_VERTEX_ATTR_TEXTURE1
      else if case_range NV097_SET_TEXCOORD2_2F 2 class_method then attr NV097_SET_TEXCOORD2_2F NV2A_GPU_VERTEX_ATTR_TEXTURE2
      else if case_range NV097_SET_TEXCOORD2_4F 4 class_method then attr NV097_SET_TEXCOORD2_4F NV2A_GPU_VERTEX_ATTR_TEXTURE2
      else if case_range NV097_SET_TEXCOORD3_2F 2 class_method then attr NV097_SET_TEXCOORD3_2F NV2A_GPU_VERTEX_ATTR_TEXTURE3
      else if case_range NV097_SET_TEXCOORD3_4F 4 class_method then attr NV097_SET_TEXCOORD3_4F NV2A_GPU_VERTEX_ATTR_TEXTURE3
      else None)"

section \<open>Vertex arrays\<close>

text \<open>The format of an attribute. The case of \<open>UB_D3D\<close> runs into the one of \<open>UB_OGL\<close> in the source.\<close>

definition vertex_format :: "u32 \<Rightarrow> VertexAttribute \<Rightarrow> VertexAttribute res" where
  "vertex_format parameter a =
     (let fmt = GET_MASK parameter NV097_SET_VERTEX_DATA_ARRAY_FORMAT_TYPE;
          cnt = GET_MASK parameter NV097_SET_VERTEX_DATA_ARRAY_FORMAT_SIZE;
          a = a\<lparr>va_format := fmt, va_count := cnt, va_stride := GET_MASK parameter NV097_SET_VERTEX_DATA_ARRAY_FORMAT_STRIDE,
            gl_size := Components cnt\<rparr>
      in if fmt = NV097_SET_VERTEX_DATA_ARRAY_FORMAT_TYPE_UB_D3D then
           res_bind (assert_res (cnt = 4)) (\<lambda>_.
           Inr (a\<lparr>gl_size := GL_BGRA, va_gl_type := GL_UNSIGNED_BYTE, gl_normalize := True, va_size := 1, needs_conversion := False\<rparr>))
         else if fmt = NV097_SET_VERTEX_DATA_ARRAY_FORMAT_TYPE_UB_OGL then
           Inr (a\<lparr>va_gl_type := GL_UNSIGNED_BYTE, gl_normalize := True, va_size := 1, needs_conversion := False\<rparr>)
         else if fmt = NV097_SET_VERTEX_DATA_ARRAY_FORMAT_TYPE_S1 then
           Inr (a\<lparr>va_gl_type := GL_SHORT, gl_normalize := True, va_size := 2, needs_conversion := False\<rparr>)
         else if fmt = NV097_SET_VERTEX_DATA_ARRAY_FORMAT_TYPE_F then
           Inr (a\<lparr>va_gl_type := GL_FLOAT, gl_normalize := False, va_size := 4, needs_conversion := False\<rparr>)
         else if fmt = NV097_SET_VERTEX_DATA_ARRAY_FORMAT_TYPE_S32K then Inl Assertion_failed
         else if fmt = NV097_SET_VERTEX_DATA_ARRAY_FORMAT_TYPE_CMP then
           Inr (a\<lparr>va_size := 4, va_gl_type := GL_FLOAT, gl_normalize := False, needs_conversion := True, converted_size := 4,
             converted_count := 3 * cnt\<rparr>)
         else Inl Assertion_failed)"

definition method_arrays :: "NV2A_GPUState \<Rightarrow> 'g DrawState \<Rightarrow> u32 \<Rightarrow> u32 \<Rightarrow> 'g outcome option" where
  "method_arrays d s class_method parameter =
     (let upd = (\<lambda>i f. res_bind (arr_get (vertex_attributes s) i) (\<lambda>a.
            res_bind (f a) (\<lambda>a.
            res_bind (arr_set (vertex_attributes s) i a) (\<lambda>vas.
            ret d (s\<lparr>vertex_attributes := vas\<rparr>)))))
      in if case_range NV097_SET_VERTEX_DATA_ARRAY_FORMAT 16 class_method then
        Some (upd (slot_of NV097_SET_VERTEX_DATA_ARRAY_FORMAT class_method) (\<lambda>a.
          res_bind (vertex_format parameter a) (\<lambda>a.
          Inr (if needs_conversion a then a\<lparr>converted_elements := 0\<rparr> else a\<lparr>converted_buffer := False\<rparr>))))
      else if case_range NV097_SET_VERTEX_DATA_ARRAY_OFFSET 16 class_method then
        Some (upd (slot_of NV097_SET_VERTEX_DATA_ARRAY_OFFSET class_method) (\<lambda>a.
          Inr (a\<lparr>va_dma_select := (parameter AND 0x80000000 \<noteq> 0), va_offset := ucast (parameter AND 0x7fffffff), converted_elements := 0\<rparr>)))
      else None)"

section \<open>Shader programs\<close>

text \<open>\<open>hash\<close>: the FNV-1a hash of a block of bytes, cut to 32 bits.\<close>

definition fnv_step :: "u64 \<Rightarrow> u8 \<Rightarrow> u64" where
  "fnv_step hval b =
     (let h = hval XOR ucast b
      in h + (push_bit 1 h + push_bit 4 h + push_bit 5 h + push_bit 7 h + push_bit 8 h + push_bit 40 h))"

definition hash :: "u8 list \<Rightarrow> u32" where
  "hash bs = ucast (foldl fnv_step 0xcbf29ce484222325 bs)"

definition word_bytes :: "u32 \<Rightarrow> u8 list" where
  "word_bytes w = [byte_of 0 w, byte_of 1 w, byte_of 2 w, byte_of 3 w]"

text \<open>The number of instructions up to the one that is marked as the last.\<close>

definition program_length :: "u32 list \<Rightarrow> nat" where
  "program_length ws =
     (case find (\<lambda>i. ws ! (i * 4 + 3) AND 1 \<noteq> 0) [0..<length ws div 4] of Some i \<Rightarrow> i + 1 | None \<Rightarrow> length ws div 4)"

text \<open>The hash of the current vertex program; the second argument of \<open>hash\<close> in the source is a number of bytes.\<close>

definition vertex_program_hash :: "'g DrawState \<Rightarrow> u32" where
  "vertex_program_hash s =
     (let ws = drop (unat (vertexshader_start_slot s) * 4) (program_data s)
      in hash (take (program_length ws * 4) (concat (map word_bytes ws))))"

text \<open>The field \<open>linear\<close> of \<open>kelvin_texture_format_map\<close>, a table of 64 entries.\<close>

definition texture_format_linear :: "u32 \<Rightarrow> bool res" where
  "texture_format_linear color_format =
     (if color_format \<ge> 0x40 then Inl Out_of_bounds
      else Inr (color_format \<in> {NV097_SET_TEXTURE_FORMAT_COLOR_LU_IMAGE_R5G6B5, NV097_SET_TEXTURE_FORMAT_COLOR_LU_IMAGE_A8R8G8B8,
        NV097_SET_TEXTURE_FORMAT_COLOR_LU_IMAGE_X8R8G8B8, NV097_SET_TEXTURE_FORMAT_COLOR_SZ_DEPTH_Y16_FIXED,
        NV097_SET_TEXTURE_FORMAT_COLOR_SZ_DEPTH_X8_Y24_FIXED, NV097_SET_TEXTURE_FORMAT_COLOR_LU_IMAGE_A8B8G8R8}))"

definition rect_texture :: "KelvinTexture \<Rightarrow> bool res" where
  "rect_texture t = (if t_enabled t then texture_format_linear (t_color_format t) else Inr False)"

definition fixed_function :: "PGRAPHState \<Rightarrow> bool" where
  "fixed_function pg \<longleftrightarrow> GET_MASK (pg_regs pg ! NV_PGRAPH_CSV0_D) NV_PGRAPH_CSV0_D_MODE = 0"

definition shader_key :: "PGRAPHState \<Rightarrow> 'g DrawState \<Rightarrow> ShaderState res" where
  "shader_key pg s =
     res_bind (fold_res (\<lambda>t rs. res_bind (rect_texture t) (\<lambda>r. Inr (rs @ [r]))) (textures s) []) (\<lambda>rects.
     Inr \<lparr>combiner_control = pg_regs pg ! NV_PGRAPH_COMBINECTL,
          shader_stage_program = pg_regs pg ! NV_PGRAPH_SHADERPROG,
          other_stage_input = pg_regs pg ! NV_PGRAPH_SHADERCTL,
          final_inputs_0 = pg_regs pg ! NV_PGRAPH_COMBINESPECFOG0,
          final_inputs_1 = pg_regs pg ! NV_PGRAPH_COMBINESPECFOG1,
          rgb_inputs = map (\<lambda>i. pg_regs pg ! (NV_PGRAPH_COMBINECOLORI0 + i * 4)) [0..<8],
          rgb_outputs = map (\<lambda>i. pg_regs pg ! (NV_PGRAPH_COMBINECOLORO0 + i * 4)) [0..<8],
          alpha_inputs = map (\<lambda>i. pg_regs pg ! (NV_PGRAPH_COMBINEALPHAI0 + i * 4)) [0..<8],
          alpha_outputs = map (\<lambda>i. pg_regs pg ! (NV_PGRAPH_COMBINEALPHAO0 + i * 4)) [0..<8],
          rect_tex = rects,
          compare_mode = map (\<lambda>i. map (\<lambda>j. bit (pg_regs pg ! NV_PGRAPH_SHADERCLIPMODE) (4 * i + j)) [0..<4]) [0..<4],
          sh_alphakill = map alphakill (textures s),
          vertex_shader_hash = (if fixed_function pg then 0 else vertex_program_hash s)\<rparr>)"

definition pgraph_bind_shaders :: "'g draw_ops \<Rightarrow> PGRAPHState \<Rightarrow> 'g DrawState \<Rightarrow> 'g DrawState res" where
  "pgraph_bind_shaders ops pg s =
     res_bind
       (if dirty s D_shaders then
          res_bind (shader_key pg s) (\<lambda>key.
          let s = s\<lparr>constants := map (\<lambda>k. k\<lparr>k_dirty := True\<rparr>) (constants s)\<rparr>
          in res_bind (op_program ops key pg s) (\<lambda>h. Inr (set_clean D_shaders (s\<lparr>host := h\<rparr>))))
        else Inr s)
       (\<lambda>s. res_bind (assert_res (fixed_function pg \<longrightarrow> comp_src s = 2)) (\<lambda>_.
            res_bind (op_uniforms ops pg s) (\<lambda>h. Inr (set_clean D_eye_vector (s\<lparr>host := h\<rparr>)))))"

definition pgraph_bind_textures :: "'g draw_ops \<Rightarrow> NV2A_GPUState \<Rightarrow> 'g DrawState \<Rightarrow> 'g DrawState res" where
  "pgraph_bind_textures ops d s =
     res_bind (op_bind_textures ops d s) (\<lambda>(h, passed).
     Inr (s\<lparr>host := h, textures := map (\<lambda>(i, t). if passed i then t\<lparr>t_dirty := False\<rparr> else t) (zip [0..<length (textures s)] (textures s))\<rparr>))"

section \<open>Vertices of a draw\<close>

text \<open>The place of an attribute's data in video memory.\<close>

definition attribute_data :: "NV2A_GPUState \<Rightarrow> 'g DrawState \<Rightarrow> VertexAttribute \<Rightarrow> hwaddr res" where
  "attribute_data d s a =
     res_bind (nv_dma_load_and_map d (if va_dma_select a then dma_vertex_b s else dma_vertex_a s)) (\<lambda>(addr, dma_len).
     res_bind (assert_res (va_offset a < dma_len)) (\<lambda>_. Inr (addr + va_offset a)))"

definition bind_converted :: "'g draw_ops \<Rightarrow> NV2A_GPUState \<Rightarrow> bool \<Rightarrow> u32 \<Rightarrow> nat \<Rightarrow> 'g DrawState \<Rightarrow> 'g DrawState res" where
  "bind_converted ops d inline num_elements i s =
     res_bind (arr_get (vertex_attributes s) i) (\<lambda>a.
     if va_count a \<noteq> 0 \<and> needs_conversion a then
       res_bind (if inline then Inr (Inline_array (inline_array_offset a))
                 else res_bind (attribute_data d s a) (\<lambda>addr. Inr (Video_memory addr))) (\<lambda>dat.
       res_bind (assert_res (num_elements \<le> converted_elements a \<or> va_format a = NV097_SET_VERTEX_DATA_ARRAY_FORMAT_TYPE_CMP)) (\<lambda>_.
       res_bind (op_convert ops d s i dat num_elements) (\<lambda>h.
       res_bind (arr_set (vertex_attributes s) i (a\<lparr>converted_elements := num_elements,
           converted_buffer := (converted_buffer a \<or> converted_elements a < num_elements)\<rparr>)) (\<lambda>vas.
       Inr (emit (GlVertexAttribPointer i (Components (converted_count a)) (va_gl_type a) (gl_normalize a)
               (converted_size a * converted_count a) dat)
             (s\<lparr>vertex_attributes := vas, host := h\<rparr>))))))
     else Inr s)"

definition pgraph_bind_converted_vertex_attributes ::
  "'g draw_ops \<Rightarrow> NV2A_GPUState \<Rightarrow> bool \<Rightarrow> u32 \<Rightarrow> 'g DrawState \<Rightarrow> 'g DrawState res" where
  "pgraph_bind_converted_vertex_attributes ops d inline num_elements s =
     fold_res (bind_converted ops d inline num_elements) [0..<16] s"

text \<open>The size of a vertex in the inline array.\<close>

definition vertex_stride :: "VertexAttribute list \<Rightarrow> u32" where
  "vertex_stride vas = sum_list (map (\<lambda>a. va_size a * va_count a) (filter (\<lambda>a. va_count a \<noteq> 0) vas))"

definition bind_inline :: "u32 \<Rightarrow> nat \<Rightarrow> 'g DrawState \<Rightarrow> 'g DrawState res" where
  "bind_inline stride i s =
     res_bind (arr_get (vertex_attributes s) i) (\<lambda>a.
     if va_count a \<noteq> 0 then
       let offs = vertex_stride (take i (vertex_attributes s));
           s = emit (GlEnableVertexAttribArray i) s;
           s = (if needs_conversion a then s
                else emit (GlVertexAttribPointer i (gl_size a) (va_gl_type a) (gl_normalize a) stride (Inline_array offs)) s)
       in res_bind (arr_set (vertex_attributes s) i (a\<lparr>inline_array_offset := offs\<rparr>)) (\<lambda>vas.
          Inr (s\<lparr>vertex_attributes := vas\<rparr>))
     else Inr s)"

definition pgraph_bind_inline_array :: "'g DrawState \<Rightarrow> (u32 \<times> 'g DrawState) res" where
  "pgraph_bind_inline_array s =
     (let stride = vertex_stride (vertex_attributes s)
      in res_bind (fold_res (bind_inline stride) [0..<16] s) (\<lambda>s. Inr (stride, s)))"

definition bind_attribute :: "NV2A_GPUState \<Rightarrow> nat \<Rightarrow> 'g DrawState \<Rightarrow> 'g DrawState res" where
  "bind_attribute d i s =
     res_bind (arr_get (vertex_attributes s) i) (\<lambda>a.
     if va_count a \<noteq> 0 then
       let s = emit (GlEnableVertexAttribArray i) s
       in if needs_conversion a then Inr s
          else res_bind (attribute_data d s a) (\<lambda>addr.
               Inr (emit (GlVertexAttribPointer i (gl_size a) (va_gl_type a) (gl_normalize a) (va_stride a) (Video_memory addr)) s))
     else Inr (emit (GlVertexAttrib4ubv i (inline_value a)) (emit (GlDisableVertexAttribArray i) s)))"

definition pgraph_bind_vertex_attributes :: "NV2A_GPUState \<Rightarrow> 'g DrawState \<Rightarrow> 'g DrawState res" where
  "pgraph_bind_vertex_attributes d s = fold_res (bind_attribute d) [0..<16] s"

section \<open>Draws\<close>

definition kelvin_primitive_map :: "gl_primitive list" where
  "kelvin_primitive_map = [GL_NO_PRIMITIVE, GL_POINTS, GL_LINES, GL_LINE_LOOP, GL_LINE_STRIP, GL_TRIANGLES, GL_TRIANGLE_STRIP,
     GL_TRIANGLE_FAN, GL_QUADS, GL_QUAD_STRIP, GL_POLYGON]"

definition begin_draw ::
  "'g draw_ops \<Rightarrow> bool \<Rightarrow> bool \<Rightarrow> u32 \<Rightarrow> NV2A_GPUState \<Rightarrow> 'g DrawState \<Rightarrow> 'g outcome" where
  "begin_draw ops write_zeta write_color parameter d s =
     res_bind (assert_res (parameter \<le> NV097_SET_BEGIN_END_OP_POLYGON)) (\<lambda>_.
     res_bind (pgraph_update_surfaces ops True write_zeta write_color d s) (\<lambda>(d, s).
     res_bind (get_surface_dimensions s) (\<lambda>(w, h).
     res_bind (pgraph_update_state (pgraph d) (emit (GlViewport w h) s)) (\<lambda>s.
     res_bind (pgraph_bind_shaders ops (pgraph d) s) (\<lambda>s.
     res_bind (pgraph_bind_textures ops d s) (\<lambda>s.
     res_bind (arr_get kelvin_primitive_map (unat parameter)) (\<lambda>mode.
     ret d (s\<lparr>gl_primitive_mode := mode, inline_elements_length := 0, inline_array_length := 0, inline_buffer_length := 0\<rparr>))))))))"

text \<open>The draw of the inline buffer, whose attributes are all enabled.\<close>

definition draw_inline_buffer :: "'g DrawState \<Rightarrow> 'g DrawState" where
  "draw_inline_buffer s =
     emit (GlDrawArrays (gl_primitive_mode s) 0 (of_nat (inline_buffer_length s)))
       (fold (\<lambda>i s. emit (GlEnableVertexAttribArray i)
          (emit (GlVertexAttribPointer i (Components 4) GL_FLOAT False 256 (Inline_buffer i)) s)) [0..<16] s)"

definition draw_inline_array :: "'g draw_ops \<Rightarrow> NV2A_GPUState \<Rightarrow> 'g DrawState \<Rightarrow> 'g DrawState res" where
  "draw_inline_array ops d s =
     res_bind (pgraph_bind_inline_array s) (\<lambda>(vertex_size, s).
     if vertex_size = 0 then Inl Division_by_zero
     else let index_count = of_nat (inline_array_length s) * 4 div vertex_size
          in res_bind (pgraph_bind_converted_vertex_attributes ops d True index_count s) (\<lambda>s.
             Inr (emit (GlDrawArrays (gl_primitive_mode s) 0 index_count) s)))"

definition draw_inline_elements :: "'g draw_ops \<Rightarrow> NV2A_GPUState \<Rightarrow> 'g DrawState \<Rightarrow> 'g DrawState res" where
  "draw_inline_elements ops d s =
     (let es = take (inline_elements_length s) (inline_elements s);
          max_element = foldl max 0 es;
          min_element = foldl min (-1) es
      in res_bind (pgraph_bind_vertex_attributes d s) (\<lambda>s.
         res_bind (pgraph_bind_converted_vertex_attributes ops d False (max_element + 1) s) (\<lambda>s.
         Inr (emit (GlDrawRangeElements (gl_primitive_mode s) min_element max_element es) s))))"

definition end_draw :: "'g draw_ops \<Rightarrow> bool \<Rightarrow> bool \<Rightarrow> NV2A_GPUState \<Rightarrow> 'g DrawState \<Rightarrow> 'g outcome" where
  "end_draw ops write_zeta write_color d s =
     res_bind
       (if inline_buffer_length s \<noteq> 0 then
          res_bind (assert_res (inline_array_length s = 0 \<and> inline_elements_length s = 0)) (\<lambda>_. Inr (draw_inline_buffer s))
        else if inline_array_length s \<noteq> 0 then
          res_bind (assert_res (inline_elements_length s = 0)) (\<lambda>_. draw_inline_array ops d s)
        else if inline_elements_length s \<noteq> 0 then draw_inline_elements ops d s
        else Inr s)
       (\<lambda>s. res_bind (op_mark_dirty ops (host s) write_zeta write_color) (\<lambda>h.
            res_bind (assert_res (op_no_error ops (s\<lparr>host := h\<rparr>))) (\<lambda>_. ret d (s\<lparr>host := h\<rparr>))))"

definition method_begin_end ::
  "'g draw_ops \<Rightarrow> NV2A_GPUState \<Rightarrow> 'g DrawState \<Rightarrow> u32 \<Rightarrow> u32 \<Rightarrow> 'g outcome option" where
  "method_begin_end ops d s class_method parameter =
     (if class_method = NV097_SET_BEGIN_END then
        let get = GET_PG_REG (pgraph d);
            write_depth = (get NV_PGRAPH_CONTROL_0 NV_PGRAPH_CONTROL_0_ZWRITEENABLE \<noteq> 0
              \<and> get NV_PGRAPH_CONTROL_0 NV_PGRAPH_CONTROL_0_ZENABLE \<noteq> 0);
            write_stencil = (get NV_PGRAPH_CONTROL_0 NV_PGRAPH_CONTROL_0_STENCIL_WRITE_ENABLE \<noteq> 0
              \<and> get NV_PGRAPH_CONTROL_1 NV_PGRAPH_CONTROL_1_STENCIL_TEST_ENABLE \<noteq> 0
              \<and> get NV_PGRAPH_CONTROL_1 NV_PGRAPH_CONTROL_1_STENCIL_MASK_WRITE \<noteq> 0);
            write_color = (get NV_PGRAPH_CONTROL_0 NV_PGRAPH_CONTROL_0_ALPHA_WRITE_ENABLE \<noteq> 0
              \<or> get NV_PGRAPH_CONTROL_0 NV_PGRAPH_CONTROL_0_RED_WRITE_ENABLE \<noteq> 0
              \<or> get NV_PGRAPH_CONTROL_0 NV_PGRAPH_CONTROL_0_GREEN_WRITE_ENABLE \<noteq> 0
              \<or> get NV_PGRAPH_CONTROL_0 NV_PGRAPH_CONTROL_0_BLUE_WRITE_ENABLE \<noteq> 0)
        in Some (if parameter \<noteq> NV097_SET_BEGIN_END_OP_END
                 then begin_draw ops (write_depth \<or> write_stencil) write_color parameter d s
                 else end_draw ops (write_depth \<or> write_stencil) write_color d s)
      else None)"

section \<open>Textures\<close>

definition set_texture :: "nat \<Rightarrow> (KelvinTexture \<Rightarrow> KelvinTexture) \<Rightarrow> 'g DrawState \<Rightarrow> 'g DrawState res" where
  "set_texture i f s =
     res_bind (arr_get (textures s) i) (\<lambda>t.
     res_bind (arr_set (textures s) i ((f t)\<lparr>t_dirty := True\<rparr>)) (\<lambda>ts. Inr (s\<lparr>textures := ts\<rparr>)))"

definition method_texture :: "NV2A_GPUState \<Rightarrow> 'g DrawState \<Rightarrow> u32 \<Rightarrow> u32 \<Rightarrow> 'g outcome option" where
  "method_texture d s class_method parameter =
     (let tex = (\<lambda>v f. res_bind (set_texture (slot_4 v 64 class_method) f s) (ret d));
          tex_shader = (\<lambda>v f. res_bind (set_texture (slot_4 v 64 class_method) f s) (\<lambda>s. ret d (set_dirty D_shaders s)))
      in if case_4 NV097_SET_TEXTURE_OFFSET 64 class_method then
        Some (tex NV097_SET_TEXTURE_OFFSET (\<lambda>t. t\<lparr>t_offset := ucast parameter\<rparr>))
      else if case_4 NV097_SET_TEXTURE_FORMAT 64 class_method then
        Some (tex_shader NV097_SET_TEXTURE_FORMAT (\<lambda>t. t\<lparr>
          t_dma_select := (GET_MASK parameter NV097_SET_TEXTURE_FORMAT_CONTEXT_DMA = 2),
          dimensionality := GET_MASK parameter NV097_SET_TEXTURE_FORMAT_DIMENSIONALITY,
          t_color_format := GET_MASK parameter NV097_SET_TEXTURE_FORMAT_COLOR,
          levels := GET_MASK parameter NV097_SET_TEXTURE_FORMAT_MIPMAP_LEVELS,
          log_width := GET_MASK parameter NV097_SET_TEXTURE_FORMAT_BASE_SIZE_U,
          log_height := GET_MASK parameter NV097_SET_TEXTURE_FORMAT_BASE_SIZE_V,
          log_depth := GET_MASK parameter NV097_SET_TEXTURE_FORMAT_BASE_SIZE_P\<rparr>))
      else if case_4 NV097_SET_TEXTURE_ADDRESS 64 class_method then
        Some (tex NV097_SET_TEXTURE_ADDRESS (\<lambda>t. t\<lparr>
          wrap_u := ucast (GET_MASK parameter NV097_SET_TEXTURE_ADDRESS_U),
          cylwrap_u := (GET_MASK parameter NV097_SET_TEXTURE_ADDRESS_CYLWRAP_U \<noteq> 0),
          wrap_v := ucast (GET_MASK parameter NV097_SET_TEXTURE_ADDRESS_V),
          cylwrap_v := (GET_MASK parameter NV097_SET_TEXTURE_ADDRESS_CYLWRAP_V \<noteq> 0),
          wrap_p := ucast (GET_MASK parameter NV097_SET_TEXTURE_ADDRESS_P),
          cylwrap_p := (GET_MASK parameter NV097_SET_TEXTURE_ADDRESS_CYLWRAP_P \<noteq> 0),
          cylwrap_q := (GET_MASK parameter NV097_SET_TEXTURE_ADDRESS_CYLWRAP_Q \<noteq> 0)\<rparr>))
      else if case_4 NV097_SET_TEXTURE_CONTROL0 64 class_method then
        Some (tex_shader NV097_SET_TEXTURE_CONTROL0 (\<lambda>t. t\<lparr>
          t_enabled := (parameter AND NV097_SET_TEXTURE_CONTROL0_ENABLE \<noteq> 0),
          min_mipmap_level := GET_MASK parameter NV097_SET_TEXTURE_CONTROL0_MIN_LOD_CLAMP,
          max_mipmap_level := GET_MASK parameter NV097_SET_TEXTURE_CONTROL0_MAX_LOD_CLAMP,
          alphakill := (GET_MASK parameter NV097_SET_TEXTURE_CONTROL0_ALPHA_KILL_ENABLE \<noteq> 0)\<rparr>))
      else if case_4 NV097_SET_TEXTURE_CONTROL1 64 class_method then
        Some (tex NV097_SET_TEXTURE_CONTROL1 (\<lambda>t. t\<lparr>t_pitch := GET_MASK parameter NV097_SET_TEXTURE_CONTROL1_IMAGE_PITCH\<rparr>))
      else if case_4 NV097_SET_TEXTURE_FILTER 64 class_method then
        Some (tex NV097_SET_TEXTURE_FILTER (\<lambda>t. t\<lparr>
          lod_bias := GET_MASK parameter NV097_SET_TEXTURE_FILTER_MIPMAP_LOD_BIAS,
          min_filter := GET_MASK parameter NV097_SET_TEXTURE_FILTER_MIN,
          mag_filter := GET_MASK parameter NV097_SET_TEXTURE_FILTER_MAG\<rparr>))
      else if case_4 NV097_SET_TEXTURE_IMAGE_RECT 64 class_method then
        Some (tex NV097_SET_TEXTURE_IMAGE_RECT (\<lambda>t. t\<lparr>
          rect_width := GET_MASK parameter NV097_SET_TEXTURE_IMAGE_RECT_WIDTH,
          rect_height := GET_MASK parameter NV097_SET_TEXTURE_IMAGE_RECT_HEIGHT\<rparr>))
      else None)"

section \<open>Batches\<close>

definition push_element :: "u32 \<Rightarrow> 'g DrawState \<Rightarrow> 'g DrawState res" where
  "push_element v s =
     res_bind (arr_set (inline_elements s) (inline_elements_length s) v) (\<lambda>es.
     Inr (s\<lparr>inline_elements := es, inline_elements_length := inline_elements_length s + 1\<rparr>))"

text \<open>The quotients of signed and unsigned components; 32767.5 is 65535 / 2.\<close>

definition unsigned_component :: "nat \<Rightarrow> u32 \<Rightarrow> number" where
  "unsigned_component n parameter = Quotient (uint (byte_of n parameter)) 255"

definition signed_component :: "nat \<Rightarrow> u32 \<Rightarrow> number" where
  "signed_component n parameter = Quotient (2 * sint (ucast (drop_bit (16 * n) parameter) :: u16)) 65535"

definition method_batch :: "NV2A_GPUState \<Rightarrow> 'g DrawState \<Rightarrow> u32 \<Rightarrow> u32 \<Rightarrow> 'g outcome option" where
  "method_batch d s class_method parameter =
     (if class_method = NV097_SET_POINT_SIZE then Some (ret d (emit (GlPointSize (Bits parameter)) s))
      else if class_method = NV097_ARRAY_ELEMENT16 then
        Some (res_bind (assert_res (inline_elements_length s < NV2A_GPU_MAX_BATCH_LENGTH)) (\<lambda>_.
              res_bind (push_element (parameter AND 0xFFFF) s) (\<lambda>s.
              res_bind (push_element (drop_bit 16 parameter) s) (ret d))))
      else if class_method = NV097_ARRAY_ELEMENT32 then
        Some (res_bind (assert_res (inline_elements_length s < NV2A_GPU_MAX_BATCH_LENGTH)) (\<lambda>_.
              res_bind (push_element parameter s) (ret d)))
      else if class_method = NV097_DRAW_ARRAYS then
        Some (res_bind (pgraph_bind_vertex_attributes d s) (\<lambda>s.
              ret d (emit (GlDrawArrays (gl_primitive_mode s) (GET_MASK parameter NV097_DRAW_ARRAYS_START_INDEX)
                (GET_MASK parameter NV097_DRAW_ARRAYS_COUNT + 1)) s)))
      else if class_method = NV097_INLINE_ARRAY then
        Some (res_bind (assert_res (inline_array_length s < NV2A_GPU_MAX_BATCH_LENGTH)) (\<lambda>_.
              res_bind (arr_set (inline_array s) (inline_array_length s) parameter) (\<lambda>ws.
              ret d (s\<lparr>inline_array := ws, inline_array_length := inline_array_length s + 1\<rparr>))))
      else if case_range NV097_SET_VERTEX_DATA2F_M 32 class_method then
        let slot = slot_of NV097_SET_VERTEX_DATA2F_M class_method in
        Some (res_bind (inline_set (slot div 2) (slot mod 2) (Bits parameter) s) (\<lambda>s.
              if slot = 1
              then res_bind (inline_set 0 2 (Quotient 0 1) s) (\<lambda>s. res_bind (inline_set 0 3 (Quotient 1 1) s) (\<lambda>s. ret d (next_vertex s)))
              else ret d s))
      else if case_range NV097_SET_VERTEX_DATA4F_M 64 class_method then
        let slot = slot_of NV097_SET_VERTEX_DATA4F_M class_method in
        Some (res_bind (inline_set (slot div 4) (slot mod 4) (Bits parameter) s) (\<lambda>s. Inl Assertion_failed))
      else if case_range NV097_SET_VERTEX_DATA4UB 16 class_method then
        let slot = slot_of NV097_SET_VERTEX_DATA4UB class_method in
        Some (res_bind (inline_set slot 0 (unsigned_component 3 parameter) s) (\<lambda>s.
              res_bind (inline_set slot 1 (unsigned_component 2 parameter) s) (\<lambda>s.
              res_bind (inline_set slot 2 (unsigned_component 1 parameter) s) (\<lambda>s.
              res_bind (inline_set slot 3 (unsigned_component 0 parameter) s) (\<lambda>s.
              ret d (if slot = 0 then next_vertex s else s))))))
      else if case_range NV097_SET_VERTEX_DATA2S 16 class_method then
        let slot = slot_of NV097_SET_VERTEX_DATA2S class_method in
        Some (res_bind (inline_set slot 0 (signed_component 0 parameter) s) (\<lambda>s.
              res_bind (inline_set slot 1 (signed_component 1 parameter) s) (\<lambda>s.
              ret d (if slot = 0 then next_vertex s else s))))
      else if case_range NV097_SET_VERTEX_DATA4S_M 32 class_method then
        let slot = slot_of NV097_SET_VERTEX_DATA4S_M class_method in
        Some (res_bind (inline_set (slot div 2) (slot mod 2) (signed_component 0 parameter) s) (\<lambda>s.
              res_bind (inline_set (slot div 2) (slot mod 2 + 1) (signed_component 1 parameter) s) (\<lambda>s. Inl Assertion_failed)))
      else None)"

section \<open>Semaphores and clears\<close>

definition vram_stl :: "nat \<Rightarrow> u32 \<Rightarrow> NV2A_GPUState \<Rightarrow> NV2A_GPUState res" where
  "vram_stl a v d = (if a + 4 \<le> unat (vram_size d) then Inr (d\<lparr>vram := stl_le (vram d) (of_nat a) v\<rparr>) else Inl Out_of_bounds)"

definition semaphore_release :: "'g draw_ops \<Rightarrow> NV2A_GPUState \<Rightarrow> 'g DrawState \<Rightarrow> 3 word \<Rightarrow> u32 \<Rightarrow> 'g outcome" where
  "semaphore_release ops d s sub parameter =
     res_bind (pgraph_update_surfaces ops False True True d s) (\<lambda>(d, s).
     res_bind (arr_get (subchannel_data s) (unat sub)) (\<lambda>c.
     let semaphore_offset = ldl_le (object_data c) KELVIN_semaphore_offset in
     res_bind (nv_dma_load_and_map d (get64 (object_data c) KELVIN_dma_semaphore)) (\<lambda>(addr, semaphore_dma_len).
     res_bind (assert_res (ucast semaphore_offset < semaphore_dma_len)) (\<lambda>_.
     res_bind (vram_stl (unat addr + unat semaphore_offset) parameter d) (\<lambda>d. ret d s)))))"

text \<open>The values of a clear: the depth as a quotient, and the stencil, which a format without stencil leaves undefined.\<close>

definition clear_values :: "u32 \<Rightarrow> u32 \<Rightarrow> ((u32 \<times> u32) \<times> u32 option) res" where
  "clear_values zeta_format clear_zstencil =
     (if zeta_format = NV097_SET_SURFACE_FORMAT_ZETA_Z16 then Inr ((clear_zstencil AND 0xFFFF, 0xFFFF), None)
      else if zeta_format = NV097_SET_SURFACE_FORMAT_ZETA_Z24S8 then
        Inr ((drop_bit 8 clear_zstencil, 0xFFFFFF), Some (clear_zstencil AND 0xFF))
      else Inl Assertion_failed)"

definition clear_zeta :: "bool \<Rightarrow> bool \<Rightarrow> u32 \<Rightarrow> 'g DrawState \<Rightarrow> 'g DrawState res" where
  "clear_zeta write_depth write_stencil clear_zstencil s =
     res_bind (clear_values (s_format (surface_zeta s)) clear_zstencil) (\<lambda>((depth, scale), stencil).
     let s = (if write_depth then emit (GlClearDepth depth scale) (set_dirty D_depth_mask (emit (GlDepthMask True) s)) else s)
     in Inr (if write_stencil then emit (GlClearStencil stencil) (set_dirty D_stencil_mask (emit (GlStencilMask 0xFF) s)) else s))"

definition clear_color :: "u32 \<Rightarrow> u32 \<Rightarrow> 'g DrawState \<Rightarrow> 'g DrawState" where
  "clear_color parameter color s =
     emit (GlClearColor (unsigned_component 2 color) (unsigned_component 1 color) (unsigned_component 0 color) (unsigned_component 3 color))
       (set_dirty D_color_mask (emit (GlColorMask (parameter AND NV097_CLEAR_SURFACE_R \<noteq> 0) (parameter AND NV097_CLEAR_SURFACE_G \<noteq> 0)
          (parameter AND NV097_CLEAR_SURFACE_B \<noteq> 0) (parameter AND NV097_CLEAR_SURFACE_A \<noteq> 0)) s))"

definition clear_surface :: "'g draw_ops \<Rightarrow> NV2A_GPUState \<Rightarrow> 'g DrawState \<Rightarrow> u32 \<Rightarrow> 'g outcome" where
  "clear_surface ops d s parameter =
     (let write_depth = (parameter AND NV097_CLEAR_SURFACE_Z \<noteq> 0);
          write_stencil = (parameter AND NV097_CLEAR_SURFACE_STENCIL \<noteq> 0);
          write_zeta = (write_depth \<or> write_stencil);
          write_color = (parameter AND NV097_CLEAR_SURFACE_COLOR \<noteq> 0)
      in if \<not> (write_zeta \<or> write_color) then ret d s
         else res_bind (pgraph_update_surfaces ops True write_zeta write_color d s) (\<lambda>(d, s).
              let regs = pg_regs (pgraph d) in
              res_bind (if write_zeta then clear_zeta write_depth write_stencil (regs ! NV_PGRAPH_ZSTENCILCLEARVALUE) s else Inr s) (\<lambda>s.
              let s = (if write_color then clear_color parameter (regs ! NV_PGRAPH_COLORCLEARVALUE) s else s);
                  xmin = GET_MASK (regs ! NV_PGRAPH_CLEARRECTX) NV_PGRAPH_CLEARRECTX_XMIN * 2;
                  xmax = GET_MASK (regs ! NV_PGRAPH_CLEARRECTX) NV_PGRAPH_CLEARRECTX_XMAX * 2;
                  ymin = GET_MASK (regs ! NV_PGRAPH_CLEARRECTY) NV_PGRAPH_CLEARRECTY_YMIN * 2;
                  ymax = GET_MASK (regs ! NV_PGRAPH_CLEARRECTY) NV_PGRAPH_CLEARRECTY_YMAX * 2;
                  s = emit (GlDisable GL_SCISSOR_TEST) (emit (GlClear write_depth write_stencil write_color)
                    (emit (GlScissor xmin ymin (xmax - xmin + 1) (ymax - ymin + 1)) (emit (GlEnable GL_SCISSOR_TEST) s)))
              in res_bind (op_mark_dirty ops (host s) write_zeta write_color) (\<lambda>h. ret d (s\<lparr>host := h\<rparr>)))))"

definition method_clear ::
  "'g draw_ops \<Rightarrow> NV2A_GPUState \<Rightarrow> 'g DrawState \<Rightarrow> 3 word \<Rightarrow> u32 \<Rightarrow> u32 \<Rightarrow> 'g outcome option" where
  "method_clear ops d s sub class_method parameter =
     (if class_method = NV097_SET_SEMAPHORE_OFFSET then
        Some (res_bind (set_object sub (put32 KELVIN_semaphore_offset parameter) s) (ret d))
      else if class_method = NV097_BACK_END_WRITE_SEMAPHORE_RELEASE then Some (semaphore_release ops d s sub parameter)
      else if class_method = NV097_SET_ZSTENCIL_CLEAR_VALUE then
        Some (ret (upd_pg (WRITE_PG_REG NV_PGRAPH_ZSTENCILCLEARVALUE parameter) d) s)
      else if class_method = NV097_SET_COLOR_CLEAR_VALUE then Some (ret (upd_pg (WRITE_PG_REG NV_PGRAPH_COLORCLEARVALUE parameter) d) s)
      else if class_method = NV097_CLEAR_SURFACE then Some (clear_surface ops d s parameter)
      else if class_method = NV097_SET_CLEAR_RECT_HORIZONTAL then Some (ret (upd_pg (WRITE_PG_REG NV_PGRAPH_CLEARRECTX parameter) d) s)
      else if class_method = NV097_SET_CLEAR_RECT_VERTICAL then Some (ret (upd_pg (WRITE_PG_REG NV_PGRAPH_CLEARRECTY parameter) d) s)
      else None)"

section \<open>Fog and shader stages\<close>

definition register_fog_mode :: "u32 \<Rightarrow> u32 res" where
  "register_fog_mode m =
     (if m = NV097_SET_FOG_MODE_LINEAR then Inr NV_PGRAPH_CONTROL_3_FOG_MODE_LINEAR
      else if m = NV097_SET_FOG_MODE_EXP then Inr NV_PGRAPH_CONTROL_3_FOG_MODE_EXP
      else if m = NV097_SET_FOG_MODE_EXP2 then Inr NV_PGRAPH_CONTROL_3_FOG_MODE_EXP2
      else if m = NV097_SET_FOG_MODE_EXP_ABS then Inr NV_PGRAPH_CONTROL_3_FOG_MODE_EXP_ABS
      else if m = NV097_SET_FOG_MODE_EXP2_ABS then Inr NV_PGRAPH_CONTROL_3_FOG_MODE_EXP2_ABS
      else if m = NV097_SET_FOG_MODE_LINEAR_ABS then Inr NV_PGRAPH_CONTROL_3_FOG_MODE_LINEAR_ABS
      else Inl Assertion_failed)"

definition method_shader :: "NV2A_GPUState \<Rightarrow> 'g DrawState \<Rightarrow> u32 \<Rightarrow> u32 \<Rightarrow> 'g outcome option" where
  "method_shader d s class_method parameter =
     (let shader_reg = (\<lambda>r. Some (ret (upd_pg (WRITE_PG_REG r parameter) d) (set_dirty D_shaders s)))
      in if case_range NV097_SET_SPECULAR_FOG_FACTOR 2 class_method then
        Some (write_slot NV_PGRAPH_SPECFOGFACTOR0 (slot_of NV097_SET_SPECULAR_FOG_FACTOR class_method) parameter d s)
      else if case_range NV097_SET_EYE_VECTOR 3 class_method then
        Some (res_bind (arr_set (eye_vector s) (slot_of NV097_SET_EYE_VECTOR class_method) parameter) (\<lambda>v.
              ret d (set_dirty D_eye_vector (s\<lparr>eye_vector := v\<rparr>))))
      else if class_method = NV097_SET_FOG_MODE then
        Some (res_bind (register_fog_mode parameter) (\<lambda>val.
              ret (upd_pg (SET_PG_REG NV_PGRAPH_CONTROL_3 NV_PGRAPH_CONTROL_3_FOG_MODE val) d) (set_dirty D_fog_mode s)))
      else if class_method = NV097_SET_FOG_ENABLE then
        Some (ret (upd_pg (SET_PG_REG NV_PGRAPH_CONTROL_3 NV_PGRAPH_CONTROL_3_FOGENABLE parameter) d) (set_dirty D_fog s))
      else if class_method = NV097_SET_FOG_COLOR then
        Some (ret (upd_pg (SET_PG_REG NV_PGRAPH_FOGCOLOR NV_PGRAPH_FOGCOLOR_ALPHA (GET_MASK parameter NV097_SET_FOG_COLOR_ALPHA) \<circ>
            SET_PG_REG NV_PGRAPH_FOGCOLOR NV_PGRAPH_FOGCOLOR_BLUE (GET_MASK parameter NV097_SET_FOG_COLOR_BLUE) \<circ>
            SET_PG_REG NV_PGRAPH_FOGCOLOR NV_PGRAPH_FOGCOLOR_GREEN (GET_MASK parameter NV097_SET_FOG_COLOR_GREEN) \<circ>
            SET_PG_REG NV_PGRAPH_FOGCOLOR NV_PGRAPH_FOGCOLOR_RED (GET_MASK parameter NV097_SET_FOG_COLOR_RED)) d)
          (set_dirty D_fog_color s))
      else if class_method = NV097_SET_SHADER_CLIP_PLANE_MODE then Some (ret (upd_pg (WRITE_PG_REG NV_PGRAPH_SHADERCLIPMODE parameter) d) s)
      else if case_range NV097_SET_COMBINER_COLOR_OCW 8 class_method then
        Some (write_slot NV_PGRAPH_COMBINECOLORO0 (slot_of NV097_SET_COMBINER_COLOR_OCW class_method) parameter d s)
      else if class_method = NV097_SET_COMBINER_CONTROL then shader_reg NV_PGRAPH_COMBINECTL
      else if class_method = NV097_SET_SHADER_STAGE_PROGRAM then shader_reg NV_PGRAPH_SHADERPROG
      else if class_method = NV097_SET_SHADER_OTHER_STAGE_INPUT then shader_reg NV_PGRAPH_SHADERCTL
      else if class_method = NV097_SET_TRANSFORM_EXECUTION_MODE then
        Some (ret (upd_pg (SET_PG_REG NV_PGRAPH_CSV0_D NV_PGRAPH_CSV0_D_RANGE_MODE (GET_MASK parameter NV097_SET_TRANSFORM_EXECUTION_MODE_RANGE_MODE) \<circ>
            SET_PG_REG NV_PGRAPH_CSV0_D NV_PGRAPH_CSV0_D_MODE (GET_MASK parameter NV097_SET_TRANSFORM_EXECUTION_MODE_MODE)) d) s)
      else if class_method = NV097_SET_TRANSFORM_PROGRAM_CXT_WRITE_EN then Some (ret d (s\<lparr>enable_vertex_program_write := (parameter \<noteq> 0)\<rparr>))
      else if class_method = NV097_SET_TRANSFORM_PROGRAM_LOAD then
        Some (res_bind (assert_res (unat parameter < NV2A_GPU_MAX_VERTEXSHADER_LENGTH)) (\<lambda>_.
              ret d (s\<lparr>vertexshader_load_slot := parameter * 4\<rparr>)))
      else if class_method = NV097_SET_TRANSFORM_PROGRAM_START then
        Some (res_bind (assert_res (unat parameter < NV2A_GPU_MAX_VERTEXSHADER_LENGTH)) (\<lambda>_.
              ret d (s\<lparr>vertexshader_start_slot := parameter, vertexshader_dirty := True\<rparr>)))
      else if class_method = NV097_SET_TRANSFORM_CONSTANT_LOAD then
        Some (res_bind (assert_res (unat parameter < NV2A_GPU_VERTEXSHADER_CONSTANTS)) (\<lambda>_.
              ret d (s\<lparr>constant_load_slot := parameter * 4\<rparr>)))
      else None)"

section \<open>Tests, blending and faces\<close>

definition gl_shade_mode :: "u32 \<Rightarrow> gl_mode res" where
  "gl_shade_mode m =
     (if m = NV097_SET_SHADE_MODE_FLAT then Inr GL_FLAT
      else if m = NV097_SET_SHADE_MODE_SMOOTH then Inr GL_SMOOTH
      else Inl Assertion_failed)"

definition method_tests :: "NV2A_GPUState \<Rightarrow> 'g DrawState \<Rightarrow> 3 word \<Rightarrow> u32 \<Rightarrow> u32 \<Rightarrow> 'g outcome option" where
  "method_tests d s sub class_method parameter =
     (let reg = (\<lambda>r msk val flag. ret (upd_pg (SET_PG_REG r msk val) d) (set_dirty flag s));
          mapped = (\<lambda>f r msk flag. res_bind (f parameter) (\<lambda>val. ret (upd_pg (SET_PG_REG r msk val) d) (set_dirty flag s)));
          kelvin = (\<lambda>f call flag. res_bind (set_object sub f s) (\<lambda>s. res_bind (call s) (\<lambda>s. ret d (set_dirty flag s))));
          field = (\<lambda>s off. res_bind (arr_get (subchannel_data s) (unat sub)) (\<lambda>c. Inr (ldl_le (object_data c) off)))
      in if class_method = NV097_SET_SHADE_MODE then
        Some (res_bind (set_object sub (put32 KELVIN_shade_mode parameter) s) (\<lambda>s.
              res_bind (gl_shade_mode parameter) (\<lambda>m. ret d (emit (GlShadeModel m) s))))
      else if class_method = NV097_SET_ALPHA_TEST_ENABLE then
        Some (reg NV_PGRAPH_CONTROL_0 NV_PGRAPH_CONTROL_0_ALPHATESTENABLE parameter D_alpha_test)
      else if class_method = NV097_SET_BLEND_ENABLE then
        Some (kelvin (put_bool KELVIN_blend_enable (parameter \<noteq> 0)) (\<lambda>s. Inr (set_gl_state GL_BLEND (parameter \<noteq> 0) s)) D_blend)
      else if class_method = NV097_SET_BLEND_FUNC_SFACTOR then
        Some (kelvin (put32 KELVIN_blend_func_sfactor parameter)
          (\<lambda>s. res_bind (field s KELVIN_blend_func_dfactor) (\<lambda>dfactor. set_gl_blend_func parameter dfactor s)) D_blend_func)
      else if class_method = NV097_SET_BLEND_FUNC_DFACTOR then
        Some (kelvin (put32 KELVIN_blend_func_dfactor parameter)
          (\<lambda>s. res_bind (field s KELVIN_blend_func_sfactor) (\<lambda>sfactor. set_gl_blend_func sfactor parameter s)) D_blend_func)
      else if class_method = NV097_SET_FRONT_FACE then
        Some (kelvin (put32 KELVIN_front_face parameter) (set_gl_front_face parameter) D_front_face)
      else if class_method = NV097_SET_CULL_FACE_ENABLE then
        Some (kelvin (put_bool KELVIN_cull_face_enable (parameter \<noteq> 0)) (\<lambda>s. Inr (set_gl_state GL_CULL_FACE (parameter \<noteq> 0) s)) D_cull_face)
      else if class_method = NV097_SET_CULL_FACE then
        Some (kelvin (put32 KELVIN_cull_face parameter) (set_gl_cull_face parameter) D_cull_face_mode)
      else if class_method = NV097_SET_DEPTH_TEST_ENABLE then
        Some (reg NV_PGRAPH_CONTROL_0 NV_PGRAPH_CONTROL_0_ZENABLE parameter D_depth_test)
      else if class_method = NV097_SET_DEPTH_FUNC then
        Some (mapped map_method_to_register_func NV_PGRAPH_CONTROL_0 NV_PGRAPH_CONTROL_0_ZFUNC D_depth_test_func)
      else if class_method = NV097_SET_ALPHA_FUNC then
        Some (mapped map_method_to_register_func NV_PGRAPH_CONTROL_0 NV_PGRAPH_CONTROL_0_ALPHAFUNC D_alpha_test_func)
      else if class_method = NV097_SET_ALPHA_REF then
        Some (reg NV_PGRAPH_CONTROL_0 NV_PGRAPH_CONTROL_0_ALPHAREF parameter D_alpha_test_func)
      else if class_method = NV097_SET_EDGE_FLAG then
        Some (kelvin (put_bool KELVIN_edge_flag (parameter \<noteq> 0)) (\<lambda>s. Inr (emit (GlEdgeFlag (parameter \<noteq> 0)) s)) D_edge_flag)
      else None)"

section \<open>The dispatch\<close>

text \<open>The switch over the class and the method: the first group that has a case for it; no two have one.\<close>

fun first_some :: "'a option list \<Rightarrow> 'a option" where
  "first_some [] = None"
| "first_some (None # rs) = first_some rs"
| "first_some (Some r # rs) = Some r"

definition method_dispatch ::
  "'g draw_ops \<Rightarrow> NV2A_GPUState \<Rightarrow> 'g DrawState \<Rightarrow> 3 word \<Rightarrow> u32 \<Rightarrow> u32 \<Rightarrow> u32 \<Rightarrow> 'g outcome" where
  "method_dispatch ops d s sub mthd class_method parameter =
     (case first_some
        [method_2d ops d s sub class_method parameter, method_surface ops d s sub mthd class_method parameter,
         method_raster d s class_method parameter, method_transform d s class_method parameter,
         method_vertex d s class_method parameter, method_arrays d s class_method parameter,
         method_begin_end ops d s class_method parameter, method_texture d s class_method parameter,
         method_batch d s class_method parameter, method_clear ops d s sub class_method parameter,
         method_shader d s class_method parameter, method_tests d s sub class_method parameter] of
        Some r \<Rightarrow> r
      | None \<Rightarrow> ret d s)"

definition pgraph_method :: "'g draw_ops \<Rightarrow> NV2A_GPUState \<Rightarrow> 'g DrawState \<Rightarrow> 3 word \<Rightarrow> u32 \<Rightarrow> u32 \<Rightarrow> 'g outcome" where
  "pgraph_method ops d s sub mthd parameter =
     res_bind (assert_res (channel_valid (pgraph d))) (\<lambda>_.
     res_bind (arr_get (subchannel_data s) (unat sub)) (\<lambda>c.
     if mthd = NV_SET_OBJECT then
       res_bind (arr_set (subchannel_data s) (unat sub) (c\<lparr>object_instance := ucast parameter\<rparr>)) (\<lambda>cs.
       res_bind (load_graphics_object d sub (ucast parameter) (s\<lparr>subchannel_data := cs\<rparr>)) (ret d))
     else method_dispatch ops d s sub mthd (push_bit 16 (ucast (graphics_class c)) OR mthd) parameter))"

text \<open>The engine that the puller runs.\<close>

definition kelvin_engine :: "'g draw_ops \<Rightarrow> 'g DrawState engine" where
  "kelvin_engine ops s d sub mthd parameter =
     res_bind (pgraph_method ops d s sub mthd parameter) (\<lambda>(d', s', wait). Inr (s', pgraph d', vram d', wait))"

text \<open>The state after \<open>pgraph_init\<close>, on a zeroed device.\<close>

definition draw_reset :: "'g \<Rightarrow> 'g DrawState" where
  "draw_reset h = \<lparr>comp_src = 0, dma_color = 0, dma_zeta = 0, surface_color = \<lparr>s_pitch = 0, s_format = 0, s_offset = 0\<rparr>,
     surface_zeta = \<lparr>s_pitch = 0, s_format = 0, s_offset = 0\<rparr>, surface_type = 0, surface_anti_aliasing = 0,
     surface_swizzle_width_shift = 0, surface_swizzle_height_shift = 0, clip_x = 0, clip_y = 0, clip_width = 0, clip_height = 0,
     dma_a = 0, dma_b = 0,
     textures = replicate 4 \<lparr>t_dirty = False, t_enabled = False, dimensionality = 0, t_color_format = 0, levels = 0, log_width = 0,
       log_height = 0, log_depth = 0, rect_width = 0, rect_height = 0, min_mipmap_level = 0, max_mipmap_level = 0, t_pitch = 0,
       lod_bias = 0, min_filter = 0, mag_filter = 0, wrap_u = 0, wrap_v = 0, wrap_p = 0, cylwrap_u = False, cylwrap_v = False,
       cylwrap_p = False, cylwrap_q = False, alphakill = False, t_dma_select = False, t_offset = 0\<rparr>,
     dirty = (\<lambda>f. f = D_shaders), eye_vector = replicate 3 0, composite_matrix = replicate 16 0,
     texture_matrix_enable = replicate 4 False, texture_matrix = replicate 4 (replicate 16 0), dma_vertex_a = 0, dma_vertex_b = 0,
     subchannel_data = replicate 8 \<lparr>object_instance = 0, graphics_class = 0, object_data = \<lambda>_. 0\<rparr>,
     gl_primitive_mode = GL_NO_PRIMITIVE, enable_vertex_program_write = False, vertexshader_start_slot = 0,
     vertexshader_load_slot = 0, vertexshader_dirty = False, program_data = replicate (136 * 4) 0, constant_load_slot = 0,
     constants = replicate 192 \<lparr>k_dirty = False, k_data = replicate 4 0\<rparr>,
     vertex_attributes = replicate 16 \<lparr>va_dma_select = False, va_offset = 0, inline_array_offset = 0, inline_value = 0, va_format = 0,
       va_size = 0, va_count = 0, va_stride = 0, needs_conversion = False, converted_buffer = False, converted_elements = 0,
       converted_size = 0, converted_count = 0, gl_size = Components 0, va_gl_type = GL_NO_TYPE, gl_normalize = False\<rparr>,
     inline_array_length = 0, inline_array = replicate NV2A_GPU_MAX_BATCH_LENGTH 0,
     inline_elements_length = 0, inline_elements = replicate NV2A_GPU_MAX_BATCH_LENGTH 0,
     inline_buffer_length = 0, inline_buffer = replicate NV2A_GPU_MAX_BATCH_LENGTH (replicate 16 (replicate 4 (Bits 0))),
     gl_calls = [], host = h\<rparr>"

end
