(* ===== verification/NV2A_Engine.thy ===== *)
theory NV2A_Engine
  imports NV2A_Methods
begin

text \<open>
  What the methods of the drawing engine keep and do. An invariant ties the lengths of the engine's arrays to the indices that
  the methods use; it is kept by every method and discharges the hypothesis on the engine in \<open>NV2A_Puller\<close>, so that the
  whole device keeps its invariant. The contract of the dirty flags is kept by every method, too, so that a draw finds the
  settings of the registers in OpenGL. A method leaves the engine's arrays only in the cases that are named here.
\<close>

section \<open>Outcomes\<close>

text \<open>A result that satisfies \<open>P\<close> if there is one, and that is no access out of bounds under the condition \<open>b\<close>.\<close>

definition within :: "bool \<Rightarrow> ('a \<Rightarrow> bool) \<Rightarrow> 'a res \<Rightarrow> bool" where
  "within b P r \<longleftrightarrow> (case r of Inl e \<Rightarrow> b \<longrightarrow> e \<noteq> Out_of_bounds | Inr x \<Rightarrow> P x)"

lemma within_simps [simp]: "within b P (Inr x) = P x" "within b P (Inl e) = (b \<longrightarrow> e \<noteq> Out_of_bounds)"
  by (simp_all add: within_def)

lemma within_False: "within False P r = res_all P r"
  by (auto simp: within_def res_all_def split: sum.splits)

lemma within_if: "(c \<Longrightarrow> within b P r) \<Longrightarrow> (\<not> c \<Longrightarrow> within b P r') \<Longrightarrow> within b P (if c then r else r')"
  by simp

lemma within_bind: "within b Q r \<Longrightarrow> (\<And>x. Q x \<Longrightarrow> within b P (k x)) \<Longrightarrow> within b P (res_bind r k)"
  by (cases r) (auto simp: within_def)

lemma within_assert: "(c \<Longrightarrow> within b P (k ())) \<Longrightarrow> within b P (res_bind (assert_res c) k)"
  by (cases c) auto

lemma within_mono: "within b Q r \<Longrightarrow> (b' \<Longrightarrow> b) \<Longrightarrow> (\<And>x. Q x \<Longrightarrow> P x) \<Longrightarrow> within b' P r"
  by (cases r) auto

lemma within_arr_get: "i < length xs \<Longrightarrow> within b (\<lambda>x. x \<in> set xs) (arr_get xs i)"
  by simp

lemma within_arr_set: "i < length xs \<Longrightarrow> within b (\<lambda>ys. ys = xs[i := v]) (arr_set xs i v)"
  by simp

lemma within_fold:
  assumes "P s" "\<And>x s. x \<in> set xs \<Longrightarrow> P s \<Longrightarrow> within b P (f x s)"
  shows "within b P (fold_res f xs s)"
  using assms
proof (induction xs arbitrary: s)
  case (Cons x xs)
  show ?case using Cons.prems Cons.IH by (auto intro!: within_bind [of _ P])
qed simp

section \<open>The invariant of the engine\<close>

definition draw_ok :: "'g DrawState \<Rightarrow> bool" where
  "draw_ok s \<longleftrightarrow> length (textures s) = 4 \<and> length (eye_vector s) = 3 \<and> length (composite_matrix s) = 16
     \<and> length (texture_matrix_enable s) = 4 \<and> length (texture_matrix s) = 4 \<and> (\<forall>m\<in>set (texture_matrix s). length m = 16)
     \<and> length (subchannel_data s) = 8 \<and> length (program_data s) = NV2A_GPU_MAX_VERTEXSHADER_LENGTH * 4
     \<and> length (constants s) = NV2A_GPU_VERTEXSHADER_CONSTANTS \<and> (\<forall>k\<in>set (constants s). length (k_data k) = 4)
     \<and> length (vertex_attributes s) = 16 \<and> length (inline_array s) = NV2A_GPU_MAX_BATCH_LENGTH
     \<and> length (inline_elements s) = NV2A_GPU_MAX_BATCH_LENGTH \<and> length (inline_buffer s) = NV2A_GPU_MAX_BATCH_LENGTH
     \<and> (\<forall>v\<in>set (inline_buffer s). length v = 16 \<and> (\<forall>c\<in>set v. length c = 4))"

text \<open>The invariant, with or without the contract of the dirty flags.\<close>

definition engine_ok :: "bool \<Rightarrow> NV2A_GPUState \<Rightarrow> 'g DrawState \<Rightarrow> bool" where
  "engine_ok c d s \<longleftrightarrow> gpu_ok d \<and> draw_ok s \<and> (c \<longrightarrow> coherent (pgraph d) s)"

definition keeps :: "bool \<Rightarrow> bool \<Rightarrow> 'g outcome \<Rightarrow> bool" where
  "keeps c b r = within b (\<lambda>(d, s, w). engine_ok c d s) r"

lemma keeps_ret: "engine_ok c d s \<Longrightarrow> keeps c b (ret d s)"
  by (simp add: keeps_def ret_def)

lemma keeps_bind: "within b Q r \<Longrightarrow> (\<And>x. Q x \<Longrightarrow> keeps c b (k x)) \<Longrightarrow> keeps c b (res_bind r k)"
  unfolding keeps_def by (rule within_bind)

lemma keeps_finish: "within b (engine_ok c d) r \<Longrightarrow> keeps c b (res_bind r (ret d))"
  by (erule keeps_bind) (rule keeps_ret)

lemma keeps_assert: "(p \<Longrightarrow> keeps c b (k ())) \<Longrightarrow> keeps c b (res_bind (assert_res p) k)"
  unfolding keeps_def by (rule within_assert)

lemma keeps_if: "(p \<Longrightarrow> keeps c b r) \<Longrightarrow> (\<not> p \<Longrightarrow> keeps c b r') \<Longrightarrow> keeps c b (if p then r else r')"
  by simp

lemma keeps_assertion [simp]: "keeps c b (Inl Assertion_failed)"
  by (simp add: keeps_def)

text \<open>The groups of methods: a case of a group keeps the invariant.\<close>

definition keeps_opt :: "bool \<Rightarrow> bool \<Rightarrow> 'g outcome option \<Rightarrow> bool" where
  "keeps_opt c b r \<longleftrightarrow> (\<forall>x. r = Some x \<longrightarrow> keeps c b x)"

lemma keeps_opt_simps [simp]: "keeps_opt c b (Some r) = keeps c b r" "keeps_opt c b None"
  by (simp_all add: keeps_opt_def)

lemma keeps_opt_if: "(p \<Longrightarrow> keeps_opt c b r) \<Longrightarrow> (\<not> p \<Longrightarrow> keeps_opt c b r') \<Longrightarrow> keeps_opt c b (if p then r else r')"
  by simp

lemma keeps_opt_Some: "keeps c b r \<Longrightarrow> keeps_opt c b (Some r)"
  by simp

section \<open>Cases\<close>

lemma slot_of_less:
  assumes "case_range v count cm" "unat v + (unat count - 1) * 4 < 2 ^ 32" "0 < unat count"
  shows "slot_of v cm < unat count"
proof -
  have c: "unat (count - 1) = unat count - 1" using assms(3) by (simp add: unat_sub word_le_nat_alt unat_minus_one word_unat_eq_iff)
  have "unat ((count - 1) * 4) = unat (count - 1) * unat (4 :: u32)" using assms(2) by (intro iffD1 [OF unat_mult_lem]) (simp add: c)
  then have m: "unat ((count - 1) * 4) = (unat count - 1) * 4" by (simp only: c) simp
  have "unat (v + (count - 1) * 4) = unat v + unat ((count - 1) * 4)"
    using assms(2) m by (intro iffD1 [OF unat_add_lem]) (simp only: m, simp)
  then have "unat (v + (count - 1) * 4) = unat v + (unat count - 1) * 4" by (simp only: m)
  then have cm: "unat v \<le> unat cm" "unat cm \<le> unat v + (unat count - 1) * 4"
    using assms(1) by (simp_all add: case_range_def word_le_nat_alt)
  then have "unat (cm - v) = unat cm - unat v" by (simp add: unat_sub word_le_nat_alt)
  then have "slot_of v cm = (unat cm - unat v) div 4" by (simp add: slot_of_def unat_div)
  also have "\<dots> \<le> (unat count - 1) * 4 div 4" using cm by (intro div_le_mono) linarith
  finally show ?thesis using assms(3) by simp
qed

lemma slots_less:
  "case_range v 2 cm \<Longrightarrow> unat v < 0x10000000 \<Longrightarrow> slot_of v cm < 2" "case_range v 3 cm \<Longrightarrow> unat v < 0x10000000 \<Longrightarrow> slot_of v cm < 3"
  "case_range v 4 cm \<Longrightarrow> unat v < 0x10000000 \<Longrightarrow> slot_of v cm < 4" "case_range v 8 cm \<Longrightarrow> unat v < 0x10000000 \<Longrightarrow> slot_of v cm < 8"
  "case_range v 16 cm \<Longrightarrow> unat v < 0x10000000 \<Longrightarrow> slot_of v cm < 16" "case_range v 32 cm \<Longrightarrow> unat v < 0x10000000 \<Longrightarrow> slot_of v cm < 32"
  "case_range v 64 cm \<Longrightarrow> unat v < 0x10000000 \<Longrightarrow> slot_of v cm < 64"
  using slot_of_less [of v 2 cm] slot_of_less [of v 3 cm] slot_of_less [of v 4 cm] slot_of_less [of v 8 cm]
    slot_of_less [of v 16 cm] slot_of_less [of v 32 cm] slot_of_less [of v 64 cm] by simp_all

lemma slot_1: "case_range v 1 cm \<Longrightarrow> slot_of v cm = 0"
  by (auto simp: case_range_def slot_of_def)

lemma slot_4_less: "case_4 v step cm \<Longrightarrow> step \<in> {4, 64} \<Longrightarrow> slot_4 v step cm < 4"
  by (auto simp: case_4_def slot_4_def)

section \<open>Registers\<close>

lemma get_set_mask_other:
  assumes "m AND m' = 0"
  shows "GET_MASK (SET_MASK v m x) m' = GET_MASK v m'"
proof -
  have dis: "\<not> (bit m n \<and> bit m' n)" for n using assms by (metis bit_and_iff bit_0_eq bot_apply bot_bool_def)
  have "SET_MASK v m x AND m' = v AND m'"
    by (rule bit_word_eqI) (use dis in \<open>auto simp: SET_MASK_def bit_simps\<close>)
  then show ?thesis by (simp add: GET_MASK_def)
qed

lemma get_set_pg_reg:
  assumes "length (pg_regs pg) = 0x2000" "r < 0x2000" "r \<noteq> r' \<or> m AND m' = 0"
  shows "GET_PG_REG (SET_PG_REG r m v pg) r' m' = GET_PG_REG pg r' m'"
  using assms by (cases "r = r'") (auto simp: GET_PG_REG_def SET_PG_REG_def get_set_mask_other)

lemma set_pg_reg_length [simp]: "length (pg_regs (SET_PG_REG r m v pg)) = length (pg_regs pg)"
  by (simp add: SET_PG_REG_def)

text \<open>The fields of registers that the settings depend on.\<close>

definition setting_fields :: "(dirty_flag \<times> nat \<times> u32) list" where
  "setting_fields =
     [(D_alpha_test, NV_PGRAPH_CONTROL_0, NV_PGRAPH_CONTROL_0_ALPHATESTENABLE),
      (D_alpha_test_func, NV_PGRAPH_CONTROL_0, NV_PGRAPH_CONTROL_0_ALPHAFUNC),
      (D_alpha_test_func, NV_PGRAPH_CONTROL_0, NV_PGRAPH_CONTROL_0_ALPHAREF),
      (D_depth_test, NV_PGRAPH_CONTROL_0, NV_PGRAPH_CONTROL_0_ZENABLE),
      (D_depth_test_func, NV_PGRAPH_CONTROL_0, NV_PGRAPH_CONTROL_0_ZFUNC),
      (D_depth_mask, NV_PGRAPH_CONTROL_0, NV_PGRAPH_CONTROL_0_ZWRITEENABLE),
      (D_color_mask, NV_PGRAPH_CONTROL_0, NV_PGRAPH_CONTROL_0_RED_WRITE_ENABLE),
      (D_color_mask, NV_PGRAPH_CONTROL_0, NV_PGRAPH_CONTROL_0_GREEN_WRITE_ENABLE),
      (D_color_mask, NV_PGRAPH_CONTROL_0, NV_PGRAPH_CONTROL_0_BLUE_WRITE_ENABLE),
      (D_color_mask, NV_PGRAPH_CONTROL_0, NV_PGRAPH_CONTROL_0_ALPHA_WRITE_ENABLE),
      (D_stencil_mask, NV_PGRAPH_CONTROL_0, NV_PGRAPH_CONTROL_0_STENCIL_WRITE_ENABLE),
      (D_stencil_mask, NV_PGRAPH_CONTROL_1, NV_PGRAPH_CONTROL_1_STENCIL_MASK_WRITE),
      (D_stencil_test, NV_PGRAPH_CONTROL_1, NV_PGRAPH_CONTROL_1_STENCIL_TEST_ENABLE),
      (D_stencil_test_func, NV_PGRAPH_CONTROL_1, NV_PGRAPH_CONTROL_1_STENCIL_FUNC),
      (D_stencil_test_func, NV_PGRAPH_CONTROL_1, NV_PGRAPH_CONTROL_1_STENCIL_REF),
      (D_stencil_test_func, NV_PGRAPH_CONTROL_1, NV_PGRAPH_CONTROL_1_STENCIL_MASK_READ),
      (D_stencil_test_op, NV_PGRAPH_CONTROL_2, NV_PGRAPH_CONTROL_2_STENCIL_OP_FAIL),
      (D_stencil_test_op, NV_PGRAPH_CONTROL_2, NV_PGRAPH_CONTROL_2_STENCIL_OP_ZFAIL),
      (D_stencil_test_op, NV_PGRAPH_CONTROL_2, NV_PGRAPH_CONTROL_2_STENCIL_OP_ZPASS),
      (D_fog, NV_PGRAPH_CONTROL_3, NV_PGRAPH_CONTROL_3_FOGENABLE),
      (D_fog_mode, NV_PGRAPH_CONTROL_3, NV_PGRAPH_CONTROL_3_FOG_MODE),
      (D_fog_color, NV_PGRAPH_FOGCOLOR, NV_PGRAPH_FOGCOLOR_RED),
      (D_fog_color, NV_PGRAPH_FOGCOLOR, NV_PGRAPH_FOGCOLOR_GREEN),
      (D_fog_color, NV_PGRAPH_FOGCOLOR, NV_PGRAPH_FOGCOLOR_BLUE),
      (D_fog_color, NV_PGRAPH_FOGCOLOR, NV_PGRAPH_FOGCOLOR_ALPHA)]"

lemma wanted_cong:
  assumes "\<And>r m. (f, r, m) \<in> set setting_fields \<Longrightarrow> GET_PG_REG pg' r m = GET_PG_REG pg r m"
  shows "wanted pg' f = wanted pg f"
  using assms by (cases f) (simp_all add: setting_fields_def component_def)

text \<open>A change of the registers that concerns no setting but those of \<open>F\<close>.\<close>

definition touches :: "dirty_flag set \<Rightarrow> (PGRAPHState \<Rightarrow> PGRAPHState) \<Rightarrow> bool" where
  "touches F h \<longleftrightarrow> (\<forall>pg. pgraph_ok pg \<longrightarrow> pgraph_ok (h pg) \<and> (\<forall>f. f \<notin> F \<longrightarrow> wanted (h pg) f = wanted pg f))"

lemma touches_comp: "touches F h \<Longrightarrow> touches F h' \<Longrightarrow> touches F (h \<circ> h')"
  by (simp add: touches_def)

lemma touches_SET:
  assumes "r < 0x2000" "\<forall>(f, r', m')\<in>set setting_fields. f \<in> F \<or> r \<noteq> r' \<or> m AND m' = 0"
  shows "touches F (SET_PG_REG r m v)"
  unfolding touches_def
proof (intro allI impI conjI)
  fix pg f
  assume ok: "pgraph_ok pg"
  then show "pgraph_ok (SET_PG_REG r m v pg)" by (simp add: pgraph_ok_def SET_PG_REG_def)
  assume "f \<notin> F"
  then show "wanted (SET_PG_REG r m v pg) f = wanted pg f"
    using assms ok by (intro wanted_cong get_set_pg_reg) (auto simp: pgraph_ok_def)
qed

lemma touches_WRITE:
  assumes "\<forall>(f, r', m')\<in>set setting_fields. r \<noteq> r'"
  shows "touches F (WRITE_PG_REG r v)"
  using assms
  by (auto simp: touches_def pgraph_ok_def WRITE_PG_REG_def GET_PG_REG_def intro!: wanted_cong)

section \<open>Changes of the state\<close>

lemma draw_ok_simps [simp]:
  "draw_ok (emit k s) = draw_ok s" "draw_ok (set_dirty f s) = draw_ok s" "draw_ok (set_clean f s) = draw_ok s"
  "draw_ok (s\<lparr>host := h\<rparr>) = draw_ok s"
  by (simp_all add: draw_ok_def emit_def set_dirty_def set_clean_def)

lemma engine_ok_step:
  assumes "engine_ok c d s" "gpu_ok d'" "draw_ok s'" "gl_calls s' = gl_calls s" "\<And>f. dirty s f \<Longrightarrow> dirty s' f"
    "\<And>f. \<not> dirty s' f \<Longrightarrow> wanted (pgraph d') f = wanted (pgraph d) f"
  shows "engine_ok c d' s'"
  using assms by (auto simp: engine_ok_def coherent_def)

lemma engine_ok_state: "engine_ok c d s \<Longrightarrow> draw_ok s' \<Longrightarrow> gl_calls s' = gl_calls s \<Longrightarrow> dirty s' = dirty s \<Longrightarrow> engine_ok c d s'"
  by (rule engine_ok_step [where d = d and s = s]) (simp_all add: engine_ok_def)

lemma engine_ok_draw: "engine_ok c d s \<Longrightarrow> draw_ok s"
  by (simp add: engine_ok_def)

lemma engine_ok_dirty: "engine_ok c d s \<Longrightarrow> engine_ok c d (set_dirty f s)"
  by (rule engine_ok_step [where d = d and s = s]) (simp_all add: engine_ok_def)

lemma engine_ok_vram: "engine_ok c d s \<Longrightarrow> engine_ok c (d\<lparr>vram := m\<rparr>) s"
  by (rule engine_ok_step [where d = d and s = s]) (simp_all add: engine_ok_def gpu_ok_def)

lemma engine_ok_host: "engine_ok c d s \<Longrightarrow> engine_ok c d (s\<lparr>host := h\<rparr>)"
  by (rule engine_ok_state [where d = d and s = s]) (simp_all add: engine_ok_def)

lemma engine_ok_emit: "engine_ok c d s \<Longrightarrow> call_flag k = None \<Longrightarrow> engine_ok c d (emit k s)"
  by (simp add: engine_ok_def coherent_emit)

text \<open>Flags of what is no setting in OpenGL.\<close>

lemma call_flag_other: "latest f cs = None" if "f \<in> {D_eye_vector, D_front_face, D_blend, D_blend_func, D_cull_face, D_cull_face_mode, D_edge_flag, D_framebuffer, D_shaders}"
proof -
  have "call_flag k \<noteq> Some f" for k using that by (cases k rule: call_flag.cases; cases f) (auto elim: cap_flag.elims)
  then show ?thesis by (simp add: latest_def find_None_iff)
qed

lemma engine_ok_clean: "engine_ok c d s \<Longrightarrow> f \<in> {D_eye_vector, D_framebuffer, D_shaders} \<Longrightarrow> engine_ok c d (set_clean f s)"
  using call_flag_other by (auto simp: engine_ok_def coherent_def)

lemma engine_ok_reg:
  assumes "engine_ok c d s" "touches {flag} h"
  shows "engine_ok c (upd_pg h d) (set_dirty flag s)"
proof -
  have ok: "gpu_ok d" "pgraph_ok (pgraph d)" using assms(1) by (auto simp: engine_ok_def gpu_ok_def)
  show ?thesis
    by (rule engine_ok_step [OF assms(1)])
      (use assms ok in \<open>auto simp: touches_def upd_pg_def engine_ok_def intro: gpu_ok_pgraph split: if_splits\<close>)
qed

lemma engine_ok_reg_clean:
  assumes "engine_ok c d s" "touches {} h"
  shows "engine_ok c (upd_pg h d) s"
proof -
  have ok: "gpu_ok d" "pgraph_ok (pgraph d)" using assms(1) by (auto simp: engine_ok_def gpu_ok_def)
  show ?thesis
    by (rule engine_ok_step [OF assms(1)])
      (use assms ok in \<open>auto simp: touches_def upd_pg_def engine_ok_def intro: gpu_ok_pgraph\<close>)
qed

section \<open>The methods\<close>

text \<open>The operations of the host make no access out of bounds.\<close>

definition ops_safe :: "'g draw_ops \<Rightarrow> bool" where
  "ops_safe ops \<longleftrightarrow> (\<forall>d s a b. op_bind_framebuffer ops d s a b \<noteq> Inl Out_of_bounds) \<and> (\<forall>d h a b. op_download ops d h a b \<noteq> Inl Out_of_bounds)
     \<and> (\<forall>h a b. op_mark_dirty ops h a b \<noteq> Inl Out_of_bounds) \<and> (\<forall>k pg s. op_program ops k pg s \<noteq> Inl Out_of_bounds)
     \<and> (\<forall>pg s. op_uniforms ops pg s \<noteq> Inl Out_of_bounds) \<and> (\<forall>d s. op_bind_textures ops d s \<noteq> Inl Out_of_bounds)
     \<and> (\<forall>d s i v n. op_convert ops d s i v n \<noteq> Inl Out_of_bounds)"

lemma within_op: "(b \<Longrightarrow> r \<noteq> Inl Out_of_bounds) \<Longrightarrow> within b (\<lambda>_. True) r"
  by (auto simp: within_def split: sum.splits)

lemma op_within:
  assumes "b \<Longrightarrow> ops_safe ops"
  shows "within b (\<lambda>_. True) (op_bind_framebuffer ops d s z k)" "within b (\<lambda>_. True) (op_download ops d h z k)"
    "within b (\<lambda>_. True) (op_mark_dirty ops h z k)" "within b (\<lambda>_. True) (op_program ops key pg s)"
    "within b (\<lambda>_. True) (op_uniforms ops pg s)" "within b (\<lambda>_. True) (op_bind_textures ops d s)"
    "within b (\<lambda>_. True) (op_convert ops d s i v n)"
  using assms by (auto simp: ops_safe_def intro!: within_op)

lemma keeps_bind2:
  "within b (\<lambda>(x, y). Q x y) r \<Longrightarrow> (\<And>x y. Q x y \<Longrightarrow> keeps c b (g x y)) \<Longrightarrow> keeps c b (res_bind r (\<lambda>(x, y). g x y))"
  by (erule keeps_bind) auto

lemma sub_less [simp]: "unat (sub :: 3 word) < 8"
  using unsigned_less [of sub, where ?'a = nat] by simp

lemma set_object_ok: "engine_ok c d s \<Longrightarrow> within b (engine_ok c d) (set_object sub f s)"
  by (auto simp: set_object_def engine_ok_def draw_ok_def coherent_def)

lemma update_surfaces_ok:
  assumes "engine_ok c d s" "b \<Longrightarrow> ops_safe ops"
  shows "within b (\<lambda>(d, s). engine_ok c d s) (pgraph_update_surfaces ops u z k d s)"
  unfolding pgraph_update_surfaces_def
  by (intro within_if within_bind [OF op_within(1) [OF assms(2)]] within_bind [OF op_within(2) [OF assms(2)]])
    (use assms(1) in \<open>auto intro!: engine_ok_clean engine_ok_vram engine_ok_host\<close>)

lemma after_download_ok:
  assumes "engine_ok c d s" "b \<Longrightarrow> ops_safe ops" "\<And>d s. engine_ok c d s \<Longrightarrow> engine_ok c d (f s)"
  shows "keeps c b (after_download ops z k d s f)"
  unfolding after_download_def
  by (rule keeps_bind2 [OF update_surfaces_ok [OF assms(1,2)]]) (simp_all add: keeps_ret assms(3))

text \<open>The 2D classes; the copy is the subject of the next section.\<close>

lemma image_blit_ok: "engine_ok c d s \<Longrightarrow> within False (\<lambda>d'. engine_ok c d' s) (image_blit d s m)"
  unfolding image_blit_def Let_def
  by (auto simp: within_False res_all_def res_bind_Inr_iff intro!: engine_ok_vram split: option.splits)

lemma method_2d_ok:
  assumes "engine_ok c d s" "b \<Longrightarrow> ops_safe ops \<and> class_method \<noteq> NV09F_SIZE"
  shows "keeps_opt c b (method_2d ops d s sub class_method parameter)"
proof -
  have obj: "keeps c b (res_bind (set_object sub f s) (\<lambda>s. ret d s))" for f
    by (rule keeps_finish [OF set_object_ok [OF assms(1)]])
  have "keeps c b (res_bind (set_object sub f s) (\<lambda>s.
      res_bind (pgraph_update_surfaces ops False True True d s) (\<lambda>(d, s).
      res_bind (arr_get (subchannel_data s) (unat sub)) (\<lambda>k.
      if p k then res_bind (image_blit d s (object_data k)) (\<lambda>d. ret d s) else Inl Assertion_failed))))"
    if "class_method = NV09F_SIZE" for f p
  proof -
    have b: "b = False" using assms(2) that by blast
    show ?thesis unfolding b
      by (rule keeps_bind [OF set_object_ok [OF assms(1)]])
        (auto intro!: keeps_bind2 [OF update_surfaces_ok] keeps_bind [OF within_arr_get] keeps_bind [OF image_blit_ok] keeps_ret
          simp: engine_ok_def draw_ok_def)
  qed
  then show ?thesis unfolding method_2d_def Let_def by (intro keeps_opt_if keeps_opt_Some obj) (simp_all add: obj)
qed

lemma method_surface_ok:
  assumes "engine_ok c d s" "b \<Longrightarrow> ops_safe ops"
  shows "keeps_opt c b (method_surface ops d s sub mthd class_method parameter)"
proof -
  have obj: "keeps c b (res_bind (set_object sub f s) (\<lambda>s. ret d s))" for f
    by (rule keeps_finish [OF set_object_ok [OF assms(1)]])
  have upd: "keeps c b (ret d s')" if "draw_ok s \<Longrightarrow> draw_ok s'" "gl_calls s' = gl_calls s" "dirty s' = dirty s" for s' :: "'a DrawState"
    by (rule keeps_ret [OF engine_ok_state [OF assms(1)]]) (use assms(1) that in \<open>auto simp: engine_ok_def\<close>)
  have surf: "keeps c b (after_download ops z k d s (\<lambda>s. set_dirty D_framebuffer (f s)))"
    if "\<And>s. draw_ok (f s) = draw_ok s" "\<And>s. gl_calls (f s) = gl_calls s" "\<And>s. dirty (f s) = dirty s"
    for z k and f :: "'a DrawState \<Rightarrow> 'a DrawState"
    by (rule after_download_ok [OF assms engine_ok_dirty]) (use that in \<open>auto simp: engine_ok_def coherent_def\<close>)
  have trap: "keeps c b (Inr (upd_pg (\<lambda>pg. pg\<lparr>trapped_channel_id := f1 pg, trapped_subchannel := f2, trapped_method := f3,
      trapped_data_low := f4, notify_source := f5, pg_pending := f6 pg\<rparr>) d, s, w))" for f1 f2 f3 f4 f5 f6 w
    unfolding keeps_def within_simps prod.case
    by (rule engine_ok_reg_clean [OF assms(1)]) (auto simp: touches_def pgraph_ok_def GET_PG_REG_def intro!: wanted_cong)
  have stall: "keeps c b (res_bind (pgraph_update_surfaces ops False True True d s) (\<lambda>(d, s). Inr (d, s, Waits_flip)))"
    by (rule keeps_bind2 [OF update_surfaces_ok [OF assms]]) (simp_all add: keeps_def)
  have "keeps c b (after_download ops True True d (emit GlFinish s) id)" "keeps c b (after_download ops True True d s id)"
    by (intro after_download_ok assms engine_ok_emit; simp)+
  then show ?thesis unfolding method_surface_def Let_def
    by (intro keeps_opt_if keeps_opt_Some keeps_if obj surf upd trap stall keeps_ret assms(1)) (simp_all add: draw_ok_def)
qed

text \<open>Registers that are written by their masks.\<close>

lemma keeps_reg: "engine_ok c d s \<Longrightarrow> touches {flag} h \<Longrightarrow> keeps c b (ret (upd_pg h d) (set_dirty flag s))"
  by (rule keeps_ret [OF engine_ok_reg])

lemma keeps_reg_clean: "engine_ok c d s \<Longrightarrow> touches {} h \<Longrightarrow> keeps c b (ret (upd_pg h d) s)"
  by (rule keeps_ret [OF engine_ok_reg_clean])

lemma write_slot_ok:
  assumes "engine_ok c d s" "slot < 8" "reg + 31 < 0x194C \<or> (0x1980 < reg \<and> reg + 31 < 0x2000)"
  shows "keeps c b (write_slot reg slot parameter d s)"
proof -
  have len: "length (pg_regs (pgraph d)) = 0x2000" using assms(1) by (simp add: engine_ok_def gpu_ok_def pgraph_ok_def)
  have "touches {D_shaders} (WRITE_PG_REG (reg + slot * 4) parameter)"
    by (rule touches_WRITE) (use assms(2,3) in \<open>auto simp: setting_fields_def\<close>)
  then have "engine_ok c (upd_pg (WRITE_PG_REG (reg + slot * 4) parameter) d) (set_dirty D_shaders s)"
    by (rule engine_ok_reg [OF assms(1)])
  then show ?thesis using assms(2,3) len
    by (auto simp: write_slot_def upd_pg_def WRITE_PG_REG_def intro!: keeps_ret)
qed

lemma map_method_within [simp]:
  "within b (\<lambda>_. True) (map_method_to_register_func p)" "within b (\<lambda>_. True) (map_method_to_register_stencil_op p)"
  "within b (\<lambda>_. True) (register_fog_mode p)" "within b (\<lambda>_. True) (gl_shade_mode p)" "within b (\<lambda>_. True) (gl_blend_factor k p)"
  by (simp_all add: map_method_to_register_func_def map_method_to_register_stencil_op_def register_fog_mode_def gl_shade_mode_def gl_blend_factor_def)

lemma method_raster_ok:
  assumes "engine_ok c d s"
  shows "keeps_opt c b (method_raster d s class_method parameter)"
  unfolding method_raster_def Let_def
  by (intro keeps_opt_if keeps_opt_Some write_slot_ok assms keeps_reg keeps_reg_clean touches_comp touches_SET touches_WRITE
      keeps_bind [OF map_method_within(1)] keeps_bind [OF map_method_within(2)])
    (simp_all add: setting_fields_def slots_less)

text \<open>Matrices, constants and programs.\<close>

lemma set_constant_ok: "engine_ok c d s \<Longrightarrow> i < 192 \<Longrightarrow> j < 4 \<Longrightarrow> within b (engine_ok c d) (set_constant i j v s)"
  by (auto simp: set_constant_def engine_ok_def draw_ok_def coherent_def dest!: set_update_subset_insert [THEN subsetD])

lemma set_texture_matrix_ok: "engine_ok c d s \<Longrightarrow> n < 4 \<Longrightarrow> i < 16 \<Longrightarrow> within b (engine_ok c d) (set_texture_matrix n i v s)"
  by (auto simp: set_texture_matrix_def engine_ok_def draw_ok_def coherent_def dest!: set_update_subset_insert [THEN subsetD])

lemma method_transform_ok:
  assumes "engine_ok c d s"
  shows "keeps_opt c b (method_transform d s class_method parameter)"
proof -
  have mat: "within b (engine_ok c d) (res_bind (arr_set (composite_matrix s) i v) (\<lambda>mat. Inr (s\<lparr>composite_matrix := mat, comp_src := 2\<rparr>)))"
    if "i < 16" for i v
    using assms that by (auto simp: engine_ok_def draw_ok_def coherent_def)
  have enable: "within b (engine_ok c d) (res_bind (arr_set (texture_matrix_enable s) i v) (\<lambda>es. Inr (s\<lparr>texture_matrix_enable := es\<rparr>)))"
    if "i < 4" for i v
    using assms that by (auto simp: engine_ok_def draw_ok_def coherent_def)
  have program: "within b (engine_ok c d) (res_bind (assert_res (unat (vertexshader_load_slot s) < NV2A_GPU_MAX_VERTEXSHADER_LENGTH * 4)) (\<lambda>_.
      res_bind (arr_set (program_data s) (unat (vertexshader_load_slot s)) v) (\<lambda>ws.
      Inr (s\<lparr>program_data := ws, vertexshader_load_slot := vertexshader_load_slot s + 1, vertexshader_dirty := True\<rparr>))))" for v
    using assms by (intro within_assert) (auto simp: engine_ok_def draw_ok_def coherent_def)
  have const: "within b (engine_ok c d) (res_bind (assert_res (unat (constant_load_slot s) div 4 < NV2A_GPU_VERTEXSHADER_CONSTANTS)) (\<lambda>_.
      res_bind (set_constant (unat (constant_load_slot s) div 4) (unat (constant_load_slot s) mod 4) v s) (\<lambda>s.
      Inr (s\<lparr>constant_load_slot := constant_load_slot s + 1, comp_src := 1\<rparr>))))" for v
    by (intro within_assert within_bind [OF set_constant_ok [OF assms]])
      (auto simp: engine_ok_def draw_ok_def coherent_def)
  show ?thesis unfolding method_transform_def Let_def
    by (intro keeps_opt_if keeps_opt_Some keeps_finish write_slot_ok set_texture_matrix_ok set_constant_ok assms mat enable program const)
      (simp_all add: slots_less slot_4_less)
qed

text \<open>Vertices.\<close>

lemma inline_set_ok:
  assumes "engine_ok c d s" "a < 16" "i < 4" "b \<Longrightarrow> inline_buffer_length s < NV2A_GPU_MAX_BATCH_LENGTH"
  shows "within b (\<lambda>s'. engine_ok c d s' \<and> inline_buffer_length s' = inline_buffer_length s) (inline_set a i v s)"
proof (cases "inline_buffer_length s < NV2A_GPU_MAX_BATCH_LENGTH")
  case True
  let ?n = "inline_buffer_length s"
  let ?e = "inline_buffer s ! ?n"
  have ok: "draw_ok s" using assms(1) by (rule engine_ok_draw)
  then have n: "?n < length (inline_buffer s)" using True by (simp add: draw_ok_def)
  then have "?e \<in> set (inline_buffer s)" by simp
  then have e: "length ?e = 16" "\<forall>w\<in>set ?e. length w = 4" using ok by (simp_all add: draw_ok_def)
  then have w: "length (?e ! a) = 4" using assms(2) by simp
  have "inline_set a i v s = Inr (s\<lparr>inline_buffer := (inline_buffer s)[?n := ?e[a := (?e ! a)[i := v]]]\<rparr>)"
    using n e w assms(2,3) by (simp add: inline_set_def)
  moreover have "draw_ok (s\<lparr>inline_buffer := (inline_buffer s)[?n := ?e[a := (?e ! a)[i := v]]]\<rparr>)"
    using ok e w by (auto simp: draw_ok_def dest!: set_update_subset_insert [THEN subsetD])
  ultimately show ?thesis using assms(1) by (auto intro: engine_ok_state)
next
  case False
  then have "inline_set a i v s = Inl Out_of_bounds" "b = False"
    using assms(4) engine_ok_draw [OF assms(1)] by (auto simp: inline_set_def draw_ok_def arr_get_def)
  then show ?thesis by simp
qed

lemma next_vertex_ok: "engine_ok c d s \<Longrightarrow> engine_ok c d (next_vertex s)"
  by (simp add: next_vertex_def engine_ok_def draw_ok_def coherent_def)

text \<open>The methods that assemble a vertex.\<close>

definition inline_method :: "u32 \<Rightarrow> bool" where
  "inline_method cm \<longleftrightarrow> case_range NV097_SET_VERTEX3F 3 cm \<or> case_range NV097_SET_VERTEX4F 4 cm \<or> case_range NV097_SET_NORMAL3F 3 cm
     \<or> case_range NV097_SET_DIFFUSE_COLOR4F 4 cm \<or> case_range NV097_SET_DIFFUSE_COLOR3F 3 cm
     \<or> case_range NV097_SET_DIFFUSE_COLOR4UB 1 cm \<or> case_range NV097_SET_TEXCOORD0_2F 2 cm \<or> case_range NV097_SET_TEXCOORD0_4F 4 cm
     \<or> case_range NV097_SET_TEXCOORD1_2F 2 cm \<or> case_range NV097_SET_TEXCOORD1_4F 4 cm \<or> case_range NV097_SET_TEXCOORD2_2F 2 cm
     \<or> case_range NV097_SET_TEXCOORD2_4F 4 cm \<or> case_range NV097_SET_TEXCOORD3_2F 2 cm \<or> case_range NV097_SET_TEXCOORD3_4F 4 cm
     \<or> case_range NV097_SET_VERTEX_DATA2F_M 32 cm \<or> case_range NV097_SET_VERTEX_DATA4F_M 64 cm \<or> case_range NV097_SET_VERTEX_DATA4UB 16 cm
     \<or> case_range NV097_SET_VERTEX_DATA2S 16 cm \<or> case_range NV097_SET_VERTEX_DATA4S_M 32 cm"

lemma method_vertex_ok:
  assumes "engine_ok c d s" "b \<Longrightarrow> inline_method class_method \<Longrightarrow> inline_buffer_length s < NV2A_GPU_MAX_BATCH_LENGTH"
  shows "keeps_opt c b (method_vertex d s class_method parameter)"
proof -
  have attr: "keeps c b (res_bind (inline_set a i (Bits parameter) s) (ret d))" if "inline_method class_method" "a < 16" "i < 4" for a i
    by (rule keeps_bind [OF inline_set_ok]) (use assms that in \<open>auto intro: keeps_ret\<close>)
  have pos: "keeps c b (res_bind (inline_set NV2A_GPU_VERTEX_ATTR_POSITION i (Bits parameter) s) (\<lambda>s.
      if i = n then res_bind (assert_res (inline_buffer_length (next_vertex s) < NV2A_GPU_MAX_BATCH_LENGTH)) (\<lambda>_. ret d (next_vertex s))
      else ret d s))" if "inline_method class_method" "i < 4" for i n
    by (rule keeps_bind [OF inline_set_ok [OF assms(1)]])
      (use assms that in \<open>auto intro!: keeps_if keeps_assert keeps_ret next_vertex_ok\<close>)
  show ?thesis unfolding method_vertex_def Let_def
    by (intro keeps_opt_if keeps_opt_Some attr pos)
      (auto simp: inline_method_def slot_1 dest: slots_less)
qed

lemma vertex_format_within: "within b (\<lambda>_. True) (vertex_format parameter a)"
  unfolding vertex_format_def Let_def by (intro within_if within_assert) simp_all

lemma attributes_ok: "engine_ok c d s \<Longrightarrow> length vas = 16 \<Longrightarrow> engine_ok c d (s\<lparr>vertex_attributes := vas\<rparr>)"
  by (simp add: engine_ok_def draw_ok_def coherent_def)

lemma attributes_16: "engine_ok c d s \<Longrightarrow> length (vertex_attributes s) = 16"
  by (simp add: engine_ok_def draw_ok_def)

lemma method_arrays_ok:
  assumes "engine_ok c d s"
  shows "keeps_opt c b (method_arrays d s class_method parameter)"
proof -
  have upd: "keeps c b (res_bind (arr_get (vertex_attributes s) i) (\<lambda>a. res_bind (f a) (\<lambda>a.
      res_bind (arr_set (vertex_attributes s) i a) (\<lambda>vas. ret d (s\<lparr>vertex_attributes := vas\<rparr>)))))"
    if "i < 16" "\<And>a. within b (\<lambda>_. True) (f a)" for i f
    using that attributes_16 [OF assms] by (auto intro!: keeps_bind [OF that(2)] keeps_ret attributes_ok assms)
  show ?thesis unfolding method_arrays_def Let_def
    by (intro keeps_opt_if keeps_opt_Some upd within_bind [OF vertex_format_within]) (simp_all add: slots_less)
qed

text \<open>Draws.\<close>

definition dma_vertex_ok :: "'g DrawState \<Rightarrow> bool" where
  "dma_vertex_ok s \<longleftrightarrow> unat (dma_vertex_a s) \<le> 0xFFFF0 \<and> unat (dma_vertex_b s) \<le> 0xFFFF0"

lemma nv_dma_within: "gpu_ok d \<Longrightarrow> (b \<Longrightarrow> unat a \<le> 0xFFFF0) \<Longrightarrow> within b (\<lambda>_. True) (nv_dma_load_and_map d a)"
  unfolding nv_dma_load_and_map_def nv_dma_load_def ramin_ldl_def
  by (intro within_assert within_bind [of b "\<lambda>_. True"]) (auto simp: gpu_ok_def)

lemma attribute_data_within: "engine_ok c d s \<Longrightarrow> (b \<Longrightarrow> dma_vertex_ok s) \<Longrightarrow> within b (\<lambda>_. True) (attribute_data d s a)"
  unfolding attribute_data_def
  by (intro within_bind [OF nv_dma_within]) (auto simp: engine_ok_def dma_vertex_ok_def intro!: within_assert)

lemma emit_fields [simp]: "dma_vertex_ok (emit k s) = dma_vertex_ok s" "vertex_attributes (emit k s) = vertex_attributes s"
  by (simp_all add: dma_vertex_ok_def emit_def)

text \<open>What a step of a draw keeps.\<close>

definition draw_inv :: "bool \<Rightarrow> bool \<Rightarrow> NV2A_GPUState \<Rightarrow> 'g DrawState \<Rightarrow> bool" where
  "draw_inv b c d s \<longleftrightarrow> engine_ok c d s \<and> (b \<longrightarrow> dma_vertex_ok s)"

lemma draw_inv_emit: "draw_inv b c d s \<Longrightarrow> call_flag k = None \<Longrightarrow> draw_inv b c d (emit k s)"
  by (simp add: draw_inv_def engine_ok_emit)

lemma draw_inv_attributes: "draw_inv b c d s \<Longrightarrow> length vas = 16 \<Longrightarrow> draw_inv b c d (s\<lparr>vertex_attributes := vas\<rparr>)"
  by (simp add: draw_inv_def attributes_ok dma_vertex_ok_def)

lemma draw_inv_host: "draw_inv b c d s \<Longrightarrow> draw_inv b c d (s\<lparr>host := h\<rparr>)"
  by (simp add: draw_inv_def engine_ok_host dma_vertex_ok_def)

lemma draw_inv_16: "draw_inv b c d s \<Longrightarrow> length (vertex_attributes s) = 16"
  by (auto simp: draw_inv_def dest: attributes_16)

lemma draw_inv_data: "draw_inv b c d s \<Longrightarrow> within b (\<lambda>_. True) (attribute_data d s a)"
  by (rule attribute_data_within [of c]) (simp_all add: draw_inv_def)

lemma bind_converted_ok:
  assumes "draw_inv b c d s" "b \<Longrightarrow> ops_safe ops" "i < 16"
  shows "within b (draw_inv b c d) (bind_converted ops d inline n i s)"
proof -
  have i: "i < length (vertex_attributes s)" using draw_inv_16 [OF assms(1)] assms(3) by simp
  have dat: "within b (\<lambda>_. True) (if inline then Inr x else res_bind (attribute_data d s a) (\<lambda>addr. Inr (f addr)))"
    for x f a by (intro within_if within_bind [OF draw_inv_data [OF assms(1)]]) simp_all
  show ?thesis unfolding bind_converted_def
    by (intro within_bind [OF within_arr_get [OF i]] within_if within_bind [OF dat] within_assert within_bind [OF op_within(7)]
        within_bind [OF within_arr_set [OF i]] assms)
      (use assms(1) i in \<open>auto intro!: draw_inv_emit draw_inv_host draw_inv_attributes draw_inv_16\<close>)
qed

lemma bind_attribute_ok:
  assumes "draw_inv b c d s" "i < 16"
  shows "within b (draw_inv b c d) (bind_attribute d i s)"
proof -
  have i: "i < length (vertex_attributes s)" using draw_inv_16 [OF assms(1)] assms(2) by simp
  have s: "draw_inv b c d (emit (GlEnableVertexAttribArray i) s)" by (rule draw_inv_emit [OF assms(1)]) simp
  show ?thesis unfolding bind_attribute_def Let_def
    by (intro within_bind [OF within_arr_get [OF i]] within_if within_bind [OF draw_inv_data [OF s]])
      (use assms(1) s in \<open>auto intro!: draw_inv_emit\<close>)
qed

lemma bind_inline_ok:
  assumes "draw_inv b c d s" "i < 16"
  shows "within b (draw_inv b c d) (bind_inline stride i s)"
  using assms draw_inv_16 [OF assms(1)]
  by (auto simp: bind_inline_def Let_def intro!: draw_inv_attributes draw_inv_emit)

lemma within_conj: "within b P r \<Longrightarrow> res_all Q r \<Longrightarrow> within b (\<lambda>x. P x \<and> Q x) r"
  by (auto simp: within_def res_all_def split: sum.splits)

lemma map_register_within:
  "within b (\<lambda>_. True) (map_register_to_gl_func v)" "within b (\<lambda>_. True) (map_register_to_gl_stencil_op v)" "within b (\<lambda>_. True) (gl_fog_mode v)"
  by (simp_all add: map_register_to_gl_func_def map_register_to_gl_stencil_op_def gl_fog_mode_def)

lemmas update_gl_defs = update_gl_depth_mask_def update_gl_stencil_mask_def update_gl_color_mask_def update_gl_fog_color_def
  update_gl_alpha_test_func_def update_gl_depth_test_func_def update_gl_stencil_test_func_def update_gl_stencil_test_op_def
  update_gl_fog_mode_def update_gl_state_def

text \<open>The textures' formats have entries in the table of formats.\<close>

definition texture_formats_ok :: "'g DrawState \<Rightarrow> bool" where
  "texture_formats_ok s \<longleftrightarrow> (\<forall>t\<in>set (textures s). t_enabled t \<longrightarrow> t_color_format t < 0x40)"

lemma formats_emit [simp]: "texture_formats_ok (emit k s) = texture_formats_ok s"
  by (simp add: texture_formats_ok_def emit_def)

text \<open>What passing on the settings keeps.\<close>

definition update_inv :: "bool \<Rightarrow> 'g DrawState \<Rightarrow> bool" where
  "update_inv b s \<longleftrightarrow> draw_ok s \<and> (b \<longrightarrow> texture_formats_ok s)"

lemma update_inv_simps [simp]:
  "update_inv b (emit k s) = update_inv b s" "update_inv b (set_clean f s) = update_inv b s" "update_inv b (s\<lparr>host := h\<rparr>) = update_inv b s"
  by (simp_all add: update_inv_def texture_formats_ok_def emit_def [of k] set_clean_def) (simp_all add: draw_ok_def)

lemma update_gl_inv [simp]:
  "update_inv b (update_gl_depth_mask pg s) = update_inv b s" "update_inv b (update_gl_stencil_mask pg s) = update_inv b s"
  "update_inv b (update_gl_color_mask pg s) = update_inv b s" "update_inv b (update_gl_fog_color pg s) = update_inv b s"
  "update_inv b (update_gl_state cap v f s) = update_inv b s"
  by (simp_all add: update_gl_defs)

lemma update_gl_funcs_inv:
  assumes "update_inv e s"
  shows "within b (update_inv e) (update_gl_alpha_test_func pg s)" "within b (update_inv e) (update_gl_depth_test_func pg s)"
    "within b (update_inv e) (update_gl_stencil_test_func pg s)" "within b (update_inv e) (update_gl_stencil_test_op pg s)"
    "within b (update_inv e) (update_gl_fog_mode pg s)"
  unfolding update_gl_defs
  by (intro within_if within_bind [OF map_register_within(1)] within_bind [OF map_register_within(2)]
      within_bind [OF map_register_within(3)]; simp add: assms)+

lemma update_state_inv: "update_inv e s \<Longrightarrow> within b (update_inv e) (pgraph_update_state pg s)"
  unfolding pgraph_update_state_def update_gl_alpha_test_def update_gl_depth_test_def update_gl_stencil_test_def update_gl_fog_def Let_def
  by (intro within_bind [of b "update_inv e"] within_if update_gl_funcs_inv) simp_all

lemma update_state_ok:
  assumes "engine_ok c d s" "e \<Longrightarrow> texture_formats_ok s"
  shows "within b (\<lambda>s'. engine_ok c d s' \<and> (e \<longrightarrow> texture_formats_ok s')) (pgraph_update_state (pgraph d) s)"
proof -
  have "res_all (\<lambda>s'. c \<longrightarrow> coherent (pgraph d) s') (pgraph_update_state (pgraph d) s)"
    using update_state_settles [of "pgraph d" s] assms by (auto simp: engine_ok_def settles_def res_all_def)
  moreover have "within b (update_inv e) (pgraph_update_state (pgraph d) s)"
    using assms by (intro update_state_inv) (simp add: update_inv_def engine_ok_def)
  ultimately have "within b (\<lambda>s'. update_inv e s' \<and> (c \<longrightarrow> coherent (pgraph d) s')) (pgraph_update_state (pgraph d) s)"
    by (intro within_conj)
  then show ?thesis by (rule within_mono) (use assms(1) in \<open>simp_all add: engine_ok_def update_inv_def\<close>)
qed

lemma shader_key_within: "(b \<Longrightarrow> texture_formats_ok s) \<Longrightarrow> within b (\<lambda>_. True) (shader_key pg s)"
  unfolding shader_key_def
  by (intro within_bind [OF within_fold [of "\<lambda>_. True"]] within_bind [of b "\<lambda>_. True"])
    (auto simp: rect_texture_def texture_format_linear_def texture_formats_ok_def simp flip: not_le)

lemma bind_shaders_ok:
  assumes "engine_ok c (d :: NV2A_GPUState) s" "b \<Longrightarrow> ops_safe ops \<and> texture_formats_ok s"
  shows "within b (engine_ok c d) (pgraph_bind_shaders ops pg s)"
proof -
  have ops: "b \<Longrightarrow> ops_safe ops" using assms(2) by blast
  have k: "engine_ok c d (s\<lparr>constants := map (\<lambda>k. k\<lparr>k_dirty := True\<rparr>) (constants s)\<rparr>)"
    using assms(1) by (auto simp: engine_ok_def draw_ok_def coherent_def)
  have "within b (engine_ok c d) (if dirty s D_shaders then
      res_bind (shader_key pg s) (\<lambda>key.
      let s = s\<lparr>constants := map (\<lambda>k. k\<lparr>k_dirty := True\<rparr>) (constants s)\<rparr>
      in res_bind (op_program ops key pg s) (\<lambda>h. Inr (set_clean D_shaders (s\<lparr>host := h\<rparr>)))) else Inr s)"
    unfolding Let_def
    by (intro within_if within_bind [OF shader_key_within] within_bind [OF op_within(4) [OF ops]])
      (use assms k in \<open>auto intro!: engine_ok_clean engine_ok_host\<close>)
  then show ?thesis unfolding pgraph_bind_shaders_def
    by (rule within_bind) (intro within_assert within_bind [OF op_within(5) [OF ops]], auto intro!: engine_ok_clean engine_ok_host)
qed

lemma bind_textures_ok:
  assumes "engine_ok c d s" "b \<Longrightarrow> ops_safe ops"
  shows "within b (engine_ok c d) (pgraph_bind_textures ops d s)"
  unfolding pgraph_bind_textures_def
  by (rule within_bind [OF op_within(6) [OF assms(2)]]) (use assms(1) in \<open>auto simp: engine_ok_def draw_ok_def coherent_def\<close>)

lemma update_surfaces_formats:
  "res_all (\<lambda>(d', s'). texture_formats_ok s' = texture_formats_ok s) (pgraph_update_surfaces ops u z k d s)"
  by (auto simp: res_all_def pgraph_update_surfaces_def res_bind_Inr_iff texture_formats_ok_def set_clean_def split: if_splits)

lemma surface_dimensions_within: "within b (\<lambda>(w, h). True) (get_surface_dimensions s)"
  by (simp add: get_surface_dimensions_def Let_def)

lemma batch_reset_ok:
  "engine_ok c d s \<Longrightarrow> engine_ok c d (s\<lparr>gl_primitive_mode := mode, inline_elements_length := l, inline_array_length := m, inline_buffer_length := n\<rparr>)"
  by (simp add: engine_ok_def draw_ok_def coherent_def)

lemma begin_draw_ok:
  assumes "engine_ok c d s" "b \<Longrightarrow> ops_safe ops \<and> texture_formats_ok s"
  shows "keeps c b (begin_draw ops z k parameter d s)"
proof -
  have ops: "b \<Longrightarrow> ops_safe ops" using assms(2) by blast
  have surfaces: "within b (\<lambda>(d', s'). engine_ok c d' s' \<and> (b \<longrightarrow> texture_formats_ok s')) (pgraph_update_surfaces ops True z k d s)"
    by (rule within_mono [OF within_conj [OF update_surfaces_ok [where b = b, OF assms(1) ops] update_surfaces_formats]]) (use assms(2) in auto)
  have rest: "keeps c b (res_bind (get_surface_dimensions s') (\<lambda>(w, h).
      res_bind (pgraph_update_state (pgraph d') (emit (GlViewport w h) s')) (\<lambda>s.
      res_bind (pgraph_bind_shaders ops (pgraph d') s) (\<lambda>s.
      res_bind (pgraph_bind_textures ops d' s) (\<lambda>s.
      res_bind (arr_get kelvin_primitive_map (unat parameter)) (\<lambda>mode.
      ret d' (s\<lparr>gl_primitive_mode := mode, inline_elements_length := 0, inline_array_length := 0, inline_buffer_length := 0\<rparr>)))))))"
    if s': "engine_ok c d' s' \<and> (b \<longrightarrow> texture_formats_ok s')" and p: "parameter \<le> NV097_SET_BEGIN_END_OP_POLYGON" for d' and s' :: "'a DrawState"
  proof -
    have st: "within b (\<lambda>s. engine_ok c d' s \<and> (b \<longrightarrow> texture_formats_ok s)) (pgraph_update_state (pgraph d') (emit (GlViewport w h) s'))" for w h
      using s' by (intro update_state_ok engine_ok_emit) simp_all
    have mode: "unat parameter < length kelvin_primitive_map" using p by (simp add: kelvin_primitive_map_def word_le_nat_alt)
    show ?thesis
      by (intro keeps_bind2 [OF surface_dimensions_within] keeps_bind [OF st] keeps_bind [OF bind_shaders_ok]
          keeps_bind [OF bind_textures_ok] keeps_bind [OF within_arr_get [OF mode]] keeps_ret batch_reset_ok)
        (use ops in auto)
  qed
  show ?thesis unfolding begin_draw_def
    by (intro keeps_assert keeps_bind2 [OF surfaces] rest)
qed

lemma converted_ok:
  assumes "draw_inv b c d s" "b \<Longrightarrow> ops_safe ops"
  shows "within b (draw_inv b c d) (pgraph_bind_converted_vertex_attributes ops d inline n s)"
  unfolding pgraph_bind_converted_vertex_attributes_def
  by (rule within_fold) (use assms in \<open>auto intro!: bind_converted_ok\<close>)

lemma bind_vertex_attributes_ok: "draw_inv b c d s \<Longrightarrow> within b (draw_inv b c d) (pgraph_bind_vertex_attributes d s)"
  unfolding pgraph_bind_vertex_attributes_def
  by (rule within_fold) (auto intro!: bind_attribute_ok)

lemma draw_inline_array_ok:
  assumes "draw_inv b c d s" "b \<Longrightarrow> ops_safe ops"
  shows "within b (draw_inv b c d) (draw_inline_array ops d s)"
proof -
  have "within b (draw_inv b c d) (fold_res (bind_inline stride) [0..<16] s)" for stride
    by (rule within_fold) (use assms(1) in \<open>auto intro!: bind_inline_ok\<close>)
  then have a: "within b (\<lambda>(n, s). draw_inv b c d s) (pgraph_bind_inline_array s)"
    unfolding pgraph_bind_inline_array_def Let_def by (rule within_bind) simp
  show ?thesis unfolding draw_inline_array_def Let_def
    by (rule within_bind [OF a])
      (use assms(2) in \<open>auto intro!: within_bind [OF converted_ok] draw_inv_emit\<close>)
qed

lemma draw_inline_elements_ok:
  assumes "draw_inv b c d s" "b \<Longrightarrow> ops_safe ops"
  shows "within b (draw_inv b c d) (draw_inline_elements ops d s)"
  unfolding draw_inline_elements_def Let_def
  by (intro within_bind [OF bind_vertex_attributes_ok [OF assms(1)]] within_bind [OF converted_ok])
    (auto intro!: draw_inv_emit assms(2))

lemma draw_inline_buffer_ok:
  assumes "draw_inv b c d s"
  shows "draw_inv b c d (draw_inline_buffer s)"
proof -
  have "draw_inv b c d (fold (\<lambda>i s. emit (GlEnableVertexAttribArray i)
      (emit (GlVertexAttribPointer i (Components 4) GL_FLOAT False 256 (Inline_buffer i)) s)) is s)" for "is"
    using assms by (induction "is" arbitrary: s) (simp_all add: draw_inv_emit)
  then show ?thesis by (simp add: draw_inline_buffer_def draw_inv_emit)
qed

lemma end_draw_ok:
  assumes "draw_inv b c d s" "b \<Longrightarrow> ops_safe ops"
  shows "keeps c b (end_draw ops z k d s)"
  unfolding end_draw_def
proof (rule keeps_bind [where Q = "draw_inv b c d"])
  show "within b (draw_inv b c d) (if inline_buffer_length s \<noteq> 0 then
      res_bind (assert_res (inline_array_length s = 0 \<and> inline_elements_length s = 0)) (\<lambda>_. Inr (draw_inline_buffer s))
    else if inline_array_length s \<noteq> 0 then res_bind (assert_res (inline_elements_length s = 0)) (\<lambda>_. draw_inline_array ops d s)
    else if inline_elements_length s \<noteq> 0 then draw_inline_elements ops d s else Inr s)"
    by (intro within_if within_assert draw_inline_array_ok draw_inline_elements_ok assms)
      (simp_all add: draw_inline_buffer_ok assms)
next
  fix s' :: "'a DrawState"
  assume "draw_inv b c d s'"
  then show "keeps c b (res_bind (op_mark_dirty ops (host s') z k) (\<lambda>h.
      res_bind (assert_res (op_no_error ops (s'\<lparr>host := h\<rparr>))) (\<lambda>_. ret d (s'\<lparr>host := h\<rparr>))))"
    by (intro keeps_bind [OF op_within(3)] keeps_assert keeps_ret engine_ok_host assms(2)) (simp_all add: draw_inv_def)
qed

lemma method_begin_end_ok:
  assumes "engine_ok c d s" "b \<Longrightarrow> ops_safe ops \<and> (class_method = NV097_SET_BEGIN_END \<longrightarrow> texture_formats_ok s \<and> dma_vertex_ok s)"
  shows "keeps_opt c b (method_begin_end ops d s class_method parameter)"
  unfolding method_begin_end_def Let_def
  by (intro keeps_opt_if keeps_opt_Some keeps_if begin_draw_ok end_draw_ok) (use assms in \<open>auto simp: draw_inv_def\<close>)

text \<open>Textures and batches.\<close>

lemma set_texture_ok: "engine_ok c d s \<Longrightarrow> i < 4 \<Longrightarrow> within b (engine_ok c d) (set_texture i f s)"
  by (auto simp: set_texture_def engine_ok_def draw_ok_def coherent_def)

lemma method_texture_ok:
  assumes "engine_ok c d s"
  shows "keeps_opt c b (method_texture d s class_method parameter)"
  unfolding method_texture_def Let_def
  by (intro keeps_opt_if keeps_opt_Some keeps_finish keeps_bind [OF set_texture_ok [OF assms]] keeps_ret engine_ok_dirty
      set_texture_ok [OF assms]) (simp_all add: slot_4_less)

lemma push_element_ok:
  assumes "engine_ok c d s" "b \<Longrightarrow> inline_elements_length s < NV2A_GPU_MAX_BATCH_LENGTH"
  shows "within b (\<lambda>s'. engine_ok c d s' \<and> inline_elements_length s' = inline_elements_length s + 1) (push_element v s)"
  using assms by (auto simp: push_element_def arr_set_def engine_ok_def draw_ok_def coherent_def)

lemma inline_sets_ok:
  assumes "engine_ok c d s" "a < 16" "i < 4" "b \<Longrightarrow> inline_buffer_length s < NV2A_GPU_MAX_BATCH_LENGTH"
    "\<And>s'. engine_ok c d s' \<Longrightarrow> inline_buffer_length s' = inline_buffer_length s \<Longrightarrow> keeps c b (k s')"
  shows "keeps c b (res_bind (inline_set a i v s) k)"
  by (rule keeps_bind [OF inline_set_ok [OF assms(1-4)]]) (simp_all add: assms(5))

lemma method_batch_ok:
  assumes "engine_ok c d s" "b \<Longrightarrow> inline_method class_method \<Longrightarrow> inline_buffer_length s < NV2A_GPU_MAX_BATCH_LENGTH"
    "b \<Longrightarrow> class_method = NV097_ARRAY_ELEMENT16 \<Longrightarrow> inline_elements_length s + 1 < NV2A_GPU_MAX_BATCH_LENGTH"
    "b \<Longrightarrow> class_method = NV097_DRAW_ARRAYS \<Longrightarrow> dma_vertex_ok s"
  shows "keeps_opt c b (method_batch d s class_method parameter)"
proof -
  have array: "keeps c b (res_bind (assert_res (inline_array_length s < NV2A_GPU_MAX_BATCH_LENGTH)) (\<lambda>_.
      res_bind (arr_set (inline_array s) (inline_array_length s) v) (\<lambda>ws.
      ret d (s\<lparr>inline_array := ws, inline_array_length := inline_array_length s + 1\<rparr>))))" for v
    using assms(1) by (intro keeps_assert) (auto simp: engine_ok_def draw_ok_def coherent_def intro!: keeps_ret)
  have elem: "keeps c b (res_bind (assert_res (inline_elements_length s < NV2A_GPU_MAX_BATCH_LENGTH)) (\<lambda>_. res_bind (push_element v s) (ret d)))" for v
    by (intro keeps_assert keeps_bind [OF push_element_ok [OF assms(1)]]) (auto intro: keeps_ret)
  have elems: "keeps c b (res_bind (assert_res (inline_elements_length s < NV2A_GPU_MAX_BATCH_LENGTH)) (\<lambda>_.
      res_bind (push_element v s) (\<lambda>s. res_bind (push_element v' s) (ret d))))" if "class_method = NV097_ARRAY_ELEMENT16" for v v'
    by (intro keeps_assert keeps_bind [OF push_element_ok [OF assms(1)]] keeps_bind [OF push_element_ok])
      (use assms(3) that in \<open>auto intro: keeps_ret\<close>)
  have draw: "keeps c b (res_bind (pgraph_bind_vertex_attributes d s) (\<lambda>s. ret d (emit (GlDrawArrays (gl_primitive_mode s) x y) s)))"
    if "class_method = NV097_DRAW_ARRAYS" for x y
    by (rule keeps_bind [OF bind_vertex_attributes_ok [of b c]])
      (use assms(1,4) that in \<open>auto simp: draw_inv_def intro!: keeps_ret engine_ok_emit\<close>)
  show ?thesis unfolding method_batch_def Let_def
    by (intro keeps_opt_if keeps_opt_Some keeps_if array elem elems draw inline_sets_ok keeps_ret engine_ok_emit keeps_assertion)
      (use assms(1,2) in \<open>auto simp: inline_method_def next_vertex_ok dest: slots_less\<close>)
qed

text \<open>Semaphores and clears. A clear changes the masks in OpenGL and marks them as dirty.\<close>

lemma engine_ok_make_dirty: "engine_ok c d s \<Longrightarrow> call_flag k = Some f \<Longrightarrow> engine_ok c d (set_dirty f (emit k s))"
  by (auto simp: engine_ok_def coherent_def)

lemma clear_values_within: "within b (\<lambda>((x, y), z). True) (clear_values f v)"
  by (simp add: clear_values_def)

lemma clear_zeta_ok:
  assumes "engine_ok c d s"
  shows "within b (engine_ok c d) (clear_zeta write_depth write_stencil v s)"
  unfolding clear_zeta_def
  by (rule within_bind [OF clear_values_within])
    (use assms in \<open>auto simp: Let_def intro!: engine_ok_emit engine_ok_make_dirty split: if_splits\<close>)

lemma clear_color_ok: "engine_ok c d s \<Longrightarrow> engine_ok c d (clear_color p v s)"
  unfolding clear_color_def by (intro engine_ok_emit engine_ok_make_dirty) simp_all

lemma clear_surface_ok:
  assumes "engine_ok c d s" "b \<Longrightarrow> ops_safe ops"
  shows "keeps c b (clear_surface ops d s parameter)"
proof -
  have zeta: "within b (engine_ok c d') (if p then clear_zeta wd ws v s' else Inr s')" if "engine_ok c d' s'" for d' p wd ws v and s' :: "'a DrawState"
    using that by (simp add: clear_zeta_ok)
  have color: "engine_ok c d' (if p then clear_color q v s' else s')" if "engine_ok c d' s'" for d' p q v and s' :: "'a DrawState"
    using that by (simp add: clear_color_ok)
  show ?thesis unfolding clear_surface_def Let_def
    by (intro keeps_if keeps_ret keeps_bind2 [OF update_surfaces_ok [OF assms]] keeps_bind [OF zeta] keeps_bind [OF op_within(3) [OF assms(2)]]
        engine_ok_host engine_ok_emit color) (simp_all add: assms)
qed

lemma semaphore_release_ok:
  assumes "engine_ok c d s"
  shows "keeps c False (semaphore_release ops d s sub parameter)"
proof -
  have surf: "res_all (\<lambda>(d, s). engine_ok c d s) (pgraph_update_surfaces ops False True True d s)"
    using update_surfaces_ok [OF assms, of False] by (simp add: within_False)
  show ?thesis using surf unfolding semaphore_release_def keeps_def within_False
    by (auto simp: res_all_def res_bind_Inr_iff Let_def vram_stl_def ret_def intro!: engine_ok_vram split: if_splits)
qed

lemma method_clear_ok:
  assumes "engine_ok c d s" "b \<Longrightarrow> ops_safe ops \<and> class_method \<noteq> NV097_BACK_END_WRITE_SEMAPHORE_RELEASE"
  shows "keeps_opt c b (method_clear ops d s sub class_method parameter)"
proof -
  have "keeps c b (semaphore_release ops d s sub parameter)" if "class_method = NV097_BACK_END_WRITE_SEMAPHORE_RELEASE"
  proof -
    have "b = False" using assms(2) that by blast
    then show ?thesis using semaphore_release_ok [OF assms(1)] by simp
  qed
  then show ?thesis unfolding method_clear_def
    by (intro keeps_opt_if keeps_opt_Some keeps_finish set_object_ok assms(1) clear_surface_ok keeps_reg_clean touches_WRITE)
      (use assms(2) in \<open>auto simp: setting_fields_def\<close>)
qed

lemma method_shader_ok:
  assumes "engine_ok c d s"
  shows "keeps_opt c b (method_shader d s class_method parameter)"
proof -
  have eye: "keeps c b (res_bind (arr_set (eye_vector s) i v) (\<lambda>v. ret d (set_dirty D_eye_vector (s\<lparr>eye_vector := v\<rparr>))))" if "i < 3" for i v
    using assms that by (auto simp: engine_ok_def draw_ok_def coherent_def intro!: keeps_ret engine_ok_dirty)
  have slots: "engine_ok c d (s\<lparr>enable_vertex_program_write := e\<rparr>)" "engine_ok c d (s\<lparr>vertexshader_load_slot := v\<rparr>)"
    "engine_ok c d (s\<lparr>vertexshader_start_slot := v, vertexshader_dirty := e\<rparr>)" "engine_ok c d (s\<lparr>constant_load_slot := v\<rparr>)" for e v
    using assms by (simp_all add: engine_ok_def draw_ok_def coherent_def)
  show ?thesis unfolding method_shader_def Let_def
    by (intro keeps_opt_if keeps_opt_Some write_slot_ok assms keeps_reg keeps_reg_clean eye touches_comp touches_SET touches_WRITE
        keeps_bind [OF map_method_within(3)] keeps_assert keeps_ret slots)
      (simp_all add: setting_fields_def slots_less order_less_trans [OF slots_less(1)])
qed

lemma set_gl_ok:
  assumes "engine_ok c d s"
  shows "within b (engine_ok c d) (set_gl_front_face m s)" "within b (engine_ok c d) (set_gl_cull_face m s)"
    "within b (engine_ok c d) (set_gl_blend_func sf df s)"
  using assms by (auto simp: set_gl_front_face_def set_gl_cull_face_def set_gl_blend_func_def
      intro!: engine_ok_emit within_bind [OF map_method_within(5)])

lemma method_tests_ok:
  assumes "engine_ok c d s"
  shows "keeps_opt c b (method_tests d s sub class_method parameter)"
proof -
  have kelvin: "keeps c b (res_bind (set_object sub f s) (\<lambda>s. res_bind (call s) (\<lambda>s. ret d (set_dirty flag s))))"
    if "\<And>s. engine_ok c d s \<Longrightarrow> within b (engine_ok c d) (call s)" for f flag call
    by (intro keeps_bind [OF set_object_ok [OF assms]] keeps_bind [OF that] keeps_ret engine_ok_dirty)
  have field: "within b (\<lambda>_. True) (res_bind (arr_get (subchannel_data s) (unat sub)) (\<lambda>k. Inr (ldl_le (object_data k) off)))"
    if "engine_ok c d s" for off and s :: "'a DrawState"
    using that by (simp add: engine_ok_def draw_ok_def)
  have state: "engine_ok c d (set_gl_state cap v s)" if "cap_flag cap = None" "engine_ok c d s" for cap v and s :: "'a DrawState"
    using that by (auto simp: set_gl_state_def intro!: engine_ok_emit)
  show ?thesis unfolding method_tests_def Let_def
    by (intro keeps_opt_if keeps_opt_Some keeps_reg assms kelvin touches_SET keeps_bind [OF map_method_within(1)] keeps_bind [OF map_method_within(4)]
        keeps_bind [OF set_object_ok [OF assms]] keeps_ret within_bind [OF field] set_gl_ok engine_ok_emit)
      (simp_all add: setting_fields_def state engine_ok_emit)
qed

section \<open>All methods\<close>

text \<open>
  The conditions under which a method stays inside of the arrays: the address of a new object lies in instance memory with room for
  the object, a vertex and a pair of indices have room in their batches, the textures' formats have entries in the table, and the
  handles of the vertex arrays lie in instance memory. The 2D copy and the release of a semaphore go to addresses
  in video memory that nothing bounds.
\<close>

definition class_method_of :: "'g DrawState \<Rightarrow> 3 word \<Rightarrow> u32 \<Rightarrow> u32" where
  "class_method_of s sub mthd = push_bit 16 (ucast (graphics_class (subchannel_data s ! unat sub))) OR mthd"

definition method_in_bounds :: "'g DrawState \<Rightarrow> 3 word \<Rightarrow> u32 \<Rightarrow> u32 \<Rightarrow> bool" where
  "method_in_bounds s sub mthd parameter \<longleftrightarrow>
     (if mthd = NV_SET_OBJECT then unat parameter \<le> 0xFFFF0
      else let cm = class_method_of s sub mthd
           in cm \<noteq> NV09F_SIZE \<and> cm \<noteq> NV097_BACK_END_WRITE_SEMAPHORE_RELEASE
              \<and> (inline_method cm \<longrightarrow> inline_buffer_length s < NV2A_GPU_MAX_BATCH_LENGTH)
              \<and> (cm = NV097_ARRAY_ELEMENT16 \<longrightarrow> inline_elements_length s + 1 < NV2A_GPU_MAX_BATCH_LENGTH)
              \<and> (cm = NV097_DRAW_ARRAYS \<longrightarrow> dma_vertex_ok s)
              \<and> (cm = NV097_SET_BEGIN_END \<longrightarrow> texture_formats_ok s \<and> dma_vertex_ok s))"

lemma first_some_in: "first_some rs = Some x \<Longrightarrow> Some x \<in> set rs"
  by (induction rs rule: first_some.induct) auto

lemma first_some_keeps: "(\<And>r. r \<in> set rs \<Longrightarrow> keeps_opt c b r) \<Longrightarrow> first_some rs = Some x \<Longrightarrow> keeps c b x"
  using first_some_in by fastforce

lemma load_graphics_object_ok:
  assumes "engine_ok c d s" "b \<Longrightarrow> unat a \<le> 0xFFFF0"
  shows "within b (engine_ok c d) (load_graphics_object d sub a s)"
proof -
  have r: "within b (\<lambda>_. True) (ramin_ldl d (unat a + i))" if "i \<le> 8" for i
    using assms that by (auto simp: ramin_ldl_def engine_ok_def gpu_ok_def)
  have r0: "within b (\<lambda>_. True) (ramin_ldl d (unat a))" using r [of 0] by simp
  have i: "unat sub < length (subchannel_data s)" using assms(1) by (simp add: engine_ok_def draw_ok_def)
  show ?thesis unfolding load_graphics_object_def Let_def
    by (intro within_assert within_bind [OF r0] within_bind [OF r] within_bind [OF within_arr_get [OF i]] within_bind [OF within_arr_set [OF i]] within_if)
      (use assms(1) in \<open>auto simp: engine_ok_def draw_ok_def coherent_def\<close>)
qed

lemma method_dispatch_ok:
  assumes "engine_ok c d s" "b \<Longrightarrow> ops_safe ops \<and> method_in_bounds s sub mthd parameter" "mthd \<noteq> NV_SET_OBJECT"
  shows "keeps c b (method_dispatch ops d s sub mthd (class_method_of s sub mthd) parameter)"
proof -
  have b: "b \<Longrightarrow> ops_safe ops" using assms(2) by blast
  note mib = assms(2) [unfolded method_in_bounds_def Let_def]
  have all: "keeps_opt c b r" if "r \<in> set [method_2d ops d s sub (class_method_of s sub mthd) parameter,
      method_surface ops d s sub mthd (class_method_of s sub mthd) parameter,
      method_raster d s (class_method_of s sub mthd) parameter, method_transform d s (class_method_of s sub mthd) parameter,
      method_vertex d s (class_method_of s sub mthd) parameter, method_arrays d s (class_method_of s sub mthd) parameter,
      method_begin_end ops d s (class_method_of s sub mthd) parameter, method_texture d s (class_method_of s sub mthd) parameter,
      method_batch d s (class_method_of s sub mthd) parameter, method_clear ops d s sub (class_method_of s sub mthd) parameter,
      method_shader d s (class_method_of s sub mthd) parameter, method_tests d s sub (class_method_of s sub mthd) parameter]" for r
    using that unfolding list.set insert_iff empty_iff
    by (elim disjE FalseE; hypsubst)
      (intro method_2d_ok method_surface_ok method_raster_ok method_transform_ok method_vertex_ok method_arrays_ok
        method_begin_end_ok method_texture_ok method_batch_ok method_clear_ok method_shader_ok method_tests_ok assms(1);
       use mib assms(3) in auto)+
  show ?thesis unfolding method_dispatch_def
    by (split option.split, intro conjI impI allI) (rule keeps_ret [OF assms(1)], rule first_some_keeps [OF all])
qed

lemma pgraph_method_ok:
  assumes "engine_ok c d s" "b \<Longrightarrow> ops_safe ops \<and> method_in_bounds s sub mthd parameter"
  shows "keeps c b (pgraph_method ops d s sub mthd parameter)"
proof -
  have i: "unat sub < length (subchannel_data s)" using assms(1) by (simp add: engine_ok_def draw_ok_def)
  have obj: "engine_ok c d (s\<lparr>subchannel_data := (subchannel_data s)[unat sub := k]\<rparr>)" for k
    using assms(1) by (simp add: engine_ok_def draw_ok_def coherent_def)
  have addr: "unat (ucast parameter :: hwaddr) \<le> 0xFFFF0" if b "mthd = NV_SET_OBJECT"
    using assms(2) that by (simp add: method_in_bounds_def unat_ucast_u64)
  have "keeps c b (res_bind (load_graphics_object d sub (ucast parameter) (s\<lparr>subchannel_data := (subchannel_data s)[unat sub := k]\<rparr>)) (ret d))"
    if "mthd = NV_SET_OBJECT" for k
    by (rule keeps_finish [OF load_graphics_object_ok [OF obj]]) (use addr that in auto)
  moreover have "keeps c b (method_dispatch ops d s sub mthd (class_method_of s sub mthd) parameter)" if "mthd \<noteq> NV_SET_OBJECT"
    by (rule method_dispatch_ok) (use assms that in auto)
  ultimately show ?thesis unfolding pgraph_method_def
    by (intro keeps_assert) (simp add: i class_method_of_def)
qed

section \<open>What a draw finds in OpenGL\<close>

definition run_method :: "'g draw_ops \<Rightarrow> 3 word \<times> u32 \<times> u32 \<Rightarrow> NV2A_GPUState \<times> 'g DrawState \<Rightarrow> (NV2A_GPUState \<times> 'g DrawState) res" where
  "run_method ops = (\<lambda>(sub, mthd, parameter) (d, s).
     res_bind (pgraph_method ops d s sub mthd parameter) (\<lambda>(d, s, wait). Inr (d, s)))"

definition run_methods ::
  "'g draw_ops \<Rightarrow> (3 word \<times> u32 \<times> u32) list \<Rightarrow> NV2A_GPUState \<times> 'g DrawState \<Rightarrow> (NV2A_GPUState \<times> 'g DrawState) res" where
  "run_methods ops calls = fold_res (run_method ops) calls"

lemma draw_ok_reset: "draw_ok (draw_reset h)"
  by (auto simp: draw_ok_def draw_reset_def)

lemma coherent_reset: "coherent pg (draw_reset h)"
  by (simp add: coherent_def draw_reset_def latest_def)

lemma run_methods_ok:
  assumes "engine_ok c (fst ds) (snd ds)"
  shows "res_all (\<lambda>(d, s). engine_ok c d s) (run_methods ops calls ds)"
proof -
  have "within False (\<lambda>(d, s). engine_ok c d s) (run_method ops k ds)" if "(\<lambda>(d, s). engine_ok c d s) ds" for k and ds :: "NV2A_GPUState \<times> 'a DrawState"
    unfolding run_method_def split_beta
    by (rule within_bind [OF pgraph_method_ok [of c "fst ds" "snd ds" False, unfolded keeps_def]]) (use that in auto)
  then show ?thesis using within_fold [of "\<lambda>(d, s). engine_ok c d s" ds calls False "run_method ops"] assms
    by (simp add: within_False run_methods_def split_beta)
qed

lemma update_surfaces_pgraph: "pgraph_update_surfaces ops u z k d s = Inr (d', s') \<Longrightarrow> pgraph d' = pgraph d"
  by (auto simp: pgraph_update_surfaces_def res_bind_Inr_iff split: if_splits)

lemma update_surfaces_coherent:
  "coherent (pgraph d) s \<Longrightarrow> pgraph_update_surfaces ops u z k d s = Inr (d', s') \<Longrightarrow> coherent (pgraph d) s'"
  using call_flag_other [of D_framebuffer]
  by (auto simp: pgraph_update_surfaces_def res_bind_Inr_iff coherent_def split: if_splits)

lemma bind_shaders_dirty: "pgraph_bind_shaders ops pg s = Inr s' \<Longrightarrow> dirty s' f \<Longrightarrow> dirty s f"
  by (auto simp: pgraph_bind_shaders_def res_bind_Inr_iff Let_def split: if_splits)

lemma bind_textures_dirty: "pgraph_bind_textures ops d s = Inr s' \<Longrightarrow> dirty s' = dirty s"
  by (auto simp: pgraph_bind_textures_def res_bind_Inr_iff)

lemma begin_draw_settles:
  assumes "coherent (pgraph d) s" "begin_draw ops z k p d s = Inr (d', s', w)" "f \<in> enabled_settings (pgraph d')"
  shows "\<not> dirty s' f"
proof -
  obtain s1 x y s2 s3 s4 where
    1: "pgraph_update_surfaces ops True z k d s = Inr (d', s1)" and
    2: "pgraph_update_state (pgraph d') (emit (GlViewport x y) s1) = Inr s2" and
    3: "pgraph_bind_shaders ops (pgraph d') s2 = Inr s3" and 4: "pgraph_bind_textures ops d' s3 = Inr s4" and 5: "dirty s' = dirty s4"
    using assms(2) by (auto simp: begin_draw_def res_bind_Inr_iff ret_def)
  have pg: "pgraph d' = pgraph d" by (rule update_surfaces_pgraph [OF 1])
  have "coherent (pgraph d') (emit (GlViewport x y) s1)"
    unfolding pg by (rule coherent_emit [OF _ update_surfaces_coherent [OF assms(1) 1]]) simp
  then have "settles (pgraph d') (enabled_settings (pgraph d')) (emit (GlViewport x y) s1) s2"
    by (rule res_allD [OF update_state_settles 2])
  then have "\<not> dirty s2 f" using assms(3) by (auto simp: settles_def)
  then show ?thesis using bind_shaders_dirty [OF 3] bind_textures_dirty [OF 4] 5 by auto
qed

section \<open>Properties\<close>

text \<open>A host without effects, a device with an object of the 3D class, and a state of the engine with the class on all subchannels.\<close>

definition quiet_ops :: "unit draw_ops" where
  "quiet_ops = \<lparr>op_bind_framebuffer = \<lambda>d s z k. Inr (vram d, ()), op_download = \<lambda>d h z k. Inr (vram d, ()), op_mark_dirty = \<lambda>h z k. Inr (),
     op_program = \<lambda>key pg s. Inr (), op_uniforms = \<lambda>pg s. Inr (), op_bind_textures = \<lambda>d s. Inr ((), \<lambda>_. True),
     op_convert = \<lambda>d s i v n. Inr (), op_no_error = \<lambda>s. True\<rparr>"

definition demo_device :: NV2A_GPUState where
  "demo_device = (nv2a_gpu_initfn (\<lambda>_. 0) 0x4000000 (\<lambda>_. 0))\<lparr>ramin := (\<lambda>_. 0)(0 := 0x97), pgraph := pgraph_reset\<lparr>channel_valid := True\<rparr>\<rparr>"

definition demo_draw :: "unit DrawState" where
  "demo_draw = (draw_reset ())\<lparr>subchannel_data := replicate 8 \<lparr>object_instance = 0, graphics_class = 0x97, object_data = \<lambda>_. 0\<rparr>\<rparr>"

lemma quiet_ops_safe: "ops_safe quiet_ops"
  by (simp add: ops_safe_def quiet_ops_def)

lemma demo_device_ok: "gpu_ok demo_device"
  using gpu_ok_init by (simp add: demo_device_def gpu_ok_def nv2a_gpu_initfn_def pgraph_ok_def)

lemma demo_draw_ok: "draw_ok demo_draw"
  using draw_ok_reset [of "()"] by (simp add: demo_draw_def draw_ok_def)



lemma kelvin_engine_keeps_ok: "engine_keeps_ok draw_ok (kelvin_engine ops)"
  unfolding engine_keeps_ok_def
proof (intro allI impI)
  fix x :: "'a DrawState" and d sub mth par x' g m w
  assume ok: "draw_ok x" "gpu_ok d" and "kelvin_engine ops x d sub mth par = Inr (x', g, m, w)"
  then obtain d' where "pgraph_method ops d x sub mth par = Inr (d', x', w)" "g = pgraph d'"
    by (auto simp: kelvin_engine_def res_bind_Inr_iff)
  then show "draw_ok x' \<and> pgraph_ok g"
    using pgraph_method_ok [of False d x False ops sub mth par] ok by (auto simp: engine_ok_def keeps_def gpu_ok_def)
qed

text \<open>
  C17. The whole device keeps its invariant with this engine: in every state that the machine reaches, however the guest's accesses,
  the screen refresh and any number of pullers interleave, the device's channel numbers index its arrays, its tables and objects
  lie in instance memory, and the arrays of the drawing engine keep the lengths that its methods rely on.
\<close>

theorem drawing_device_invariant:
  assumes "gpu_run ops (kelvin_engine gops) (gpu_start ram ram_size pci_config v (draw_reset h)) evs s"
  shows "gpu_ok (dev s) \<and> draw_ok (engine_state s)"
  using gpu_run_ok [OF assms kelvin_engine_keeps_ok] by (simp add: gpu_start_def gpu_ok_init draw_ok_reset)

theorem drawing_device_invariant_witness:
  "gpu_ok (pull0_write (nv2a_gpu_initfn (\<lambda>_. 0) 0x4000000 (\<lambda>_. 0)) 1) \<and> draw_ok (draw_reset ())"
proof -
  let ?s = "gpu_start (\<lambda>_. 0) 0x4000000 (\<lambda>_. 0) () (draw_reset ())"
  have "gpu_run demo_ops (kelvin_engine quiet_ops) ?s [] (?s\<lparr>dev := pull0_write (dev ?s) 1,
      pullers := pullers ?s @ replicate (pullers_created (pull0_write (dev ?s) 1) - pullers_created (dev ?s)) Pull_check\<rparr>)"
    by (rule gpu_run_one [OF pull0_step])
  from drawing_device_invariant [OF this] show ?thesis by (simp add: gpu_start_def)
qed

lemmas method_groups = method_2d_def method_surface_def method_raster_def method_transform_def method_vertex_def method_arrays_def
  method_begin_end_def method_texture_def method_batch_def method_clear_def method_shader_def method_tests_def

lemma kelvin_method:
  assumes "draw_ok s" "graphics_class (subchannel_data s ! unat sub) = 0x97" "mthd \<noteq> 0" "channel_valid (pgraph d)"
  shows "pgraph_method ops d s sub mthd parameter = method_dispatch ops d s sub mthd (0x970000 OR mthd) parameter"
  using assms by (simp add: pgraph_method_def draw_ok_def)

lemma begin_method_eq:
  assumes "draw_ok s" "graphics_class (subchannel_data s ! unat sub) = 0x97" "channel_valid (pgraph d)" "parameter \<noteq> NV097_SET_BEGIN_END_OP_END"
  shows "\<exists>z k. pgraph_method ops d s sub 0x17FC parameter = begin_draw ops z k parameter d s"
  using kelvin_method [OF assms(1,2), of "0x17FC" d ops parameter] assms(3,4)
  by (auto simp: method_dispatch_def method_groups Let_def case_range_def case_4_def)

lemma begin_method:
  assumes "draw_ok s" "graphics_class (subchannel_data s ! unat sub) = 0x97" "parameter \<noteq> NV097_SET_BEGIN_END_OP_END"
    "pgraph_method ops d s sub 0x17FC parameter = Inr (d', s', w)"
  shows "\<exists>z k. begin_draw ops z k parameter d s = Inr (d', s', w)"
proof -
  have "channel_valid (pgraph d)" using assms(4) by (auto simp: pgraph_method_def res_bind_Inr_iff assert_res_def split: if_splits)
  from begin_method_eq [OF assms(1,2) this assms(3)] show ?thesis using assms(4) by metis
qed


definition demo_calls :: "(3 word \<times> u32 \<times> u32) list" where
  "demo_calls = [(0, 0, 0), (0, 0x680, 0x3F800000), (0, 0x30C, 1)]"

lemma demo_run:
  "\<exists>s1. run_methods quiet_ops demo_calls (demo_device, draw_reset ()) =
     Inr (upd_pg (SET_PG_REG NV_PGRAPH_CONTROL_0 NV_PGRAPH_CONTROL_0_ZENABLE 1) demo_device, set_dirty D_depth_test s1)
     \<and> dirty s1 = (\<lambda>f. f = D_shaders) \<and> gl_calls s1 = [] \<and> comp_src s1 = 2 \<and> surface_anti_aliasing s1 = 0 \<and> (\<forall>t\<in>set (textures s1). \<not> t_enabled t)
     \<and> draw_ok s1 \<and> graphics_class (subchannel_data s1 ! 0) = 0x97"
proof -
  let ?s0 = "draw_reset () \<lparr>subchannel_data := (subchannel_data (draw_reset ()))[0 := \<lparr>object_instance = 0, graphics_class = 0x97, object_data = \<lambda>_. 0\<rparr>],
      vertex_attributes := (vertex_attributes (draw_reset ()))[3 := (vertex_attributes (draw_reset ()) ! 3)\<lparr>inline_value := 0xFFFFFFF\<rparr>]\<rparr>"
  let ?s1 = "?s0\<lparr>composite_matrix := (composite_matrix ?s0)[0 := 0x3F800000], comp_src := 2\<rparr>"
  have valid: "channel_valid (pgraph demo_device)" by (simp add: demo_device_def)
  have ok0: "draw_ok ?s0" and ok1: "draw_ok ?s1" using draw_ok_reset [of "()"] by (simp_all add: draw_ok_def)
  have k: "graphics_class (subchannel_data ?s0 ! unat (0 :: 3 word)) = 0x97" by (simp add: draw_reset_def)
  have cls: "ldl_le ((\<lambda>_. 0)(0 := 0x97)) 0 = 0x97" by (simp add: ldl_le_def le32_def)
  have 0: "run_method quiet_ops (0, 0, 0) (demo_device, draw_reset ()) = Inr (demo_device, ?s0)"
    by (simp add: run_method_def pgraph_method_def valid draw_reset_def load_graphics_object_def ret_def ramin_ldl_def demo_device_def
        nv2a_gpu_initfn_def Let_def cls)
  have 1: "run_method quiet_ops (0, 0x680, 0x3F800000) (demo_device, ?s0) = Inr (demo_device, ?s1)"
    using kelvin_method [OF ok0 k _ valid, of "0x680"]
    by (simp add: run_method_def method_dispatch_def method_groups Let_def case_range_def case_4_def ret_def slot_of_def draw_reset_def)
  have 2: "run_method quiet_ops (0, 0x30C, 1) (demo_device, ?s1) =
      Inr (upd_pg (SET_PG_REG NV_PGRAPH_CONTROL_0 NV_PGRAPH_CONTROL_0_ZENABLE 1) demo_device, set_dirty D_depth_test ?s1)"
    using kelvin_method [OF ok1 _ _ valid, of 0 "0x30C"] k
    by (simp add: run_method_def method_dispatch_def method_groups Let_def case_range_def case_4_def ret_def)
  show ?thesis
    by (rule exI [of _ ?s1]) (use 0 1 2 ok1 k in \<open>simp add: run_methods_def demo_calls_def, simp add: draw_reset_def\<close>)
qed

abbreviation (input) demo_depth :: NV2A_GPUState where
  "demo_depth \<equiv> upd_pg (SET_PG_REG NV_PGRAPH_CONTROL_0 NV_PGRAPH_CONTROL_0_ZENABLE 1) demo_device"

lemma demo_registers:
  "GET_PG_REG (pgraph demo_depth) NV_PGRAPH_CONTROL_0 NV_PGRAPH_CONTROL_0_ZENABLE = 1"
  "GET_PG_REG (pgraph demo_depth) NV_PGRAPH_CONTROL_0 NV_PGRAPH_CONTROL_0_ALPHATESTENABLE = 0"
  "GET_PG_REG (pgraph demo_depth) NV_PGRAPH_CONTROL_1 NV_PGRAPH_CONTROL_1_STENCIL_TEST_ENABLE = 0"
  "GET_PG_REG (pgraph demo_depth) NV_PGRAPH_CONTROL_3 NV_PGRAPH_CONTROL_3_FOGENABLE = 0"
  "fixed_function (pgraph demo_depth)" "channel_valid (pgraph demo_depth)" "vram demo_depth = vram demo_device"
proof -
  have "ffs 0x4000 = 15" "ffs 0x1000 = 13" by code_simp+
  then show "GET_PG_REG (pgraph demo_depth) NV_PGRAPH_CONTROL_0 NV_PGRAPH_CONTROL_0_ZENABLE = 1"
    "GET_PG_REG (pgraph demo_depth) NV_PGRAPH_CONTROL_0 NV_PGRAPH_CONTROL_0_ALPHATESTENABLE = 0"
    by (simp_all add: demo_device_def upd_pg_def SET_PG_REG_def GET_PG_REG_def pgraph_reset_def GET_MASK_def SET_MASK_def)
qed (simp_all add: demo_device_def upd_pg_def SET_PG_REG_def GET_PG_REG_def pgraph_reset_def GET_MASK_def fixed_function_def)

lemma shader_key_untextured:
  assumes "\<forall>t\<in>set (textures s). \<not> t_enabled t"
  shows "\<exists>key. shader_key pg s = Inr key"
proof -
  have "\<exists>rs'. fold_res (\<lambda>t rs. res_bind (rect_texture t) (\<lambda>r. Inr (rs @ [r]))) ts rs = Inr rs'" if "\<forall>t\<in>set ts. \<not> t_enabled t" for ts rs
    using that by (induction ts arbitrary: rs) (simp_all add: rect_texture_def)
  from this [OF assms, of "[]"] obtain rects where
    "fold_res (\<lambda>t rs. res_bind (rect_texture t) (\<lambda>r. Inr (rs @ [r]))) (textures s) [] = Inr rects" by blast
  then show ?thesis by (simp add: shader_key_def)
qed

lemma demo_begin:
  assumes "dirty s = (\<lambda>f. f = D_shaders)" "gl_calls s = []" "comp_src s = 2" "surface_anti_aliasing s = 0" "\<forall>t\<in>set (textures s). \<not> t_enabled t"
  shows "\<exists>d2 s2. begin_draw quiet_ops z k 5 demo_depth (set_dirty D_depth_test s) = Inr (d2, s2, Runs_on)
    \<and> latest D_depth_test (gl_calls s2) = Some (GlEnable GL_DEPTH_TEST)"
proof -
  let ?s = "s\<lparr>host := (), dirty := \<lambda>f. f = D_shaders, gl_calls := [GlEnable GL_DEPTH_TEST, GlViewport (clip_width s) (clip_height s)]\<rparr>"
  have "pgraph_update_state (pgraph demo_depth) (emit (GlViewport (clip_width s) (clip_height s)) (set_clean D_framebuffer (set_dirty D_depth_test s\<lparr>host := ()\<rparr>))) = Inr ?s"
    using assms(1,2) demo_registers
    by (simp add: pgraph_update_state_def update_gl_alpha_test_def update_gl_depth_test_def update_gl_stencil_test_def update_gl_fog_def
        update_gl_defs Let_def emit_def set_dirty_def set_clean_def fun_eq_iff)
  moreover obtain key where "shader_key (pgraph demo_depth) ?s = Inr key" using shader_key_untextured [of ?s] assms(5) by auto
  ultimately show ?thesis using assms demo_registers
    by (simp add: begin_draw_def pgraph_update_surfaces_def quiet_ops_def get_surface_dimensions_def Let_def
        pgraph_bind_shaders_def pgraph_bind_textures_def kelvin_primitive_map_def ret_def set_clean_def set_dirty_def)
qed


end
