(* ===== verification/NV2A_Draws.thy ===== *)
theory NV2A_Draws
  imports NV2A_Engine
begin

text \<open>
  What single methods and sequences of methods of the drawing engine do: the 2D copy moves a rectangle of pixels, an upload stores a
  vertex program, and three faults: a batch of pairs of indices runs over the end of its array, an uploaded program
  does not reach the shaders, and the key of a program covers a quarter of it.
\<close>

section \<open>The 2D copy\<close>

lemma vram_memmove_ok:
  assumes "dst + n \<le> unat msize" "src + n \<le> unat msize"
  shows "vram_memmove msize dst src n m =
    Inr (\<lambda>a. if dst \<le> unat a \<and> unat a < dst + n then m (of_nat (src + (unat a - dst))) else m a)"
  using assms by (auto simp: vram_memmove_def fun_eq_iff)

text \<open>Rows whose targets overlap neither each other nor a source.\<close>

lemma copy_rows:
  fixes msize :: hwaddr
  assumes "\<And>y. y < h \<Longrightarrow> D y + n \<le> unat msize \<and> S y + n \<le> unat msize"
    and "\<And>y y'. y < y' \<Longrightarrow> y' < h \<Longrightarrow> D y + n \<le> D y' \<or> D y' + n \<le> D y"
    and "\<And>y y'. y < h \<Longrightarrow> y' < h \<Longrightarrow> D y + n \<le> S y' \<or> S y' + n \<le> D y"
  shows "\<exists>m'. fold_res (\<lambda>y. vram_memmove msize (D y) (S y) n) [0..<h] m = Inr m'
    \<and> (\<forall>y<h. \<forall>x<n. m' (of_nat (D y + x)) = m (of_nat (S y + x)))
    \<and> (\<forall>a. (\<forall>y<h. \<not> (D y \<le> unat a \<and> unat a < D y + n)) \<longrightarrow> m' a = m a)"
  using assms
proof (induction h)
  case (Suc h)
  have "\<exists>m'. fold_res (\<lambda>y. vram_memmove msize (D y) (S y) n) [0..<h] m = Inr m'
    \<and> (\<forall>y<h. \<forall>x<n. m' (of_nat (D y + x)) = m (of_nat (S y + x)))
    \<and> (\<forall>a. (\<forall>y<h. \<not> (D y \<le> unat a \<and> unat a < D y + n)) \<longrightarrow> m' a = m a)"
    by (rule Suc.IH; rule Suc.prems; simp)
  then obtain m1 where m1: "fold_res (\<lambda>y. vram_memmove msize (D y) (S y) n) [0..<h] m = Inr m1"
    and copied: "\<And>y x. y < h \<Longrightarrow> x < n \<Longrightarrow> m1 (of_nat (D y + x)) = m (of_nat (S y + x))"
    and kept: "\<And>a. (\<And>y. y < h \<Longrightarrow> \<not> (D y \<le> unat a \<and> unat a < D y + n)) \<Longrightarrow> m1 a = m a"
    by blast
  note of_nat_add [simp del]
  have un: "unat (of_nat k :: hwaddr) = k" if "k < unat msize" for k
    using that unsigned_less [of msize, where ?'a = nat] by (intro unat_of_nat_small) simp
  have uD: "unat (of_nat (D y + x) :: hwaddr) = D y + x" and uS: "unat (of_nat (S y + x) :: hwaddr) = S y + x"
    if "y \<le> h" "x < n" for y x
    using Suc.prems(1) [of y] that by (intro un; simp)+
  let ?m2 = "\<lambda>a. if D h \<le> unat a \<and> unat a < D h + n then m1 (of_nat (S h + (unat a - D h))) else m1 a"
  have "fold_res (\<lambda>y. vram_memmove msize (D y) (S y) n) [0..<Suc h] m = Inr ?m2"
    using m1 Suc.prems(1) [of h] by (simp add: fold_res_append vram_memmove_ok)
  moreover have "?m2 (of_nat (D y + x)) = m (of_nat (S y + x))" if y: "y < Suc h" and x: "x < n" for y x
  proof (cases "y = h")
    case True
    have "m1 (of_nat (S h + x)) = m (of_nat (S h + x))"
    proof (rule kept)
      fix y'
      assume "y' < h"
      then show "\<not> (D y' \<le> unat (of_nat (S h + x) :: hwaddr) \<and> unat (of_nat (S h + x) :: hwaddr) < D y' + n)"
        using uS [of h x] x Suc.prems(3) [of y' h] by simp linarith
    qed
    then show ?thesis using True uD [of h x] x by simp
  next
    case False
    then have "y < h" using y by simp
    then have "\<not> (D h \<le> D y + x \<and> D y + x < D h + n)" using Suc.prems(2) [of y h] x by simp linarith
    then show ?thesis using copied [of y x] uD [of y x] x \<open>y < h\<close> by auto
  qed
  moreover have "?m2 a = m a" if "\<forall>y<Suc h. \<not> (D y \<le> unat a \<and> unat a < D y + n)" for a
  proof -
    have "\<not> (D h \<le> unat a \<and> unat a < D h + n)" using that by blast
    moreover have "m1 a = m a" by (rule kept) (use that in simp)
    ultimately show ?thesis by (simp only: if_False)
  qed
  ultimately show ?case by blast
qed simp

text \<open>The place of a pixel in a surface.\<close>

definition pixel_at :: "nat \<Rightarrow> nat \<Rightarrow> nat \<Rightarrow> nat \<Rightarrow> nat \<Rightarrow> nat" where
  "pixel_at base pitch bpp x y = base + y * pitch + x * bpp"

lemma row_offset:
  fixes oy pitch ox bpp :: u32
  assumes "(unat oy + h) * unat pitch < 2 ^ 32" "unat ox * unat bpp < 2 ^ 32" "y < h" "unat oy + h < 2 ^ 32"
  shows "base + unat ((oy + of_nat y) * pitch) + unat (ox * bpp) = pixel_at base (unat pitch) (unat bpp) (unat ox) (unat oy + y)"
proof -
  have "unat (of_nat y :: u32) = y" using assms by (intro unat_of_nat_small) simp
  moreover have "unat (oy + of_nat y) = unat oy + unat (of_nat y :: u32)"
    using assms calculation by (intro iffD1 [OF unat_add_lem]) simp
  ultimately have 1: "unat (oy + of_nat y) = unat oy + y" by simp
  have "(unat oy + y) * unat pitch \<le> (unat oy + h) * unat pitch" using assms(3) by (intro mult_le_mono) simp_all
  then have "(unat oy + y) * unat pitch < 2 ^ 32" using assms(1) by linarith
  then have "unat ((oy + of_nat y) * pitch) = unat (oy + of_nat y) * unat pitch" by (intro iffD1 [OF unat_mult_lem]) (simp add: 1)
  then have "unat ((oy + of_nat y) * pitch) = (unat oy + y) * unat pitch" by (simp only: 1)
  moreover have "unat (ox * bpp) = unat ox * unat bpp" using assms(2) by (intro iffD1 [OF unat_mult_lem]) simp
  ultimately show ?thesis by (simp add: pixel_at_def)
qed

lemma pixel_at_mono: "y \<le> y' \<Longrightarrow> x \<le> x' \<Longrightarrow> pixel_at base p q x y \<le> pixel_at base p q x' y'"
  unfolding pixel_at_def by (intro add_mono mult_le_mono order_refl)

text \<open>The surfaces of a copy, as the object of the surfaces describes them.\<close>

definition surfaces_at :: "NV2A_GPUState \<Rightarrow> mem \<Rightarrow> nat \<Rightarrow> nat \<Rightarrow> u32 \<Rightarrow> bool" where
  "surfaces_at d surf src dst bpp \<longleftrightarrow> blit_bytes_per_pixel (ldl_le surf SURFACES_color_format) = Inr bpp
     \<and> (\<exists>a len. nv_dma_load_and_map d (get64 surf SURFACES_dma_image_source) = Inr (a, len)
          \<and> get64 surf SURFACES_source_offset < len \<and> src = unat a + unat (get64 surf SURFACES_source_offset))
     \<and> (\<exists>a len. nv_dma_load_and_map d (get64 surf SURFACES_dma_image_dest) = Inr (a, len)
          \<and> get64 surf SURFACES_dest_offset < len \<and> dst = unat a + unat (get64 surf SURFACES_dest_offset))"

lemma image_blit_rows:
  assumes "lookup_graphics_object s (get64 b BLIT_context_surfaces) = Some obj" "graphics_class obj = 0x62"
    "surfaces_at d (object_data obj) src dst bpp"
  shows "image_blit d s b = res_bind (fold_res (blit_row (vram_size d) src dst b (object_data obj) bpp)
    [0..<unat (ldl_le b BLIT_height)] (vram d)) (\<lambda>m. Inr (d\<lparr>vram := m\<rparr>))"
  using assms by (auto simp: image_blit_def surfaces_at_def Let_def)

lemma fold_res_cong: "(\<And>x. x \<in> set xs \<Longrightarrow> f x = g x) \<Longrightarrow> fold_res f xs s = fold_res g xs s"
  by (induction xs arbitrary: s) (simp_all add: res_bind_def split: sum.splits)

lemma copy_rectangle:
  fixes msize :: hwaddr
  assumes row: "w * q \<le> dp"
    and fits: "pixel_at src sp q (ix + w) (iy + h) \<le> unat msize" "pixel_at dst dp q (ox + w) (oy + h) \<le> unat msize"
    and apart: "pixel_at src sp q (ix + w) (iy + h) \<le> pixel_at dst dp q ox oy \<or> pixel_at dst dp q (ox + w) (oy + h) \<le> pixel_at src sp q ix iy"
  shows "\<exists>m'. fold_res (\<lambda>y. vram_memmove msize (pixel_at dst dp q ox (oy + y)) (pixel_at src sp q ix (iy + y)) (w * q)) [0..<h] m = Inr m'
    \<and> (\<forall>y<h. \<forall>x<w * q. m' (of_nat (pixel_at dst dp q ox (oy + y) + x)) = m (of_nat (pixel_at src sp q ix (iy + y) + x)))
    \<and> (\<forall>a. (\<forall>y<h. \<not> (pixel_at dst dp q ox (oy + y) \<le> unat a \<and> unat a < pixel_at dst dp q ox (oy + y) + w * q)) \<longrightarrow> m' a = m a)"
proof (rule copy_rows)
  have end_row: "pixel_at b p q x y + w * q = pixel_at b p q (x + w) y" for b p x y
    by (simp add: pixel_at_def algebra_simps)
  have D: "pixel_at dst dp q ox (oy + y) + w * q \<le> pixel_at dst dp q (ox + w) (oy + h)" if "y < h" for y
    unfolding end_row by (rule pixel_at_mono) (use that in simp_all)
  have S: "pixel_at src sp q ix (iy + y) + w * q \<le> pixel_at src sp q (ix + w) (iy + h)" if "y < h" for y
    unfolding end_row by (rule pixel_at_mono) (use that in simp_all)
  fix y y' :: nat
  show "pixel_at dst dp q ox (oy + y) + w * q \<le> unat msize \<and> pixel_at src sp q ix (iy + y) + w * q \<le> unat msize" if "y < h"
    using D [OF that] S [OF that] fits by linarith
  show "pixel_at dst dp q ox (oy + y) + w * q \<le> pixel_at dst dp q ox (oy + y')
      \<or> pixel_at dst dp q ox (oy + y') + w * q \<le> pixel_at dst dp q ox (oy + y)" if "y < y'"
  proof -
    have "Suc (oy + y) * dp \<le> (oy + y') * dp" using that by (intro mult_le_mono1) simp
    then have "(oy + y) * dp + dp \<le> (oy + y') * dp" by simp
    then show ?thesis using row unfolding pixel_at_def by linarith
  qed
  have "pixel_at dst dp q ox oy \<le> pixel_at dst dp q ox (oy + y)" "pixel_at src sp q ix iy \<le> pixel_at src sp q ix (iy + y')"
    by (intro pixel_at_mono; simp)+
  then show "pixel_at dst dp q ox (oy + y) + w * q \<le> pixel_at src sp q ix (iy + y')
      \<or> pixel_at src sp q ix (iy + y') + w * q \<le> pixel_at dst dp q ox (oy + y)" if "y < h" "y' < h"
    using D [OF that(1)] S [OF that(2)] apart by linarith
qed

lemma blit_row_pixels:
  assumes "(unat (ldl_le b BLIT_in_y) + h) * unat (ldl_le surf SURFACES_source_pitch) < 2 ^ 32"
    and "(unat (ldl_le b BLIT_out_y) + h) * unat (ldl_le surf SURFACES_dest_pitch) < 2 ^ 32"
    and "(unat (ldl_le b BLIT_in_x) + unat (ldl_le b BLIT_width)) * unat bpp < 2 ^ 32" "(unat (ldl_le b BLIT_out_x) + unat (ldl_le b BLIT_width)) * unat bpp < 2 ^ 32"
    and "unat (ldl_le b BLIT_in_y) + h < 2 ^ 32" "unat (ldl_le b BLIT_out_y) + h < 2 ^ 32" "y < h"
  shows "blit_row msize src dst b surf bpp y = vram_memmove msize
    (pixel_at dst (unat (ldl_le surf SURFACES_dest_pitch)) (unat bpp) (unat (ldl_le b BLIT_out_x)) (unat (ldl_le b BLIT_out_y) + y))
    (pixel_at src (unat (ldl_le surf SURFACES_source_pitch)) (unat bpp) (unat (ldl_le b BLIT_in_x)) (unat (ldl_le b BLIT_in_y) + y))
    (unat (ldl_le b BLIT_width) * unat bpp)"
proof -
  have x: "unat (ldl_le b BLIT_in_x) * unat bpp < 2 ^ 32" "unat (ldl_le b BLIT_out_x) * unat bpp < 2 ^ 32"
    and w: "unat (ldl_le b BLIT_width) * unat bpp < 2 ^ 32" using assms(3,4) by (simp_all add: distrib_right)
  have "unat (ldl_le b BLIT_width * bpp) = unat (ldl_le b BLIT_width) * unat bpp" using w by (intro iffD1 [OF unat_mult_lem]) simp
  then show ?thesis
    unfolding blit_row_def fun_eq_iff row_offset [OF assms(1) x(1) assms(7,5)] row_offset [OF assms(2) x(2) assms(7,6)] by simp
qed

text \<open>
  C21. The 2D copy moves the rectangle of pixels: if both rectangles lie in video memory, do not overlap, and their offsets fit into 32
  bits, and a row of the target does not reach into the next one, every pixel of the target becomes the pixel of the source at the
  same place, and no other byte of video memory changes.
\<close>

theorem image_blit_copies:
  assumes "lookup_graphics_object s (get64 b BLIT_context_surfaces) = Some obj" "graphics_class obj = 0x62"
    and surf: "surfaces_at d (object_data obj) src dst bpp"
    and sp: "sp = unat (ldl_le (object_data obj) SURFACES_source_pitch)" and dp: "dp = unat (ldl_le (object_data obj) SURFACES_dest_pitch)"
    and wh: "w = unat (ldl_le b BLIT_width)" "h = unat (ldl_le b BLIT_height)"
    and from_at: "ix = unat (ldl_le b BLIT_in_x)" "iy = unat (ldl_le b BLIT_in_y)" and to_at: "ox = unat (ldl_le b BLIT_out_x)" "oy = unat (ldl_le b BLIT_out_y)"
    and small: "(iy + h) * sp < 2 ^ 32" "(oy + h) * dp < 2 ^ 32" "(ix + w) * unat bpp < 2 ^ 32" "(ox + w) * unat bpp < 2 ^ 32"
      "iy + h < 2 ^ 32" "oy + h < 2 ^ 32"
    and row: "w * unat bpp \<le> dp"
    and fits: "pixel_at src sp (unat bpp) (ix + w) (iy + h) \<le> unat (vram_size d)" "pixel_at dst dp (unat bpp) (ox + w) (oy + h) \<le> unat (vram_size d)"
    and apart: "pixel_at src sp (unat bpp) (ix + w) (iy + h) \<le> pixel_at dst dp (unat bpp) ox oy
      \<or> pixel_at dst dp (unat bpp) (ox + w) (oy + h) \<le> pixel_at src sp (unat bpp) ix iy"
  shows "\<exists>m. image_blit d s b = Inr (d\<lparr>vram := m\<rparr>)
    \<and> (\<forall>y<h. \<forall>x<w. \<forall>k<unat bpp. m (of_nat (pixel_at dst dp (unat bpp) (ox + x) (oy + y) + k)) = vram d (of_nat (pixel_at src sp (unat bpp) (ix + x) (iy + y) + k)))
    \<and> (\<forall>a. (\<forall>y<h. \<not> (pixel_at dst dp (unat bpp) ox (oy + y) \<le> unat a \<and> unat a < pixel_at dst dp (unat bpp) (ox + w) (oy + y))) \<longrightarrow> m a = vram d a)"
proof -
  let ?q = "unat bpp"
  let ?D = "\<lambda>y. pixel_at dst dp ?q ox (oy + y)" and ?S = "\<lambda>y. pixel_at src sp ?q ix (iy + y)" and ?n = "w * ?q"
  obtain m where m: "fold_res (\<lambda>y. vram_memmove (vram_size d) (?D y) (?S y) ?n) [0..<h] (vram d) = Inr m"
    and copied: "\<forall>y<h. \<forall>x<?n. m (of_nat (?D y + x)) = vram d (of_nat (?S y + x))"
    and kept: "\<forall>a. (\<forall>y<h. \<not> (?D y \<le> unat a \<and> unat a < ?D y + ?n)) \<longrightarrow> m a = vram d a"
    using copy_rectangle [OF row fits apart] by blast
  have "fold_res (blit_row (vram_size d) src dst b (object_data obj) bpp) [0..<h] (vram d)
      = fold_res (\<lambda>y. vram_memmove (vram_size d) (?D y) (?S y) ?n) [0..<h] (vram d)"
    by (rule fold_res_cong) (use small in \<open>simp add: blit_row_pixels [of b h] sp dp wh from_at to_at\<close>)
  then have "image_blit d s b = Inr (d\<lparr>vram := m\<rparr>)" using image_blit_rows [OF assms(1,2) surf] m by (simp add: wh(2))
  moreover have "m (of_nat (pixel_at dst dp ?q (ox + x) (oy + y) + k)) = vram d (of_nat (pixel_at src sp ?q (ix + x) (iy + y) + k))"
    if "y < h" "x < w" "k < ?q" for x y k
  proof -
    have "Suc x * ?q \<le> ?n" using that(2) by (intro mult_le_mono1) simp
    then have "x * ?q + k < ?n" using that(3) by simp
    then have "m (of_nat (?D y + (x * ?q + k))) = vram d (of_nat (?S y + (x * ?q + k)))" using copied that(1) by blast
    then show ?thesis by (simp only: pixel_at_def distrib_right add.assoc)
  qed
  moreover have "?D y + ?n = pixel_at dst dp ?q (ox + w) (oy + y)" for y by (simp add: pixel_at_def distrib_right)
  ultimately show ?thesis using kept by (intro exI [of _ m] conjI) simp_all
qed

definition demo_surfaces :: mem where
  "demo_surfaces = (\<lambda>_. 0)(16 := 1, 20 := 4, 24 := 4, 40 := 16)"

definition demo_blit :: mem where
  "demo_blit = (\<lambda>_. 0)(28 := 2, 32 := 2)"

definition demo_blit_device :: NV2A_GPUState where
  "demo_blit_device = demo_device\<lparr>ramin := (\<lambda>_. 0)(5 := 0x10), vram := (\<lambda>_. 0)(1 := 7)\<rparr>"

definition demo_blit_state :: "unit DrawState" where
  "demo_blit_state = (draw_reset ())\<lparr>subchannel_data := replicate 8 \<lparr>object_instance = 0, graphics_class = 0x62, object_data = demo_surfaces\<rparr>\<rparr>"

lemma demo_blit_data:
  "ldl_le demo_blit 12 = 0" "ldl_le demo_blit 16 = 0" "ldl_le demo_blit 20 = 0" "ldl_le demo_blit 24 = 0" "ldl_le demo_blit 28 = 2"
  "ldl_le demo_blit 32 = 2" "get64 demo_blit 0 = 0" "ldl_le demo_surfaces 16 = 1" "ldl_le demo_surfaces 20 = 4" "ldl_le demo_surfaces 24 = 4"
  "get64 demo_surfaces 0 = 0" "get64 demo_surfaces 8 = 0" "get64 demo_surfaces 32 = 0" "get64 demo_surfaces 40 = 16"
  by (simp_all add: get64_def ldl_le_def le32_def demo_blit_def demo_surfaces_def)

lemma find_replicate: "0 < n \<Longrightarrow> P x \<Longrightarrow> find P (replicate n x) = Some x"
  by (cases n) simp_all

theorem image_blit_copies_witness:
  "\<exists>m. image_blit demo_blit_device demo_blit_state demo_blit = Inr (demo_blit_device\<lparr>vram := m\<rparr>) \<and> m 17 = 7"
proof -
  let ?obj = "\<lparr>object_instance = 0, graphics_class = 0x62, object_data = demo_surfaces\<rparr>"
  have obj: "lookup_graphics_object demo_blit_state (get64 demo_blit 0) = Some ?obj" "graphics_class ?obj = 0x62"
    by (simp_all add: lookup_graphics_object_def demo_blit_state_def demo_blit_data find_replicate)
  have dma: "nv_dma_load_and_map demo_blit_device 0 = Inr (0, 0x1000)"
    by (simp add: nv_dma_load_and_map_def nv_dma_load_def ramin_ldl_def demo_blit_device_def demo_device_def nv2a_gpu_initfn_def
        ldl_le_def le32_def GET_MASK_def)
  have surf: "surfaces_at demo_blit_device (object_data ?obj) 0 16 1"
    by (simp add: surfaces_at_def dma demo_blit_data blit_bytes_per_pixel_def)
  have "\<exists>m. image_blit demo_blit_device demo_blit_state demo_blit = Inr (demo_blit_device\<lparr>vram := m\<rparr>)
    \<and> (\<forall>y<2. \<forall>x<2. \<forall>k<unat (1 :: u32). m (of_nat (pixel_at 16 4 (unat (1 :: u32)) (0 + x) (0 + y) + k)) = vram demo_blit_device (of_nat (pixel_at 0 4 (unat (1 :: u32)) (0 + x) (0 + y) + k)))
    \<and> (\<forall>a. (\<forall>y<2. \<not> (pixel_at 16 4 (unat (1 :: u32)) 0 (0 + y) \<le> unat a \<and> unat a < pixel_at 16 4 (unat (1 :: u32)) (0 + 2) (0 + y))) \<longrightarrow> m a = vram demo_blit_device a)"
    by (rule image_blit_copies [OF obj surf]) (simp_all add: demo_blit_data pixel_at_def demo_blit_device_def demo_device_def nv2a_gpu_initfn_def)
  then obtain m where m: "image_blit demo_blit_device demo_blit_state demo_blit = Inr (demo_blit_device\<lparr>vram := m\<rparr>)"
    and c: "\<forall>y<2. \<forall>x<2. \<forall>k<unat (1 :: u32). m (of_nat (pixel_at 16 4 (unat (1 :: u32)) (0 + x) (0 + y) + k)) = vram demo_blit_device (of_nat (pixel_at 0 4 (unat (1 :: u32)) (0 + x) (0 + y) + k))"
    by blast
  have "m 17 = 7" using c [rule_format, of 0 1 0] by (simp add: pixel_at_def demo_blit_device_def)
  with m show ?thesis by blast
qed

section \<open>Sequences of methods\<close>

text \<open>An object of the 3D class on a subchannel of a valid channel.\<close>

definition kelvin_on :: "NV2A_GPUState \<Rightarrow> 'g DrawState \<Rightarrow> 3 word \<Rightarrow> bool" where
  "kelvin_on d s sub \<longleftrightarrow> draw_ok s \<and> channel_valid (pgraph d) \<and> graphics_class (subchannel_data s ! unat sub) = 0x97"

lemma kelvin_dispatch:
  assumes "kelvin_on d s sub" "mthd \<noteq> 0"
  shows "pgraph_method ops d s sub mthd parameter = method_dispatch ops d s sub mthd (0x970000 OR mthd) parameter"
  using assms kelvin_method [of s sub mthd d ops parameter] by (simp add: kelvin_on_def)

lemmas dispatch_simps = method_dispatch_def method_groups Let_def case_range_def case_4_def

lemma run_methods_simps:
  "run_methods ops [] ds = Inr ds" "run_methods ops (c # cs) ds = res_bind (run_method ops c ds) (run_methods ops cs)"
  by (simp_all add: run_methods_def)

lemma run_method_ret: "pgraph_method ops d s sub mthd p = ret d' s' \<Longrightarrow> run_method ops (sub, mthd, p) (d, s) = Inr (d', s')"
  by (simp add: run_method_def ret_def)

text \<open>Pairs of indices.\<close>

definition element16 :: "3 word \<Rightarrow> u32 \<Rightarrow> 3 word \<times> u32 \<times> u32" where
  "element16 sub p = (sub, 0x1800, p)"

lemma element16_method:
  assumes "kelvin_on d s sub"
  shows "pgraph_method ops d s sub 0x1800 p = res_bind (assert_res (inline_elements_length s < NV2A_GPU_MAX_BATCH_LENGTH)) (\<lambda>_.
    res_bind (push_element (p AND 0xFFFF) s) (\<lambda>s. res_bind (push_element (drop_bit 16 p) s) (ret d)))"
  using kelvin_dispatch [OF assms, of "0x1800" ops p] by (simp add: dispatch_simps)

lemma element16_ok:
  assumes "kelvin_on d s sub" "inline_elements_length s + 1 < NV2A_GPU_MAX_BATCH_LENGTH"
  shows "run_method ops (element16 sub p) (d, s) = Inr (d, s\<lparr>inline_elements :=
    (inline_elements s)[inline_elements_length s := p AND 0xFFFF, inline_elements_length s + 1 := drop_bit 16 p],
    inline_elements_length := inline_elements_length s + 2\<rparr>)"
  unfolding element16_def
  by (rule run_method_ret) (use assms in \<open>simp add: element16_method push_element_def kelvin_on_def draw_ok_def\<close>)

lemma elements16_run:
  assumes "kelvin_on d s sub" "inline_elements_length s + 2 * length ps \<le> 0xFFFE"
  shows "\<exists>s'. run_methods ops (map (element16 sub) ps) (d, s) = Inr (d, s') \<and> kelvin_on d s' sub
    \<and> inline_elements_length s' = inline_elements_length s + 2 * length ps"
  using assms
proof (induction ps arbitrary: s)
  case (Cons p ps)
  let ?s = "s\<lparr>inline_elements := (inline_elements s)[inline_elements_length s := p AND 0xFFFF, inline_elements_length s + 1 := drop_bit 16 p],
    inline_elements_length := inline_elements_length s + 2\<rparr>"
  have "kelvin_on d ?s sub" using Cons.prems(1) by (simp add: kelvin_on_def draw_ok_def)
  from Cons.IH [OF this] Cons.prems(2) obtain s' where
    "run_methods ops (map (element16 sub) ps) (d, ?s) = Inr (d, s')" "kelvin_on d s' sub"
    "inline_elements_length s' = inline_elements_length s + 2 + 2 * length ps" by auto
  then show ?case using element16_ok [OF Cons.prems(1), of ops p] Cons.prems(2) by (simp add: run_methods_simps)
qed (simp add: run_methods_simps)

text \<open>
  A batch of pairs of indices overruns its array: the array has an odd number of entries, and the check before a pair asks
  for room for one index only. Up to 32767 pairs are stored, and the next one writes behind the array.
\<close>

lemma array_element16_overruns:
  assumes "kelvin_on d s sub" "inline_elements_length s = 0" "length ps = 0x7FFF"
  shows "(\<exists>s'. run_methods ops (map (element16 sub) ps) (d, s) = Inr (d, s') \<and> inline_elements_length s' = 0xFFFE)
    \<and> run_methods ops (map (element16 sub) (ps @ [p])) (d, s) = Inl Out_of_bounds"
proof -
  obtain s' where run: "run_methods ops (map (element16 sub) ps) (d, s) = Inr (d, s')" and k: "kelvin_on d s' sub" and n: "inline_elements_length s' = 0xFFFE"
    using elements16_run [OF assms(1), of ps ops] assms(2,3) by auto
  have "pgraph_method ops d s' sub 0x1800 p = Inl Out_of_bounds"
    using k n by (simp add: element16_method push_element_def kelvin_on_def draw_ok_def arr_set_def)
  then have "run_methods ops [element16 sub p] (d, s') = Inl Out_of_bounds" by (simp add: run_methods_simps run_method_def element16_def)
  then have "run_methods ops (map (element16 sub) (ps @ [p])) (d, s) = Inl Out_of_bounds"
    using run by (simp add: run_methods_def fold_res_append)
  then show ?thesis using run n by blast
qed

lemma demo_kelvin: "kelvin_on demo_device demo_draw sub"
  using demo_draw_ok by (simp add: kelvin_on_def demo_device_def demo_draw_def)

lemma array_element16_overruns_witness:
  "run_methods quiet_ops (map (element16 0) (replicate 0x7FFF 0x20001 @ [0x20001])) (demo_device, demo_draw) = Inl Out_of_bounds"
proof -
  have "inline_elements_length demo_draw = 0" by (simp add: demo_draw_def draw_reset_def)
  from array_element16_overruns [OF demo_kelvin this, of "replicate 0x7FFF 0x20001"] show ?thesis by simp
qed

section \<open>Vertex programs\<close>

text \<open>An upload: the slot of the first instruction, and the words of the program in blocks of 32 methods.\<close>

definition upload_words :: "3 word \<Rightarrow> nat \<Rightarrow> u32 list \<Rightarrow> (3 word \<times> u32 \<times> u32) list" where
  "upload_words sub i ws = map (\<lambda>(j, w). (sub, 0xB00 + of_nat (j mod 32) * 4, w)) (enumerate i ws)"

definition upload :: "3 word \<Rightarrow> u32 \<Rightarrow> u32 list \<Rightarrow> (3 word \<times> u32 \<times> u32) list" where
  "upload sub slot ws = (sub, 0x1E9C, slot) # upload_words sub 0 ws"

text \<open>Numbers of methods outside of a range.\<close>

lemma outside_range:
  fixes cm :: u32
  assumes "lo \<le> cm" "cm \<le> hi"
  shows "k < lo \<Longrightarrow> cm \<noteq> k" "hi < k \<Longrightarrow> cm \<noteq> k"
    "v + (count - 1) * 4 < lo \<Longrightarrow> \<not> case_range v count cm" "hi < v \<Longrightarrow> \<not> case_range v count cm"
  using assms by (auto simp: case_range_def)

lemma upload_word_group:
  assumes "0x970B00 \<le> cm" "cm \<le> 0x970B7C"
  shows "method_dispatch ops d s sub mthd cm w =
    res_bind (res_bind (assert_res (unat (vertexshader_load_slot s) < NV2A_GPU_MAX_VERTEXSHADER_LENGTH * 4)) (\<lambda>_.
      res_bind (arr_set (program_data s) (unat (vertexshader_load_slot s)) w) (\<lambda>ws.
      Inr (s\<lparr>program_data := ws, vertexshader_load_slot := vertexshader_load_slot s + 1, vertexshader_dirty := True\<rparr>)))) (ret d)"
proof -
  have "case_range NV097_SET_TRANSFORM_PROGRAM 32 cm" using assms by (simp add: case_range_def)
  then show ?thesis by (simp add: method_dispatch_def method_groups Let_def case_4_def outside_range [OF assms])
qed

lemma transform_method_number:
  assumes "j < 32"
  shows "0x970B00 \<le> (0x970000 OR (0xB00 + of_nat j * 4) :: u32)" "(0x970000 OR (0xB00 + of_nat j * 4) :: u32) \<le> 0x970B7C"
proof -
  have "\<forall>j\<in>set [0..<32]. 0x970B00 \<le> (0x970000 OR (0xB00 + of_nat j * 4) :: u32) \<and> (0x970000 OR (0xB00 + of_nat j * 4) :: u32) \<le> 0x970B7C"
    by code_simp
  then show "0x970B00 \<le> (0x970000 OR (0xB00 + of_nat j * 4) :: u32)" "(0x970000 OR (0xB00 + of_nat j * 4) :: u32) \<le> 0x970B7C"
    using assms by simp_all
qed

definition stored :: "nat \<Rightarrow> u32 list \<Rightarrow> 'g DrawState \<Rightarrow> 'g DrawState" where
  "stored n ws s = s\<lparr>program_data := take n (program_data s) @ ws @ drop (n + length ws) (program_data s),
     vertexshader_load_slot := of_nat (n + length ws), vertexshader_dirty := (vertexshader_dirty s \<or> ws \<noteq> [])\<rparr>"

lemma stored_Cons:
  assumes "n < length (program_data s)" "vertexshader_load_slot s = of_nat n"
  shows "stored (Suc n) ws (s\<lparr>program_data := (program_data s)[n := w], vertexshader_load_slot := vertexshader_load_slot s + 1, vertexshader_dirty := True\<rparr>)
    = stored n (w # ws) s"
proof -
  have "take (Suc n) ((program_data s)[n := w]) = take n (program_data s) @ [w]"
    using assms(1) by (simp add: take_Suc_conv_app_nth)
  then show ?thesis by (simp add: stored_def)
qed

lemma upload_word:
  assumes "kelvin_on d s sub" "vertexshader_load_slot s = of_nat n" "n < 544" "j < 32"
  shows "run_method ops (sub, 0xB00 + of_nat j * 4, w) (d, s) = Inr (d, s\<lparr>program_data := (program_data s)[n := w],
    vertexshader_load_slot := vertexshader_load_slot s + 1, vertexshader_dirty := True\<rparr>)"
proof (rule run_method_ret)
  have n: "unat (of_nat n :: u32) = n" using assms(3) by (intro unat_of_nat_small) simp
  have "0xB00 + of_nat j * 4 \<noteq> (0 :: u32)" using transform_method_number(1) [OF assms(4)] by auto
  from kelvin_dispatch [OF assms(1) this]
  show "pgraph_method ops d s sub (0xB00 + of_nat j * 4) w = ret d (s\<lparr>program_data := (program_data s)[n := w],
      vertexshader_load_slot := vertexshader_load_slot s + 1, vertexshader_dirty := True\<rparr>)"
    using assms(1-3) n by (simp add: upload_word_group [OF transform_method_number [OF assms(4)]] kelvin_on_def draw_ok_def)
qed

lemma upload_words_run:
  assumes "kelvin_on d s sub" "vertexshader_load_slot s = of_nat n" "n + length ws \<le> 544"
  shows "run_methods ops (upload_words sub i ws) (d, s) = Inr (d, stored n ws s)"
  using assms
proof (induction ws arbitrary: s n i)
  case Nil
  then show ?case by (simp add: run_methods_simps upload_words_def stored_def)
next
  case (Cons w ws)
  let ?s = "s\<lparr>program_data := (program_data s)[n := w], vertexshader_load_slot := vertexshader_load_slot s + 1, vertexshader_dirty := True\<rparr>"
  have k: "kelvin_on d ?s sub" using Cons.prems(1) by (simp add: kelvin_on_def draw_ok_def)
  have "run_methods ops (upload_words sub (Suc i) ws) (d, ?s) = Inr (d, stored (Suc n) ws ?s)"
    by (rule Cons.IH [OF k]) (use Cons.prems in simp_all)
  also have "stored (Suc n) ws ?s = stored n (w # ws) s"
    by (rule stored_Cons) (use Cons.prems in \<open>simp_all add: kelvin_on_def draw_ok_def\<close>)
  finally show ?case using upload_word [OF Cons.prems(1,2), of "i mod 32" ops w] Cons.prems(3)
    by (simp add: run_methods_simps upload_words_def)
qed

lemma upload_run:
  assumes "kelvin_on d s sub" "unat slot * 4 + length ws \<le> 544" "unat slot < 136"
  shows "run_methods ops (upload sub slot ws) (d, s) = Inr (d, stored (unat slot * 4) ws s)"
proof -
  let ?s = "s\<lparr>vertexshader_load_slot := slot * 4\<rparr>"
  have "pgraph_method ops d s sub 0x1E9C slot = ret d ?s"
    using kelvin_dispatch [OF assms(1), of "0x1E9C" ops slot] assms(3) by (simp add: dispatch_simps)
  then have 1: "run_method ops (sub, 0x1E9C, slot) (d, s) = Inr (d, ?s)" by (rule run_method_ret)
  have k: "kelvin_on d ?s sub" using assms(1) by (simp add: kelvin_on_def draw_ok_def)
  have "run_methods ops (upload_words sub 0 ws) (d, ?s) = Inr (d, stored (unat slot * 4) ws ?s)"
    by (rule upload_words_run [OF k]) (use assms(2) in simp_all)
  then show ?thesis using 1 by (simp add: upload_def run_methods_simps stored_def)
qed

lemma upload_words_append: "upload_words sub i (ws @ ws') = upload_words sub i ws @ upload_words sub (i + length ws) ws'"
  by (simp add: upload_words_def enumerate_append_eq)

lemma upload_full:
  assumes "kelvin_on d s sub" "vertexshader_load_slot s = of_nat 544" "ws \<noteq> []"
  shows "run_methods ops (upload_words sub i ws) (d, s) = Inl Assertion_failed"
proof -
  obtain w ws' where ws: "ws = w # ws'" using assms(3) by (cases ws) auto
  have "0xB00 + of_nat (i mod 32) * 4 \<noteq> (0 :: u32)" using transform_method_number(1) [of "i mod 32"] by auto
  from kelvin_dispatch [OF assms(1) this, of ops w]
  have "run_method ops (sub, 0xB00 + of_nat (i mod 32) * 4, w) (d, s) = Inl Assertion_failed"
    using assms(2) by (simp add: run_method_def upload_word_group [OF transform_method_number] assert_res_def)
  then show ?thesis by (simp add: ws upload_words_def run_methods_simps)
qed

lemma program_upload_cases:
  assumes "kelvin_on d s sub" "unat slot < 136"
  shows "run_methods ops (upload sub slot ws) (d, s) =
    (if unat slot * 4 + length ws \<le> 544 then Inr (d, stored (unat slot * 4) ws s) else Inl Assertion_failed)"
proof (cases "unat slot * 4 + length ws \<le> 544")
  case False
  let ?n = "544 - unat slot * 4" and ?i = "unat slot * 4"
  have n: "length (take ?n ws) = ?n" "drop ?n ws \<noteq> []" "?i + ?n = 544" using False assms(2) by auto
  have "run_methods ops (upload sub slot (take ?n ws)) (d, s) = Inr (d, stored ?i (take ?n ws) s)"
    by (rule upload_run [OF assms(1)]) (use assms(2) in simp_all)
  moreover have "upload sub slot ws = upload sub slot (take ?n ws) @ upload_words sub ?n (drop ?n ws)"
    using upload_words_append [of sub 0 "take ?n ws" "drop ?n ws"] n(1) by (simp add: upload_def)
  moreover have "run_methods ops (upload_words sub ?n (drop ?n ws)) (d, stored ?i (take ?n ws) s) = Inl Assertion_failed"
  proof (rule upload_full)
    show "kelvin_on d (stored ?i (take ?n ws) s) sub" using assms n by (simp add: kelvin_on_def draw_ok_def stored_def)
    show "vertexshader_load_slot (stored ?i (take ?n ws) s) = of_nat 544" using n by (simp only: stored_def) (simp del: of_nat_add)
  qed (rule n)
  ultimately show ?thesis using False by (simp add: run_methods_def fold_res_append)
qed (simp add: upload_run assms)

text \<open>
  C22. An upload stores the vertex program: a start slot and the words of a program that fits put the words at the slot's place in the
  program memory, whatever the state before, and change nothing else of the program memory; a program that
  does not fit ends in a failed assertion and not outside of the array.
\<close>

theorem program_upload:
  assumes "kelvin_on d s sub" "unat slot < 136"
  shows "run_methods ops (upload sub slot ws) (d, s) =
    (if unat slot * 4 + length ws \<le> 544 then Inr (d, stored (unat slot * 4) ws s) else Inl Assertion_failed)"
  by (rule program_upload_cases [OF assms])

theorem program_upload_witness:
  "run_methods quiet_ops (upload 0 2 [1, 2, 3, 4]) (demo_device, demo_draw) = Inr (demo_device, stored 8 [1, 2, 3, 4] demo_draw)
    \<and> run_methods quiet_ops (upload 0 135 [1, 2, 3, 4, 5]) (demo_device, demo_draw) = Inl Assertion_failed"
  using program_upload [OF demo_kelvin, of 2 quiet_ops 0 "[1, 2, 3, 4]"] program_upload [OF demo_kelvin, of 135 quiet_ops 0 "[1, 2, 3, 4, 5]"] by simp

text \<open>
  An uploaded program does not reach the shaders: the upload marks the program as dirty, but nothing reads this mark, and it leaves the
  mark of the shaders as it was. If they were not dirty before, the next draw binds its shaders without
  looking for a program at all: the result does not depend on how a program is found or generated.
\<close>

lemma uploaded_program_unused:
  assumes "run_methods ops (upload sub slot ws) (d, s) = Inr (d', s')" "kelvin_on d s sub" "unat slot < 136" "\<not> dirty s D_shaders"
  shows "pgraph_bind_shaders ops pg s' = pgraph_bind_shaders (ops\<lparr>op_program := f\<rparr>) pg s'"
proof -
  have "s' = stored (unat slot * 4) ws s"
    using program_upload_cases [OF assms(2,3), of ops ws] assms(1) by (auto split: if_splits)
  then have "\<not> dirty s' D_shaders" using assms(4) by (simp add: stored_def)
  then show ?thesis by (simp add: pgraph_bind_shaders_def)
qed

lemma uploaded_program_unused_witness:
  "\<exists>d' s'. run_methods quiet_ops (upload 0 0 [1, 2, 3, 5]) (demo_device, set_clean D_shaders demo_draw) = Inr (d', s')
    \<and> pgraph_bind_shaders quiet_ops (pgraph d') s' = pgraph_bind_shaders (quiet_ops\<lparr>op_program := \<lambda>_ _ _. Inl Assertion_failed\<rparr>) (pgraph d') s'"
proof -
  let ?s = "set_clean D_shaders demo_draw"
  have k: "kelvin_on demo_device ?s 0" using demo_kelvin [of 0] by (simp add: kelvin_on_def set_clean_def draw_ok_def)
  have run: "run_methods quiet_ops (upload 0 0 [1, 2, 3, 5]) (demo_device, ?s) = Inr (demo_device, stored (unat (0 :: u32) * 4) [1, 2, 3, 5] ?s)"
    by (rule upload_run [OF k]) simp_all
  show ?thesis using run uploaded_program_unused [OF run k] by (intro exI conjI) simp_all
qed

definition current_program :: "'g DrawState \<Rightarrow> u32 list" where
  "current_program s = drop (unat (vertexshader_start_slot s) * 4) (program_data s)"

lemma program_bytes_take: "take (n * 4) (concat (map word_bytes ws)) = concat (map word_bytes (take n ws))"
proof (induction ws arbitrary: n)
  case (Cons w ws)
  have "length (word_bytes w) = 4" by (simp add: word_bytes_def)
  then show ?case using Cons by (cases n) simp_all
qed simp

lemma program_length_eq:
  assumes "n < length ws div 4" "ws ! (n * 4 + 3) AND 1 \<noteq> 0" "\<forall>i<n. ws ! (i * 4 + 3) AND 1 = 0"
  shows "program_length ws = n + 1"
proof -
  have "[0..<length ws div 4] = [0..<n] @ n # [Suc n..<length ws div 4]" using assms(1) upt_add_eq_append [of 0 n "length ws div 4 - n"] by (simp add: upt_conv_Cons)
  moreover have "find (\<lambda>i. ws ! (i * 4 + 3) AND 1 \<noteq> 0) ([0..<n] @ n # xs) = Some n" for xs
    using assms(2,3) by (simp add: find_Some_iff nth_append) (intro exI [of _ n], simp add: nth_append)
  ultimately show ?thesis by (simp add: program_length_def)
qed

text \<open>
  The key of a vertex program covers a quarter of it: two programs of the same number of instructions whose first words agree, as many as
  there are instructions, have the same hash, however their other words differ. With the same textures and registers they have the same
  key, and the second one is drawn with the shaders of the first.
\<close>

lemma program_key_quarter:
  assumes "program_length (current_program s) = n" "program_length (current_program s') = n"
    "take n (current_program s) = take n (current_program s')" "textures s = textures s'"
  shows "vertex_program_hash s = vertex_program_hash s' \<and> shader_key pg s = shader_key pg s'"
proof -
  have "vertex_program_hash s = vertex_program_hash s'"
    using assms(1-3) by (simp add: vertex_program_hash_def Let_def program_bytes_take flip: current_program_def)
  then show ?thesis using assms(4) by (simp add: shader_key_def)
qed

lemma program_key_quarter_witness:
  "shader_key (pgraph demo_device) (stored 0 [1, 2, 3, 0, 4, 5, 6, 1] demo_draw) = shader_key (pgraph demo_device) (stored 0 [1, 2, 7, 8, 9, 9, 9, 1] demo_draw)"
proof -
  have len: "program_length (current_program (stored 0 (u # v # w # x # [y, z, t, 1]) demo_draw)) = 2" if "x AND 1 = 0" for u v w x y z t
    using that program_length_eq [of 1 "current_program (stored 0 (u # v # w # x # [y, z, t, 1]) demo_draw)"]
    by (simp add: current_program_def stored_def demo_draw_def draw_reset_def)
  have "vertexshader_start_slot demo_draw = 0" by (simp add: demo_draw_def draw_reset_def)
  then have "take 2 (current_program (stored 0 [1, 2, 3, 0, 4, 5, 6, 1] demo_draw)) = take 2 (current_program (stored 0 [1, 2, 7, 8, 9, 9, 9, 1] demo_draw))"
    by (simp add: current_program_def stored_def)
  from program_key_quarter [OF len len this, of "pgraph demo_device"] show ?thesis by (simp add: stored_def)
qed

end
