(* ===== verification/MCPX_APU.thy ===== *)
theory MCPX_APU
  imports Bitfields
begin

text \<open>
  The audio processing unit (\<open>src/hw/xbox/mcpx_apu.c\<close>). The guest asks the voice processor to add voices
  to three lists; the lists are linked through voice structures in guest memory and their heads are
  registers. Every 10 ms the setup engine walks the lists and hands voices that are not active to the
  front end, which traps into the guest. The state holds the registers, the frame timer, the interrupt
  line and the guest's memory, in which the voice structures lie. Shown here: the commands implement
  lists of voices, the frame ends and does what the lists say, and two ways in which a guest stops it.
\<close>

section \<open>Registers and messages\<close>

abbreviation NV_PAPU_ISTS :: hwaddr where "NV_PAPU_ISTS \<equiv> 0x00001000"
abbreviation NV_PAPU_ISTS_GINTSTS :: u32 where "NV_PAPU_ISTS_GINTSTS \<equiv> 0x1"
abbreviation NV_PAPU_ISTS_FETINTSTS :: u32 where "NV_PAPU_ISTS_FETINTSTS \<equiv> 0x10"
abbreviation NV_PAPU_IEN :: hwaddr where "NV_PAPU_IEN \<equiv> 0x00001004"
abbreviation NV_PAPU_FECTL :: hwaddr where "NV_PAPU_FECTL \<equiv> 0x00001100"
abbreviation NV_PAPU_FECTL_FEMETHMODE :: u32 where "NV_PAPU_FECTL_FEMETHMODE \<equiv> 0x000000E0"
abbreviation NV_PAPU_FECTL_FEMETHMODE_TRAPPED :: u32 where "NV_PAPU_FECTL_FEMETHMODE_TRAPPED \<equiv> 0x000000E0"
abbreviation NV_PAPU_FECTL_FETRAPREASON :: u32 where "NV_PAPU_FECTL_FETRAPREASON \<equiv> 0x00000F00"
abbreviation NV_PAPU_FECTL_FETRAPREASON_REQUESTED :: u32 where "NV_PAPU_FECTL_FETRAPREASON_REQUESTED \<equiv> 0x00000F00"
abbreviation NV_PAPU_FECV :: hwaddr where "NV_PAPU_FECV \<equiv> 0x00001110"
abbreviation NV_PAPU_FEAV :: hwaddr where "NV_PAPU_FEAV \<equiv> 0x00001118"
abbreviation NV_PAPU_FEDECMETH :: hwaddr where "NV_PAPU_FEDECMETH \<equiv> 0x00001300"
abbreviation NV_PAPU_FEDECPARAM :: hwaddr where "NV_PAPU_FEDECPARAM \<equiv> 0x00001304"
abbreviation NV_PAPU_FEMEMADDR :: hwaddr where "NV_PAPU_FEMEMADDR \<equiv> 0x00001324"
abbreviation NV_PAPU_FEMEMDATA :: hwaddr where "NV_PAPU_FEMEMDATA \<equiv> 0x00001334"
abbreviation NV_PAPU_FETFORCE1 :: hwaddr where "NV_PAPU_FETFORCE1 \<equiv> 0x00001504"
abbreviation NV_PAPU_FETFORCE1_SE2FE_IDLE_VOICE :: u32 where "NV_PAPU_FETFORCE1_SE2FE_IDLE_VOICE \<equiv> 0x8000"
abbreviation NV_PAPU_SECTL :: hwaddr where "NV_PAPU_SECTL \<equiv> 0x00002000"
abbreviation NV_PAPU_SECTL_XCNTMODE :: u64 where "NV_PAPU_SECTL_XCNTMODE \<equiv> 0x00000018"
abbreviation NV_PAPU_VPVADDR :: hwaddr where "NV_PAPU_VPVADDR \<equiv> 0x0000202C"

abbreviation NV1BA0_PIO_FREE :: u32 where "NV1BA0_PIO_FREE \<equiv> 0x00000010"
abbreviation NV1BA0_PIO_SET_ANTECEDENT_VOICE :: u32 where "NV1BA0_PIO_SET_ANTECEDENT_VOICE \<equiv> 0x00000120"
abbreviation NV1BA0_PIO_VOICE_ON :: u32 where "NV1BA0_PIO_VOICE_ON \<equiv> 0x00000124"
abbreviation NV1BA0_PIO_VOICE_OFF :: u32 where "NV1BA0_PIO_VOICE_OFF \<equiv> 0x00000128"
abbreviation NV1BA0_PIO_SET_CURRENT_VOICE :: u32 where "NV1BA0_PIO_SET_CURRENT_VOICE \<equiv> 0x000002F8"
abbreviation SE2FE_IDLE_VOICE :: u32 where "SE2FE_IDLE_VOICE \<equiv> 0x00008000"

abbreviation NV_PAVS_SIZE :: u32 where "NV_PAVS_SIZE \<equiv> 0x00000080"
abbreviation NV_PAVS_VOICE_PAR_STATE :: hwaddr where "NV_PAVS_VOICE_PAR_STATE \<equiv> 0x00000054"
abbreviation NV_PAVS_VOICE_TAR_PITCH_LINK :: hwaddr where "NV_PAVS_VOICE_TAR_PITCH_LINK \<equiv> 0x0000007c"

text \<open>The masks of the fields.\<close>

definition NV_PAPU_FEAV_VALUE :: u32 where "NV_PAPU_FEAV_VALUE = 0x0000FFFF"
definition NV_PAPU_FEAV_LST :: u32 where "NV_PAPU_FEAV_LST = 0x00030000"
definition ACTIVE_VOICE :: u32 where "ACTIVE_VOICE = 0x00200000"
definition NEXT_VOICE_HANDLE :: u32 where "NEXT_VOICE_HANDLE = 0x0000FFFF"

lemmas apu_masks = NV_PAPU_FEAV_VALUE_def NV_PAPU_FEAV_LST_def ACTIVE_VOICE_def NEXT_VOICE_HANDLE_def

interpretation feav_value: bitfield NV_PAPU_FEAV_VALUE 0 16
  by unfold_locales (simp_all add: apu_masks mask_eq_exp_minus_1)

interpretation feav_lst: bitfield NV_PAPU_FEAV_LST 16 2
  by unfold_locales (simp_all add: apu_masks mask_eq_exp_minus_1)

interpretation active_voice: bitfield ACTIVE_VOICE 21 1
  by unfold_locales (simp_all add: apu_masks mask_eq_exp_minus_1)

interpretation next_voice: bitfield NEXT_VOICE_HANDLE 0 16
  by unfold_locales (simp_all add: apu_masks mask_eq_exp_minus_1)

section \<open>The device\<close>

record MCPXAPUState =
  regs :: "hwaddr \<Rightarrow> u32"
  frame_timer :: "int option"
  irq :: bool
  memory :: mem

abbreviation set_reg :: "hwaddr \<Rightarrow> u32 \<Rightarrow> MCPXAPUState \<Rightarrow> MCPXAPUState" where
  "set_reg r v d \<equiv> d\<lparr>regs := (regs d)(r := v)\<rparr>"

record voice_list = top :: hwaddr current :: hwaddr "next" :: hwaddr

definition voice_list_regs :: "voice_list list" where
  "voice_list_regs =
     [\<lparr>top = 0x2054, current = 0x2058, next = 0x205C\<rparr>,
      \<lparr>top = 0x2060, current = 0x2064, next = 0x2068\<rparr>,
      \<lparr>top = 0x206C, current = 0x2070, next = 0x2074\<rparr>]"

text \<open>The address of a voice structure wraps at 32 bits.\<close>

definition voice_addr :: "MCPXAPUState \<Rightarrow> u32 \<Rightarrow> hwaddr" where
  "voice_addr d voice_handle = ucast (regs d NV_PAPU_VPVADDR + voice_handle * NV_PAVS_SIZE)"

definition voice_get_mask :: "MCPXAPUState \<Rightarrow> u32 \<Rightarrow> hwaddr \<Rightarrow> u32 \<Rightarrow> u32 res" where
  "voice_get_mask d voice_handle offset msk =
     res_bind (assert_res (voice_handle \<noteq> 0xFFFF)) (\<lambda>_.
     Inr (drop_bit (ffs msk - 1) (ldl_le (memory d) (voice_addr d voice_handle + offset) AND msk)))"

definition voice_set_mask :: "MCPXAPUState \<Rightarrow> u32 \<Rightarrow> hwaddr \<Rightarrow> u32 \<Rightarrow> u32 \<Rightarrow> MCPXAPUState res" where
  "voice_set_mask d voice_handle offset msk val =
     res_bind (assert_res (voice_handle \<noteq> 0xFFFF)) (\<lambda>_.
     let a = voice_addr d voice_handle + offset; v = ldl_le (memory d) a AND NOT msk in
     Inr (d\<lparr>memory := stl_le (memory d) a (v OR (push_bit (ffs msk - 1) val AND msk))\<rparr>))"

definition update_irq :: "MCPXAPUState \<Rightarrow> MCPXAPUState" where
  "update_irq d =
     (if regs d NV_PAPU_IEN AND NV_PAPU_ISTS_GINTSTS \<noteq> 0
         \<and> (regs d NV_PAPU_ISTS AND NOT NV_PAPU_ISTS_GINTSTS) AND regs d NV_PAPU_IEN \<noteq> 0
      then (set_reg NV_PAPU_ISTS (regs d NV_PAPU_ISTS OR NV_PAPU_ISTS_GINTSTS) d)\<lparr>irq := True\<rparr>
      else (set_reg NV_PAPU_ISTS (regs d NV_PAPU_ISTS AND NOT NV_PAPU_ISTS_GINTSTS) d)\<lparr>irq := False\<rparr>)"

definition mcpx_apu_read :: "MCPXAPUState \<Rightarrow> hwaddr \<Rightarrow> u64" where
  "mcpx_apu_read d addr = (if addr < 0x20000 then ucast (regs d addr) else 0)"

text \<open>A write at the virtual time \<open>now\<close>, in milliseconds.\<close>

definition mcpx_apu_write :: "int \<Rightarrow> hwaddr \<Rightarrow> u64 \<Rightarrow> MCPXAPUState \<Rightarrow> MCPXAPUState" where
  "mcpx_apu_write now addr val d =
     (if addr = NV_PAPU_ISTS then update_irq (set_reg NV_PAPU_ISTS (regs d NV_PAPU_ISTS AND ucast (NOT val)) d)
      else if addr = NV_PAPU_SECTL then
        (let d = (if drop_bit 3 (val AND NV_PAPU_SECTL_XCNTMODE) = 0 then d\<lparr>frame_timer := None\<rparr>
                  else d\<lparr>frame_timer := Some (now + 10)\<rparr>) in
         set_reg addr (ucast val) d)
      else if addr = NV_PAPU_FEMEMDATA then
        set_reg addr (ucast val)
          (d\<lparr>memory := stl_le (memory d) (ucast (regs d NV_PAPU_FEMEMADDR)) (ucast val)\<rparr>)
      else if addr < 0x20000 then set_reg addr (ucast val) d
      else d)"

section \<open>The front end\<close>

definition fe_voice_on :: "u32 \<Rightarrow> MCPXAPUState \<Rightarrow> MCPXAPUState res" where
  "fe_voice_on argument d =
     (let selected_handle = argument AND 0x0000FFFF; lst = GET_MASK (regs d NV_PAPU_FEAV) NV_PAPU_FEAV_LST in
      if lst \<noteq> 0 then
        res_bind (arr_get voice_list_regs (unat lst - 1)) (\<lambda>vl.
        res_bind (voice_set_mask d selected_handle NV_PAVS_VOICE_TAR_PITCH_LINK NEXT_VOICE_HANDLE (regs d (top vl))) (\<lambda>d.
        Inr (set_reg (top vl) selected_handle d)))
      else
        let antecedent_voice = GET_MASK (regs d NV_PAPU_FEAV) NV_PAPU_FEAV_VALUE in
        res_bind (assert_res (antecedent_voice \<noteq> 0xFFFF)) (\<lambda>_.
        res_bind (voice_get_mask d antecedent_voice NV_PAVS_VOICE_TAR_PITCH_LINK NEXT_VOICE_HANDLE) (\<lambda>next_handle.
        res_bind (voice_set_mask d selected_handle NV_PAVS_VOICE_TAR_PITCH_LINK NEXT_VOICE_HANDLE next_handle) (\<lambda>d.
        res_bind (voice_set_mask d antecedent_voice NV_PAVS_VOICE_TAR_PITCH_LINK NEXT_VOICE_HANDLE selected_handle) (\<lambda>d.
        voice_set_mask d selected_handle NV_PAVS_VOICE_PAR_STATE ACTIVE_VOICE 1)))))"

definition fe_idle_voice :: "MCPXAPUState \<Rightarrow> MCPXAPUState res" where
  "fe_idle_voice d =
     (if regs d NV_PAPU_FETFORCE1 AND NV_PAPU_FETFORCE1_SE2FE_IDLE_VOICE \<noteq> 0
      then
        let d = set_reg NV_PAPU_FECTL (regs d NV_PAPU_FECTL AND NOT NV_PAPU_FECTL_FEMETHMODE) d;
            d = set_reg NV_PAPU_FECTL (regs d NV_PAPU_FECTL OR NV_PAPU_FECTL_FEMETHMODE_TRAPPED) d;
            d = set_reg NV_PAPU_FECTL (regs d NV_PAPU_FECTL AND NOT NV_PAPU_FECTL_FETRAPREASON) d;
            d = set_reg NV_PAPU_FECTL (regs d NV_PAPU_FECTL OR NV_PAPU_FECTL_FETRAPREASON_REQUESTED) d;
            d = set_reg NV_PAPU_ISTS (regs d NV_PAPU_ISTS OR NV_PAPU_ISTS_FETINTSTS) d in
        Inr (update_irq d)
      else Inl Assertion_failed)"

definition fe_method :: "u32 \<Rightarrow> u32 \<Rightarrow> MCPXAPUState \<Rightarrow> MCPXAPUState res" where
  "fe_method method argument d =
     (let d = set_reg NV_PAPU_FEDECPARAM argument (set_reg NV_PAPU_FEDECMETH method d) in
      if method = NV1BA0_PIO_SET_ANTECEDENT_VOICE then Inr (set_reg NV_PAPU_FEAV argument d)
      else if method = NV1BA0_PIO_VOICE_ON then fe_voice_on argument d
      else if method = NV1BA0_PIO_VOICE_OFF then
        voice_set_mask d argument NV_PAVS_VOICE_PAR_STATE ACTIVE_VOICE 0
      else if method = NV1BA0_PIO_SET_CURRENT_VOICE then Inr (set_reg NV_PAPU_FECV argument d)
      else if method = SE2FE_IDLE_VOICE then fe_idle_voice d
      else Inl Assertion_failed)"

section \<open>The voice processor and the global processor\<close>

definition vp_read :: "hwaddr \<Rightarrow> u64" where
  "vp_read addr = (if addr = ucast NV1BA0_PIO_FREE then 0x80 else 0)"

definition vp_write :: "hwaddr \<Rightarrow> u64 \<Rightarrow> MCPXAPUState \<Rightarrow> MCPXAPUState res" where
  "vp_write addr val d =
     (if addr \<in> {ucast NV1BA0_PIO_SET_ANTECEDENT_VOICE, ucast NV1BA0_PIO_VOICE_ON, ucast NV1BA0_PIO_VOICE_OFF,
                 ucast NV1BA0_PIO_SET_CURRENT_VOICE}
      then fe_method (ucast addr) (ucast val) d else Inr d)"

definition gp_read :: "hwaddr \<Rightarrow> u64" where
  "gp_read addr = 0"

definition gp_write :: "hwaddr \<Rightarrow> u64 \<Rightarrow> MCPXAPUState \<Rightarrow> MCPXAPUState" where
  "gp_write addr val d = d"

text \<open>The regions that the device's base address register covers: the two processors overlap the registers.\<close>

definition apu_bar_read :: "MCPXAPUState \<Rightarrow> hwaddr \<Rightarrow> u64" where
  "apu_bar_read d addr =
     (if 0x20000 \<le> addr \<and> addr < 0x30000 then vp_read (addr - 0x20000)
      else if 0x30000 \<le> addr \<and> addr < 0x40000 then gp_read (addr - 0x30000)
      else mcpx_apu_read d addr)"

definition apu_bar_write :: "int \<Rightarrow> hwaddr \<Rightarrow> u64 \<Rightarrow> MCPXAPUState \<Rightarrow> MCPXAPUState res" where
  "apu_bar_write now addr val d =
     (if 0x20000 \<le> addr \<and> addr < 0x30000 then vp_write (addr - 0x20000) val d
      else if 0x30000 \<le> addr \<and> addr < 0x40000 then Inr (gp_write (addr - 0x30000) val d)
      else Inr (mcpx_apu_write now addr val d))"

section \<open>The setup engine\<close>

text \<open>One round of the loop over a list, and the loop; \<open>None\<close> stands for a loop that does not end.\<close>

definition se_voice :: "voice_list \<Rightarrow> MCPXAPUState \<Rightarrow> MCPXAPUState res" where
  "se_voice vl d =
     res_bind (voice_get_mask d (regs d (current vl)) NV_PAVS_VOICE_TAR_PITCH_LINK NEXT_VOICE_HANDLE) (\<lambda>n.
     let d = set_reg (next vl) n d in
     res_bind (voice_get_mask d (regs d (current vl)) NV_PAVS_VOICE_PAR_STATE ACTIVE_VOICE) (\<lambda>active.
     res_bind (if active = 0 then fe_method SE2FE_IDLE_VOICE (regs d (current vl)) d else Inr d) (\<lambda>d.
     Inr (set_reg (current vl) (regs d (next vl)) d))))"

partial_function (option) se_voices :: "voice_list \<Rightarrow> MCPXAPUState \<Rightarrow> MCPXAPUState res option" where
  [code]: "se_voices vl d =
     (if regs d (current vl) \<noteq> 0xFFFF
      then (case se_voice vl d of Inl e \<Rightarrow> Some (Inl e) | Inr d' \<Rightarrow> se_voices vl d')
      else Some (Inr d))"

primrec se_lists :: "voice_list list \<Rightarrow> MCPXAPUState \<Rightarrow> MCPXAPUState res option" where
  "se_lists [] d = Some (Inr d)"
| "se_lists (vl # vls) d =
     Option.bind (se_voices vl (set_reg (current vl) (regs d (top vl)) d)) (\<lambda>r.
     case r of Inl e \<Rightarrow> Some (Inl e) | Inr d \<Rightarrow> se_lists vls d)"

definition se_frame :: "int \<Rightarrow> MCPXAPUState \<Rightarrow> MCPXAPUState res option" where
  "se_frame now d = se_lists voice_list_regs (d\<lparr>frame_timer := Some (now + 10)\<rparr>)"

section \<open>Voices in memory\<close>

definition voice_word :: "MCPXAPUState \<Rightarrow> u32 \<Rightarrow> hwaddr \<Rightarrow> u32" where
  "voice_word d h off = ldl_le (memory d) (voice_addr d h + off)"

definition next_of :: "MCPXAPUState \<Rightarrow> u32 \<Rightarrow> u32" where
  "next_of d h = GET_MASK (voice_word d h NV_PAVS_VOICE_TAR_PITCH_LINK) NEXT_VOICE_HANDLE"

definition active :: "MCPXAPUState \<Rightarrow> u32 \<Rightarrow> bool" where
  "active d h \<longleftrightarrow> GET_MASK (voice_word d h NV_PAVS_VOICE_PAR_STATE) ACTIVE_VOICE \<noteq> 0"

definition put_voice :: "u32 \<Rightarrow> hwaddr \<Rightarrow> u32 \<Rightarrow> MCPXAPUState \<Rightarrow> MCPXAPUState" where
  "put_voice h off v d = d\<lparr>memory := stl_le (memory d) (voice_addr d h + off) v\<rparr>"

lemma voice_get_mask_eq:
  "h \<noteq> 0xFFFF \<Longrightarrow> voice_get_mask d h off msk = Inr (GET_MASK (voice_word d h off) msk)"
  by (simp add: voice_get_mask_def voice_word_def GET_MASK_def)

lemma voice_set_mask_eq:
  "h \<noteq> 0xFFFF \<Longrightarrow> voice_set_mask d h off msk val = Inr (put_voice h off (SET_MASK (voice_word d h off) msk val) d)"
  by (simp add: voice_set_mask_def voice_word_def SET_MASK_def put_voice_def Let_def)

lemma put_voice_other [simp]:
  "regs (put_voice h off v d) = regs d" "frame_timer (put_voice h off v d) = frame_timer d"
  "irq (put_voice h off v d) = irq d" "voice_addr (put_voice h off v d) = voice_addr d"
  by (simp_all add: put_voice_def voice_addr_def [abs_def])

text \<open>Two words that do not overlap.\<close>

lemma apart4_nat:
  assumes "unat a + 4 \<le> unat b" "unat b < 2 ^ 63"
  shows "apart4 a b" "apart4 b a"
proof -
  have "unat (b - a) = unat b - unat a" using assms(1) by (simp add: unat_sub word_le_nat_alt)
  then have 1: "4 \<le> b - a" using assms(1) by (simp add: word_le_nat_alt)
  have "unat (a - b) = 2 ^ 64 + unat a - unat b" using assms(1) unat_sub_if' [of a b] by (simp add: word_le_nat_alt)
  then have 2: "4 \<le> a - b" using assms by (simp add: word_le_nat_alt)
  show "apart4 a b" "apart4 b a" using 1 2 by (simp_all add: apart4_def)
qed

text \<open>The structures of two voices are at least their size apart, also when the addresses wrap.\<close>

lemma voice_addr_apart:
  assumes h: "unat h < 0x10000" "unat h' < 0x10000" "h \<noteq> h'"
  shows "unat (voice_addr d h) + 0x80 \<le> unat (voice_addr d h') \<or> unat (voice_addr d h') + 0x80 \<le> unat (voice_addr d h)"
proof -
  let ?b = "unat (regs d NV_PAPU_VPVADDR)"
  have addr: "unat (voice_addr d k) = (?b + 128 * unat k) mod 2 ^ 32" for k :: u32
    by (simp add: voice_addr_def unat_ucast_u64 unat_word_ariths mod_simps mult.commute)
  have "unat h \<noteq> unat h'" using h(3) word_unat_eq_iff by blast
  then consider "unat h < unat h'" | "unat h' < unat h" by linarith
  moreover have far: "x mod 2 ^ 32 + 128 \<le> y mod 2 ^ 32 \<or> y mod 2 ^ 32 + 128 \<le> x mod 2 ^ 32"
    if "y = x + 128 * k" "0 < k" "k < 0x10000" for x y k :: nat
  proof -
    have r: "x mod 2 ^ 32 < 2 ^ 32" by simp
    have y: "y mod 2 ^ 32 = (x mod 2 ^ 32 + 128 * k) mod 2 ^ 32" unfolding that(1) by (simp add: mod_simps)
    show ?thesis
    proof (cases "x mod 2 ^ 32 + 128 * k < 2 ^ 32")
      case True
      then have "y mod 2 ^ 32 = x mod 2 ^ 32 + 128 * k" unfolding y by (rule mod_less)
      then show ?thesis using that(2) by linarith
    next
      case False
      then have "y mod 2 ^ 32 = x mod 2 ^ 32 + 128 * k - 2 ^ 32"
        unfolding y using r that(3) by (subst mod_if, subst mod_less) simp_all
      moreover have "128 * k + 128 \<le> 2 ^ 32" using that(3) by simp
      ultimately show ?thesis using False by linarith
    qed
  qed
  ultimately show ?thesis
  proof cases
    case 1
    show ?thesis unfolding addr by (rule far [of _ _ "unat h' - unat h"]) (use 1 h in auto)
  next
    case 2
    have "(?b + 128 * unat h') mod 2 ^ 32 + 128 \<le> (?b + 128 * unat h) mod 2 ^ 32
        \<or> (?b + 128 * unat h) mod 2 ^ 32 + 128 \<le> (?b + 128 * unat h') mod 2 ^ 32"
      by (rule far [of _ _ "unat h - unat h'"]) (use 2 h in auto)
    then show ?thesis unfolding addr by auto
  qed
qed

lemma voice_word_put:
  assumes "unat h < 0x10000" "unat h' < 0x10000"
    and "off \<in> {NV_PAVS_VOICE_PAR_STATE, NV_PAVS_VOICE_TAR_PITCH_LINK}"
    and "off' \<in> {NV_PAVS_VOICE_PAR_STATE, NV_PAVS_VOICE_TAR_PITCH_LINK}"
  shows "voice_word (put_voice h off v d) h' off' = (if h' = h \<and> off' = off then v else voice_word d h' off')"
proof -
  let ?a = "voice_addr d h + off" and ?b = "voice_addr d h' + off'"
  have small: "unat (voice_addr d k) < 2 ^ 32" for k
    unfolding voice_addr_def unat_ucast_u64 using unsigned_less [of "regs d NV_PAPU_VPVADDR + k * NV_PAVS_SIZE", where ?'a = nat] by simp
  have sum: "unat (voice_addr d k + x) = unat (voice_addr d k) + unat x"
    if "x \<in> {NV_PAVS_VOICE_PAR_STATE, NV_PAVS_VOICE_TAR_PITCH_LINK}" for k x
    using small [of k] that by (subst unat_add_lem [THEN iffD1]) auto
  have "apart4 ?a ?b" if "\<not> (h' = h \<and> off' = off)"
  proof -
    have "unat ?a + 4 \<le> unat ?b \<or> unat ?b + 4 \<le> unat ?a"
    proof (cases "h' = h")
      case True
      then show ?thesis using that assms(3,4) by (auto simp: sum)
    next
      case False
      then show ?thesis using voice_addr_apart [of h h' d] assms by (auto simp: sum)
    qed
    moreover have "unat ?a < 2 ^ 63" "unat ?b < 2 ^ 63" using small [of h] small [of h'] assms(3,4) by (auto simp: sum)
    ultimately show ?thesis using apart4_nat by blast
  qed
  then show ?thesis
    by (auto simp: voice_word_def put_voice_def voice_addr_def ldl_stl_same ldl_stl_apart)
qed

section \<open>Lists of voices\<close>

text \<open>The handles that a list in memory links, from the handle in its head to the end mark.\<close>

fun chain :: "MCPXAPUState \<Rightarrow> u32 \<Rightarrow> u32 list \<Rightarrow> bool" where
  "chain d h [] \<longleftrightarrow> h = 0xFFFF"
| "chain d h (v # vs) \<longleftrightarrow> h = v \<and> unat v < 0xFFFF \<and> chain d (next_of d v) vs"

text \<open>What the guest asks for, and the writes to the voice processor that ask for it.\<close>

datatype voice_command = On_top nat u32 | On_after u32 u32 | Off u32

fun command_writes :: "voice_command \<Rightarrow> (hwaddr \<times> u64) list" where
  "command_writes (On_top l h) =
     [(ucast NV1BA0_PIO_SET_ANTECEDENT_VOICE, push_bit 16 (of_nat (l + 1))), (ucast NV1BA0_PIO_VOICE_ON, ucast h)]"
| "command_writes (On_after a h) =
     [(ucast NV1BA0_PIO_SET_ANTECEDENT_VOICE, ucast a), (ucast NV1BA0_PIO_VOICE_ON, ucast h)]"
| "command_writes (Off h) = [(ucast NV1BA0_PIO_VOICE_OFF, ucast h)]"

definition run_command :: "voice_command \<Rightarrow> MCPXAPUState \<Rightarrow> MCPXAPUState res" where
  "run_command c = fold_res (\<lambda>(addr, val). vp_write addr val) (command_writes c)"

text \<open>The specification: three lists of handles and the set of active voices.\<close>

type_synonym voices = "u32 list list \<times> u32 set"

fun insert_after :: "u32 \<Rightarrow> u32 \<Rightarrow> u32 list \<Rightarrow> u32 list" where
  "insert_after a h [] = []"
| "insert_after a h (v # vs) = (if v = a then v # h # vs else v # insert_after a h vs)"

fun command_ok :: "voices \<Rightarrow> voice_command \<Rightarrow> bool" where
  "command_ok (L, A) (On_top l h) \<longleftrightarrow> l < 3 \<and> unat h < 0xFFFF \<and> h \<notin> set (concat L)"
| "command_ok (L, A) (On_after a h) \<longleftrightarrow> a \<in> set (concat L) \<and> unat h < 0xFFFF \<and> h \<notin> set (concat L)"
| "command_ok (L, A) (Off h) \<longleftrightarrow> unat h < 0xFFFF"

text \<open>A voice that is added at the top of a list is not made active.\<close>

fun command_do :: "voice_command \<Rightarrow> voices \<Rightarrow> voices" where
  "command_do (On_top l h) (L, A) = (L[l := h # L ! l], A)"
| "command_do (On_after a h) (L, A) = (map (insert_after a h) L, insert h A)"
| "command_do (Off h) (L, A) = (L, A - {h})"

fun commands_ok :: "voices \<Rightarrow> voice_command list \<Rightarrow> bool" where
  "commands_ok V [] \<longleftrightarrow> True"
| "commands_ok V (c # cs) \<longleftrightarrow> command_ok V c \<and> commands_ok (command_do c V) cs"

definition voices_at :: "MCPXAPUState \<Rightarrow> voices \<Rightarrow> bool" where
  "voices_at d = (\<lambda>(L, A). list_all2 (\<lambda>vl. chain d (regs d (top vl))) voice_list_regs L
     \<and> distinct (concat L) \<and> (\<forall>h. unat h < 0xFFFF \<longrightarrow> active d h = (h \<in> A)))"

text \<open>The links and flags depend on the memory and on the base address only.\<close>

lemma voice_state_cong:
  assumes "memory d' = memory d" "regs d' NV_PAPU_VPVADDR = regs d NV_PAPU_VPVADDR"
  shows "next_of d' = next_of d" "active d' = active d" "voice_word d' = voice_word d"
  using assms by (simp_all add: next_of_def [abs_def] active_def [abs_def] voice_word_def [abs_def] voice_addr_def)

lemma chain_cong: "(\<And>v. v \<in> set vs \<Longrightarrow> next_of d' v = next_of d v) \<Longrightarrow> chain d' h vs = chain d h vs"
  by (induction vs arbitrary: h) auto

lemma chain_handles: "chain d h vs \<Longrightarrow> v \<in> set vs \<Longrightarrow> unat v < 0xFFFF"
  by (induction vs arbitrary: h) auto

lemma chain_head: "chain d h vs \<Longrightarrow> unat h < 0x10000"
  by (cases vs) auto

lemma next_of_small: "unat (next_of d h) < 0x10000"
  using next_voice.get_less [of "voice_word d h NV_PAVS_VOICE_TAR_PITCH_LINK"] by (simp add: next_of_def)

lemma handle_ne: "unat h < 0xFFFF \<Longrightarrow> h \<noteq> 0xFFFF" for h :: u32
  by auto

text \<open>Linking a voice and switching it on or off.\<close>

abbreviation link :: "u32 \<Rightarrow> u32 \<Rightarrow> MCPXAPUState \<Rightarrow> MCPXAPUState" where
  "link h n d \<equiv> put_voice h NV_PAVS_VOICE_TAR_PITCH_LINK
     (SET_MASK (voice_word d h NV_PAVS_VOICE_TAR_PITCH_LINK) NEXT_VOICE_HANDLE n) d"

abbreviation switch :: "u32 \<Rightarrow> u32 \<Rightarrow> MCPXAPUState \<Rightarrow> MCPXAPUState" where
  "switch h b d \<equiv> put_voice h NV_PAVS_VOICE_PAR_STATE
     (SET_MASK (voice_word d h NV_PAVS_VOICE_PAR_STATE) ACTIVE_VOICE b) d"

lemma next_of_link:
  "unat h < 0xFFFF \<Longrightarrow> unat v < 0x10000 \<Longrightarrow> unat n < 0x10000 \<Longrightarrow> next_of (link h n d) v = (if v = h then n else next_of d v)"
  by (simp add: next_of_def voice_word_put next_voice.get_set_fits)

lemma active_link: "unat h < 0xFFFF \<Longrightarrow> unat v < 0x10000 \<Longrightarrow> active (link h n d) v = active d v"
  by (simp add: active_def voice_word_put)

lemma next_of_switch: "unat h < 0xFFFF \<Longrightarrow> unat v < 0x10000 \<Longrightarrow> next_of (switch h b d) v = next_of d v"
  by (simp add: next_of_def voice_word_put)

lemma active_switch:
  "unat h < 0xFFFF \<Longrightarrow> unat v < 0x10000 \<Longrightarrow> b \<in> {0, 1} \<Longrightarrow> active (switch h b d) v = (if v = h then b = 1 else active d v)"
  by (auto simp: active_def voice_word_put active_voice.get_set_fits)

lemma fe_voice_on_top:
  assumes "GET_MASK (regs d NV_PAPU_FEAV) NV_PAPU_FEAV_LST = of_nat (Suc l)" "l < 3"
    and "arg AND 0xFFFF = h" "unat h < 0xFFFF"
  shows "fe_voice_on arg d = Inr (set_reg (top (voice_list_regs ! l)) h (link h (regs d (top (voice_list_regs ! l))) d))"
proof -
  have "unat (of_nat (Suc l) :: u32) = Suc l" using assms(2) by (intro unat_of_nat_u32) simp
  moreover from this have "(of_nat (Suc l) :: u32) \<noteq> 0" by (metis nat.distinct(1) unat_0)
  moreover have "l < length voice_list_regs" using assms(2) by (simp add: voice_list_regs_def)
  ultimately show ?thesis
    using assms(1,3) handle_ne [OF assms(4)]
    by (simp add: fe_voice_on_def Let_def voice_set_mask_eq del: of_nat_Suc)
qed

lemma fe_voice_on_after:
  assumes "GET_MASK (regs d NV_PAPU_FEAV) NV_PAPU_FEAV_LST = 0" "GET_MASK (regs d NV_PAPU_FEAV) NV_PAPU_FEAV_VALUE = a"
    and "arg AND 0xFFFF = h" "unat h < 0xFFFF" "unat a < 0xFFFF"
  shows "fe_voice_on arg d = Inr (switch h 1 (link a h (link h (next_of d a) d)))"
  using assms(1-3) handle_ne [OF assms(4)] handle_ne [OF assms(5)]
  by (simp add: fe_voice_on_def Let_def voice_set_mask_eq voice_get_mask_eq next_of_def)

lemma handle_mask: "unat h < 0x10000 \<Longrightarrow> h AND 0xFFFF = h" for h :: u32
proof -
  assume h: "unat h < 0x10000"
  have "(0xFFFF :: u32) = mask 16" by (simp add: mask_eq_exp_minus_1)
  moreover have "take_bit 16 h = h" using h by (simp add: word_unat_eq_iff unsigned_take_bit_eq take_bit_nat_eq_self)
  ultimately show ?thesis by (simp add: take_bit_eq_mask)
qed

lemma ucast_u64_u32 [simp]: "ucast (ucast (h :: u32) :: u64) = h"
  by (rule bit_word_eqI) (simp add: bit_simps)

lemma vp_write_antecedent:
  "vp_write 0x120 val d =
     Inr (set_reg NV_PAPU_FEAV (ucast val) (set_reg NV_PAPU_FEDECPARAM (ucast val) (set_reg NV_PAPU_FEDECMETH 0x120 d)))"
  by (simp add: vp_write_def fe_method_def Let_def)

lemma vp_write_on:
  "vp_write 0x124 val d =
     fe_voice_on (ucast val) (set_reg NV_PAPU_FEDECPARAM (ucast val) (set_reg NV_PAPU_FEDECMETH 0x124 d))"
  by (simp add: vp_write_def fe_method_def Let_def)

lemma vp_write_off:
  "vp_write 0x128 val d = voice_set_mask (set_reg NV_PAPU_FEDECPARAM (ucast val) (set_reg NV_PAPU_FEDECMETH 0x128 d))
     (ucast val) NV_PAVS_VOICE_PAR_STATE ACTIVE_VOICE 0"
  by (simp add: vp_write_def fe_method_def Let_def)

text \<open>Registers that neither the lists nor the voices depend on.\<close>

definition list_regs :: "hwaddr set" where
  "list_regs = insert NV_PAPU_VPVADDR (top ` set voice_list_regs)"

lemma list_regs_eq: "list_regs = {NV_PAPU_VPVADDR, 0x2054, 0x2060, 0x206C}"
  by (simp add: list_regs_def voice_list_regs_def insert_commute)

lemma voices_at_cong:
  assumes "memory d' = memory d" "\<And>r. r \<in> list_regs \<Longrightarrow> regs d' r = regs d r"
  shows "voices_at d' V = voices_at d V"
proof -
  have "next_of d' = next_of d" "active d' = active d"
    using assms by (auto intro!: voice_state_cong simp: list_regs_def)
  moreover from this have "chain d' = chain d" by (intro ext chain_cong) simp
  moreover have "regs d' (top vl) = regs d (top vl)" if "vl \<in> set voice_list_regs" for vl
    using assms(2) that by (auto simp: list_regs_def)
  ultimately show ?thesis
    unfolding voices_at_def by (auto simp: case_prod_beta intro: list.rel_mono_strong)
qed

text \<open>The relation for the three lists one by one.\<close>

lemma voices_at_three:
  "voices_at d ([x, y, z], A) \<longleftrightarrow> chain d (regs d 0x2054) x \<and> chain d (regs d 0x2060) y \<and> chain d (regs d 0x206C) z
    \<and> distinct (x @ y @ z) \<and> (\<forall>h. unat h < 0xFFFF \<longrightarrow> active d h = (h \<in> A))"
  by (simp add: voices_at_def voice_list_regs_def)

lemma voices_at_cases:
  assumes "voices_at d (L, A)"
  obtains x y z where "L = [x, y, z]"
proof -
  have "length L = 3" using assms by (auto simp: voices_at_def voice_list_regs_def dest: list_all2_lengthD)
  then show ?thesis using that by (auto simp: numeral_3_eq_3 length_Suc_conv)
qed

lemma voices_at_handles:
  assumes "voices_at d (L, A)" "v \<in> set (concat L)"
  shows "unat v < 0xFFFF"
proof -
  obtain x y z where "L = [x, y, z]" using assms(1) by (rule voices_at_cases)
  with assms show ?thesis by (auto simp: voices_at_three dest: chain_handles)
qed

text \<open>Rewiring the links of some voices leaves the lists without these voices alone.\<close>

lemma chain_rewired:
  assumes "chain d h vs" "\<And>v. v \<in> set vs \<Longrightarrow> unat v < 0x10000 \<Longrightarrow> next_of d' v = next_of d v"
  shows "chain d' h vs"
proof -
  have "next_of d' v = next_of d v" if "v \<in> set vs" for v
    using assms(2) [OF that] chain_handles [OF assms(1) that] by simp
  then have "chain d' h vs = chain d h vs" by (rule chain_cong)
  with assms(1) show ?thesis by simp
qed

lemma chain_insert_after:
  assumes "chain d h vs" "distinct vs" "n \<notin> set vs" "unat n < 0xFFFF"
    and "next_of d' a = n" "next_of d' n = next_of d a"
    and "\<And>v. unat v < 0x10000 \<Longrightarrow> v \<noteq> a \<Longrightarrow> v \<noteq> n \<Longrightarrow> next_of d' v = next_of d v"
  shows "chain d' h (insert_after a n vs)"
  using assms
proof (induction vs arbitrary: h)
  case (Cons v vs)
  show ?case
  proof (cases "v = a")
    case True
    have "chain d' (next_of d a) vs"
      by (rule chain_rewired [where d = d]) (use Cons.prems True in auto)
    then show ?thesis using Cons.prems True by simp
  next
    case False
    have "next_of d' v = next_of d v" using Cons.prems(1,3) False by (intro Cons.prems(7)) auto
    moreover have "chain d' (next_of d v) (insert_after a n vs)" using Cons.prems by (intro Cons.IH) auto
    ultimately show ?thesis using Cons.prems(1) False by simp
  qed
qed simp

lemma set_insert_after: "set (insert_after a n vs) = (if a \<in> set vs then insert n (set vs) else set vs)"
  by (induction vs) auto

lemma distinct_insert_after: "distinct vs \<Longrightarrow> n \<notin> set vs \<Longrightarrow> distinct (insert_after a n vs)"
  by (induction vs) (auto simp: set_insert_after)

lemma insert_after_other: "a \<notin> set vs \<Longrightarrow> insert_after a n vs = vs"
  by (induction vs) auto

lemma voices_at_top:
  assumes "voices_at d (L, A)" "l < 3" "unat h < 0xFFFF" "h \<notin> set (concat L)"
  shows "voices_at (set_reg (top (voice_list_regs ! l)) h (link h (regs d (top (voice_list_regs ! l))) d))
    (L[l := h # L ! l], A)" (is "voices_at ?d' _")
proof -
  obtain x y z where L: "L = [x, y, z]" using assms(1) by (rule voices_at_cases)
  let ?t = "top (voice_list_regs ! l)"
  let ?lk = "link h (regs d ?t) d"
  have l: "l = 0 \<or> l = 1 \<or> l = 2" using assms(2) by auto
  have t: "chain d (regs d ?t) (L ! l)" "?t \<noteq> NV_PAPU_VPVADDR"
    using assms(1) l L by (auto simp: voices_at_three voice_list_regs_def)
  have "next_of ?d' = next_of ?lk" "active ?d' = active ?lk" using t(2) by (auto intro!: voice_state_cong)
  then have nxt: "next_of ?d' v = (if v = h then regs d ?t else next_of d v)"
    and act: "active ?d' v = active d v" if "unat v < 0x10000" for v
    using that assms(3) chain_head [OF t(1)] by (simp_all add: next_of_link active_link)
  have keep: "chain ?d' g vs" if "chain d g vs" "h \<notin> set vs" for g vs
    by (rule chain_rewired [OF that(1)]) (use that(2) nxt in auto)
  have new: "next_of ?d' h = regs d ?t" using nxt [of h] assms(3) by simp
  from l show ?thesis
    using assms t keep new act unfolding L
    by (elim disjE) (auto simp: voices_at_three voice_list_regs_def)
qed

lemma voices_at_after:
  assumes "voices_at d (L, A)" "a \<in> set (concat L)" "unat h < 0xFFFF" "h \<notin> set (concat L)"
  shows "voices_at (switch h 1 (link a h (link h (next_of d a) d))) (map (insert_after a h) L, insert h A)"
    (is "voices_at ?d' _")
proof -
  obtain x y z where L: "L = [x, y, z]" using assms(1) by (rule voices_at_cases)
  have a: "unat a < 0xFFFF" "a \<noteq> h" using voices_at_handles [OF assms(1,2)] assms(2,4) by auto
  have nxt: "next_of ?d' v = (if v = a then h else if v = h then next_of d a else next_of d v)"
    and act: "active ?d' v = (if v = h then True else active d v)" if "unat v < 0x10000" for v
    using that a assms(3) next_of_small [of d a]
    by (simp_all add: next_of_switch next_of_link active_switch active_link)
  have ins: "chain ?d' g (insert_after a h vs)" if "chain d g vs" "distinct vs" "h \<notin> set vs" for g vs
    by (rule chain_insert_after [OF that assms(3)]) (use nxt a assms(3) in auto)
  have "h \<notin> set x" "h \<notin> set y" "h \<notin> set z" using assms(4) L by auto
  moreover have "a \<in> set x \<or> a \<in> set y \<or> a \<in> set z" using assms(2) L by auto
  moreover have "chain d (regs d 0x2054) x" "chain d (regs d 0x2060) y" "chain d (regs d 0x206C) z"
    "distinct (x @ y @ z)" "\<forall>v. unat v < 0xFFFF \<longrightarrow> active d v = (v \<in> A)"
    using assms(1) by (simp_all add: voices_at_three L)
  ultimately show ?thesis
    unfolding L list.map voices_at_three put_voice_other
    by (auto simp: act set_insert_after distinct_insert_after intro!: ins)
qed

text \<open>One command.\<close>

lemma run_on_top:
  assumes "l < 3" "unat h < 0xFFFF"
  shows "\<exists>d2. memory d2 = memory d \<and> (\<forall>r. r \<notin> {NV_PAPU_FEAV, NV_PAPU_FEDECMETH, NV_PAPU_FEDECPARAM} \<longrightarrow> regs d2 r = regs d r)
    \<and> run_command (On_top l h) d
      = Inr (set_reg (top (voice_list_regs ! l)) h (link h (regs d2 (top (voice_list_regs ! l))) d2))"
proof -
  let ?v = "push_bit 16 (of_nat (l + 1)) :: u64"
  define d1 where "d1 = set_reg NV_PAPU_FEAV (ucast ?v) (set_reg NV_PAPU_FEDECPARAM (ucast ?v) (set_reg NV_PAPU_FEDECMETH 0x120 d))"
  define d2 where "d2 = set_reg NV_PAPU_FEDECPARAM h (set_reg NV_PAPU_FEDECMETH 0x124 d1)"
  have "GET_MASK (regs d2 NV_PAPU_FEAV) NV_PAPU_FEAV_LST = of_nat (Suc l)"
  proof -
    have "l = 0 \<or> l = 1 \<or> l = 2" using assms(1) by auto
    then show ?thesis
      by (elim disjE) (simp_all add: d1_def d2_def GET_MASK_def feav_lst.ffs_msk, simp_all add: apu_masks)
  qed
  moreover have "run_command (On_top l h) d = fe_voice_on h d2"
    unfolding run_command_def by (simp add: vp_write_antecedent vp_write_on d1_def d2_def)
  ultimately have "run_command (On_top l h) d
      = Inr (set_reg (top (voice_list_regs ! l)) h (link h (regs d2 (top (voice_list_regs ! l))) d2))"
    using fe_voice_on_top [of d2 l h h] assms handle_mask [of h] by simp
  then show ?thesis by (intro exI [of _ d2]) (simp add: d1_def d2_def)
qed

lemma run_command_refines:
  assumes "voices_at d (L, A)" "command_ok (L, A) c"
  shows "\<exists>d'. run_command c d = Inr d' \<and> voices_at d' (command_do c (L, A))"
proof (cases c)
  case (On_top l h)
  then have ok: "l < 3" "unat h < 0xFFFF" "h \<notin> set (concat L)" using assms(2) by simp_all
  obtain d2 where d2: "memory d2 = memory d"
    "\<And>r. r \<notin> {NV_PAPU_FEAV, NV_PAPU_FEDECMETH, NV_PAPU_FEDECPARAM} \<Longrightarrow> regs d2 r = regs d r"
    "run_command c d = Inr (set_reg (top (voice_list_regs ! l)) h (link h (regs d2 (top (voice_list_regs ! l))) d2))"
    using run_on_top [OF ok(1,2), of d] On_top by blast
  have "voices_at d2 (L, A)"
    using assms(1) by (subst voices_at_cong [where d = d]) (use d2(1,2) in \<open>auto simp: list_regs_eq\<close>)
  then show ?thesis using voices_at_top [of d2 L A l h] ok d2(3) On_top by simp
next
  case (On_after a h)
  then have ok: "a \<in> set (concat L)" "unat h < 0xFFFF" "h \<notin> set (concat L)" using assms(2) by simp_all
  have a: "unat a < 0xFFFF" by (rule voices_at_handles [OF assms(1) ok(1)])
  define d1 where "d1 = set_reg NV_PAPU_FEAV a (set_reg NV_PAPU_FEDECPARAM a (set_reg NV_PAPU_FEDECMETH 0x120 d))"
  define d2 where "d2 = set_reg NV_PAPU_FEDECPARAM h (set_reg NV_PAPU_FEDECMETH 0x124 d1)"
  have "voices_at d2 (L, A)"
    using assms(1) by (subst voices_at_cong [where d = d]) (auto simp: d1_def d2_def list_regs_eq)
  moreover have "GET_MASK (regs d2 NV_PAPU_FEAV) NV_PAPU_FEAV_VALUE = a"
    using handle_mask [of a] a by (simp add: d1_def d2_def GET_MASK_def feav_value.ffs_msk) (simp add: apu_masks)
  moreover have "GET_MASK (regs d2 NV_PAPU_FEAV) NV_PAPU_FEAV_LST = 0"
  proof (rule bit_word_eqI)
    fix n :: nat
    have "\<not> bit a (16 + n)" using unat_less_two_powerD [of a 16 "16 + n"] a by simp
    then show "bit (GET_MASK (regs d2 NV_PAPU_FEAV) NV_PAPU_FEAV_LST) n = bit 0 n"
      by (simp add: feav_lst.bit_get d1_def d2_def)
  qed
  moreover have "run_command c d = fe_voice_on h d2"
    unfolding On_after run_command_def by (simp add: vp_write_antecedent vp_write_on d1_def d2_def)
  ultimately show ?thesis
    using fe_voice_on_after [of d2 a h h] voices_at_after [of d2 L A a h] ok a handle_mask [of h] On_after by auto
next
  case (Off h)
  then have h: "unat h < 0xFFFF" using assms(2) by simp
  define d1 where "d1 = set_reg NV_PAPU_FEDECPARAM h (set_reg NV_PAPU_FEDECMETH 0x128 d)"
  obtain x y z where L: "L = [x, y, z]" using assms(1) by (rule voices_at_cases)
  have "voices_at d1 (L, A)"
    using assms(1) by (subst voices_at_cong [where d = d]) (auto simp: d1_def list_regs_eq)
  moreover have keep: "chain (switch h 0 d1) g vs" if "chain d1 g vs" for g vs
    by (rule chain_rewired [OF that]) (use h next_of_switch in auto)
  ultimately have "voices_at (switch h 0 d1) (L, A - {h})"
    unfolding L using h active_switch [of h _ 0 d1] by (auto simp: voices_at_three)
  moreover have "run_command c d = Inr (switch h 0 d1)"
    unfolding Off run_command_def using handle_ne [OF h] by (simp add: vp_write_off voice_set_mask_eq d1_def)
  ultimately show ?thesis using Off by simp
qed

section \<open>The frame\<close>

definition forced :: "MCPXAPUState \<Rightarrow> bool" where
  "forced d \<longleftrightarrow> regs d NV_PAPU_FETFORCE1 AND NV_PAPU_FETFORCE1_SE2FE_IDLE_VOICE \<noteq> 0"

text \<open>The interrupt status and the interrupt line after the front end has trapped.\<close>

definition trap_pending :: "u32 \<Rightarrow> u32 \<Rightarrow> bool" where
  "trap_pending ien ists \<longleftrightarrow> ien AND NV_PAPU_ISTS_GINTSTS \<noteq> 0
     \<and> ((ists OR NV_PAPU_ISTS_FETINTSTS) AND NOT NV_PAPU_ISTS_GINTSTS) AND ien \<noteq> 0"

definition trap_ists :: "u32 \<Rightarrow> u32 \<Rightarrow> u32" where
  "trap_ists ien ists =
     (if trap_pending ien ists then (ists OR NV_PAPU_ISTS_FETINTSTS) OR NV_PAPU_ISTS_GINTSTS
      else (ists OR NV_PAPU_ISTS_FETINTSTS) AND NOT NV_PAPU_ISTS_GINTSTS)"

definition trap_regs :: "hwaddr set" where
  "trap_regs = {NV_PAPU_FEDECMETH, NV_PAPU_FEDECPARAM, NV_PAPU_FECTL, NV_PAPU_ISTS}"

text \<open>What the registers of the front end hold after it was handed the voices \<open>idle\<close>, in this order.\<close>

definition trap_effect :: "u32 list \<Rightarrow> MCPXAPUState \<Rightarrow> MCPXAPUState \<Rightarrow> bool" where
  "trap_effect idle d d' \<longleftrightarrow>
     (if idle = [] then irq d' = irq d \<and> (\<forall>r \<in> trap_regs. regs d' r = regs d r)
      else regs d' NV_PAPU_FEDECMETH = SE2FE_IDLE_VOICE \<and> regs d' NV_PAPU_FEDECPARAM = last idle
        \<and> regs d' NV_PAPU_FECTL = regs d NV_PAPU_FECTL OR 0xFE0
        \<and> regs d' NV_PAPU_ISTS = trap_ists (regs d NV_PAPU_IEN) (regs d NV_PAPU_ISTS)
        \<and> irq d' = trap_pending (regs d NV_PAPU_IEN) (regs d NV_PAPU_ISTS))"

definition walked :: "hwaddr set \<Rightarrow> u32 list \<Rightarrow> MCPXAPUState \<Rightarrow> MCPXAPUState \<Rightarrow> bool" where
  "walked R idle d d' \<longleftrightarrow> memory d' = memory d \<and> frame_timer d' = frame_timer d
     \<and> (\<forall>r. r \<notin> R \<union> trap_regs \<longrightarrow> regs d' r = regs d r) \<and> trap_effect idle d d'"

lemma trap_pending_idem: "trap_pending ien (trap_ists ien ists) = trap_pending ien ists"
proof -
  have "(trap_ists ien ists OR NV_PAPU_ISTS_FETINTSTS) AND NOT NV_PAPU_ISTS_GINTSTS
      = (ists OR NV_PAPU_ISTS_FETINTSTS) AND NOT NV_PAPU_ISTS_GINTSTS"
    by (rule bit_word_eqI) (auto simp: trap_ists_def bit_simps)
  then show ?thesis by (simp add: trap_pending_def)
qed

lemma trap_ists_idem: "trap_ists ien (trap_ists ien ists) = trap_ists ien ists"
  unfolding trap_ists_def [of ien "trap_ists ien ists"] trap_pending_idem
  by (rule bit_word_eqI) (auto simp: trap_ists_def bit_simps)

lemma walked_trans:
  assumes "walked R i d d1" "walked R' i' d1 d2" "NV_PAPU_IEN \<notin> R"
  shows "walked (R \<union> R') (i @ i') d d2"
proof -
  have ien: "regs d1 NV_PAPU_IEN = regs d NV_PAPU_IEN" using assms(1,3) by (simp add: walked_def trap_regs_def)
  have "trap_effect (i @ i') d d2"
    using assms(1,2) ien
    by (auto simp: walked_def trap_effect_def trap_regs_def trap_pending_idem trap_ists_idem or.assoc split: if_splits)
  then show ?thesis using assms(1,2) by (simp add: walked_def)
qed

lemma set_bits_twice: "((x AND NOT a) OR a) AND NOT b OR b = x OR (a OR b)" for x a b :: u32
  by (rule bit_word_eqI) (auto simp: bit_simps)

lemma fe_method_idle:
  assumes "forced d"
  shows "\<exists>d'. fe_method SE2FE_IDLE_VOICE v d = Inr d' \<and> walked {} [v] d d'"
  using assms set_bits_twice [of "regs d NV_PAPU_FECTL" "0xE0" "0xF00"]
  by (auto simp: fe_method_def fe_idle_voice_def Let_def forced_def update_irq_def walked_def trap_effect_def
      trap_regs_def trap_pending_def trap_ists_def)

lemma fe_method_idle_asserts: "\<not> forced d \<Longrightarrow> fe_method SE2FE_IDLE_VOICE v d = Inl Assertion_failed"
  by (simp add: fe_method_def fe_idle_voice_def Let_def forced_def)

text \<open>The registers that a walk over a list uses, apart from those that the lists and the front end need.\<close>

definition walk_regs :: "voice_list \<Rightarrow> hwaddr set" where
  "walk_regs vl = {current vl, next vl}"

lemma walk_regs_apart:
  assumes "vl \<in> set voice_list_regs"
  shows "walk_regs vl \<inter> (insert NV_PAPU_IEN (insert NV_PAPU_FETFORCE1 (list_regs \<union> trap_regs))) = {}"
    and "current vl \<noteq> next vl"
  using assms by (auto simp: walk_regs_def list_regs_eq trap_regs_def voice_list_regs_def)

lemma walked_keeps:
  assumes "walked (walk_regs vl) i d d'" "vl \<in> set voice_list_regs"
  shows "forced d' = forced d" "next_of d' = next_of d" "active d' = active d" "voices_at d' V = voices_at d V"
    and "r \<in> list_regs \<Longrightarrow> regs d' r = regs d r"
proof -
  have keep: "regs d' r = regs d r" if "r \<in> insert NV_PAPU_FETFORCE1 list_regs" for r
    using assms(1) walk_regs_apart(1) [OF assms(2)] that by (auto simp: walked_def trap_regs_def list_regs_eq)
  have mem: "memory d' = memory d" using assms(1) by (simp add: walked_def)
  show "forced d' = forced d" using keep by (simp add: forced_def)
  show "next_of d' = next_of d" "active d' = active d"
    using keep mem by (auto intro!: voice_state_cong simp: list_regs_def)
  show "voices_at d' V = voices_at d V" using keep mem by (intro voices_at_cong) auto
  show "regs d' r = regs d r" if "r \<in> list_regs" using keep that by simp
qed

text \<open>One round: the voice is handed to the front end if it is not active, and the walk moves on.\<close>

lemma se_voice_step:
  assumes vl: "vl \<in> set voice_list_regs" and v: "regs d (current vl) = v" "unat v < 0xFFFF"
    and ok: "forced d \<or> active d v"
  shows "\<exists>d'. se_voice vl d = Inr d' \<and> walked (walk_regs vl) (if active d v then [] else [v]) d d'
    \<and> regs d' (current vl) = next_of d v"
proof -
  note ap = walk_regs_apart [OF vl]
  let ?d1 = "set_reg (next vl) (next_of d v) d"
  have w1: "walked {next vl} [] d ?d1"
    using ap by (auto simp: walked_def trap_effect_def walk_regs_def)
  have same: "active ?d1 v = active d v" "forced ?d1 = forced d" "regs ?d1 (current vl) = v"
    using ap v voice_state_cong(2) [of ?d1 d] by (auto simp: forced_def walk_regs_def list_regs_def)
  have "\<exists>d2. (if active d v then Inr ?d1 else fe_method SE2FE_IDLE_VOICE v ?d1) = Inr d2
      \<and> walked {} (if active d v then [] else [v]) ?d1 d2"
    using fe_method_idle [of ?d1 v] ok same by (auto simp: walked_def trap_effect_def)
  then obtain d2 where d2: "(if active d v then Inr ?d1 else fe_method SE2FE_IDLE_VOICE v ?d1) = Inr d2"
    "walked {} (if active d v then [] else [v]) ?d1 d2" by blast
  have nxt: "regs d2 (next vl) = next_of d v"
    using d2(2) ap by (auto simp: walked_def walk_regs_def)
  let ?d3 = "set_reg (current vl) (next_of d v) d2"
  have w3: "walked {current vl} [] d2 ?d3"
    using ap by (auto simp: walked_def trap_effect_def walk_regs_def)
  have "walked ({next vl} \<union> ({} \<union> {current vl})) ([] @ (if active d v then [] else [v]) @ []) d ?d3"
    by (rule walked_trans [OF w1 walked_trans [OF d2(2) w3]]) (use ap in \<open>auto simp: walk_regs_def\<close>)
  moreover have "se_voice vl d = res_bind (if active d v then Inr ?d1 else fe_method SE2FE_IDLE_VOICE v ?d1)
      (\<lambda>d. Inr (set_reg (current vl) (regs d (next vl)) d))"
    unfolding se_voice_def v(1) voice_get_mask_eq [OF handle_ne [OF v(2)]] res_bind_simps Let_def
      next_of_def [symmetric] same(3) active_def [symmetric] same(1) [symmetric] by (simp add: active_def)
  then have "se_voice vl d = Inr ?d3" by (simp only: d2(1) res_bind_simps nxt)
  ultimately show ?thesis by (auto simp: walk_regs_def insert_commute)
qed

lemma se_voices_walk:
  assumes "vl \<in> set voice_list_regs"
  shows "chain d (regs d (current vl)) vs \<Longrightarrow> forced d \<or> (\<forall>v \<in> set vs. active d v) \<Longrightarrow>
    \<exists>d'. se_voices vl d = Some (Inr d') \<and> walked (walk_regs vl) (filter (\<lambda>v. \<not> active d v) vs) d d'
      \<and> regs d' (current vl) = 0xFFFF"
proof (induction vs arbitrary: d)
  case Nil
  then show ?case by (subst se_voices.simps) (simp add: walked_def trap_effect_def)
next
  case (Cons v vs)
  then have v: "regs d (current vl) = v" "unat v < 0xFFFF" "chain d (next_of d v) vs" by simp_all
  obtain d1 where d1: "se_voice vl d = Inr d1" "walked (walk_regs vl) (if active d v then [] else [v]) d d1"
    "regs d1 (current vl) = next_of d v"
    using se_voice_step [OF assms v(1,2)] Cons.prems(2) by auto
  note keep = walked_keeps [OF d1(2) assms]
  have "chain d1 (regs d1 (current vl)) vs" using v(3) chain_cong [of vs d1 d] keep(2) d1(3) by simp
  then obtain d2 where d2: "se_voices vl d1 = Some (Inr d2)"
    "walked (walk_regs vl) (filter (\<lambda>v. \<not> active d v) vs) d1 d2" "regs d2 (current vl) = 0xFFFF"
    using Cons.IH [of d1] Cons.prems(2) keep by auto
  have "walked (walk_regs vl \<union> walk_regs vl) ((if active d v then [] else [v]) @ filter (\<lambda>v. \<not> active d v) vs) d d2"
    by (rule walked_trans [OF d1(2) d2(2)]) (use walk_regs_apart(1) [OF assms] in auto)
  moreover have "se_voices vl d = se_voices vl d1"
    using handle_ne [OF v(2)] v(1) d1(1) by (subst se_voices.simps) simp
  ultimately show ?case using d2 by (auto split: if_splits)
qed

lemma se_voices_asserts:
  assumes "vl \<in> set voice_list_regs"
  shows "chain d (regs d (current vl)) vs \<Longrightarrow> \<not> forced d \<Longrightarrow> \<not> (\<forall>v \<in> set vs. active d v) \<Longrightarrow>
    se_voices vl d = Some (Inl Assertion_failed)"
proof (induction vs arbitrary: d)
  case (Cons v vs)
  then have v: "regs d (current vl) = v" "unat v < 0xFFFF" "chain d (next_of d v) vs" by simp_all
  show ?case
  proof (cases "active d v")
    case True
    then obtain d1 where d1: "se_voice vl d = Inr d1" "walked (walk_regs vl) [] d d1" "regs d1 (current vl) = next_of d v"
      using se_voice_step [OF assms v(1,2)] by auto
    note keep = walked_keeps [OF d1(2) assms]
    have "se_voices vl d1 = Some (Inl Assertion_failed)"
      using Cons.prems True v(3) keep d1(3) chain_cong [of vs d1 d] by (intro Cons.IH) auto
    then show ?thesis using handle_ne [OF v(2)] v(1) d1(1) by (subst se_voices.simps) simp
  next
    case False
    let ?d1 = "set_reg (next vl) (next_of d v) d"
    note ap = walk_regs_apart [OF assms]
    have same: "active ?d1 v = active d v" "forced ?d1 = forced d" "regs ?d1 (current vl) = v"
      using ap v voice_state_cong(2) [of ?d1 d] by (auto simp: forced_def walk_regs_def list_regs_def)
    have "se_voice vl d = Inl Assertion_failed"
      unfolding se_voice_def v(1) voice_get_mask_eq [OF handle_ne [OF v(2)]] res_bind_simps Let_def
        next_of_def [symmetric] same(3)
      using same False Cons.prems(2) fe_method_idle_asserts [of ?d1 v] by (simp add: active_def)
    then show ?thesis using handle_ne [OF v(2)] v(1) by (subst se_voices.simps) simp
  qed
qed simp

text \<open>Starting a walk puts the head of the list into the current voice.\<close>

lemma walk_start:
  assumes "vl \<in> set voice_list_regs"
  shows "walked (walk_regs vl) [] d (set_reg (current vl) v d)" "regs (set_reg (current vl) v d) (current vl) = v"
  using walk_regs_apart [OF assms] by (auto simp: walked_def trap_effect_def walk_regs_def)

lemma se_list_walk:
  assumes vl: "vl \<in> set voice_list_regs" and "chain d (regs d (top vl)) vs" "forced d \<or> (\<forall>v \<in> set vs. active d v)"
  shows "\<exists>d'. se_voices vl (set_reg (current vl) (regs d (top vl)) d) = Some (Inr d')
    \<and> walked (walk_regs vl) (filter (\<lambda>v. \<not> active d v) vs) d d' \<and> regs d' (current vl) = 0xFFFF"
proof -
  let ?d = "set_reg (current vl) (regs d (top vl)) d"
  note st = walk_start [OF vl, of d "regs d (top vl)"]
  note keep = walked_keeps [OF st(1) vl]
  have "chain ?d (regs ?d (current vl)) vs" using assms(2) keep(2) chain_cong [of vs ?d d] by simp
  then obtain d' where d': "se_voices vl ?d = Some (Inr d')"
    "walked (walk_regs vl) (filter (\<lambda>v. \<not> active d v) vs) ?d d'" "regs d' (current vl) = 0xFFFF"
    using se_voices_walk [OF vl, of ?d vs] assms(3) keep by auto
  have "walked (walk_regs vl \<union> walk_regs vl) ([] @ filter (\<lambda>v. \<not> active d v) vs) d d'"
    by (rule walked_trans [OF st(1) d'(2)]) (use walk_regs_apart(1) [OF vl] in auto)
  then show ?thesis using d' by auto
qed

lemma se_list_asserts:
  assumes vl: "vl \<in> set voice_list_regs" and "chain d (regs d (top vl)) vs" "\<not> forced d" "\<not> (\<forall>v \<in> set vs. active d v)"
  shows "se_voices vl (set_reg (current vl) (regs d (top vl)) d) = Some (Inl Assertion_failed)"
proof -
  let ?d = "set_reg (current vl) (regs d (top vl)) d"
  note st = walk_start [OF vl, of d "regs d (top vl)"]
  note keep = walked_keeps [OF st(1) vl]
  have "chain ?d (regs ?d (current vl)) vs" using assms(2) keep(2) chain_cong [of vs ?d d] by simp
  then show ?thesis using se_voices_asserts [OF vl, of ?d vs] assms(3,4) keep by auto
qed

lemma se_lists_walk:
  assumes "set vls \<subseteq> set voice_list_regs" "list_all2 (\<lambda>vl. chain d (regs d (top vl))) vls L"
    and "forced d \<or> (\<forall>v \<in> set (concat L). active d v)" "distinct (map current vls @ map next vls)"
  shows "\<exists>d'. se_lists vls d = Some (Inr d')
    \<and> walked (\<Union>vl \<in> set vls. walk_regs vl) (filter (\<lambda>v. \<not> active d v) (concat L)) d d'
    \<and> (\<forall>vl \<in> set vls. regs d' (current vl) = 0xFFFF)"
  using assms
proof (induction vls arbitrary: d L)
  case Nil
  then show ?case by (simp add: walked_def trap_effect_def)
next
  case (Cons vl vls)
  then obtain vs L' where L: "L = vs # L'" "chain d (regs d (top vl)) vs"
    "list_all2 (\<lambda>vl. chain d (regs d (top vl))) vls L'" by (auto simp: list_all2_Cons1)
  have vl: "vl \<in> set voice_list_regs" "set vls \<subseteq> set voice_list_regs" using Cons.prems(1) by auto
  obtain d1 where d1: "se_voices vl (set_reg (current vl) (regs d (top vl)) d) = Some (Inr d1)"
    "walked (walk_regs vl) (filter (\<lambda>v. \<not> active d v) vs) d d1" "regs d1 (current vl) = 0xFFFF"
    using se_list_walk [OF vl(1) L(2)] Cons.prems(3) L(1) by auto
  note keep = walked_keeps [OF d1(2) vl(1)]
  have "chain d1 = chain d" using keep(2) by (intro ext chain_cong) simp
  then have "list_all2 (\<lambda>vl. chain d1 (regs d1 (top vl))) vls L'"
    using L(3) vl(2) keep(5) by (auto simp: list_regs_def elim!: list.rel_mono_strong)
  moreover have "forced d1 \<or> (\<forall>v \<in> set (concat L'). active d1 v)" using Cons.prems(3) keep(1,3) L(1) by auto
  moreover have "distinct (map current vls @ map next vls)" using Cons.prems(4) by auto
  ultimately obtain d2 where d2: "se_lists vls d1 = Some (Inr d2)"
    "walked (\<Union>vl \<in> set vls. walk_regs vl) (filter (\<lambda>v. \<not> active d v) (concat L')) d1 d2"
    "\<forall>vl \<in> set vls. regs d2 (current vl) = 0xFFFF"
    using Cons.IH [OF vl(2), of d1 L'] unfolding keep(3) by blast
  have "current vl \<notin> (\<Union>vl \<in> set vls. walk_regs vl) \<union> trap_regs"
    using Cons.prems(4) walk_regs_apart(1) [OF vl(1)] by (auto simp: walk_regs_def image_iff)
  then have "regs d2 (current vl) = 0xFFFF" using d2(2) d1(3) by (simp add: walked_def)
  moreover have "walked (walk_regs vl \<union> (\<Union>vl \<in> set vls. walk_regs vl))
      (filter (\<lambda>v. \<not> active d v) vs @ filter (\<lambda>v. \<not> active d v) (concat L')) d d2"
    by (rule walked_trans [OF d1(2) d2(2)]) (use walk_regs_apart(1) [OF vl(1)] in auto)
  ultimately show ?case using d1(1) d2 L(1) by simp
qed

lemma se_lists_asserts:
  assumes "set vls \<subseteq> set voice_list_regs" "list_all2 (\<lambda>vl. chain d (regs d (top vl))) vls L"
    and "\<not> forced d" "\<not> (\<forall>v \<in> set (concat L). active d v)"
  shows "se_lists vls d = Some (Inl Assertion_failed)"
  using assms
proof (induction vls arbitrary: d L)
  case (Cons vl vls)
  then obtain vs L' where L: "L = vs # L'" "chain d (regs d (top vl)) vs"
    "list_all2 (\<lambda>vl. chain d (regs d (top vl))) vls L'" by (auto simp: list_all2_Cons1)
  have vl: "vl \<in> set voice_list_regs" "set vls \<subseteq> set voice_list_regs" using Cons.prems(1) by auto
  show ?case
  proof (cases "\<forall>v \<in> set vs. active d v")
    case True
    then obtain d1 where d1: "se_voices vl (set_reg (current vl) (regs d (top vl)) d) = Some (Inr d1)"
      "walked (walk_regs vl) (filter (\<lambda>v. \<not> active d v) vs) d d1"
      using se_list_walk [OF vl(1) L(2)] by auto
    note keep = walked_keeps [OF d1(2) vl(1)]
    have "chain d1 = chain d" using keep(2) by (intro ext chain_cong) simp
    then have "list_all2 (\<lambda>vl. chain d1 (regs d1 (top vl))) vls L'"
      using L(3) vl(2) keep(5) by (auto simp: list_regs_def elim!: list.rel_mono_strong)
    moreover have "\<not> (\<forall>v \<in> set (concat L'). active d1 v)" using Cons.prems(4) True L(1) keep(3) by auto
    ultimately have "se_lists vls d1 = Some (Inl Assertion_failed)"
      using Cons.IH [OF vl(2)] Cons.prems(3) keep(1) by blast
    then show ?thesis using d1(1) by simp
  next
    case False
    then show ?thesis using se_list_asserts [OF vl(1) L(2) Cons.prems(3)] by simp
  qed
qed simp

text \<open>A voice that links to itself is visited forever.\<close>

definition looping :: "voice_list \<Rightarrow> MCPXAPUState \<Rightarrow> bool" where
  "looping vl d \<longleftrightarrow> unat (regs d (current vl)) < 0xFFFF \<and> next_of d (regs d (current vl)) = regs d (current vl)
     \<and> (forced d \<or> active d (regs d (current vl)))"

lemma looping_step:
  assumes "vl \<in> set voice_list_regs" "looping vl d"
  shows "\<exists>d'. se_voice vl d = Inr d' \<and> looping vl d'"
proof -
  obtain d' where d': "se_voice vl d = Inr d'" "regs d' (current vl) = regs d (current vl)"
    "walked (walk_regs vl) (if active d (regs d (current vl)) then [] else [regs d (current vl)]) d d'"
    using se_voice_step [OF assms(1) refl, of d] assms(2) by (auto simp: looping_def)
  then show ?thesis using assms(2) walked_keeps(1-3) [OF d'(3) assms(1)] by (auto simp: looping_def)
qed

lemma se_voices_loop:
  assumes "vl \<in> set voice_list_regs" "looping vl d"
  shows "se_voices vl d = None"
proof (rule ccontr)
  assume "se_voices vl d \<noteq> None"
  then obtain r where r: "se_voices vl d = Some r" by blast
  have "vl \<in> set voice_list_regs \<longrightarrow> \<not> looping vl d"
  proof (induction rule: se_voices.raw_induct)
    case (1 f vl d r)
    show ?case
    proof (intro impI notI)
      assume st: "vl \<in> set voice_list_regs" "looping vl d"
      then obtain d' where "se_voice vl d = Inr d'" "looping vl d'" using looping_step by blast
      moreover have "regs d (current vl) \<noteq> 0xFFFF" using st(2) by (auto simp: looping_def)
      ultimately have "f vl d' = Some r" using 1(2) by simp
      then show False using 1(1) \<open>looping vl d'\<close> st(1) by blast
    qed
  qed (rule r)
  with assms show False by blast
qed

section \<open>Properties\<close>

text \<open>The device with empty lists.\<close>

definition quiet_apu :: "u32 \<Rightarrow> MCPXAPUState" where
  "quiet_apu force = \<lparr>regs = (\<lambda>r. if r \<in> {0x2054, 0x2060, 0x206C} then 0xFFFF
      else if r = NV_PAPU_FETFORCE1 then force else 0), frame_timer = None, irq = False, memory = (\<lambda>_. 0)\<rparr>"

lemma quiet_apu_voices: "voices_at (quiet_apu force) ([[], [], []], {})"
  by (simp add: voices_at_three quiet_apu_def active_def voice_word_def ldl_le_def le32_def GET_MASK_def)

text \<open>
  C6. The commands of the voice processor implement three lists of voices: starting from any lists in
  guest memory, a sequence of commands adds each new voice at the top of its list or behind its
  antecedent, keeps the order of all others and the three lists apart, and switches exactly the named
  voices on or off, whatever the base address of the voice structures is.
\<close>

theorem apu_voice_lists:
  assumes "voices_at d V" "commands_ok V cs"
  shows "\<exists>d'. fold_res run_command cs d = Inr d' \<and> voices_at d' (fold command_do cs V)"
  using assms
proof (induction cs arbitrary: d V)
  case (Cons c cs)
  obtain L A where V: "V = (L, A)" by (cases V)
  then obtain d1 where "run_command c d = Inr d1" "voices_at d1 (command_do c V)"
    using run_command_refines [of d L A c] Cons.prems by auto
  with Cons.IH [of d1 "command_do c V"] Cons.prems(2) show ?case by simp
qed simp

theorem apu_voice_lists_witness:
  "voices_at (quiet_apu 0) ([[], [], []], {}) \<and>
   (\<exists>d'. fold_res run_command [On_top 0 5, On_after 5 7, On_top 0 9, On_top 2 4, Off 7] (quiet_apu 0) = Inr d'
     \<and> voices_at d' ([[9, 5, 7], [], [4]], {}))"
  using apu_voice_lists [OF quiet_apu_voices [of 0], of "[On_top 0 5, On_after 5 7, On_top 0 9, On_top 2 4, Off 7]"]
  by (simp add: quiet_apu_voices insert_commute)

text \<open>
  C15. The frame of the setup engine ends on all lists that the commands build: it leaves the lists as
  they are, sets the timer for the next frame, and hands exactly the voices that are listed but not
  active to the front end, in the order of the lists. When there are any, the last one is in the
  parameter register, the front end is trapped with the requested reason, and the interrupt line is up
  exactly when the trap's interrupt or another pending one is enabled. The trap must be enabled, or all
  listed voices must be active.
\<close>

theorem apu_frame:
  assumes "voices_at d (L, A)" "forced d \<or> set (concat L) \<subseteq> A"
  shows "\<exists>d'. se_frame now d = Some (Inr d') \<and> voices_at d' (L, A) \<and> frame_timer d' = Some (now + 10)
    \<and> (\<forall>vl \<in> set voice_list_regs. regs d' (current vl) = 0xFFFF)
    \<and> trap_effect (filter (\<lambda>v. v \<notin> A) (concat L)) d d'"
proof -
  let ?d = "d\<lparr>frame_timer := Some (now + 10)\<rparr>"
  have at: "voices_at ?d (L, A)" using assms(1) by (subst voices_at_cong [where d = d]) auto
  have act: "active ?d v \<longleftrightarrow> v \<in> A" if "v \<in> set (concat L)" for v
    using at voices_at_handles [OF at that] by (simp add: voices_at_def)
  have "forced ?d \<or> (\<forall>v \<in> set (concat L). active ?d v)" using assms(2) act by (auto simp: forced_def)
  moreover have "list_all2 (\<lambda>vl. chain ?d (regs ?d (top vl))) voice_list_regs L" using at by (simp add: voices_at_def)
  moreover have "distinct (map current voice_list_regs @ map next voice_list_regs)" by (simp add: voice_list_regs_def)
  ultimately obtain d' where d': "se_lists voice_list_regs ?d = Some (Inr d')"
    "walked (\<Union>vl \<in> set voice_list_regs. walk_regs vl) (filter (\<lambda>v. \<not> active ?d v) (concat L)) ?d d'"
    "\<forall>vl \<in> set voice_list_regs. regs d' (current vl) = 0xFFFF"
    using se_lists_walk [of voice_list_regs ?d L] by blast
  have idle: "filter (\<lambda>v. \<not> active ?d v) (concat L) = filter (\<lambda>v. v \<notin> A) (concat L)"
    using act by (intro filter_cong) auto
  have "regs d' r = regs ?d r" if "r \<in> list_regs" for r
    using d'(2) that by (auto simp: walked_def list_regs_eq trap_regs_def voice_list_regs_def walk_regs_def)
  then have "voices_at d' (L, A)" using at d'(2) voices_at_cong [of d' ?d "(L, A)"] by (simp add: walked_def)
  moreover have "trap_effect (filter (\<lambda>v. v \<notin> A) (concat L)) d d'"
    using d'(2) unfolding idle by (simp add: walked_def trap_effect_def)
  ultimately show ?thesis using d' by (auto simp: se_frame_def walked_def)
qed

theorem apu_frame_witness:
  "\<exists>d d'. voices_at d ([[5], [], []], {}) \<and> se_frame 50 d = Some (Inr d') \<and> frame_timer d' = Some 60
    \<and> regs d' NV_PAPU_FEDECPARAM = 5"
proof -
  let ?q = "quiet_apu 0x8000"
  let ?d = "set_reg (top (voice_list_regs ! 0)) 5 (link 5 (regs ?q (top (voice_list_regs ! 0))) ?q)"
  have at: "voices_at ?d ([[5], [], []], {})"
    using voices_at_top [OF quiet_apu_voices [of "0x8000"], of 0 5] by simp
  moreover have "forced ?d" by (simp add: forced_def quiet_apu_def voice_list_regs_def)
  ultimately show ?thesis using apu_frame [OF at, of 50] by (auto simp: trap_effect_def)
qed

text \<open>
  A voice that the guest adds at the top of a list is not made active, unlike one that is added
  behind another. So the next frame finds it idle, and when the guest has not enabled the trap, the
  program stops at an assertion.
\<close>

lemma apu_top_voice_asserts:
  assumes "voices_at d (L, A)" "command_ok (L, A) (On_top l h)" "h \<notin> A" "\<not> forced d"
  shows "\<exists>d'. run_command (On_top l h) d = Inr d' \<and> se_frame now d' = Some (Inl Assertion_failed)"
proof -
  have ok: "l < 3" "unat h < 0xFFFF" using assms(2) by simp_all
  obtain d2 where d2: "\<And>r. r \<notin> {NV_PAPU_FEAV, NV_PAPU_FEDECMETH, NV_PAPU_FEDECPARAM} \<Longrightarrow> regs d2 r = regs d r"
    "run_command (On_top l h) d
      = Inr (set_reg (top (voice_list_regs ! l)) h (link h (regs d2 (top (voice_list_regs ! l))) d2))"
    using run_on_top [OF ok, of d] by blast
  obtain d' where d': "run_command (On_top l h) d = Inr d'" "voices_at d' (L[l := h # L ! l], A)"
    using run_command_refines [OF assms(1,2)] by auto
  have "l < length voice_list_regs" using ok(1) by (simp add: voice_list_regs_def)
  then have "top (voice_list_regs ! l) \<in> list_regs" by (auto simp: list_regs_def)
  then have "regs d' NV_PAPU_FETFORCE1 = regs d NV_PAPU_FETFORCE1" using d2 d'(1) by (auto simp: list_regs_eq)
  then have "\<not> forced d'" using assms(4) by (simp add: forced_def)
  let ?d = "d'\<lparr>frame_timer := Some (now + 10)\<rparr>" and ?L = "L[l := h # L ! l]"
  have at: "voices_at ?d (?L, A)" using d'(2) by (subst voices_at_cong [where d = d']) auto
  have "length L = 3" using assms(1) by (rule voices_at_cases) simp
  then have "h \<in> set (concat ?L)" using ok(1) by (auto simp: set_update_memI intro!: bexI [of _ "h # L ! l"])
  moreover have "\<not> active ?d h" using at ok(2) assms(3) by (simp add: voices_at_def)
  ultimately have "\<not> (\<forall>v \<in> set (concat ?L). active ?d v)" by blast
  moreover have "\<not> forced ?d" using \<open>\<not> forced d'\<close> by (simp add: forced_def)
  ultimately have "se_lists voice_list_regs ?d = Some (Inl Assertion_failed)"
    using at by (intro se_lists_asserts) (auto simp: voices_at_def)
  then show ?thesis using d'(1) by (simp add: se_frame_def)
qed

lemma apu_top_voice_asserts_witness:
  "command_ok ([[], [], []], {}) (On_top 1 3) \<and> \<not> forced (quiet_apu 0)
    \<and> (\<exists>d'. run_command (On_top 1 3) (quiet_apu 0) = Inr d' \<and> se_frame 0 d' = Some (Inl Assertion_failed))"
  using apu_top_voice_asserts [OF quiet_apu_voices [of 0], of 1 3 0] by (simp add: forced_def quiet_apu_def)

text \<open>
  The walk has no bound: a guest that adds a voice to the top of the first list twice links the voice
  to itself, and the next frame does not end.
\<close>

lemma apu_voice_twice_hangs:
  assumes "unat h < 0xFFFF" "forced d"
  shows "\<exists>d1 d2. run_command (On_top 0 h) d = Inr d1 \<and> run_command (On_top 0 h) d1 = Inr d2 \<and> se_frame now d2 = None"
proof -
  let ?vl = "voice_list_regs ! 0"
  have vl: "?vl \<in> set voice_list_regs" "voice_list_regs = ?vl # tl voice_list_regs" "top ?vl \<noteq> NV_PAPU_FETFORCE1"
    "top ?vl \<notin> {NV_PAPU_FEAV, NV_PAPU_FEDECMETH, NV_PAPU_FEDECPARAM, NV_PAPU_VPVADDR}"
    by (simp_all add: voice_list_regs_def)
  obtain e1 where e1: "\<And>r. r \<notin> {NV_PAPU_FEAV, NV_PAPU_FEDECMETH, NV_PAPU_FEDECPARAM} \<Longrightarrow> regs e1 r = regs d r"
    "run_command (On_top 0 h) d = Inr (set_reg (top ?vl) h (link h (regs e1 (top ?vl)) e1))"
    using run_on_top [of 0 h d] assms(1) by auto
  define d1 where "d1 = set_reg (top ?vl) h (link h (regs e1 (top ?vl)) e1)"
  obtain e2 where e2: "\<And>r. r \<notin> {NV_PAPU_FEAV, NV_PAPU_FEDECMETH, NV_PAPU_FEDECPARAM} \<Longrightarrow> regs e2 r = regs d1 r"
    "run_command (On_top 0 h) d1 = Inr (set_reg (top ?vl) h (link h (regs e2 (top ?vl)) e2))"
    using run_on_top [of 0 h d1] assms(1) by auto
  define d2 where "d2 = set_reg (top ?vl) h (link h (regs e2 (top ?vl)) e2)"
  have top2: "regs e2 (top ?vl) = h" using e2(1) [of "top ?vl"] vl(4) by (simp add: d1_def)
  let ?s = "set_reg (current ?vl) h (d2\<lparr>frame_timer := Some (now + 10)\<rparr>)"
  have "next_of ?s = next_of (link h h e2)"
    unfolding d2_def top2 by (rule voice_state_cong) (simp_all add: voice_list_regs_def)
  then have "next_of ?s h = h" using assms(1) by (simp add: next_of_link)
  moreover have "forced ?s"
    using assms(2) e1(1) e2(1) by (simp add: forced_def d2_def d1_def voice_list_regs_def)
  ultimately have "looping ?vl ?s" using assms(1) by (simp add: looping_def)
  then have "se_voices ?vl ?s = None" by (rule se_voices_loop [OF vl(1)])
  moreover have "regs d2 (top ?vl) = h" by (simp add: d2_def)
  ultimately have "se_frame now d2 = None" by (subst se_frame_def, subst vl(2)) simp
  then show ?thesis using e1(2) e2(2) by (auto simp: d1_def d2_def)
qed

lemma apu_voice_twice_hangs_witness:
  "forced (quiet_apu 0x8000) \<and> (\<exists>d1 d2. run_command (On_top 0 5) (quiet_apu 0x8000) = Inr d1
    \<and> run_command (On_top 0 5) d1 = Inr d2 \<and> se_frame 0 d2 = None)"
proof -
  have f: "forced (quiet_apu 0x8000)" by (simp add: forced_def quiet_apu_def)
  moreover have "unat (5 :: u32) < 0xFFFF" by simp
  ultimately show ?thesis using apu_voice_twice_hangs [of 5 "quiet_apu 0x8000" 0] by blast
qed

end
