(* ===== verification/Xbox_IRQ.thy ===== *)
theory Xbox_IRQ
  imports Xbox_Prelude
begin

text \<open>
  The path of an interrupt from a PCI device to the interrupt controller: the counters of the PCI bus
  (\<open>src/hw/pci/pci.c\<close>) and the routing by the LPC bridge (\<open>src/hw/xbox/xbox_pci.c\<close>). Eight lines belong to
  devices on the internal bus and four to the others; the guest routes each to an input of the
  controller with registers in the bridge's configuration space. The state holds the devices, the
  counters, the bridge's configuration space and the levels of the controller's inputs. Shown here: the
  counters count the asserted pins, a line that has an input of its own drives it, and a line that
  shares its input can take an interrupt away from another device.
\<close>

section \<open>Devices and lines\<close>

abbreviation XBOX_NUM_INT_IRQS :: int where "XBOX_NUM_INT_IRQS \<equiv> 8"
abbreviation XBOX_NUM_PIRQS :: int where "XBOX_NUM_PIRQS \<equiv> 4"
abbreviation XBOX_NUM_PIC_IRQS :: nat where "XBOX_NUM_PIC_IRQS \<equiv> 16"
abbreviation XBOX_LPC_ACPI_IRQ_ROUT :: nat where "XBOX_LPC_ACPI_IRQ_ROUT \<equiv> 0x64"
abbreviation XBOX_LPC_PIRQ_ROUT :: nat where "XBOX_LPC_PIRQ_ROUT \<equiv> 0x68"
abbreviation XBOX_LPC_INT_IRQ_ROUT :: nat where "XBOX_LPC_INT_IRQ_ROUT \<equiv> 0x6C"
abbreviation PCI_COMMAND :: nat where "PCI_COMMAND \<equiv> 0x04"
abbreviation PCI_STATUS :: nat where "PCI_STATUS \<equiv> 0x06"
abbreviation PCI_INTERRUPT_PIN :: nat where "PCI_INTERRUPT_PIN \<equiv> 0x3d"

text \<open>A device, and whether it is on the secondary bus of the AGP bridge.\<close>

record PCIDevice =
  devfn :: nat
  on_agp :: bool
  irq_state :: u8
  config :: "u8 list"

record interrupts =
  pci_devices :: "PCIDevice list"
  irq_count :: "int list"
  lpc_config :: "u8 list"
  pic :: "bool list"

definition pci_get_word :: "u8 list \<Rightarrow> nat \<Rightarrow> u16 res" where
  "pci_get_word cfg a = res_bind (buf_read cfg a 2) (\<lambda>bs. Inr (ucast (bs ! 0) OR push_bit 8 (ucast (bs ! 1))))"

definition pci_get_long :: "u8 list \<Rightarrow> nat \<Rightarrow> u32 res" where
  "pci_get_long cfg a = res_bind (buf_read cfg a 4) (\<lambda>bs. Inr (le32 (bs ! 0) (bs ! 1) (bs ! 2) (bs ! 3)))"

definition PCI_SLOT :: "nat \<Rightarrow> nat" where
  "PCI_SLOT dfn = drop_bit 3 dfn AND 0x1f"

section \<open>The LPC bridge\<close>

definition qemu_set_irq :: "nat \<Rightarrow> bool \<Rightarrow> interrupts \<Rightarrow> interrupts res" where
  "qemu_set_irq n level s = res_bind (arr_set (pic s) n level) (\<lambda>p. Inr (s\<lparr>pic := p\<rparr>))"

definition xbox_lpc_set_irq :: "int \<Rightarrow> bool \<Rightarrow> interrupts \<Rightarrow> interrupts res" where
  "xbox_lpc_set_irq pirq level s =
     res_bind (assert_res (pirq \<ge> 0)) (\<lambda>_.
     res_bind (assert_res (pirq < XBOX_NUM_INT_IRQS + XBOX_NUM_PIRQS)) (\<lambda>_.
     if pirq < XBOX_NUM_INT_IRQS
     then res_bind (pci_get_long (lpc_config s) XBOX_LPC_INT_IRQ_ROUT) (\<lambda>routing.
          let pic_irq = unat (drop_bit (nat pirq * 4) routing AND 0xF) in
          if pic_irq = 0 then Inr s
          else if pic_irq \<ge> XBOX_NUM_PIC_IRQS then Inr s
          else qemu_set_irq pic_irq level s)
     else res_bind (arr_get (lpc_config s) (XBOX_LPC_PIRQ_ROUT + nat (pirq - XBOX_NUM_INT_IRQS))) (\<lambda>b.
          let pic_irq = unat b in
          if pic_irq \<ge> XBOX_NUM_PIC_IRQS then Inr s
          else qemu_set_irq pic_irq level s)))"

definition xbox_lpc_map_irq :: "nat \<Rightarrow> int \<Rightarrow> int res" where
  "xbox_lpc_map_irq dfn intx =
     (let slot = PCI_SLOT dfn in
      if slot = 2 then Inr 0 else if slot = 3 then Inr 1 else if slot = 4 then Inr 2
      else if slot = 5 then Inr 3 else if slot = 6 then Inr 4 else if slot = 9 then Inr 6
      else if slot = 30 then Inr (XBOX_NUM_INT_IRQS + 2)
      else Inl Assertion_failed)"

definition xbox_lpc_set_acpi_irq :: "int \<Rightarrow> bool \<Rightarrow> interrupts \<Rightarrow> interrupts res" where
  "xbox_lpc_set_acpi_irq irq_num level s =
     res_bind (assert_res (irq_num = 0 \<or> irq_num = 1)) (\<lambda>_.
     res_bind (pci_get_long (lpc_config s) XBOX_LPC_ACPI_IRQ_ROUT) (\<lambda>routing.
     let irq = unat (drop_bit (nat irq_num * 8) routing AND 0xff) in
     if irq = 0 \<or> irq \<ge> XBOX_NUM_PIC_IRQS then Inr s
     else qemu_set_irq irq level s))"

section \<open>The PCI bus\<close>

definition pci_irq_state :: "PCIDevice \<Rightarrow> nat \<Rightarrow> int" where
  "pci_irq_state d irq_num = uint (drop_bit irq_num (irq_state d) AND 0x1)"

definition pci_set_irq_state :: "nat \<Rightarrow> bool \<Rightarrow> PCIDevice \<Rightarrow> PCIDevice" where
  "pci_set_irq_state irq_num level d =
     d\<lparr>irq_state := (irq_state d AND NOT (push_bit irq_num 1)) OR push_bit irq_num (of_bool level)\<rparr>"

definition pci_swizzle_map_irq_fn :: "nat \<Rightarrow> int \<Rightarrow> int" where
  "pci_swizzle_map_irq_fn dfn pin = (pin + int (PCI_SLOT dfn)) mod 4"

text \<open>
  The walk up to the host bus: a device on the AGP bus is mapped by the default function of bridges, then
  the bridge in slot 30 is mapped by the LPC bridge.
\<close>

definition pci_map_irq :: "PCIDevice \<Rightarrow> int \<Rightarrow> int res" where
  "pci_map_irq d irq_num =
     (if on_agp d then xbox_lpc_map_irq (push_bit 3 30) (pci_swizzle_map_irq_fn (devfn d) irq_num)
      else xbox_lpc_map_irq (devfn d) irq_num)"

definition pci_change_irq_level :: "PCIDevice \<Rightarrow> int \<Rightarrow> int \<Rightarrow> interrupts \<Rightarrow> interrupts res" where
  "pci_change_irq_level d irq_num change s =
     res_bind (pci_map_irq d irq_num) (\<lambda>n.
     res_bind (arr_get (irq_count s) (nat n)) (\<lambda>c.
     res_bind (arr_set (irq_count s) (nat n) (c + change)) (\<lambda>cs.
     xbox_lpc_set_irq n (c + change \<noteq> 0) (s\<lparr>irq_count := cs\<rparr>))))"

definition pci_update_irq_status :: "PCIDevice \<Rightarrow> PCIDevice res" where
  "pci_update_irq_status d =
     res_bind (arr_get (config d) PCI_STATUS) (\<lambda>b.
     res_bind (arr_set (config d) PCI_STATUS (if irq_state d \<noteq> 0 then b OR 0x08 else b AND NOT 0x08)) (\<lambda>cfg.
     Inr (d\<lparr>config := cfg\<rparr>)))"

definition pci_irq_disabled :: "PCIDevice \<Rightarrow> bool res" where
  "pci_irq_disabled d = res_bind (pci_get_word (config d) PCI_COMMAND) (\<lambda>w. Inr (w AND 0x400 \<noteq> 0))"

text \<open>The level of pin \<open>irq_num\<close> of the \<open>i\<close>-th device changes.\<close>

definition pci_irq_handler :: "nat \<Rightarrow> nat \<Rightarrow> bool \<Rightarrow> interrupts \<Rightarrow> interrupts res" where
  "pci_irq_handler i irq_num level s =
     res_bind (arr_get (pci_devices s) i) (\<lambda>d.
     let change = of_bool level - pci_irq_state d irq_num in
     if change = 0 then Inr s
     else
       res_bind (pci_update_irq_status (pci_set_irq_state irq_num level d)) (\<lambda>d.
       let s = s\<lparr>pci_devices := (pci_devices s)[i := d]\<rparr> in
       res_bind (pci_irq_disabled d) (\<lambda>disabled.
       if disabled then Inr s else pci_change_irq_level d (int irq_num) change s)))"

definition pci_intx :: "PCIDevice \<Rightarrow> int res" where
  "pci_intx d = res_bind (arr_get (config d) PCI_INTERRUPT_PIN) (\<lambda>b. Inr (uint b - 1))"

definition pci_set_irq :: "nat \<Rightarrow> bool \<Rightarrow> interrupts \<Rightarrow> interrupts res" where
  "pci_set_irq i level s =
     res_bind (arr_get (pci_devices s) i) (\<lambda>d.
     res_bind (pci_intx d) (\<lambda>intx. pci_irq_handler i (nat intx) level s))"

text \<open>After a write to the command register of the \<open>i\<close>-th device.\<close>

definition pci_update_irq_disabled :: "nat \<Rightarrow> bool \<Rightarrow> interrupts \<Rightarrow> interrupts res" where
  "pci_update_irq_disabled i was_irq_disabled s =
     res_bind (arr_get (pci_devices s) i) (\<lambda>d.
     res_bind (pci_irq_disabled d) (\<lambda>disabled.
     if disabled = was_irq_disabled then Inr s
     else fold_res (\<lambda>pin s. let state = pci_irq_state d pin in
            pci_change_irq_level d (int pin) (if disabled then - state else state) s) [0..<4] s))"

text \<open>
  A write of the \<open>l\<close> low bytes of \<open>val\<close> to the configuration space. The masks say which bits the guest may
  write and which it clears by writing a one. The mapping of base address registers and the bus master
  region are not part of this state.
\<close>

definition pci_config_byte :: "u8 list \<Rightarrow> u8 list \<Rightarrow> nat \<Rightarrow> u32 \<Rightarrow> nat \<Rightarrow> u8 list \<Rightarrow> u8 list res" where
  "pci_config_byte wmask w1cmask addr val i cfg =
     (let v = ucast (drop_bit (8 * i) val) :: u8 in
      res_bind (arr_get wmask (addr + i)) (\<lambda>w.
      res_bind (arr_get w1cmask (addr + i)) (\<lambda>c.
      res_bind (assert_res (w AND c = 0)) (\<lambda>_.
      res_bind (arr_get cfg (addr + i)) (\<lambda>b.
      arr_set cfg (addr + i) (((b AND NOT w) OR (v AND w)) AND NOT (v AND c)))))))"

definition range_covers_byte :: "nat \<Rightarrow> nat \<Rightarrow> nat \<Rightarrow> bool" where
  "range_covers_byte offset len byte \<longleftrightarrow> offset \<le> byte \<and> byte \<le> offset + len - 1"

definition pci_default_write_config ::
    "u8 list \<Rightarrow> u8 list \<Rightarrow> nat \<Rightarrow> nat \<Rightarrow> u32 \<Rightarrow> nat \<Rightarrow> interrupts \<Rightarrow> interrupts res" where
  "pci_default_write_config wmask w1cmask i addr val l s =
     res_bind (arr_get (pci_devices s) i) (\<lambda>d.
     res_bind (pci_irq_disabled d) (\<lambda>was_irq_disabled.
     res_bind (fold_res (pci_config_byte wmask w1cmask addr val) [0..<l] (config d)) (\<lambda>cfg.
     let s = s\<lparr>pci_devices := (pci_devices s)[i := d\<lparr>config := cfg\<rparr>]\<rparr> in
     if range_covers_byte addr l PCI_COMMAND then pci_update_irq_disabled i was_irq_disabled s else Inr s)))"

section \<open>What the counters count\<close>

text \<open>The line that a device's pins are mapped to.\<close>

definition line_of :: "PCIDevice \<Rightarrow> nat option" where
  "line_of d = (case pci_map_irq d 0 of Inr n \<Rightarrow> Some (nat n) | Inl e \<Rightarrow> None)"

definition disabled :: "PCIDevice \<Rightarrow> bool" where
  "disabled d \<longleftrightarrow> pci_irq_disabled d = Inr True"

text \<open>The pins of a device that are asserted and not disabled.\<close>

definition asserted :: "PCIDevice \<Rightarrow> int" where
  "asserted d = (if disabled d then 0 else \<Sum>pin\<leftarrow>[0..<4]. pci_irq_state d pin)"

definition device_ok :: "PCIDevice \<Rightarrow> bool" where
  "device_ok d \<longleftrightarrow> length (config d) = 256 \<and> line_of d \<noteq> None"

definition line_count :: "interrupts \<Rightarrow> nat \<Rightarrow> int" where
  "line_count s n = (\<Sum>d\<leftarrow>pci_devices s. if line_of d = Some n then asserted d else 0)"

text \<open>The input that a line is routed to.\<close>

definition route :: "u8 list \<Rightarrow> nat \<Rightarrow> nat option" where
  "route cfg n =
     (let r = (if n < 8 then unat (drop_bit (n * 4) (le32 (cfg ! 0x6C) (cfg ! 0x6D) (cfg ! 0x6E) (cfg ! 0x6F)) AND 0xF)
               else unat (cfg ! (0x68 + (n - 8)))) in
      if n < 8 \<and> r = 0 \<or> r \<ge> 16 then None else Some r)"

text \<open>The state is well formed, the counters are right, and each line with an input of its own drives it.\<close>

definition irqs_ok :: "interrupts \<Rightarrow> bool" where
  "irqs_ok s \<longleftrightarrow> length (irq_count s) = 12 \<and> length (lpc_config s) = 256 \<and> length (pic s) = 16
     \<and> list_all device_ok (pci_devices s) \<and> (\<forall>n < 12. irq_count s ! n = line_count s n)"

definition unshared :: "u8 list \<Rightarrow> bool" where
  "unshared cfg \<longleftrightarrow> (\<forall>n < 12. \<forall>m < 12. route cfg n \<noteq> None \<and> route cfg n = route cfg m \<longrightarrow> n = m)"

definition pic_ok :: "interrupts \<Rightarrow> bool" where
  "pic_ok s \<longleftrightarrow> (\<forall>n < 12. \<forall>p. route (lpc_config s) n = Some p \<longrightarrow> pic s ! p = (irq_count s ! n \<noteq> 0))"

section \<open>Routing\<close>

lemma lpc_set_irq_eq:
  assumes "length (lpc_config s) = 256" "length (pic s) = 16" "n < 12"
  shows "xbox_lpc_set_irq (int n) level s
    = Inr (case route (lpc_config s) n of None \<Rightarrow> s | Some p \<Rightarrow> s\<lparr>pic := (pic s)[p := level]\<rparr>)"
proof (cases "n < 8")
  case True
  have "pci_get_long (lpc_config s) XBOX_LPC_INT_IRQ_ROUT
      = Inr (le32 (lpc_config s ! 0x6C) (lpc_config s ! 0x6D) (lpc_config s ! 0x6E) (lpc_config s ! 0x6F))"
    using assms(1) by (simp add: pci_get_long_def buf_read_def)
  then show ?thesis
    using True assms by (simp add: xbox_lpc_set_irq_def route_def qemu_set_irq_def Let_def)
next
  case False
  then have "nat (int n - 8) = n - 8" "0x68 + (n - 8) < length (lpc_config s)" using assms by simp_all
  with False show ?thesis
    using assms by (simp add: xbox_lpc_set_irq_def route_def qemu_set_irq_def Let_def)
qed

lemma map_irq_line:
  assumes "line_of d = Some n"
  shows "pci_map_irq d k = Inr (int n)" "n < 12"
proof -
  have "pci_map_irq d k = pci_map_irq d 0" by (simp add: pci_map_irq_def xbox_lpc_map_irq_def Let_def)
  moreover have "pci_map_irq d 0 = Inr (int n) \<and> n < 12"
  proof -
    have "\<exists>m. pci_map_irq d 0 = Inr m \<and> n = nat m \<and> 0 \<le> m \<and> m < 12"
      using assms by (auto simp: line_of_def pci_map_irq_def xbox_lpc_map_irq_def Let_def split: if_splits)
    then show ?thesis by auto
  qed
  ultimately show "pci_map_irq d k = Inr (int n)" "n < 12" by simp_all
qed

definition shape :: "interrupts \<Rightarrow> bool" where
  "shape s \<longleftrightarrow> length (irq_count s) = 12 \<and> length (lpc_config s) = 256 \<and> length (pic s) = 16"

lemma route_less: "route cfg n = Some p \<Longrightarrow> p < 16"
  by (auto simp: route_def Let_def split: if_splits)

text \<open>One change of a counter, and the input that follows it.\<close>

lemma change_level_eq:
  assumes "shape s" "line_of d = Some n"
  shows "pci_change_irq_level d k c s = Inr
    (let cs = (irq_count s)[n := irq_count s ! n + c] in
     case route (lpc_config s) n of None \<Rightarrow> s\<lparr>irq_count := cs\<rparr>
     | Some p \<Rightarrow> s\<lparr>irq_count := cs, pic := (pic s)[p := irq_count s ! n + c \<noteq> 0]\<rparr>)"
  using assms(1) map_irq_line [OF assms(2)]
    lpc_set_irq_eq [of "s\<lparr>irq_count := (irq_count s)[n := irq_count s ! n + c]\<rparr>" n "irq_count s ! n + c \<noteq> 0"]
  by (simp add: pci_change_irq_level_def shape_def Let_def split: option.splits)

lemma change_level:
  assumes "shape s" "pic_ok s" "unshared (lpc_config s)" "line_of d = Some n"
  shows "\<exists>s'. pci_change_irq_level d k c s = Inr s' \<and> shape s' \<and> pic_ok s' \<and> pci_devices s' = pci_devices s
    \<and> lpc_config s' = lpc_config s \<and> irq_count s' = (irq_count s)[n := irq_count s ! n + c]"
proof -
  note n = map_irq_line [OF assms(4)]
  let ?cs = "(irq_count s)[n := irq_count s ! n + c]" and ?lv = "irq_count s ! n + c \<noteq> 0"
  let ?s' = "case route (lpc_config s) n of None \<Rightarrow> s\<lparr>irq_count := ?cs\<rparr>
    | Some p \<Rightarrow> s\<lparr>irq_count := ?cs, pic := (pic s)[p := ?lv]\<rparr>"
  have "pci_change_irq_level d k c s = Inr ?s'"
    unfolding change_level_eq [OF assms(1,4)] Let_def ..
  moreover have "shape ?s'" using assms(1) by (auto simp: shape_def split: option.splits)
  moreover have "pic_ok ?s'"
    unfolding pic_ok_def
  proof (intro allI impI)
    fix m p
    assume "m < 12" and "route (lpc_config ?s') m = Some p"
    then have r: "route (lpc_config s) m = Some p" by (auto split: option.splits)
    show "pic ?s' ! p = (irq_count ?s' ! m \<noteq> 0)"
    proof (cases "m = n")
      case True
      then show ?thesis using r route_less [OF r] assms(1) n(2) by (simp add: shape_def)
    next
      case False
      then have "route (lpc_config s) n \<noteq> Some p" using assms(3) r \<open>m < 12\<close> n(2) by (auto simp: unshared_def)
      moreover have "pic s ! p = (irq_count s ! m \<noteq> 0)" using assms(2) r \<open>m < 12\<close> by (simp add: pic_ok_def)
      ultimately show ?thesis using False by (auto split: option.splits simp: nth_list_update)
    qed
  qed
  ultimately show ?thesis by (intro exI [of _ ?s']) (auto split: option.splits)
qed

lemma change_levels:
  assumes "line_of d = Some n"
  shows "shape s \<Longrightarrow> pic_ok s \<Longrightarrow> unshared (lpc_config s) \<Longrightarrow>
    \<exists>s'. fold_res (\<lambda>pin s. pci_change_irq_level d (int pin) (c pin) s) pins s = Inr s' \<and> shape s' \<and> pic_ok s'
      \<and> pci_devices s' = pci_devices s \<and> lpc_config s' = lpc_config s
      \<and> irq_count s' = (irq_count s)[n := irq_count s ! n + (\<Sum>pin\<leftarrow>pins. c pin)]"
proof (induction pins arbitrary: s)
  case Nil
  then show ?case by simp
next
  case (Cons k pins)
  obtain s1 where s1: "pci_change_irq_level d (int k) (c k) s = Inr s1" "shape s1" "pic_ok s1"
    "pci_devices s1 = pci_devices s" "lpc_config s1 = lpc_config s"
    "irq_count s1 = (irq_count s)[n := irq_count s ! n + c k]"
    using change_level [OF Cons.prems assms, of "int k" "c k"] by blast
  have "n < length (irq_count s)" using Cons.prems(1) map_irq_line(2) [OF assms] by (simp add: shape_def)
  with Cons.IH [OF s1(2,3)] s1 Cons.prems(3) show ?case by (auto simp: add.assoc)
qed

section \<open>Pins\<close>

lemma irq_state_set:
  "k < 8 \<Longrightarrow> pin < 8 \<Longrightarrow>
    pci_irq_state (pci_set_irq_state k level d) pin = (if pin = k then of_bool level else pci_irq_state d pin)"
proof -
  assume *: "k < 8" "pin < 8"
  have state: "pci_irq_state e j = of_bool (bit (irq_state e) j)" for e :: PCIDevice and j
    by (simp add: pci_irq_state_def and_one_eq bit_iff_odd_drop_bit mod_2_eq_odd)
  show ?thesis unfolding state using * by (auto simp: pci_set_irq_state_def bit_simps)
qed

lemma upt_4: "[0..<4] = [0, 1, 2, 3 :: nat]"
  by code_simp

lemma pins_change:
  assumes "k < 4"
  shows "(\<Sum>pin\<leftarrow>[0..<4]. pci_irq_state (pci_set_irq_state k level d) pin)
    = (\<Sum>pin\<leftarrow>[0..<4]. pci_irq_state d pin) + (of_bool level - pci_irq_state d k)"
proof -
  have "k = 0 \<or> k = 1 \<or> k = 2 \<or> k = 3" using assms by auto
  then show ?thesis unfolding upt_4 by (elim disjE) (simp_all add: irq_state_set)
qed

text \<open>What a device's lines depend on.\<close>

lemma line_of_cong: "devfn d' = devfn d \<Longrightarrow> on_agp d' = on_agp d \<Longrightarrow> line_of d' = line_of d"
  by (simp add: line_of_def pci_map_irq_def)

lemma irq_disabled_eq:
  "length (config d) = 256 \<Longrightarrow>
    pci_irq_disabled d = Inr ((ucast (config d ! 4) OR push_bit 8 (ucast (config d ! 5)) :: u16) AND 0x400 \<noteq> 0)"
  by (simp add: pci_irq_disabled_def pci_get_word_def buf_read_def)

lemma irq_disabled_cong:
  "length (config d) = 256 \<Longrightarrow> length (config d') = 256 \<Longrightarrow> config d' ! 4 = config d ! 4 \<Longrightarrow> config d' ! 5 = config d ! 5
    \<Longrightarrow> pci_irq_disabled d' = pci_irq_disabled d"
  by (simp add: irq_disabled_eq)

lemma irq_disabled_iff: "device_ok d \<Longrightarrow> pci_irq_disabled d = Inr (disabled d)"
  by (auto simp: disabled_def irq_disabled_eq device_ok_def)

lemma update_status_eq:
  assumes "device_ok d"
  shows "\<exists>d'. pci_update_irq_status d = Inr d' \<and> device_ok d' \<and> line_of d' = line_of d \<and> irq_state d' = irq_state d
    \<and> disabled d' = disabled d"
proof -
  let ?d' = "d\<lparr>config := (config d)[6 := (if irq_state d \<noteq> 0 then config d ! 6 OR 0x08 else config d ! 6 AND NOT 0x08)]\<rparr>"
  have len: "length (config d) = 256" using assms by (simp add: device_ok_def)
  then have "pci_update_irq_status d = Inr ?d'" by (simp add: pci_update_irq_status_def)
  moreover have l: "line_of ?d' = line_of d" by (rule line_of_cong) simp_all
  moreover have "pci_irq_disabled ?d' = pci_irq_disabled d" using len by (intro irq_disabled_cong) simp_all
  ultimately show ?thesis using assms by (intro exI [of _ ?d']) (simp add: device_ok_def disabled_def)
qed

lemma sum_list_update_int:
  "i < length xs \<Longrightarrow> sum_list (map f (xs[i := y])) = sum_list (map f xs) + (f y - f (xs ! i))" for f :: "'a \<Rightarrow> int"
  by (induction xs arbitrary: i) (auto simp: nth_Cons' algebra_simps split: nat.splits)

lemma line_count_update:
  assumes "i < length (pci_devices s)" "line_of d' = line_of (pci_devices s ! i)" "pci_devices s' = (pci_devices s)[i := d']"
  shows "line_count s' n = line_count s n
    + (if line_of d' = Some n then asserted d' - asserted (pci_devices s ! i) else 0)"
  using assms by (simp add: line_count_def sum_list_update_int)

text \<open>The counters after a device has changed and its line was told of the difference.\<close>

lemma counts_follow:
  assumes ok: "irqs_ok s" and i: "i < length (pci_devices s)" and d: "device_ok d'"
    and line: "line_of d' = line_of (pci_devices s ! i)" "line_of d' = Some n"
    and s': "shape s'" "pci_devices s' = (pci_devices s)[i := d']"
      "irq_count s' = (irq_count s)[n := irq_count s ! n + (asserted d' - asserted (pci_devices s ! i))]"
  shows "irqs_ok s'"
proof -
  have "irq_count s' ! m = line_count s' m" if "m < 12" for m
    using ok s' that line by (cases "m = n") (auto simp: irqs_ok_def line_count_update [OF i line(1) s'(2)])
  moreover have "list_all device_ok (pci_devices s')"
    using ok d s'(2) i by (auto simp: irqs_ok_def list_all_iff dest!: set_update_subset_insert [THEN subsetD])
  ultimately show ?thesis using s'(1) by (simp add: irqs_ok_def shape_def)
qed

lemma irq_handler_change:
  assumes dev: "device_ok (pci_devices s ! i)" and i: "i < length (pci_devices s)" "k < 4"
    and change: "of_bool level \<noteq> pci_irq_state (pci_devices s ! i) k"
  shows "\<exists>d'. device_ok d' \<and> line_of d' = line_of (pci_devices s ! i) \<and> disabled d' = disabled (pci_devices s ! i)
    \<and> pci_irq_state d' k = of_bool level
    \<and> asserted d' = asserted (pci_devices s ! i)
        + (if disabled d' then 0 else of_bool level - pci_irq_state (pci_devices s ! i) k)
    \<and> pci_irq_handler i k level s =
        (let s1 = s\<lparr>pci_devices := (pci_devices s)[i := d']\<rparr> in
         if disabled d' then Inr s1
         else pci_change_irq_level d' (int k) (of_bool level - pci_irq_state (pci_devices s ! i) k) s1)"
proof -
  let ?d = "pci_devices s ! i"
  let ?d1 = "pci_set_irq_state k level ?d"
  have d1: "device_ok ?d1" "line_of ?d1 = line_of ?d" "disabled ?d1 = disabled ?d"
    using dev line_of_cong [of ?d1 ?d] irq_disabled_cong [of ?d ?d1]
    by (simp_all add: device_ok_def disabled_def pci_set_irq_state_def)
  obtain d' where d': "pci_update_irq_status ?d1 = Inr d'" "device_ok d'" "line_of d' = line_of ?d"
    "irq_state d' = irq_state ?d1" "disabled d' = disabled ?d"
    using update_status_eq [OF d1(1)] d1 by auto
  have state: "pci_irq_state d' = pci_irq_state ?d1" using d'(4) by (simp add: pci_irq_state_def [abs_def])
  have "asserted d' = asserted ?d + (if disabled d' then 0 else of_bool level - pci_irq_state ?d k)"
    by (simp add: asserted_def d'(5) state pins_change [OF i(2)] del: upt_Suc)
  moreover have "pci_irq_state d' k = of_bool level" using state i(2) by (simp add: irq_state_set)
  moreover have "pci_irq_handler i k level s =
        (let s1 = s\<lparr>pci_devices := (pci_devices s)[i := d']\<rparr> in
         if disabled d' then Inr s1
         else pci_change_irq_level d' (int k) (of_bool level - pci_irq_state ?d k) s1)"
    using change d'(1) i irq_disabled_iff [OF d'(2)] by (simp add: pci_irq_handler_def Let_def)
  ultimately show ?thesis using d' by blast
qed

lemma irq_handler_ok:
  assumes ok: "irqs_ok s" "pic_ok s" "unshared (lpc_config s)" and i: "i < length (pci_devices s)" "k < 4"
  shows "\<exists>s'. pci_irq_handler i k level s = Inr s' \<and> irqs_ok s' \<and> pic_ok s' \<and> lpc_config s' = lpc_config s
    \<and> length (pci_devices s') = length (pci_devices s)"
proof -
  let ?d = "pci_devices s ! i" and ?change = "of_bool level - pci_irq_state (pci_devices s ! i) k"
  have dev: "device_ok ?d" using ok(1) i by (simp add: irqs_ok_def list_all_length)
  then obtain n where n: "line_of ?d = Some n" by (auto simp: device_ok_def)
  show ?thesis
  proof (cases "of_bool level = pci_irq_state ?d k")
    case True
    then show ?thesis using ok i by (simp add: pci_irq_handler_def)
  next
    case False
    obtain d' where d': "device_ok d'" "line_of d' = line_of ?d"
      and asserted: "asserted d' = asserted ?d + (if disabled d' then 0 else ?change)"
      and handler: "pci_irq_handler i k level s =
        (let s1 = s\<lparr>pci_devices := (pci_devices s)[i := d']\<rparr> in
         if disabled d' then Inr s1 else pci_change_irq_level d' (int k) ?change s1)"
      using irq_handler_change [OF dev i False] by blast
    have line: "line_of d' = Some n" using d'(2) n by simp
    let ?s1 = "s\<lparr>pci_devices := (pci_devices s)[i := d']\<rparr>"
    have shape: "shape ?s1" "pic_ok ?s1" "unshared (lpc_config ?s1)"
      using ok by (simp_all add: irqs_ok_def shape_def pic_ok_def)
    show ?thesis
    proof (cases "disabled d'")
      case True
      then have "irqs_ok ?s1"
        using asserted by (intro counts_follow [OF ok(1) i(1) d' line shape(1)]) simp_all
      then show ?thesis using handler True shape(2) by (simp add: Let_def)
    next
      case enabled: False
      obtain s' where s': "pci_change_irq_level d' (int k) ?change ?s1 = Inr s'" "shape s'" "pic_ok s'"
        "pci_devices s' = pci_devices ?s1" "lpc_config s' = lpc_config s"
        "irq_count s' = (irq_count s)[n := irq_count s ! n + ?change]"
        using change_level [OF shape line, of "int k" ?change] by auto
      have "irqs_ok s'"
        using s' asserted enabled by (intro counts_follow [OF ok(1) i(1) d' line s'(2)]) simp_all
      then show ?thesis using handler enabled s' by (simp add: Let_def)
    qed
  qed
qed

text \<open>Writes to the configuration space.\<close>

definition masks_ok :: "u8 list \<Rightarrow> u8 list \<Rightarrow> bool" where
  "masks_ok wmask w1cmask \<longleftrightarrow> length wmask = 256 \<and> length w1cmask = 256
     \<and> list_all2 (\<lambda>w c. w AND c = 0) wmask w1cmask"

lemma config_bytes_ok:
  assumes "masks_ok wmask w1cmask" "length cfg = 256" "\<forall>j \<in> set js. addr + j < 256"
  shows "\<exists>cfg'. fold_res (pci_config_byte wmask w1cmask addr val) js cfg = Inr cfg' \<and> length cfg' = 256
    \<and> (\<forall>a. a \<notin> (+) addr ` set js \<longrightarrow> cfg' ! a = cfg ! a)"
  using assms(2,3)
proof (induction js arbitrary: cfg)
  case (Cons j js)
  have "wmask ! (addr + j) AND w1cmask ! (addr + j) = 0"
    using assms(1) Cons.prems by (simp add: masks_ok_def list_all2_conv_all_nth)
  then obtain cfg1 where cfg1: "pci_config_byte wmask w1cmask addr val j cfg = Inr cfg1" "length cfg1 = 256"
    "\<And>a. a \<noteq> addr + j \<Longrightarrow> cfg1 ! a = cfg ! a"
    using assms(1) Cons.prems by (simp add: pci_config_byte_def masks_ok_def Let_def)
  show ?case using Cons.IH [OF cfg1(2)] Cons.prems(2) cfg1 by fastforce
qed simp

lemma write_config_ok:
  assumes ok: "irqs_ok s" "pic_ok s" "unshared (lpc_config s)" and i: "i < length (pci_devices s)"
    and m: "masks_ok wmask w1cmask" "addr + l \<le> 256"
    and both: "range_covers_byte addr l PCI_COMMAND \<or> \<not> range_covers_byte addr l (PCI_COMMAND + 1)"
  shows "\<exists>s'. pci_default_write_config wmask w1cmask i addr val l s = Inr s' \<and> irqs_ok s' \<and> pic_ok s'
    \<and> lpc_config s' = lpc_config s \<and> length (pci_devices s') = length (pci_devices s)"
proof -
  let ?d = "pci_devices s ! i"
  have dev: "device_ok ?d" using ok(1) i by (simp add: irqs_ok_def list_all_length)
  then obtain n where n: "line_of ?d = Some n" by (auto simp: device_ok_def)
  obtain cfg where cfg: "fold_res (pci_config_byte wmask w1cmask addr val) [0..<l] (config ?d) = Inr cfg"
    "length cfg = 256" "\<And>a. a \<notin> (+) addr ` set [0..<l] \<Longrightarrow> cfg ! a = config ?d ! a"
    using config_bytes_ok [OF m(1), of "config ?d" "[0..<l]" addr val] dev m(2) by (auto simp: device_ok_def)
  define d' where "d' = ?d\<lparr>config := cfg\<rparr>"
  have d': "device_ok d'" "line_of d' = Some n" "pci_irq_state d' = pci_irq_state ?d"
    using dev n cfg(2) line_of_cong [of d' ?d] by (simp_all add: d'_def device_ok_def pci_irq_state_def [abs_def])
  let ?s1 = "s\<lparr>pci_devices := (pci_devices s)[i := d']\<rparr>"
  have shape: "shape ?s1" "pic_ok ?s1" "unshared (lpc_config ?s1)" using ok by (simp_all add: irqs_ok_def shape_def pic_ok_def)
  have step: "pci_default_write_config wmask w1cmask i addr val l s =
      (if range_covers_byte addr l PCI_COMMAND then pci_update_irq_disabled i (disabled ?d) ?s1 else Inr ?s1)"
    using i cfg(1) irq_disabled_iff [OF dev] by (simp add: pci_default_write_config_def Let_def d'_def)
  have quiet: "irqs_ok ?s1" if "disabled d' = disabled ?d"
    using d' n that by (intro counts_follow [OF ok(1) i d'(1) _ d'(2) shape(1)]) (simp_all add: asserted_def)
  show ?thesis
  proof (cases "range_covers_byte addr l PCI_COMMAND \<and> disabled d' \<noteq> disabled ?d")
    case True
    let ?c = "\<lambda>pin. if disabled d' then - pci_irq_state d' pin else pci_irq_state d' pin"
    obtain s' where s': "fold_res (\<lambda>pin s. pci_change_irq_level d' (int pin) (?c pin) s) [0..<4] ?s1 = Inr s'"
      "shape s'" "pic_ok s'" "pci_devices s' = pci_devices ?s1" "lpc_config s' = lpc_config s"
      "irq_count s' = (irq_count s)[n := irq_count s ! n + (\<Sum>pin\<leftarrow>[0..<4]. ?c pin)]"
      using change_levels [OF d'(2) shape, of ?c "[0..<4]"] by auto
    have "(\<Sum>pin\<leftarrow>[0..<4]. ?c pin) = asserted d' - asserted ?d"
      using True d'(3) by (auto simp: asserted_def upt_4)
    then have "irqs_ok s'"
      using d'(2) n s' by (intro counts_follow [OF ok(1) i d'(1) _ d'(2) s'(2)]) simp_all
    then show ?thesis
      using step True s' i irq_disabled_iff [OF d'(1)] by (simp add: pci_update_irq_disabled_def Let_def)
  next
    case False
    have same: "disabled d' = disabled ?d"
    proof (cases "range_covers_byte addr l PCI_COMMAND")
      case False
      then have out: "\<not> range_covers_byte addr l (PCI_COMMAND + 1)" using both by blast
      have "cfg ! 4 = config ?d ! 4" "cfg ! 5 = config ?d ! 5"
        using False out by (auto intro!: cfg(3) simp: range_covers_byte_def)
      then have "pci_irq_disabled d' = pci_irq_disabled ?d"
        using dev cfg(2) by (intro irq_disabled_cong) (simp_all add: d'_def device_ok_def)
      then show ?thesis by (simp add: disabled_def)
    qed (use False in simp)
    then show ?thesis
      using step quiet shape i irq_disabled_iff [OF d'(1)] by (auto simp: pci_update_irq_disabled_def)
  qed
qed

section \<open>Properties\<close>

text \<open>What happens to the interrupts: a pin changes, or the guest writes a device's configuration space.\<close>

datatype irq_event = Pin nat nat bool | Write_config nat nat u32 nat

fun irq_event_step :: "u8 list \<Rightarrow> u8 list \<Rightarrow> irq_event \<Rightarrow> interrupts \<Rightarrow> interrupts res" where
  "irq_event_step wmask w1cmask (Pin i k level) s = pci_irq_handler i k level s"
| "irq_event_step wmask w1cmask (Write_config i addr val l) s = pci_default_write_config wmask w1cmask i addr val l s"

fun irq_event_ok :: "nat \<Rightarrow> irq_event \<Rightarrow> bool" where
  "irq_event_ok num (Pin i k level) \<longleftrightarrow> i < num \<and> k < 4"
| "irq_event_ok num (Write_config i addr val l) \<longleftrightarrow> i < num \<and> addr + l \<le> 256
     \<and> (range_covers_byte addr l PCI_COMMAND \<or> \<not> range_covers_byte addr l (PCI_COMMAND + 1))"

lemma irq_events_ok:
  assumes "masks_ok wmask w1cmask" "unshared (lpc_config s)" "irqs_ok s" "pic_ok s"
    and "list_all (irq_event_ok (length (pci_devices s))) es"
  shows "\<exists>s'. fold_res (irq_event_step wmask w1cmask) es s = Inr s' \<and> irqs_ok s' \<and> pic_ok s'
    \<and> lpc_config s' = lpc_config s"
  using assms(2-)
proof (induction es arbitrary: s)
  case (Cons e es)
  have "\<exists>s1. irq_event_step wmask w1cmask e s = Inr s1 \<and> irqs_ok s1 \<and> pic_ok s1 \<and> lpc_config s1 = lpc_config s
      \<and> length (pci_devices s1) = length (pci_devices s)"
    using Cons.prems irq_handler_ok [of s] write_config_ok [of s _ wmask w1cmask] assms(1) by (cases e) auto
  then obtain s1 where "irq_event_step wmask w1cmask e s = Inr s1" "irqs_ok s1" "pic_ok s1"
    "lpc_config s1 = lpc_config s" "length (pci_devices s1) = length (pci_devices s)" by blast
  with Cons.IH [of s1] Cons.prems show ?case by auto
qed simp

text \<open>A pin of the device is up and reaches the line.\<close>

definition raises :: "PCIDevice \<Rightarrow> nat \<Rightarrow> bool" where
  "raises d n \<longleftrightarrow> line_of d = Some n \<and> \<not> disabled d \<and> (\<exists>pin < 4. pci_irq_state d pin = 1)"

lemma pci_irq_state_bool: "pci_irq_state d k = 0 \<or> pci_irq_state d k = 1"
  by (simp add: pci_irq_state_def and_one_eq mod_2_eq_odd)

lemma asserted_nonneg: "0 \<le> asserted d"
  by (auto simp: asserted_def intro!: sum_list_nonneg) (use pci_irq_state_bool in \<open>metis order.refl zero_le_one\<close>)

lemma asserted_iff: "asserted d \<noteq> 0 \<longleftrightarrow> \<not> disabled d \<and> (\<exists>pin < 4. pci_irq_state d pin = 1)"
proof -
  have ex: "(\<exists>pin < 4. P pin) \<longleftrightarrow> P 0 \<or> P 1 \<or> P 2 \<or> P (3 :: nat)" for P
    by (auto simp: numeral_eq_Suc less_Suc_eq)
  show ?thesis
    using pci_irq_state_bool [of d 0] pci_irq_state_bool [of d 1] pci_irq_state_bool [of d 2] pci_irq_state_bool [of d 3]
    unfolding ex by (auto simp: asserted_def upt_4)
qed

lemma line_count_iff: "line_count s n \<noteq> 0 \<longleftrightarrow> (\<exists>d \<in> set (pci_devices s). raises d n)"
proof -
  have "line_count s n = 0 \<longleftrightarrow> (\<forall>x \<in> set (map (\<lambda>d. if line_of d = Some n then asserted d else 0) (pci_devices s)). x = 0)"
    unfolding line_count_def by (rule sum_list_nonneg_eq_0_iff) (auto simp: asserted_nonneg)
  then show ?thesis using asserted_iff by (auto simp: raises_def split: if_splits)
qed


text \<open>
  A console with the network device in slot 4 and the audio device in slot 5, with their pins down or up,
  and the inputs that their lines are routed to.
\<close>

definition two_devices :: "bool \<Rightarrow> nat \<Rightarrow> nat \<Rightarrow> interrupts" where
  "two_devices up p q =
     \<lparr>pci_devices = [\<lparr>devfn = 0x20, on_agp = False, irq_state = of_bool up, config = replicate 256 0\<rparr>,
                     \<lparr>devfn = 0x28, on_agp = False, irq_state = of_bool up, config = replicate 256 0\<rparr>],
      irq_count = (replicate 12 0)[2 := of_bool up, 3 := of_bool up],
      lpc_config = (replicate 256 0)[0x68 := 16, 0x69 := 16, 0x6a := 16, 0x6b := 16, 0x6d := of_nat (p + 16 * q)],
      pic = (replicate 16 False)[p := up, q := up]\<rparr>"

lemma two_devices_lines:
  "line_of \<lparr>devfn = 0x20, on_agp = False, irq_state = x, config = c\<rparr> = Some 2"
  "line_of \<lparr>devfn = 0x28, on_agp = False, irq_state = x, config = c\<rparr> = Some 3"
  by (simp_all add: line_of_def pci_map_irq_def xbox_lpc_map_irq_def PCI_SLOT_def)

lemma two_devices_state:
  "\<not> disabled \<lparr>devfn = dfn, on_agp = False, irq_state = of_bool up, config = replicate 256 0\<rparr>"
  "pci_irq_state \<lparr>devfn = dfn, on_agp = False, irq_state = of_bool up, config = c\<rparr> 0 = of_bool up"
  "asserted \<lparr>devfn = dfn, on_agp = False, irq_state = of_bool up, config = replicate 256 0\<rparr> = of_bool up"
  by (cases up; simp add: disabled_def irq_disabled_eq asserted_def pci_irq_state_def upt_4)+

lemma two_devices_ok: "irqs_ok (two_devices up p q)"
proof -
  have "(replicate 12 0)[2 := of_bool up, 3 := of_bool up] ! n
      = (if n = 2 then of_bool up else 0) + (if n = 3 then of_bool up else (0 :: int))" if "n < 12" for n
    using that by (simp add: nth_list_update)
  then show ?thesis
    by (auto simp: irqs_ok_def two_devices_def device_ok_def line_count_def two_devices_lines two_devices_state)
qed

lemma route_56: "n < 12 \<Longrightarrow> route (lpc_config (two_devices up 5 6)) n = (if n = 2 then Some 5 else if n = 3 then Some 6 else None)"
proof -
  have "\<forall>n \<in> set [0..<12]. route (lpc_config (two_devices False 5 6)) n = (if n = 2 then Some 5 else if n = 3 then Some 6 else None)"
    by code_simp
  moreover have "lpc_config (two_devices up 5 6) = lpc_config (two_devices False 5 6)" by (simp add: two_devices_def)
  moreover assume "n < 12"
  ultimately show ?thesis by simp
qed

lemma two_devices_unshared: "unshared (lpc_config (two_devices up 5 6))"
  using route_56 by (auto simp: unshared_def split: if_splits)

lemma two_devices_pic: "pic_ok (two_devices up 5 6)"
  unfolding pic_ok_def by (auto simp: route_56 split: if_splits) (simp_all add: two_devices_def)

definition default_wmask :: "u8 list" where
  "default_wmask = (replicate 256 0)[4 := 0x07, 5 := 0x04]"

lemma default_masks: "masks_ok default_wmask (replicate 256 0)"
  by (simp add: masks_ok_def default_wmask_def list_all2_conv_all_nth)


text \<open>
  The bit that disables a device's interrupts is in the upper byte of the command register, but only
  a write that covers the lower byte updates the line. So a guest that sets the bit with a write of one
  byte while a pin is up leaves the line up for good: when the pin goes down, the counter keeps its
  value and the input of the interrupt controller stays up.
\<close>

lemma intx_disable_byte_sticks:
  assumes ok: "irqs_ok s" "pic_ok s" and i: "i < length (pci_devices s)" "k < 4"
    and d: "\<not> disabled (pci_devices s ! i)" "pci_irq_state (pci_devices s ! i) k = 1"
      "line_of (pci_devices s ! i) = Some n" "route (lpc_config s) n = Some p"
    and m: "masks_ok wmask w1cmask" "wmask ! 5 AND 0x04 = 0x04"
  shows "\<exists>s1 s2. pci_default_write_config wmask w1cmask i 5 0x04 1 s = Inr s1 \<and> pci_irq_handler i k False s1 = Inr s2
    \<and> pci_irq_state (pci_devices s2 ! i) k = 0 \<and> irq_count s2 ! n = irq_count s ! n \<and> pic s2 ! p"
proof -
  let ?d = "pci_devices s ! i"
  have dev: "device_ok ?d" using ok(1) i by (simp add: irqs_ok_def list_all_length)
  then have len: "length (config ?d) = 256" by (simp add: device_ok_def)
  let ?cfg = "(config ?d)[5 := ((config ?d ! 5 AND NOT (wmask ! 5)) OR (0x04 AND wmask ! 5)) AND NOT (0x04 AND w1cmask ! 5)]"
  define d1 where "d1 = ?d\<lparr>config := ?cfg\<rparr>"
  define s1 where "s1 = s\<lparr>pci_devices := (pci_devices s)[i := d1]\<rparr>"
  have m5: "length wmask = 256" "length w1cmask = 256" "wmask ! 5 AND w1cmask ! 5 = 0"
    using m(1) by (simp_all add: masks_ok_def list_all2_conv_all_nth)
  have bits: "bit (wmask ! 5) 2" "\<not> bit (w1cmask ! 5) 2"
  proof -
    have four: "(0x04 :: u8) = push_bit 2 1" by simp
    from m(2) have "bit (wmask ! 5 AND 0x04) 2" unfolding four by (simp add: bit_simps)
    then show "bit (wmask ! 5) 2" by (simp add: bit_and_iff)
    moreover have "\<not> bit (wmask ! 5 AND w1cmask ! 5) 2" using m5(3) by simp
    ultimately show "\<not> bit (w1cmask ! 5) 2" by (simp add: bit_and_iff)
  qed
  have d1: "device_ok d1" "line_of d1 = Some n" "pci_irq_state d1 = pci_irq_state ?d"
    using dev d(3) line_of_cong [of d1 ?d] by (simp_all add: d1_def device_ok_def pci_irq_state_def [abs_def])
  have dis: "disabled d1"
  proof -
    have hi: "bit (?cfg ! 5) 2" using bits len bit_push_bit_iff [of 2 "1 :: u8" 2] by (simp add: bit_simps)
    have word: "(w AND 0x400 \<noteq> 0) = bit w 10" for w :: u16
      using and_exp_eq_0_iff_not_bit [of w 10] by simp
    have "pci_irq_disabled d1 = Inr True"
      using irq_disabled_eq [of d1] len hi by (simp add: word d1_def bit_simps)
    then show ?thesis by (simp add: disabled_def)
  qed
  have wr: "pci_default_write_config wmask w1cmask i 5 0x04 1 s = Inr s1"
    using i irq_disabled_iff [OF dev] len m5
    by (simp add: pci_default_write_config_def pci_config_byte_def range_covers_byte_def s1_def d1_def Let_def)
  have at: "pci_devices s1 ! i = d1" "i < length (pci_devices s1)" using i by (simp_all add: s1_def)
  obtain d2 where d2: "disabled d2 = disabled d1" "pci_irq_state d2 k = 0"
    "pci_irq_handler i k False s1 = (let s2 = s1\<lparr>pci_devices := (pci_devices s1)[i := d2]\<rparr> in
       if disabled d2 then Inr s2 else pci_change_irq_level d2 (int k) (of_bool False - pci_irq_state d1 k) s2)"
    using irq_handler_change [of s1 i k False] at d1 i(2) d(2) by auto
  have cnt: "irq_count s ! n \<noteq> 0"
  proof -
    have "raises ?d n" using d i(2) by (auto simp: raises_def)
    then have "line_count s n \<noteq> 0" using i(1) line_count_iff [of s n] by auto
    then show ?thesis using ok(1) map_irq_line(2) [OF d(3)] by (simp add: irqs_ok_def)
  qed
  then have "pic s ! p" using ok(2) d(4) map_irq_line(2) [OF d(3)] by (simp add: pic_ok_def)
  then show ?thesis using wr d2 dis i at by (simp add: s1_def Let_def)
qed

lemma intx_disable_byte_sticks_witness:
  "\<exists>s1 s2. pci_default_write_config default_wmask (replicate 256 0) 0 5 0x04 1 (two_devices True 5 6) = Inr s1
    \<and> pci_irq_handler 0 0 False s1 = Inr s2 \<and> pci_irq_state (pci_devices s2 ! 0) 0 = 0 \<and> pic s2 ! 5"
proof -
  have d: "pci_devices (two_devices True 5 6) ! 0
      = \<lparr>devfn = 0x20, on_agp = False, irq_state = of_bool True, config = replicate 256 0\<rparr>"
    "length (pci_devices (two_devices True 5 6)) = 2" by (simp_all add: two_devices_def)
  have "default_wmask ! 5 AND 0x04 = 0x04" by (simp add: default_wmask_def)
  then show ?thesis
    using intx_disable_byte_sticks [OF two_devices_ok two_devices_pic, of 0 True 0 2 5 default_wmask "replicate 256 0"]
      default_masks route_56 [of 2 True] two_devices_state [where up = True and dfn = "0x20"]
    unfolding d two_devices_lines by auto
qed


text \<open>
  Two lines that are routed to one input overwrite each other's level: when the device on one of
  them lowers its pin, the input goes down although the device on the other line still has a pin up.
\<close>

lemma shared_input_lost:
  assumes ok: "irqs_ok s" and i: "i < length (pci_devices s)" "j < length (pci_devices s)" "k < 4"
    and di: "\<not> disabled (pci_devices s ! i)" "pci_irq_state (pci_devices s ! i) k = 1"
      "line_of (pci_devices s ! i) = Some n" "irq_count s ! n = 1" "route (lpc_config s) n = Some p"
    and dj: "raises (pci_devices s ! j) m" "m \<noteq> n" "route (lpc_config s) m = Some p"
  shows "\<exists>s'. pci_irq_handler i k False s = Inr s' \<and> raises (pci_devices s' ! j) m \<and> \<not> pic s' ! p"
proof -
  let ?d = "pci_devices s ! i"
  have dev: "device_ok ?d" using ok(1) i by (simp add: irqs_ok_def list_all_length)
  have "i \<noteq> j" using di(3) dj(1,2) by (auto simp: raises_def)
  obtain d' where d': "line_of d' = Some n" "\<not> disabled d'"
    "pci_irq_handler i k False s = (let s1 = s\<lparr>pci_devices := (pci_devices s)[i := d']\<rparr> in
       if disabled d' then Inr s1 else pci_change_irq_level d' (int k) (-1) s1)"
    using irq_handler_change [of s i k False] dev i di by auto
  let ?s1 = "s\<lparr>pci_devices := (pci_devices s)[i := d']\<rparr>"
  have "shape ?s1" using ok by (simp add: irqs_ok_def shape_def)
  then show ?thesis
    using d' di(4,5) dj(1) \<open>i \<noteq> j\<close> ok route_less [OF di(5)] change_level_eq [of ?s1 d' n "int k" "-1"]
    by (simp add: Let_def irqs_ok_def)
qed

lemma shared_input_lost_witness:
  "\<exists>s'. pci_irq_handler 0 0 False (two_devices True 5 5) = Inr s' \<and> raises (pci_devices s' ! 1) 3 \<and> \<not> pic s' ! 5"
proof -
  let ?s = "two_devices True 5 5"
  have d: "pci_devices ?s ! 0 = \<lparr>devfn = 0x20, on_agp = False, irq_state = of_bool True, config = replicate 256 0\<rparr>"
    "pci_devices ?s ! 1 = \<lparr>devfn = 0x28, on_agp = False, irq_state = of_bool True, config = replicate 256 0\<rparr>"
    "length (pci_devices ?s) = 2" "irq_count ?s ! 2 = 1" by (simp_all add: two_devices_def)
  have r: "route (lpc_config ?s) 2 = Some 5" "route (lpc_config ?s) 3 = Some 5" by code_simp+
  have "raises (pci_devices ?s ! 1) 3"
    unfolding raises_def d two_devices_lines using two_devices_state [where up = True] by (auto intro!: exI [of _ 0])
  then show ?thesis
    using shared_input_lost [OF two_devices_ok, of 0 True 5 5 1 0 2 5 3] r
      two_devices_state [where up = True and dfn = "0x20"] unfolding d two_devices_lines by auto
qed


end
