(* ===== verification/LPC47M157.thy ===== *)
theory LPC47M157
  imports Xbox_Prelude
begin

text \<open>
  The super I/O chip of the debug kit (\<open>src/hw/xbox/lpc47m157.c\<close>): an index port and a data port select and
  access configuration registers, and leaving the configuration mode activates the serial ports that the
  registers enable. The serial ports themselves are represented by what they are connected to; the ISA
  helpers (\<open>src/hw/isa/isa-bus.c\<close>) are part of the model. Shown here: programming a port connects it as
  the registers say, and exactly which accesses stop the program or leave the register arrays.
\<close>

section \<open>The chip\<close>

abbreviation MAX_DEVICE :: nat where "MAX_DEVICE \<equiv> 0xC"
abbreviation DEVICE_SERIAL_PORT_1 :: nat where "DEVICE_SERIAL_PORT_1 \<equiv> 0x4"
abbreviation ENTER_CONFIG_KEY :: u64 where "ENTER_CONFIG_KEY \<equiv> 0x55"
abbreviation EXIT_CONFIG_KEY :: u64 where "EXIT_CONFIG_KEY \<equiv> 0xAA"
abbreviation MAX_CONFIG_REG :: nat where "MAX_CONFIG_REG \<equiv> 0x30"
abbreviation MAX_DEVICE_REGS :: nat where "MAX_DEVICE_REGS \<equiv> 0xFF"
abbreviation CONFIG_DEVICE_NUMBER :: nat where "CONFIG_DEVICE_NUMBER \<equiv> 0x07"
abbreviation CONFIG_PORT_LOW :: nat where "CONFIG_PORT_LOW \<equiv> 0x26"
abbreviation CONFIG_PORT_HIGH :: nat where "CONFIG_PORT_HIGH \<equiv> 0x27"
abbreviation CONFIG_DEVICE_ACTIVATE :: nat where "CONFIG_DEVICE_ACTIVATE \<equiv> 0x30"
abbreviation CONFIG_DEVICE_BASE_ADDRESS_HIGH :: nat where "CONFIG_DEVICE_BASE_ADDRESS_HIGH \<equiv> 0x60"
abbreviation CONFIG_DEVICE_BASE_ADDRESS_LOW :: nat where "CONFIG_DEVICE_BASE_ADDRESS_LOW \<equiv> 0x61"
abbreviation CONFIG_DEVICE_INETRRUPT :: nat where "CONFIG_DEVICE_INETRRUPT \<equiv> 0x70"

text \<open>A serial port, with the interrupt and the I/O address it was connected to.\<close>

record serial_port =
  active :: bool
  serial_irq :: "u32 option"
  serial_io :: "u16 option"

record LPC47M157State =
  configuration_mode :: bool
  selected_reg :: u32
  config_regs :: "u8 list"
  device_regs :: "u8 list list"
  serial :: "serial_port list"
  isairq :: "u32 list"
  nirqs :: nat

text \<open>\<open>isa_init_irq\<close>; an interrupt that the bus does not have ends the program through \<open>hw_error\<close>.\<close>

definition isa_init_irq :: "nat \<Rightarrow> u32 \<Rightarrow> LPC47M157State \<Rightarrow> LPC47M157State res" where
  "isa_init_irq i irq s =
     res_bind (assert_res (nirqs s < length (isairq s))) (\<lambda>_.
     let s = s\<lparr>isairq := (isairq s)[nirqs s := irq]\<rparr> in
     if irq > 15 then Inl Exit_called
     else Inr (s\<lparr>serial := (serial s)[i := (serial s ! i)\<lparr>serial_irq := Some irq\<rparr>], nirqs := nirqs s + 1\<rparr>))"

definition isa_register_ioport :: "nat \<Rightarrow> u16 \<Rightarrow> LPC47M157State \<Rightarrow> LPC47M157State" where
  "isa_register_ioport i start s = s\<lparr>serial := (serial s)[i := (serial s ! i)\<lparr>serial_io := Some start\<rparr>]\<rparr>"

definition update_device :: "nat \<Rightarrow> LPC47M157State \<Rightarrow> LPC47M157State res" where
  "update_device i s =
     res_bind (arr_get (device_regs s) (DEVICE_SERIAL_PORT_1 + i)) (\<lambda>dev.
     res_bind (arr_get dev CONFIG_DEVICE_ACTIVATE) (\<lambda>activate.
     res_bind (arr_get (serial s) i) (\<lambda>port.
     if activate \<noteq> 0 \<and> \<not> active port then
       res_bind (arr_get dev CONFIG_DEVICE_BASE_ADDRESS_HIGH) (\<lambda>high.
       res_bind (arr_get dev CONFIG_DEVICE_BASE_ADDRESS_LOW) (\<lambda>low.
       res_bind (arr_get dev CONFIG_DEVICE_INETRRUPT) (\<lambda>b.
       let iobase = push_bit 8 (ucast high) OR ucast low :: u32; irq = ucast b :: u32 in
       res_bind (if irq \<noteq> 0 then isa_init_irq i irq s else Inr s) (\<lambda>s.
       let s = isa_register_ioport i (ucast iobase) s in
       Inr (s\<lparr>serial := (serial s)[i := (serial s ! i)\<lparr>active := True\<rparr>]\<rparr>)))))
     else Inr s)))"

definition update_devices :: "LPC47M157State \<Rightarrow> LPC47M157State res" where
  "update_devices s = fold_res update_device [0..<2] s"

text \<open>The register array of the selected device; a row has 255 registers.\<close>

definition selected_device :: "LPC47M157State \<Rightarrow> nat res" where
  "selected_device s =
     res_bind (arr_get (config_regs s) CONFIG_DEVICE_NUMBER) (\<lambda>n.
     res_bind (assert_res (unat n < MAX_DEVICE)) (\<lambda>_. Inr (unat n)))"

definition lpc47m157_io_write :: "hwaddr \<Rightarrow> u64 \<Rightarrow> LPC47M157State \<Rightarrow> LPC47M157State res" where
  "lpc47m157_io_write addr val s =
     (if addr = 0 then
        (if val = ENTER_CONFIG_KEY then
           res_bind (assert_res (\<not> configuration_mode s)) (\<lambda>_. Inr (s\<lparr>configuration_mode := True\<rparr>))
         else if val = EXIT_CONFIG_KEY then
           res_bind (assert_res (configuration_mode s)) (\<lambda>_. update_devices (s\<lparr>configuration_mode := False\<rparr>))
         else Inr (s\<lparr>selected_reg := ucast val\<rparr>))
      else if addr = 1 then
        (if unat (selected_reg s) < MAX_CONFIG_REG then
           res_bind (arr_set (config_regs s) (unat (selected_reg s)) (ucast val)) (\<lambda>rs. Inr (s\<lparr>config_regs := rs\<rparr>))
         else
           res_bind (selected_device s) (\<lambda>n.
           res_bind (arr_get (device_regs s) n) (\<lambda>dev.
           res_bind (arr_set dev (unat (selected_reg s)) (ucast val)) (\<lambda>dev.
           Inr (s\<lparr>device_regs := (device_regs s)[n := dev]\<rparr>)))))
      else Inl Assertion_failed)"

definition lpc47m157_io_read :: "hwaddr \<Rightarrow> LPC47M157State \<Rightarrow> u32 res" where
  "lpc47m157_io_read addr s =
     (if addr = 0 then Inr 0
      else if addr = 1 then
        (if unat (selected_reg s) < MAX_CONFIG_REG then
           res_bind (arr_get (config_regs s) (unat (selected_reg s))) (\<lambda>b. Inr (ucast b))
         else
           res_bind (selected_device s) (\<lambda>n.
           res_bind (arr_get (device_regs s) n) (\<lambda>dev.
           res_bind (arr_get dev (unat (selected_reg s))) (\<lambda>b. Inr (ucast b)))))
      else Inl Assertion_failed)"

text \<open>The state after \<open>lpc47m157_realize\<close> and \<open>isa_device_init\<close>.\<close>

definition lpc47m157_realize :: LPC47M157State where
  "lpc47m157_realize =
     \<lparr>configuration_mode = False, selected_reg = 0,
      config_regs = (replicate MAX_CONFIG_REG 0)[CONFIG_PORT_LOW := 0x2e, CONFIG_PORT_HIGH := 0],
      device_regs = replicate MAX_DEVICE (replicate MAX_DEVICE_REGS 0),
      serial = replicate 2 \<lparr>active = False, serial_irq = None, serial_io = None\<rparr>,
      isairq = [-1, -1], nirqs = 0\<rparr>"

section \<open>Well-formed states\<close>

definition active_irqs :: "LPC47M157State \<Rightarrow> nat" where
  "active_irqs s = length (filter (\<lambda>p. serial_irq p \<noteq> None) (serial s))"

definition lpc_ok :: "LPC47M157State \<Rightarrow> bool" where
  "lpc_ok s \<longleftrightarrow> length (config_regs s) = MAX_CONFIG_REG \<and> length (device_regs s) = MAX_DEVICE
     \<and> list_all (\<lambda>dev. length dev = MAX_DEVICE_REGS) (device_regs s) \<and> length (serial s) = 2
     \<and> length (isairq s) = 2 \<and> nirqs s = active_irqs s
     \<and> list_all (\<lambda>p. \<not> active p \<longrightarrow> serial_irq p = None) (serial s)"

text \<open>The interrupt that a port would be connected to is not one of the bus.\<close>

definition bad_irq :: "LPC47M157State \<Rightarrow> nat \<Rightarrow> bool" where
  "bad_irq s i \<longleftrightarrow> device_regs s ! (4 + i) ! 0x30 \<noteq> 0 \<and> \<not> active (serial s ! i) \<and> device_regs s ! (4 + i) ! 0x70 > 15"

text \<open>The port after leaving the configuration mode.\<close>

definition connected :: "LPC47M157State \<Rightarrow> nat \<Rightarrow> serial_port" where
  "connected s i =
     (let dev = device_regs s ! (4 + i); port = serial s ! i in
      if dev ! 0x30 \<noteq> 0 \<and> \<not> active port
      then \<lparr>active = True, serial_irq = (if dev ! 0x70 \<noteq> 0 then Some (ucast (dev ! 0x70)) else serial_irq port),
            serial_io = Some (push_bit 8 (ucast (dev ! 0x60)) OR ucast (dev ! 0x61))\<rparr>
      else port)"

lemma lpc_ok_ports:
  assumes "lpc_ok s"
  obtains p0 p1 where "serial s = [p0, p1]"
proof -
  have "length (serial s) = 2" using assms by (simp add: lpc_ok_def)
  then show ?thesis using that by (auto simp: numeral_2_eq_2 length_Suc_conv)
qed

lemma lpc_ok_dev: "lpc_ok s \<Longrightarrow> n < MAX_DEVICE \<Longrightarrow> length (device_regs s ! n) = MAX_DEVICE_REGS"
  by (simp add: lpc_ok_def list_all_length)

lemma unat_ucast_u8: "unat (ucast (b :: u8) :: u32) = unat b"
  using unsigned_less [of b, where ?'a = nat] by (simp add: unsigned_ucast_eq take_bit_nat_eq_self_iff)

lemma irq_above_15: "(ucast (b :: u8) :: u32) > 15 \<longleftrightarrow> b > 15"
  by (simp add: word_less_nat_alt unat_ucast_u8)

lemma ucast_eq_0: "(ucast (b :: u8) :: u32) = 0 \<longleftrightarrow> b = 0"
  by (simp add: word_unat_eq_iff unat_ucast_u8)

lemma iobase_16: "ucast (push_bit 8 (ucast (h :: u8)) OR ucast (l :: u8) :: u32) = (push_bit 8 (ucast h) OR ucast l :: u16)"
  by (rule bit_word_eqI) (auto simp: bit_simps)

text \<open>Activating one port.\<close>

lemma update_device_eq:
  assumes ok: "lpc_ok s" and i: "i < 2"
  shows "if bad_irq s i then update_device i s = Inl Exit_called
    else \<exists>s'. update_device i s = Inr s' \<and> lpc_ok s' \<and> serial s' = (serial s)[i := connected s i]
      \<and> device_regs s' = device_regs s \<and> config_regs s' = config_regs s \<and> selected_reg s' = selected_reg s
      \<and> configuration_mode s' = configuration_mode s"
proof -
  obtain p0 p1 where ports: "serial s = [p0, p1]" using ok by (rule lpc_ok_ports)
  let ?dev = "device_regs s ! (4 + i)" and ?port = "serial s ! i"
  have dev: "4 + i < length (device_regs s)" "length ?dev = MAX_DEVICE_REGS"
    using ok i lpc_ok_dev [OF ok, of "4 + i"] by (simp_all add: lpc_ok_def)
  have i': "i = 0 \<or> i = 1" using i by auto
  show ?thesis
  proof (cases "?dev ! 0x30 \<noteq> 0 \<and> \<not> active ?port")
    case False
    then show ?thesis
      using dev ports i' ok by (auto simp: update_device_def bad_irq_def connected_def Let_def)
  next
    case True
    then have room: "nirqs s < length (isairq s)" and none: "serial_irq ?port = None"
      using ok ports i' by (auto simp: lpc_ok_def active_irqs_def)
    let ?irq = "ucast (?dev ! 0x70) :: u32" and ?io = "push_bit 8 (ucast (?dev ! 0x60)) OR ucast (?dev ! 0x61) :: u16"
    have step: "update_device i s =
        res_bind (if ?dev ! 0x70 \<noteq> 0 then isa_init_irq i ?irq s else Inr s) (\<lambda>s.
        let s = isa_register_ioport i ?io s in Inr (s\<lparr>serial := (serial s)[i := (serial s ! i)\<lparr>active := True\<rparr>]\<rparr>))"
      using dev True ports i' by (auto simp: update_device_def Let_def iobase_16 ucast_eq_0)
    show ?thesis
    proof (cases "?dev ! 0x70 > 15")
      case bad: True
      then have "?dev ! 0x70 \<noteq> 0" by auto
      with True bad room show ?thesis unfolding step by (simp add: bad_irq_def isa_init_irq_def irq_above_15 Let_def)
    next
      case good: False
      have "\<not> bad_irq s i" using good by (simp add: bad_irq_def)
      moreover have "\<exists>s'. update_device i s = Inr s' \<and> lpc_ok s' \<and> serial s' = (serial s)[i := connected s i]
        \<and> device_regs s' = device_regs s \<and> config_regs s' = config_regs s \<and> selected_reg s' = selected_reg s
        \<and> configuration_mode s' = configuration_mode s"
        using good True room none ok ports i' unfolding step
        by (auto simp: isa_init_irq_def isa_register_ioport_def irq_above_15 connected_def lpc_ok_def active_irqs_def Let_def)
      ultimately show ?thesis by simp
    qed
  qed
qed

lemma update_devices_eq:
  assumes ok: "lpc_ok s"
  shows "if bad_irq s 0 \<or> bad_irq s 1 then update_devices s = Inl Exit_called
    else \<exists>s'. update_devices s = Inr s' \<and> lpc_ok s' \<and> serial s' = [connected s 0, connected s 1]
      \<and> device_regs s' = device_regs s \<and> config_regs s' = config_regs s \<and> selected_reg s' = selected_reg s
      \<and> configuration_mode s' = configuration_mode s"
proof -
  have two: "update_devices s = res_bind (update_device 0 s) (update_device 1)" for s
    by (simp add: update_devices_def numeral_2_eq_2 res_bind_def split: sum.splits)
  obtain p0 p1 where ports: "serial s = [p0, p1]" using ok by (rule lpc_ok_ports)
  show ?thesis
  proof (cases "bad_irq s 0")
    case True
    then show ?thesis using update_device_eq [OF ok, of 0] by (simp add: two)
  next
    case False
    then obtain s1 where s1: "update_device 0 s = Inr s1" "lpc_ok s1" "serial s1 = (serial s)[0 := connected s 0]"
      "device_regs s1 = device_regs s" "config_regs s1 = config_regs s" "selected_reg s1 = selected_reg s"
      "configuration_mode s1 = configuration_mode s"
      using update_device_eq [OF ok, of 0] by auto
    have "bad_irq s1 1 = bad_irq s 1" "connected s1 1 = connected s 1"
      using s1(3,4) ports by (simp_all add: bad_irq_def connected_def)
    then show ?thesis using update_device_eq [OF s1(2), of 1] s1 False ports by (auto simp: two)
  qed
qed

section \<open>Properties\<close>

text \<open>The accesses that do not succeed, with the way they end.\<close>

definition write_fault :: "LPC47M157State \<Rightarrow> hwaddr \<Rightarrow> u64 \<Rightarrow> fault option" where
  "write_fault s addr val =
     (if addr = 0 then
        if val = ENTER_CONFIG_KEY \<and> configuration_mode s \<or> val = EXIT_CONFIG_KEY \<and> \<not> configuration_mode s
        then Some Assertion_failed
        else if val = EXIT_CONFIG_KEY \<and> (bad_irq s 0 \<or> bad_irq s 1) then Some Exit_called else None
      else if addr = 1 then
        if unat (selected_reg s) < MAX_CONFIG_REG then None
        else if unat (config_regs s ! CONFIG_DEVICE_NUMBER) \<ge> MAX_DEVICE then Some Assertion_failed
        else if unat (selected_reg s) \<ge> MAX_DEVICE_REGS then Some Out_of_bounds else None
      else Some Assertion_failed)"

text \<open>
  C36. Exactly these writes to the chip fail: entering the configuration mode twice, leaving it twice, and
  an access to a device number of twelve or more stop at an assertion; leaving the mode with a serial
  port enabled on an interrupt above fifteen ends the program; and a write to register 0xff of a device
  leaves the device's register array, which has only 255 registers. Every other write succeeds and
  keeps the state well formed, and reads of the data port fail in the same way as writes.
\<close>

theorem lpc47m157_accesses:
  assumes "lpc_ok s"
  shows "case write_fault s addr val of
      Some e \<Rightarrow> lpc47m157_io_write addr val s = Inl e \<and> (addr \<noteq> 0 \<longrightarrow> lpc47m157_io_read addr s = Inl e)
    | None \<Rightarrow> (\<exists>s'. lpc47m157_io_write addr val s = Inr s' \<and> lpc_ok s') \<and> (\<exists>v. lpc47m157_io_read addr s = Inr v)"
proof -
  have len: "length (config_regs s) = MAX_CONFIG_REG" "length (device_regs s) = MAX_DEVICE"
    using assms by (simp_all add: lpc_ok_def)
  show ?thesis
  proof (cases "addr = 0")
    case True
    have same: "lpc_ok (s\<lparr>configuration_mode := b\<rparr>) = lpc_ok s" "lpc_ok (s\<lparr>selected_reg := r\<rparr>) = lpc_ok s"
      "bad_irq (s\<lparr>configuration_mode := b\<rparr>) = bad_irq s" for b r
      by (simp_all add: lpc_ok_def active_irqs_def bad_irq_def [abs_def])
    show ?thesis
      using True assms update_devices_eq [of "s\<lparr>configuration_mode := False\<rparr>"] same
      by (auto simp: write_fault_def lpc47m157_io_write_def lpc47m157_io_read_def split: if_splits)
  next
    case False
    let ?n = "unat (config_regs s ! CONFIG_DEVICE_NUMBER)" and ?r = "unat (selected_reg s)"
    have dev: "?n < MAX_DEVICE \<Longrightarrow> length (device_regs s ! ?n) = MAX_DEVICE_REGS" using lpc_ok_dev [OF assms] by simp
    have keep: "lpc_ok (s\<lparr>config_regs := (config_regs s)[r := b]\<rparr>)" for r b
      using assms by (simp add: lpc_ok_def active_irqs_def)
    have keep': "lpc_ok (s\<lparr>device_regs := (device_regs s)[n := (device_regs s ! n)[r := b]]\<rparr>)" if "n < MAX_DEVICE" for n r b
      using assms that by (auto simp: lpc_ok_def active_irqs_def list_all_length nth_list_update)
    show ?thesis
      using False len dev keep keep'
      by (auto simp: write_fault_def lpc47m157_io_write_def lpc47m157_io_read_def selected_device_def arr_get_def arr_set_def)
  qed
qed

lemma realize_ok: "lpc_ok lpc47m157_realize"
  by (simp add: lpc_ok_def lpc47m157_realize_def active_irqs_def list_all_length)

theorem lpc47m157_accesses_witness:
  "lpc_ok (lpc47m157_realize\<lparr>selected_reg := 0xff\<rparr>)
    \<and> lpc47m157_io_write 1 0 (lpc47m157_realize\<lparr>selected_reg := 0xff\<rparr>) = Inl Out_of_bounds"
proof -
  have ok: "lpc_ok (lpc47m157_realize\<lparr>selected_reg := 0xff\<rparr>)"
    using realize_ok by (simp add: lpc_ok_def active_irqs_def)
  show ?thesis
    using lpc47m157_accesses [OF ok, of 1 0] ok by (simp add: write_fault_def lpc47m157_realize_def)
qed

text \<open>The guest's way to set up a serial port: select the device, then its registers.\<close>

definition set_config :: "u64 \<Rightarrow> u64 \<Rightarrow> (hwaddr \<times> u64) list" where
  "set_config r v = [(0, r), (1, v)]"

definition setup_port :: "nat \<Rightarrow> u8 \<Rightarrow> u8 \<Rightarrow> u8 \<Rightarrow> (hwaddr \<times> u64) list" where
  "setup_port i high low irq =
     [(0, ENTER_CONFIG_KEY)] @ set_config 0x07 (of_nat (4 + i)) @ set_config 0x60 (ucast high)
     @ set_config 0x61 (ucast low) @ set_config 0x70 (ucast irq) @ set_config 0x30 1 @ [(0, EXIT_CONFIG_KEY)]"

abbreviation io_writes :: "(hwaddr \<times> u64) list \<Rightarrow> LPC47M157State \<Rightarrow> LPC47M157State res" where
  "io_writes \<equiv> fold_res (\<lambda>(addr, val). lpc47m157_io_write addr val)"

definition put_reg :: "nat \<Rightarrow> nat \<Rightarrow> u8 \<Rightarrow> LPC47M157State \<Rightarrow> LPC47M157State" where
  "put_reg n r v s = s\<lparr>selected_reg := of_nat r, device_regs := (device_regs s)[n := (device_regs s ! n)[r := v]]\<rparr>"

lemma set_config_device:
  assumes "lpc_ok s" "unat (config_regs s ! 7) = n" "n < MAX_DEVICE" "0x30 \<le> r" "r < MAX_DEVICE_REGS" "r \<noteq> 0x55" "r \<noteq> 0xAA"
  shows "io_writes (set_config (of_nat r) v @ rest) s = io_writes rest (put_reg n r (ucast v) s)"
    and "lpc_ok (put_reg n r (ucast v) s)" "config_regs (put_reg n r (ucast v) s) = config_regs s"
proof -
  have r: "unat (of_nat r :: u64) = r" "unat (of_nat r :: u32) = r"
    using assms(5) by (simp_all add: unat_of_nat_small)
  then have key: "(of_nat r :: u64) \<noteq> 0x55" "(of_nat r :: u64) \<noteq> 0xAA" using assms(6,7) by (auto dest: arg_cong [where f = unat])
  have sel: "ucast (of_nat r :: u64) = (of_nat r :: u32)"
    using r assms(5) by (simp add: word_unat_eq_iff unsigned_ucast_eq take_bit_nat_eq_self)
  show "io_writes (set_config (of_nat r) v @ rest) s = io_writes rest (put_reg n r (ucast v) s)"
    using assms r key sel lpc_ok_dev [OF assms(1,3)]
    by (simp add: set_config_def lpc47m157_io_write_def selected_device_def put_reg_def lpc_ok_def)
  show "lpc_ok (put_reg n r (ucast v) s)"
    using assms(1,3) by (auto simp: put_reg_def lpc_ok_def active_irqs_def list_all_length nth_list_update)
  show "config_regs (put_reg n r (ucast v) s) = config_regs s" by (simp add: put_reg_def)
qed

lemma put_reg_other [simp]:
  "serial (put_reg n r v s) = serial s" "configuration_mode (put_reg n r v s) = configuration_mode s"
  "device_regs (put_reg n r v s) = (device_regs s)[n := (device_regs s ! n)[r := v]]"
  by (simp_all add: put_reg_def)

text \<open>
  C27. Setting up a serial port works: after the guest enters the configuration mode, writes address,
  interrupt and enable bit of the port and leaves the mode, the port is at the address and on the
  interrupt it asked for, and the other port is as its own registers say. A port that is active
  already is never moved.
\<close>

theorem lpc47m157_serial_setup:
  assumes "lpc_ok s" "\<not> configuration_mode s" "i < 2" "\<not> active (serial s ! i)" "irq \<le> 15" "\<not> bad_irq s (1 - i)"
  shows "\<exists>s'. io_writes (setup_port i high low irq) s = Inr s' \<and> lpc_ok s' \<and> \<not> configuration_mode s'
    \<and> serial s' ! i = \<lparr>active = True, serial_irq = (if irq \<noteq> 0 then Some (ucast irq) else None),
        serial_io = Some (push_bit 8 (ucast high) OR ucast low)\<rparr>
    \<and> serial s' ! (1 - i) = connected s (1 - i)"
proof -
  have i: "i = 0 \<or> i = 1" using assms(3) by auto
  let ?n = "4 + i"
  define s0 where "s0 = s\<lparr>configuration_mode := True, selected_reg := 7, config_regs := (config_regs s)[7 := of_nat ?n]\<rparr>"
  have s0: "lpc_ok s0" "unat (config_regs s0 ! 7) = ?n"
    using assms(1) i by (auto simp: s0_def lpc_ok_def active_irqs_def)
  define s1 where "s1 = put_reg ?n 0x60 high s0"
  define s2 where "s2 = put_reg ?n 0x61 low s1"
  define s3 where "s3 = put_reg ?n 0x70 irq s2"
  define s4 where "s4 = put_reg ?n 0x30 1 s3"
  let ?ws = "\<lambda>ws. io_writes (ws @ [(0, EXIT_CONFIG_KEY)])"
  have n: "?n < MAX_DEVICE" using i by auto
  have 0: "io_writes (setup_port i high low irq) s = io_writes (set_config (of_nat 0x60) (ucast high)
      @ set_config (of_nat 0x61) (ucast low) @ set_config (of_nat 0x70) (ucast irq) @ set_config (of_nat 0x30) 1
      @ [(0, EXIT_CONFIG_KEY)]) s0"
    using assms(1,2) i by (auto simp: setup_port_def set_config_def lpc47m157_io_write_def s0_def lpc_ok_def)
  have ucast_back: "ucast (ucast (b :: u8) :: u64) = b" for b by (rule bit_word_eqI) (simp add: bit_simps)
  note st1 = set_config_device [OF s0 n, of "0x60" "ucast high", unfolded ucast_back, folded s1_def, simplified]
  have s1: "lpc_ok s1" "unat (config_regs s1 ! 7) = ?n" using st1 s0 by simp_all
  note st2 = set_config_device [OF s1 n, of "0x61" "ucast low", unfolded ucast_back, folded s2_def, simplified]
  have s2: "lpc_ok s2" "unat (config_regs s2 ! 7) = ?n" using st2 s1 by simp_all
  note st3 = set_config_device [OF s2 n, of "0x70" "ucast irq", unfolded ucast_back, folded s3_def, simplified]
  have s3: "lpc_ok s3" "unat (config_regs s3 ! 7) = ?n" using st3 s2 by simp_all
  note st4 = set_config_device [OF s3 n, of "0x30" 1, simplified, folded s4_def]
  have run: "io_writes (setup_port i high low irq) s = lpc47m157_io_write 0 EXIT_CONFIG_KEY s4"
    unfolding 0 using st1(1) st2(1) st3(1) st4(1) [of "[(0, EXIT_CONFIG_KEY)]"] by simp
  let ?e = "s4\<lparr>configuration_mode := False\<rparr>"
  have len: "length (device_regs s) = MAX_DEVICE" "length (device_regs s ! ?n) = MAX_DEVICE_REGS"
    using assms(1) lpc_ok_dev [OF assms(1) n] by (simp_all add: lpc_ok_def)
  have regs: "device_regs ?e = (device_regs s)[?n := (device_regs s ! ?n)[0x60 := high, 0x61 := low, 0x70 := irq, 0x30 := 1]]"
    using len n by (simp add: s0_def s1_def s2_def s3_def s4_def)
  have other: "device_regs ?e ! (4 + (1 - i)) = device_regs s ! (4 + (1 - i))" unfolding regs using i by auto
  have ser: "serial ?e = serial s" by (simp add: s0_def s1_def s2_def s3_def s4_def)
  have own: "device_regs ?e ! ?n = (device_regs s ! ?n)[0x60 := high, 0x61 := low, 0x70 := irq, 0x30 := 1]"
    unfolding regs using len n by simp
  have "\<not> bad_irq ?e i" using own len assms(5) by (simp add: bad_irq_def not_less)
  moreover have "\<not> bad_irq ?e (1 - i)" "connected ?e (1 - i) = connected s (1 - i)"
    using other ser assms(6) by (simp_all add: bad_irq_def connected_def)
  moreover have "serial_irq (serial s ! i) = None"
    using assms(1,3,4) by (simp add: lpc_ok_def list_all_length)
  then have "connected ?e i = \<lparr>active = True, serial_irq = (if irq \<noteq> 0 then Some (ucast irq) else None),
      serial_io = Some (push_bit 8 (ucast high) OR ucast low)\<rparr>"
    using own ser len assms(4) by (simp add: connected_def)
  moreover have "lpc_ok ?e" using st4(2) by (simp add: lpc_ok_def active_irqs_def)
  moreover have "lpc47m157_io_write 0 EXIT_CONFIG_KEY s4 = update_devices ?e"
    by (simp add: lpc47m157_io_write_def s0_def s1_def s2_def s3_def s4_def put_reg_def)
  ultimately show ?thesis using update_devices_eq [of ?e] i unfolding run by auto
qed

theorem lpc47m157_serial_setup_witness:
  "\<exists>s'. io_writes (setup_port 0 0x03 0xf8 4) lpc47m157_realize = Inr s' \<and> serial_io (serial s' ! 0) = Some 0x3f8
    \<and> serial_irq (serial s' ! 0) = Some 4"
proof -
  have "\<not> bad_irq lpc47m157_realize 1" "\<not> configuration_mode lpc47m157_realize"
    "\<not> active (serial lpc47m157_realize ! 0)" by (simp_all add: bad_irq_def lpc47m157_realize_def)
  then show ?thesis using lpc47m157_serial_setup [OF realize_ok, of 0 4 "0x03" "0xf8"] by auto
qed

end
