(* ===== verification/XBZRLE.thy ===== *)
theory XBZRLE
  imports Xbox_Prelude
begin

text \<open>
  The delta compression of memory pages that a migration uses (\<open>src/xbzrle.c\<close>) with the lengths of
  \<open>src/util/cutils.c\<close>. The encoder scans both pages a \<open>long\<close> at a time and finds the end of a run of
  changed bytes with an arithmetic test for a zero byte; a \<open>long\<close> has eight bytes here and the host is
  little-endian. The lengths and positions are natural numbers: they are bounded by the sizes of the
  buffers, which are non-negative values of an \<open>int\<close>. Shown here: the test is exact, the encoder writes
  the runs that a bytewise scan finds, the decoder inverts it, and on arbitrary input the decoder ends
  and stays in its buffers.
\<close>

lemma res_bind_cong [fundef_cong]:
  "r = r' \<Longrightarrow> (\<And>x. r' = Inr x \<Longrightarrow> k x = k' x) \<Longrightarrow> res_bind r k = res_bind r' k'"
  by (cases r') simp_all

section \<open>Lengths of 14 bits\<close>

text \<open>Returns the number of bytes written at position \<open>p\<close> and the buffer.\<close>

definition uleb128_encode_small :: "u8 list \<Rightarrow> nat \<Rightarrow> nat \<Rightarrow> (nat \<times> u8 list) res" where
  "uleb128_encode_small out p n =
     res_bind (assert_res (n \<le> 0x3fff)) (\<lambda>_.
     if n < 0x80 then res_bind (arr_set out p (of_nat n)) (\<lambda>out. Inr (1, out))
     else res_bind (arr_set out p (of_nat (n AND 0x7f) OR 0x80)) (\<lambda>out.
          res_bind (arr_set out (p + 1) (of_nat (drop_bit 7 n))) (\<lambda>out. Inr (2, out))))"

text \<open>Returns the number of bytes read at position \<open>p\<close> and the length; \<open>None\<close> stands for \<open>-1\<close>.\<close>

definition uleb128_decode_small :: "u8 list \<Rightarrow> nat \<Rightarrow> (nat \<times> nat) option res" where
  "uleb128_decode_small inp p =
     res_bind (arr_get inp p) (\<lambda>b.
     if b AND 0x80 = 0 then Inr (Some (1, unat b))
     else res_bind (arr_get inp (p + 1)) (\<lambda>c.
          if c AND 0x80 \<noteq> 0 then Inr None
          else Inr (Some (2, unat (b AND 0x7f) OR push_bit 7 (unat c)))))"

section \<open>The encoder\<close>

text \<open>The access \<open>*(long * )(buf + i)\<close>.\<close>

definition ld_long :: "u8 list \<Rightarrow> nat \<Rightarrow> u64 res" where
  "ld_long buf i = map_sum id (\<lambda>bs. word_of_int (horner_sum uint 256 bs)) (buf_read buf i 8)"

text \<open>The loops of a run of equal bytes: the rest up to a multiple of eight, whole longs, the last bytes.\<close>

fun zrun_res :: "u8 list \<Rightarrow> u8 list \<Rightarrow> nat \<Rightarrow> nat \<Rightarrow> nat \<Rightarrow> (nat \<times> nat \<times> nat) res" where
  "zrun_res old_buf new_buf 0 i zrun_len = Inr (0, i, zrun_len)"
| "zrun_res old_buf new_buf (Suc res) i zrun_len =
     res_bind (arr_get old_buf i) (\<lambda>a. res_bind (arr_get new_buf i) (\<lambda>b.
     if a = b then zrun_res old_buf new_buf res (i + 1) (zrun_len + 1) else Inr (Suc res, i, zrun_len)))"

function zrun_longs :: "u8 list \<Rightarrow> u8 list \<Rightarrow> nat \<Rightarrow> nat \<Rightarrow> nat \<Rightarrow> (nat \<times> nat) res" where
  "zrun_longs old_buf new_buf slen i zrun_len =
     (if i < slen
      then res_bind (ld_long old_buf i) (\<lambda>a. res_bind (ld_long new_buf i) (\<lambda>b.
           if a = b then zrun_longs old_buf new_buf slen (i + 8) (zrun_len + 8) else Inr (i, zrun_len)))
      else Inr (i, zrun_len))"
  by pat_completeness auto

termination
  by (relation "measure (\<lambda>(old_buf, new_buf, slen, i, zrun_len). slen - i)") auto

function zrun_bytes :: "u8 list \<Rightarrow> u8 list \<Rightarrow> nat \<Rightarrow> nat \<Rightarrow> nat \<Rightarrow> (nat \<times> nat) res" where
  "zrun_bytes old_buf new_buf slen i zrun_len =
     (if i < slen
      then res_bind (arr_get old_buf i) (\<lambda>a. res_bind (arr_get new_buf i) (\<lambda>b.
           if a = b then zrun_bytes old_buf new_buf slen (i + 1) (zrun_len + 1) else Inr (i, zrun_len)))
      else Inr (i, zrun_len))"
  by pat_completeness auto

termination
  by (relation "measure (\<lambda>(old_buf, new_buf, slen, i, zrun_len). slen - i)") auto

definition xbzrle_zrun :: "u8 list \<Rightarrow> u8 list \<Rightarrow> nat \<Rightarrow> nat \<Rightarrow> (nat \<times> nat) res" where
  "xbzrle_zrun old_buf new_buf slen i =
     res_bind (zrun_res old_buf new_buf ((slen - i) mod 8) i 0) (\<lambda>(res, i, zrun_len).
     if res = 0
     then res_bind (zrun_longs old_buf new_buf slen i zrun_len) (\<lambda>(i, zrun_len).
          zrun_bytes old_buf new_buf slen i zrun_len)
     else Inr (i, zrun_len))"

text \<open>The loops of a run of changed bytes. The innermost loop has no bound of its own.\<close>

fun nzrun_res :: "u8 list \<Rightarrow> u8 list \<Rightarrow> nat \<Rightarrow> nat \<Rightarrow> nat \<Rightarrow> (nat \<times> nat \<times> nat) res" where
  "nzrun_res old_buf new_buf 0 i nzrun_len = Inr (0, i, nzrun_len)"
| "nzrun_res old_buf new_buf (Suc res) i nzrun_len =
     res_bind (arr_get old_buf i) (\<lambda>a. res_bind (arr_get new_buf i) (\<lambda>b.
     if a \<noteq> b then nzrun_res old_buf new_buf res (i + 1) (nzrun_len + 1) else Inr (Suc res, i, nzrun_len)))"

function nzrun_bytes :: "u8 list \<Rightarrow> u8 list \<Rightarrow> nat \<Rightarrow> nat \<Rightarrow> (nat \<times> nat) res" where
  "nzrun_bytes old_buf new_buf i nzrun_len =
     res_bind (arr_get old_buf i) (\<lambda>a. res_bind (arr_get new_buf i) (\<lambda>b.
     if a \<noteq> b then nzrun_bytes old_buf new_buf (i + 1) (nzrun_len + 1) else Inr (i, nzrun_len)))"
  by pat_completeness auto

termination
  by (relation "measure (\<lambda>(old_buf, new_buf, i, nzrun_len). length old_buf - i)")
    (auto simp: arr_get_def split: if_splits)

definition has_zero_byte :: "u64 \<Rightarrow> bool" where
  "has_zero_byte x = (let m = 0x0101010101010101 in (x - m) AND NOT x AND push_bit 7 m \<noteq> 0)"

function nzrun_longs :: "u8 list \<Rightarrow> u8 list \<Rightarrow> nat \<Rightarrow> nat \<Rightarrow> nat \<Rightarrow> (nat \<times> nat) res" where
  "nzrun_longs old_buf new_buf slen i nzrun_len =
     (if i < slen
      then res_bind (ld_long old_buf i) (\<lambda>a. res_bind (ld_long new_buf i) (\<lambda>b.
           if has_zero_byte (a XOR b) then nzrun_bytes old_buf new_buf i nzrun_len
           else nzrun_longs old_buf new_buf slen (i + 8) (nzrun_len + 8)))
      else Inr (i, nzrun_len))"
  by pat_completeness auto

termination
  by (relation "measure (\<lambda>(old_buf, new_buf, slen, i, nzrun_len). slen - i)") auto

definition xbzrle_nzrun :: "u8 list \<Rightarrow> u8 list \<Rightarrow> nat \<Rightarrow> nat \<Rightarrow> (nat \<times> nat) res" where
  "xbzrle_nzrun old_buf new_buf slen i =
     res_bind (nzrun_res old_buf new_buf ((slen - i) mod 8) i 0) (\<lambda>(res, i, nzrun_len).
     if res = 0 then nzrun_longs old_buf new_buf slen i nzrun_len else Inr (i, nzrun_len))"

text \<open>
  One round of the main loop from position \<open>i\<close> with \<open>d\<close> bytes written: the function returns, or the loop
  goes on. Both run lengths are zero at the start of a round.
\<close>

datatype round = Return int "u8 list" | Continue nat nat "u8 list"

definition xbzrle_encode_round ::
    "u8 list \<Rightarrow> u8 list \<Rightarrow> nat \<Rightarrow> nat \<Rightarrow> nat \<Rightarrow> nat \<Rightarrow> u8 list \<Rightarrow> round res" where
  "xbzrle_encode_round old_buf new_buf slen dlen i d dst =
     (if d + 2 > dlen then Inr (Return (-1) dst)
      else res_bind (xbzrle_zrun old_buf new_buf slen i) (\<lambda>(i, zrun_len).
        if zrun_len = slen then Inr (Return 0 dst)
        else if i = slen then Inr (Return (int d) dst)
        else res_bind (uleb128_encode_small dst d zrun_len) (\<lambda>(n, dst).
          let d = d + n; nzrun_start = i in
          if d + 2 > dlen then Inr (Return (-1) dst)
          else res_bind (xbzrle_nzrun old_buf new_buf slen i) (\<lambda>(i, nzrun_len).
            res_bind (uleb128_encode_small dst d nzrun_len) (\<lambda>(n, dst).
            let d = d + n in
            if d + nzrun_len > dlen then Inr (Return (-1) dst)
            else res_bind (buf_read new_buf nzrun_start nzrun_len) (\<lambda>bs.
              res_bind (buf_write dst d bs) (\<lambda>dst.
              Inr (Continue i (d + nzrun_len) dst))))))))"

partial_function (option) xbzrle_encode_loop ::
    "u8 list \<Rightarrow> u8 list \<Rightarrow> nat \<Rightarrow> nat \<Rightarrow> nat \<Rightarrow> nat \<Rightarrow> u8 list \<Rightarrow> (int \<times> u8 list) res option" where
  [code]: "xbzrle_encode_loop old_buf new_buf slen dlen i d dst =
     (if i < slen
      then (case xbzrle_encode_round old_buf new_buf slen dlen i d dst of
              Inl e \<Rightarrow> Some (Inl e)
            | Inr (Return r dst) \<Rightarrow> Some (Inr (r, dst))
            | Inr (Continue i d dst) \<Rightarrow> xbzrle_encode_loop old_buf new_buf slen dlen i d dst)
      else Some (Inr (int d, dst)))"

text \<open>The pages and the addresses they are at; returns the length of the encoding, 0 or -1.\<close>

definition xbzrle_encode_buffer ::
    "u64 \<Rightarrow> u8 list \<Rightarrow> u64 \<Rightarrow> u8 list \<Rightarrow> nat \<Rightarrow> u8 list \<Rightarrow> nat \<Rightarrow> (int \<times> u8 list) res option" where
  "xbzrle_encode_buffer old_ptr old_buf new_ptr new_buf slen dst dlen =
     (if (old_ptr OR new_ptr OR of_nat slen) mod 8 \<noteq> 0 then Some (Inl Assertion_failed)
      else xbzrle_encode_loop old_buf new_buf slen dlen 0 0 dst)"

section \<open>The decoder\<close>

definition xbzrle_decode_round :: "u8 list \<Rightarrow> nat \<Rightarrow> nat \<Rightarrow> nat \<Rightarrow> nat \<Rightarrow> u8 list \<Rightarrow> round res" where
  "xbzrle_decode_round src slen dlen i d dst =
     (if slen - i < 2 then Inr (Return (-1) dst)
      else res_bind (uleb128_decode_small src i) (\<lambda>r. case r of None \<Rightarrow> Inr (Return (-1) dst)
      | Some (n, count) \<Rightarrow>
        if i \<noteq> 0 \<and> count = 0 then Inr (Return (-1) dst)
        else let i = i + n; d = d + count in
          if d > dlen then Inr (Return (-1) dst)
          else if slen - i < 2 then Inr (Return (-1) dst)
          else res_bind (uleb128_decode_small src i) (\<lambda>r. case r of None \<Rightarrow> Inr (Return (-1) dst)
          | Some (n, count) \<Rightarrow>
            if count = 0 then Inr (Return (-1) dst)
            else let i = i + n in
              if d + count > dlen \<or> i + count > slen then Inr (Return (-1) dst)
              else res_bind (buf_read src i count) (\<lambda>bs.
                res_bind (buf_write dst d bs) (\<lambda>dst.
                Inr (Continue (i + count) (d + count) dst))))))"

partial_function (option) xbzrle_decode_loop ::
    "u8 list \<Rightarrow> nat \<Rightarrow> nat \<Rightarrow> nat \<Rightarrow> nat \<Rightarrow> u8 list \<Rightarrow> (int \<times> u8 list) res option" where
  [code]: "xbzrle_decode_loop src slen dlen i d dst =
     (if i < slen
      then (case xbzrle_decode_round src slen dlen i d dst of
              Inl e \<Rightarrow> Some (Inl e)
            | Inr (Return r dst) \<Rightarrow> Some (Inr (r, dst))
            | Inr (Continue i d dst) \<Rightarrow> xbzrle_decode_loop src slen dlen i d dst)
      else Some (Inr (int d, dst)))"

definition xbzrle_decode_buffer :: "u8 list \<Rightarrow> nat \<Rightarrow> u8 list \<Rightarrow> nat \<Rightarrow> (int \<times> u8 list) res option" where
  "xbzrle_decode_buffer src slen dst dlen = xbzrle_decode_loop src slen dlen 0 0 dst"

section \<open>The format\<close>

text \<open>The encoding that the comment at the top of the source gives, over the pairs of old and new bytes.\<close>

definition uleb :: "nat \<Rightarrow> u8 list" where
  "uleb n = (if n < 0x80 then [of_nat n] else [of_nat (n AND 0x7f) OR 0x80, of_nat (drop_bit 7 n)])"

definition kept :: "u8 \<times> u8 \<Rightarrow> bool" where
  "kept p \<longleftrightarrow> fst p = snd p"

lemma dropWhile_runs_shorter:
  "dropWhile P ps \<noteq> [] \<Longrightarrow> length (dropWhile (\<lambda>p. \<not> P p) (dropWhile P ps)) < length ps"
  by (induction ps) (auto simp: le_imp_less_Suc length_dropWhile_le)

function xbzrle_page :: "(u8 \<times> u8) list \<Rightarrow> u8 list" where
  "xbzrle_page ps =
     (let rest = dropWhile kept ps; chg = takeWhile (\<lambda>p. \<not> kept p) rest in
      if rest = [] then []
      else uleb (length (takeWhile kept ps)) @ uleb (length chg) @ map snd chg
        @ xbzrle_page (dropWhile (\<lambda>p. \<not> kept p) rest))"
  by pat_completeness auto

termination
  by (relation "measure length") (auto intro!: dropWhile_runs_shorter)

declare zrun_longs.simps [simp del] zrun_bytes.simps [simp del] nzrun_bytes.simps [simp del]
  nzrun_longs.simps [simp del] xbzrle_page.simps [simp del]

section \<open>Longs as bytes\<close>

abbreviation bytes_int :: "u8 list \<Rightarrow> int" where
  "bytes_int \<equiv> horner_sum uint 256"

primrec ones :: "nat \<Rightarrow> int" where
  "ones 0 = 0"
| "ones (Suc n) = 1 + 256 * ones n"

lemma add_256: "0 \<le> b \<Longrightarrow> b < 256 \<Longrightarrow> b + 256 * x = concat_bit 8 b x" for b x :: int
  by (simp add: concat_bit_eq push_bit_eq_mult take_bit_int_eq_self)

lemma uint_u8: "0 \<le> uint b" "uint b < 256" for b :: u8
  using uint_bounded [of b] by simp_all

lemma bytes_int_Cons: "bytes_int (b # bs) = concat_bit 8 (uint b) (bytes_int bs)"
  by (simp add: add_256 uint_u8)

lemma bit_bytes_int_Cons:
  "bit (bytes_int (b # bs)) n \<longleftrightarrow> (if n < 8 then bit (uint b) n else bit (bytes_int bs) (n - 8))"
  by (auto simp: bytes_int_Cons bit_concat_bit_iff simp del: horner_sum_simps)

lemma bytes_int_bounds: "0 \<le> bytes_int bs \<and> bytes_int bs < 256 ^ length bs"
proof (induction bs)
  case (Cons b bs)
  have "uint b + 256 * bytes_int bs < 256 * 256 ^ length bs"
    using Cons uint_u8 [of b] by linarith
  with Cons uint_u8 [of b] show ?case by simp
qed simp

lemma bytes_int_inj: "length as = length bs \<Longrightarrow> bytes_int as = bytes_int bs \<Longrightarrow> as = bs"
proof (induction as bs rule: list_induct2)
  case (Cons a as b bs)
  have eq: "uint a + 256 * bytes_int as = uint b + 256 * bytes_int bs" using Cons.prems by simp
  have split: "uint c = (uint c + 256 * x) mod 256" for c :: u8 and x
    using uint_u8 [of c] by (simp add: mod_pos_pos_trivial)
  have "uint a = (uint b + 256 * bytes_int bs) mod 256" unfolding eq [symmetric] by (rule split)
  then have "uint a = uint b" using split [of b "bytes_int bs"] by (rule trans [OF _ sym])
  with eq Cons.IH show ?case by (simp add: word_uint_eq_iff)
qed simp

lemma bytes_int_xor:
  "length as = length bs \<Longrightarrow> bytes_int as XOR bytes_int bs = bytes_int (map2 (XOR) as bs)"
proof (induction as bs rule: list_induct2)
  case (Cons a as b bs)
  have map2: "map2 (XOR) (a # as) (b # bs) = (a XOR b) # map2 (XOR) as bs" by simp
  show ?case
  proof (rule bit_eqI)
    fix n :: nat
    show "bit (bytes_int (a # as) XOR bytes_int (b # bs)) n = bit (bytes_int (map2 (XOR) (a # as) (b # bs))) n"
      unfolding map2 bit_xor_iff bit_bytes_int_Cons Cons.IH [symmetric] unsigned_xor_eq by simp
  qed
qed simp

text \<open>Subtracting one from every byte borrows exactly at a zero byte, and the lowest one is not borrowed from.\<close>

lemma borrow_byte:
  fixes b :: int
  assumes "0 < b" "b < 256"
  shows "\<not> (bit (b - 1) 7 \<and> \<not> bit b 7)"
proof -
  have "bit k 7 \<longleftrightarrow> 128 \<le> k" if "0 \<le> k" "k < 256" for k :: int
    using that by (simp add: bit_iff_odd) presburger
  from this [of b] this [of "b - 1"] assms show ?thesis by linarith
qed

lemma zero_byte_borrow:
  "(\<exists>i < length bs. bit (bytes_int bs - ones (length bs)) (8 * i + 7) \<and> \<not> bit (bytes_int bs) (8 * i + 7))
     \<longleftrightarrow> 0 \<in> set bs"
proof (induction bs)
  case (Cons b bs)
  let ?d = "bytes_int bs - ones (length bs)"
  show ?case
  proof (cases "b = 0")
    case True
    have "bytes_int (b # bs) - ones (length (b # bs)) = concat_bit 8 255 (?d - 1)"
      using True add_256 [of 255 "?d - 1"] by simp
    moreover have "bit (255 :: int) 7" by (simp add: bit_iff_odd)
    ultimately have "bit (bytes_int (b # bs) - ones (length (b # bs))) 7 \<and> \<not> bit (bytes_int (b # bs)) 7"
      using True by (simp add: bit_bytes_int_Cons bit_concat_bit_iff del: horner_sum_simps ones.simps)
    then show ?thesis using True by (auto intro!: exI [of _ 0] simp del: horner_sum_simps ones.simps)
  next
    case False
    then have b: "0 < uint b" "uint b < 256" using uint_u8 [of b] by (simp_all add: order.strict_iff_order uint_0_iff)
    have d: "bytes_int (b # bs) - ones (length (b # bs)) = concat_bit 8 (uint b - 1) ?d"
      using b add_256 [of "uint b - 1" ?d] by simp
    have "(\<exists>i < length (b # bs). bit (bytes_int (b # bs) - ones (length (b # bs))) (8 * i + 7)
        \<and> \<not> bit (bytes_int (b # bs)) (8 * i + 7))
      \<longleftrightarrow> (\<exists>i < length bs. bit ?d (8 * i + 7) \<and> \<not> bit (bytes_int bs) (8 * i + 7))"
      unfolding d unfolding bit_bytes_int_Cons length_Cons Ex_less_Suc2 bit_concat_bit_iff
      using borrow_byte [OF b] by (simp add: add.commute) blast
    with Cons.IH False show ?thesis by simp
  qed
qed simp

lemma ones_8: "ones 8 = 0x0101010101010101"
  by code_simp

lemma bit_mask_7: "bit (push_bit 7 (0x0101010101010101 :: u64)) n \<longleftrightarrow> (\<exists>i < 8. n = 8 * i + 7)"
proof
  assume bit: "bit (push_bit 7 (0x0101010101010101 :: u64)) n"
  then have "n < 64" by (auto dest: bit_imp_le_length)
  moreover have "\<forall>n \<in> set [0..<64]. bit (push_bit 7 (0x0101010101010101 :: u64)) n \<longrightarrow> n mod 8 = 7"
    by code_simp
  ultimately have "n mod 8 = 7" using bit by simp
  with \<open>n < 64\<close> show "\<exists>i < 8. n = 8 * i + 7" by (intro exI [of _ "n div 8"]) presburger
next
  have all: "\<forall>i \<in> set [0..<8]. bit (push_bit 7 (0x0101010101010101 :: u64)) (8 * i + 7)" by code_simp
  assume "\<exists>i < 8. n = 8 * i + 7"
  then show "bit (push_bit 7 (0x0101010101010101 :: u64)) n" using all by auto
qed

lemma nonzero_bit: "w \<noteq> 0 \<longleftrightarrow> (\<exists>n. bit w n)" for w :: "'a::len word"
proof -
  have "w = 0 \<longleftrightarrow> (\<forall>n. bit w n = bit 0 n)" by (auto intro: bit_word_eqI)
  then show ?thesis by simp
qed

lemma has_zero_byte_iff:
  assumes "length bs = 8"
  shows "has_zero_byte (word_of_int (bytes_int bs)) \<longleftrightarrow> 0 \<in> set bs"
proof -
  let ?x = "word_of_int (bytes_int bs) :: u64" and ?m = "0x0101010101010101 :: u64"
  have sub: "?x - ?m = word_of_int (bytes_int bs - ones 8)"
    by (simp add: ones_8)
  have "has_zero_byte ?x \<longleftrightarrow> (\<exists>n. bit ((?x - ?m) AND NOT ?x AND push_bit 7 ?m) n)"
    unfolding has_zero_byte_def Let_def nonzero_bit ..
  also have "\<dots> \<longleftrightarrow> (\<exists>i < 8. bit (?x - ?m) (8 * i + 7) \<and> \<not> bit ?x (8 * i + 7))"
    unfolding bit_and_iff bit_mask_7 by (auto simp: bit_not_iff)
  also have "\<dots> \<longleftrightarrow> (\<exists>i < 8. bit (bytes_int bs - ones 8) (8 * i + 7) \<and> \<not> bit (bytes_int bs) (8 * i + 7))"
    unfolding sub bit_word_of_int_iff by (intro ex_cong1) auto
  also have "\<dots> \<longleftrightarrow> 0 \<in> set bs" using zero_byte_borrow [of bs] assms by simp
  finally show ?thesis .
qed

lemma xor_eq_0_iff_eq: "a XOR b = 0 \<longleftrightarrow> a = b" for a b :: "'a::len word"
  by (metis xor.assoc xor.right_neutral xor_self_eq)

text \<open>Comparing two longs compares their bytes, and their difference shows where a byte is the same.\<close>

lemma ld_long_bytes: "i + 8 \<le> length buf \<Longrightarrow> ld_long buf i = Inr (word_of_int (bytes_int (take 8 (drop i buf))))"
  by (simp add: ld_long_def buf_read_def)

lemma long_eq:
  assumes "length as = 8" "length bs = 8"
  shows "(word_of_int (bytes_int as) :: u64) = word_of_int (bytes_int bs) \<longleftrightarrow> as = bs"
proof
  assume "(word_of_int (bytes_int as) :: u64) = word_of_int (bytes_int bs)"
  then have "uint (word_of_int (bytes_int as) :: u64) = uint (word_of_int (bytes_int bs) :: u64)" by simp
  moreover have "uint (word_of_int (bytes_int cs) :: u64) = bytes_int cs" if "length cs = 8" for cs
    using bytes_int_bounds [of cs] that by (simp add: uint_word_of_int_eq take_bit_int_eq_self)
  ultimately show "as = bs" using assms bytes_int_inj by simp
qed simp

lemma long_zero_byte:
  assumes "length as = 8" "length bs = 8"
  shows "has_zero_byte (word_of_int (bytes_int as) XOR word_of_int (bytes_int bs))
    \<longleftrightarrow> (\<exists>j < 8. as ! j = bs ! j)"
proof -
  have "word_of_int (bytes_int as) XOR word_of_int (bytes_int bs) = (word_of_int (bytes_int as XOR bytes_int bs) :: u64)"
    by (rule bit_word_eqI) (simp add: bit_xor_iff bit_word_of_int_iff)
  also have "\<dots> = word_of_int (bytes_int (map2 (XOR) as bs))" using assms by (simp add: bytes_int_xor)
  finally have "has_zero_byte (word_of_int (bytes_int as) XOR word_of_int (bytes_int bs)) \<longleftrightarrow> 0 \<in> set (map2 (XOR) as bs)"
    using has_zero_byte_iff [of "map2 (XOR) as bs"] assms by simp
  also have "\<dots> \<longleftrightarrow> (\<exists>j < length (map2 (XOR) as bs). map2 (XOR) as bs ! j = 0)" by (rule in_set_conv_nth)
  also have "\<dots> \<longleftrightarrow> (\<exists>j < 8. as ! j = bs ! j)"
    using assms by (intro ex_cong1 conj_cong) (simp_all add: xor_eq_0_iff_eq)
  finally show ?thesis .
qed

section \<open>Runs\<close>

text \<open>From \<open>i\<close> up to \<open>j\<close> the bytes of the two pages agree, or all differ.\<close>

definition run :: "bool \<Rightarrow> u8 list \<Rightarrow> u8 list \<Rightarrow> nat \<Rightarrow> nat \<Rightarrow> bool" where
  "run same as bs i j \<longleftrightarrow> i \<le> j \<and> j \<le> length as \<and> (\<forall>k. i \<le> k \<and> k < j \<longrightarrow> (as ! k = bs ! k) = same)"

text \<open>The run cannot be continued.\<close>

definition ends :: "bool \<Rightarrow> u8 list \<Rightarrow> u8 list \<Rightarrow> nat \<Rightarrow> bool" where
  "ends same as bs j \<longleftrightarrow> j = length as \<or> (as ! j = bs ! j) \<noteq> same"

lemma run_refl: "i \<le> length as \<Longrightarrow> run same as bs i i"
  by (auto simp: run_def)

lemma run_trans: "run same as bs i j \<Longrightarrow> run same as bs j k \<Longrightarrow> run same as bs i k"
  unfolding run_def by (metis le_trans not_le)

lemma run_one: "i < length as \<Longrightarrow> (as ! i = bs ! i) = same \<Longrightarrow> run same as bs i (Suc i)"
  unfolding run_def by (metis Suc_leI le_SucI le_antisym less_Suc_eq_le order_refl)

lemma zrun_res_run:
  assumes "length bs = length as" "i + res \<le> length as"
  shows "\<exists>r j. zrun_res as bs res i z = Inr (r, j, z + (j - i)) \<and> run True as bs i j \<and> j + r = i + res
    \<and> (r = 0 \<or> as ! j \<noteq> bs ! j)"
  using assms
proof (induction res arbitrary: i z)
  case 0
  then show ?case by (simp add: run_refl)
next
  case (Suc res)
  show ?case
  proof (cases "as ! i = bs ! i")
    case True
    obtain r j where "zrun_res as bs res (i + 1) (z + 1) = Inr (r, j, z + 1 + (j - (i + 1)))"
      "run True as bs (i + 1) j" "j + r = i + 1 + res" "r = 0 \<or> as ! j \<noteq> bs ! j"
      using Suc.IH [of "i + 1" "z + 1"] Suc.prems by auto
    moreover from this(2) have "run True as bs i j" "Suc i \<le> j"
      using run_trans [OF run_one [of i as bs True]] True Suc.prems by (simp_all add: run_def)
    ultimately show ?thesis using True Suc.prems by (intro exI [of _ r] exI [of _ j]) simp
  next
    case False
    then show ?thesis using Suc.prems by (intro exI [of _ "Suc res"] exI [of _ i]) (simp add: run_refl)
  qed
qed

lemma run_long:
  assumes "i + 8 \<le> length as" and "\<And>k. k < 8 \<Longrightarrow> (take 8 (drop i as) ! k = take 8 (drop i bs) ! k) = same"
    and "length bs = length as"
  shows "run same as bs i (i + 8)"
  unfolding run_def
proof (intro conjI allI impI)
  fix k
  assume k: "i \<le> k \<and> k < i + 8"
  then have "k - i < 8" by arith
  with assms(2) [of "k - i"] k assms(1,3) show "(as ! k = bs ! k) = same" by simp
qed (use assms in simp_all)

lemma long_inside: "8 dvd n - i \<Longrightarrow> i < n \<Longrightarrow> i + 8 \<le> n \<and> 8 dvd n - (i + 8)" for i n :: nat
  by presburger

lemma zrun_longs_run:
  assumes "length bs = length as" "i \<le> length as" "8 dvd length as - i"
  shows "\<exists>j. zrun_longs as bs (length as) i z = Inr (j, z + (j - i)) \<and> run True as bs i j"
  using assms
proof (induction "length as - i" arbitrary: i z rule: less_induct)
  case less
  show ?case
  proof (cases "i < length as")
    case False
    then show ?thesis using less.prems by (subst zrun_longs.simps) (auto intro: run_refl)
  next
    case True
    then have inside: "i + 8 \<le> length as" "8 dvd length as - (i + 8)"
      using long_inside [OF less.prems(3)] by simp_all
    let ?a = "take 8 (drop i as)" and ?b = "take 8 (drop i bs)"
    have step: "zrun_longs as bs (length as) i z
        = (if ?a = ?b then zrun_longs as bs (length as) (i + 8) (z + 8) else Inr (i, z))"
      using True inside less.prems(1)
      by (subst zrun_longs.simps) (simp add: ld_long_bytes long_eq)
    show ?thesis
    proof (cases "?a = ?b")
      case eq: True
      then have long: "run True as bs i (i + 8)" using inside less.prems by (intro run_long) simp_all
      have lt: "length as - (i + 8) < length as - i" using True by arith
      obtain j where rest: "zrun_longs as bs (length as) (i + 8) (z + 8) = Inr (j, z + 8 + (j - (i + 8)))"
        "run True as bs (i + 8) j"
        using less.hyps [OF lt less.prems(1) inside, of "z + 8"] by blast
      have "run True as bs i j" by (rule run_trans [OF long rest(2)])
      moreover have "i + 8 \<le> j" using rest(2) by (simp add: run_def)
      ultimately show ?thesis using eq rest(1) unfolding step by (intro exI [of _ j]) simp
    next
      case False
      then show ?thesis unfolding step using less.prems by (intro exI [of _ i]) (simp add: run_refl)
    qed
  qed
qed

lemma zrun_bytes_run:
  assumes "length bs = length as" "i \<le> length as"
  shows "\<exists>j. zrun_bytes as bs (length as) i z = Inr (j, z + (j - i)) \<and> run True as bs i j \<and> ends True as bs j"
  using assms
proof (induction "length as - i" arbitrary: i z rule: less_induct)
  case less
  show ?case
  proof (cases "i < length as \<and> as ! i = bs ! i")
    case False
    then show ?thesis using less.prems by (subst zrun_bytes.simps) (auto simp: run_refl ends_def)
  next
    case True
    then have lt: "length as - (i + 1) < length as - i" "i + 1 \<le> length as" by arith+
    then obtain j where "zrun_bytes as bs (length as) (i + 1) (z + 1) = Inr (j, z + 1 + (j - (i + 1)))"
      "run True as bs (i + 1) j" "ends True as bs j"
      using less.hyps [OF lt(1) less.prems(1) lt(2), of "z + 1"] by blast
    moreover from this(2) have "run True as bs i j" "Suc i \<le> j"
      using run_trans [OF run_one [of i as bs True]] True by (simp_all add: run_def)
    ultimately show ?thesis
      using True less.prems by (intro exI [of _ j]) (subst zrun_bytes.simps, simp)
  qed
qed

lemma xbzrle_zrun_run:
  assumes "length bs = length as" "i \<le> length as"
  shows "\<exists>j. xbzrle_zrun as bs (length as) i = Inr (j, j - i) \<and> run True as bs i j \<and> ends True as bs j"
proof -
  let ?res = "(length as - i) mod 8"
  have "i + ?res \<le> length as" using assms(2) by (metis le_add_diff_inverse mod_less_eq_dividend nat_add_left_cancel_le)
  then obtain r j where 1: "zrun_res as bs ?res i 0 = Inr (r, j, 0 + (j - i))" "run True as bs i j" "j + r = i + ?res"
    "r = 0 \<or> as ! j \<noteq> bs ! j"
    using zrun_res_run [OF assms(1), of i ?res 0] by blast
  show ?thesis
  proof (cases "r = 0")
    case True
    then have "j \<le> length as" "8 dvd length as - j" using 1(2,3) \<open>i + ?res \<le> length as\<close> assms(2)
      by (simp_all add: minus_mod_eq_mult_div flip: diff_diff_left)
    then obtain k where 2: "zrun_longs as bs (length as) j (j - i) = Inr (k, j - i + (k - j))" "run True as bs j k"
      using zrun_longs_run [OF assms(1)] by blast
    then have "k \<le> length as" by (simp add: run_def)
    then obtain l where 3: "zrun_bytes as bs (length as) k (j - i + (k - j)) = Inr (l, j - i + (k - j) + (l - k))"
      "run True as bs k l" "ends True as bs l"
      using zrun_bytes_run [OF assms(1), of k "j - i + (k - j)"] by blast
    have "run True as bs i l" using 1(2) 2(2) 3(2) run_trans by blast
    moreover have "j - i + (k - j) + (l - k) = l - i" using 1(2) 2(2) 3(2) by (simp add: run_def)
    ultimately show ?thesis using 1(1) 2(1) 3 True by (simp add: xbzrle_zrun_def)
  next
    case False
    then show ?thesis using 1 by (simp add: xbzrle_zrun_def ends_def)
  qed
qed

lemma nzrun_res_run:
  assumes "length bs = length as" "i + res \<le> length as"
  shows "\<exists>r j. nzrun_res as bs res i z = Inr (r, j, z + (j - i)) \<and> run False as bs i j \<and> j + r = i + res
    \<and> (r = 0 \<or> as ! j = bs ! j)"
  using assms
proof (induction res arbitrary: i z)
  case 0
  then show ?case by (simp add: run_refl)
next
  case (Suc res)
  show ?case
  proof (cases "as ! i = bs ! i")
    case False
    obtain r j where "nzrun_res as bs res (i + 1) (z + 1) = Inr (r, j, z + 1 + (j - (i + 1)))"
      "run False as bs (i + 1) j" "j + r = i + 1 + res" "r = 0 \<or> as ! j = bs ! j"
      using Suc.IH [of "i + 1" "z + 1"] Suc.prems by auto
    moreover from this(2) have "run False as bs i j" "Suc i \<le> j"
      using run_trans [OF run_one [of i as bs False]] False Suc.prems by (simp_all add: run_def)
    ultimately show ?thesis using False Suc.prems by (intro exI [of _ r] exI [of _ j]) simp
  next
    case True
    then show ?thesis using Suc.prems by (intro exI [of _ "Suc res"] exI [of _ i]) (simp add: run_refl)
  qed
qed

text \<open>The loop without a bound stays in the page because the test has found an equal byte ahead.\<close>

lemma nzrun_bytes_run:
  assumes "length bs = length as" "i \<le> k" "k < length as" "as ! k = bs ! k"
  shows "\<exists>j. nzrun_bytes as bs i z = Inr (j, z + (j - i)) \<and> run False as bs i j \<and> ends False as bs j"
  using assms
proof (induction "k - i" arbitrary: i z rule: less_induct)
  case less
  then have i: "i < length as" by simp
  show ?case
  proof (cases "as ! i = bs ! i")
    case True
    then show ?thesis using less.prems i by (subst nzrun_bytes.simps) (auto simp: run_refl ends_def)
  next
    case False
    then have "i \<noteq> k" using less.prems by blast
    then have lt: "k - (i + 1) < k - i" "i + 1 \<le> k" using less.prems by arith+
    obtain j where rest: "nzrun_bytes as bs (i + 1) (z + 1) = Inr (j, z + 1 + (j - (i + 1)))"
      "run False as bs (i + 1) j" "ends False as bs j"
      using less.hyps [OF lt(1) less.prems(1) lt(2) less.prems(3,4), of "z + 1"] by blast
    moreover from this(2) have "run False as bs i j" "Suc i \<le> j"
      using run_trans [OF run_one [of i as bs False]] False i by (simp_all add: run_def)
    ultimately show ?thesis
      using False i less.prems by (intro exI [of _ j]) (subst nzrun_bytes.simps, simp)
  qed
qed

lemma nzrun_longs_run:
  assumes "length bs = length as" "i \<le> length as" "8 dvd length as - i"
  shows "\<exists>j. nzrun_longs as bs (length as) i z = Inr (j, z + (j - i)) \<and> run False as bs i j \<and> ends False as bs j"
  using assms
proof (induction "length as - i" arbitrary: i z rule: less_induct)
  case less
  show ?case
  proof (cases "i < length as")
    case False
    then show ?thesis using less.prems by (subst nzrun_longs.simps) (auto simp: ends_def intro: run_refl)
  next
    case True
    then have inside: "i + 8 \<le> length as" "8 dvd length as - (i + 8)"
      using long_inside [OF less.prems(3)] by simp_all
    let ?a = "take 8 (drop i as)" and ?b = "take 8 (drop i bs)"
    have step: "nzrun_longs as bs (length as) i z
        = (if \<exists>k < 8. ?a ! k = ?b ! k then nzrun_bytes as bs i z
           else nzrun_longs as bs (length as) (i + 8) (z + 8))"
      using True inside less.prems(1)
      by (subst nzrun_longs.simps) (simp add: ld_long_bytes long_zero_byte)
    show ?thesis
    proof (cases "\<exists>k < 8. ?a ! k = ?b ! k")
      case zero: True
      then obtain k where "k < 8" "as ! (i + k) = bs ! (i + k)" using inside less.prems(1) by auto
      then show ?thesis
        unfolding step if_P [OF zero] using nzrun_bytes_run [OF less.prems(1), of i "i + k" z] inside by simp
    next
      case False
      then have long: "run False as bs i (i + 8)" using inside less.prems by (intro run_long) simp_all
      have lt: "length as - (i + 8) < length as - i" using True by arith
      obtain j where rest: "nzrun_longs as bs (length as) (i + 8) (z + 8) = Inr (j, z + 8 + (j - (i + 8)))"
        "run False as bs (i + 8) j" "ends False as bs j"
        using less.hyps [OF lt less.prems(1) inside, of "z + 8"] by blast
      have "run False as bs i j" by (rule run_trans [OF long rest(2)])
      moreover have "i + 8 \<le> j" using rest(2) by (simp add: run_def)
      ultimately show ?thesis unfolding step if_not_P [OF False] using rest by (intro exI [of _ j]) simp
    qed
  qed
qed

lemma xbzrle_nzrun_run:
  assumes "length bs = length as" "i \<le> length as"
  shows "\<exists>j. xbzrle_nzrun as bs (length as) i = Inr (j, j - i) \<and> run False as bs i j \<and> ends False as bs j"
proof -
  let ?res = "(length as - i) mod 8"
  have "i + ?res \<le> length as" using assms(2) by (metis le_add_diff_inverse mod_less_eq_dividend nat_add_left_cancel_le)
  then obtain r j where 1: "nzrun_res as bs ?res i 0 = Inr (r, j, 0 + (j - i))" "run False as bs i j" "j + r = i + ?res"
    "r = 0 \<or> as ! j = bs ! j"
    using nzrun_res_run [OF assms(1), of i ?res 0] by blast
  show ?thesis
  proof (cases "r = 0")
    case True
    then have "j \<le> length as" "8 dvd length as - j" using 1(2,3) \<open>i + ?res \<le> length as\<close> assms(2)
      by (simp_all add: minus_mod_eq_mult_div flip: diff_diff_left)
    then obtain k where 2: "nzrun_longs as bs (length as) j (j - i) = Inr (k, j - i + (k - j))" "run False as bs j k"
      "ends False as bs k"
      using nzrun_longs_run [OF assms(1)] by blast
    have "run False as bs i k" using 1(2) 2(2) run_trans by blast
    moreover have "j - i + (k - j) = k - i" using 1(2) 2(2) by (simp add: run_def)
    ultimately show ?thesis using 1(1) 2 True by (simp add: xbzrle_nzrun_def)
  next
    case False
    then show ?thesis using 1 by (simp add: xbzrle_nzrun_def ends_def)
  qed
qed

section \<open>The encoder writes the format\<close>

lemma length_uleb: "0 < length (uleb n)" "length (uleb n) \<le> 2"
  by (simp_all add: uleb_def)

text \<open>The bytes before position \<open>p\<close> stay and \<open>bs\<close> follows them.\<close>

definition appends :: "u8 list \<Rightarrow> nat \<Rightarrow> u8 list \<Rightarrow> u8 list \<Rightarrow> bool" where
  "appends buf p bs buf' \<longleftrightarrow> length buf' = length buf \<and> take (p + length bs) buf' = take p buf @ bs"

lemma appends_set: "p < length buf \<Longrightarrow> appends buf p [b] (buf[p := b])"
  by (simp add: appends_def take_Suc_conv_app_nth)

lemma appends_trans:
  "appends buf p bs buf' \<Longrightarrow> appends buf' (p + length bs) cs buf'' \<Longrightarrow> appends buf p (bs @ cs) buf''"
  by (simp add: appends_def add.assoc)

lemma appends_write: "buf_write buf p bs = Inr buf' \<Longrightarrow> appends buf p bs buf'"
  by (auto simp: appends_def buf_write_def split: if_splits)

lemma uleb128_encode_appends:
  assumes "n \<le> 0x3fff" "p + 2 \<le> length out"
  shows "\<exists>out'. uleb128_encode_small out p n = Inr (length (uleb n), out') \<and> appends out p (uleb n) out'"
proof (cases "n < 0x80")
  case True
  then show ?thesis using assms by (simp add: uleb128_encode_small_def uleb_def appends_set)
next
  case False
  let ?b = "of_nat (n AND 0x7f) OR 0x80 :: u8" and ?c = "of_nat (drop_bit 7 n) :: u8"
  have "appends out p ([?b] @ [?c]) ((out[p := ?b])[p + 1 := ?c])"
    by (rule appends_trans [OF appends_set]) (use assms appends_set [of "p + 1" "out[p := ?b]" ?c] in simp_all)
  then show ?thesis using False assms by (simp add: uleb128_encode_small_def uleb_def)
qed

lemma while_run:
  assumes "i \<le> j" "j \<le> length ps" "\<And>k. i \<le> k \<Longrightarrow> k < j \<Longrightarrow> P (ps ! k)" "j < length ps \<Longrightarrow> \<not> P (ps ! j)"
  shows "takeWhile P (drop i ps) = take (j - i) (drop i ps)" "dropWhile P (drop i ps) = drop j ps"
proof -
  show "takeWhile P (drop i ps) = take (j - i) (drop i ps)"
    by (rule takeWhile_eq_take_P_nth) (use assms in auto)
  then show "dropWhile P (drop i ps) = drop j ps" using assms by (simp add: dropWhile_eq_drop)
qed

lemma run_page:
  assumes len: "length bs = length as"
    and z: "run True as bs i j" "ends True as bs j" and nz: "run False as bs j k" "ends False as bs k"
  shows "xbzrle_page (drop i (zip as bs)) =
    (if j = length as then []
     else uleb (j - i) @ uleb (k - j) @ take (k - j) (drop j bs) @ xbzrle_page (drop k (zip as bs)))"
proof -
  let ?ps = "zip as bs"
  have z': "takeWhile kept (drop i ?ps) = take (j - i) (drop i ?ps)" "dropWhile kept (drop i ?ps) = drop j ?ps"
    by (rule while_run; use len z in \<open>auto simp: run_def ends_def kept_def\<close>)+
  have nz': "takeWhile (\<lambda>p. \<not> kept p) (drop j ?ps) = take (k - j) (drop j ?ps)"
      "dropWhile (\<lambda>p. \<not> kept p) (drop j ?ps) = drop k ?ps"
    by (rule while_run; use len nz in \<open>auto simp: run_def ends_def kept_def\<close>)+
  have ord: "i \<le> j" "j \<le> length as" "j \<le> k" "k \<le> length as" using z nz by (simp_all add: run_def)
  have "map snd (take (k - j) (drop j ?ps)) = take (k - j) (drop j bs)"
    using len by (simp add: take_map [symmetric] drop_map [symmetric])
  moreover have "length (take (j - i) (drop i ?ps)) = j - i" "length (take (k - j) (drop j ?ps)) = k - j"
    using len ord by simp_all
  moreover have "drop j ?ps = [] \<longleftrightarrow> j = length as" using len z by (auto simp: run_def)
  ultimately show ?thesis unfolding xbzrle_page.simps [of "drop i ?ps"] z' nz' Let_def by simp
qed

text \<open>What the encoder returns when \<open>d\<close> bytes are written and \<open>page\<close> is left to write.\<close>

definition encoded :: "u8 list \<Rightarrow> nat \<Rightarrow> u8 list \<Rightarrow> nat \<Rightarrow> int \<times> u8 list \<Rightarrow> bool" where
  "encoded dst d page dlen out \<longleftrightarrow> length (snd out) = dlen
    \<and> (if fst out = -1 then dlen < d + length page + 2
       else fst out = int (d + length page) \<and> d + length page \<le> dlen \<and> appends dst d page (snd out))"

lemma encoded_prefix:
  assumes "encoded dst' (d + length bs) page dlen out" "appends dst d bs dst'"
  shows "encoded dst d (bs @ page) dlen out"
  using assms appends_trans [of dst d bs dst' page] by (auto simp: encoded_def add.assoc)

text \<open>A round returns a final result, or writes the next two runs and goes on behind them.\<close>

lemma encode_round_page:
  assumes len: "length bs = length as" "length as \<le> 0x3fff" "length dst = dlen" and i: "i < length as" "d \<le> dlen"
    and start: "i = 0 \<Longrightarrow> d = 0"
  shows "case xbzrle_encode_round as bs (length as) dlen i d dst of
      Inl e \<Rightarrow> False
    | Inr (Return r dst') \<Rightarrow> encoded dst d (xbzrle_page (drop i (zip as bs))) dlen (r, dst')
    | Inr (Continue k d' dst') \<Rightarrow> i < k \<and> k \<le> length as \<and> d' \<le> dlen \<and> d < d' \<and> length dst' = dlen
        \<and> (\<exists>cs. appends dst d cs dst' \<and> d' = d + length cs
            \<and> xbzrle_page (drop i (zip as bs)) = cs @ xbzrle_page (drop k (zip as bs)))"
proof (cases "d + 2 > dlen")
  case True
  then show ?thesis using len by (simp add: xbzrle_encode_round_def encoded_def)
next
  case room: False
  obtain j where z: "xbzrle_zrun as bs (length as) i = Inr (j, j - i)" "run True as bs i j" "ends True as bs j"
    using xbzrle_zrun_run [OF len(1), of i] i by auto
  then have ij: "i \<le> j" "j \<le> length as" by (simp_all add: run_def)
  obtain k where nz: "xbzrle_nzrun as bs (length as) j = Inr (k, k - j)" "run False as bs j k" "ends False as bs k"
    using xbzrle_nzrun_run [OF len(1) ij(2)] by blast
  then have jk: "j \<le> k" "k \<le> length as" by (simp_all add: run_def)
  have small: "j - i \<le> 0x3fff" "k - j \<le> 0x3fff" using len(2) ij jk by linarith+
  note page = run_page [OF len(1) z(2,3) nz(2,3)]
  show ?thesis
  proof (cases "j = length as")
    case True
    then show ?thesis
      using z(1) room start i len by (auto simp: xbzrle_encode_round_def page encoded_def appends_def)
  next
    case False
    then have "j < length as" "as ! j \<noteq> bs ! j" using ij z(3) by (auto simp: ends_def)
    then have ne: "j - i \<noteq> length as" by linarith
    have "j < k" using \<open>as ! j \<noteq> bs ! j\<close> \<open>j < length as\<close> jk nz(3) by (cases "j = k") (auto simp: ends_def)
    obtain dst1 where 1: "uleb128_encode_small dst d (j - i) = Inr (length (uleb (j - i)), dst1)"
      "appends dst d (uleb (j - i)) dst1"
      using uleb128_encode_appends [OF small(1), of d dst] room len(3) by auto
    let ?d1 = "d + length (uleb (j - i))"
    have len1: "length dst1 = dlen" using 1(2) len by (simp add: appends_def)
    show ?thesis
    proof (cases "?d1 + 2 > dlen")
      case True
      then show ?thesis
        using z(1) 1 len1 room False ne by (simp add: xbzrle_encode_round_def page encoded_def)
    next
      case room1: False
      obtain dst2 where 2: "uleb128_encode_small dst1 ?d1 (k - j) = Inr (length (uleb (k - j)), dst2)"
        "appends dst1 ?d1 (uleb (k - j)) dst2"
        using uleb128_encode_appends [OF small(2), of ?d1 dst1] room1 len1 by auto
      let ?d2 = "?d1 + length (uleb (k - j))" and ?nz = "take (k - j) (drop j bs)"
      have len2: "length dst2 = dlen" using 2(2) len1 by (simp add: appends_def)
      have nz_len: "length ?nz = k - j" using jk len by simp
      have round: "xbzrle_encode_round as bs (length as) dlen i d dst =
        (if ?d2 + (k - j) > dlen then Inr (Return (-1) dst2)
         else res_bind (buf_write dst2 ?d2 ?nz) (\<lambda>dst. Inr (Continue k (?d2 + (k - j)) dst)))"
        using z(1) nz(1) 1(1) 2(1) room room1 False ne i ij jk len
        by (simp add: xbzrle_encode_round_def buf_read_def Let_def)
      show ?thesis
      proof (cases "?d2 + (k - j) > dlen")
        case True
        then show ?thesis unfolding round using len2 False nz_len by (simp add: page encoded_def)
      next
        case fits: False
        have "i < k" using \<open>j < k\<close> ij by linarith
        from fits obtain dst3 where 3: "buf_write dst2 ?d2 ?nz = Inr dst3"
          using len2 nz_len by (simp add: buf_write_def)
        have "appends dst d (uleb (j - i) @ uleb (k - j) @ ?nz) dst3"
          using 1(2) 2(2) appends_write [OF 3] by (auto intro!: appends_trans simp: add.assoc)
        moreover have "length dst3 = dlen" using buf_write_length [OF 3] len2 by simp
        ultimately show ?thesis
          unfolding round using 3 fits \<open>i < k\<close> jk(2) False nz_len length_uleb(1) [of "j - i"]
          by (auto simp: page add.assoc intro!: exI [of _ "uleb (j - i) @ uleb (k - j) @ ?nz"])
      qed
    qed
  qed
qed

lemma encode_loop_page:
  assumes "length bs = length as" "length as \<le> 0x3fff"
  shows "length dst = dlen \<Longrightarrow> i \<le> length as \<Longrightarrow> d \<le> dlen \<Longrightarrow> (i = 0 \<Longrightarrow> d = 0) \<Longrightarrow>
    \<exists>out. xbzrle_encode_loop as bs (length as) dlen i d dst = Some (Inr out)
      \<and> encoded dst d (xbzrle_page (drop i (zip as bs))) dlen out"
proof (induction "length as - i" arbitrary: i d dst rule: less_induct)
  case less
  show ?case
  proof (cases "i < length as")
    case False
    then show ?thesis
      using less.prems assms by (subst xbzrle_encode_loop.simps)
        (simp add: encoded_def appends_def xbzrle_page.simps [of "[]"])
  next
    case True
    note round = encode_round_page [OF assms less.prems(1) True less.prems(3,4)]
    show ?thesis
    proof (cases "xbzrle_encode_round as bs (length as) dlen i d dst")
      case (Inl e)
      then show ?thesis using round by simp
    next
      case (Inr out)
      show ?thesis
      proof (cases out)
        case (Return r dst')
        then show ?thesis using round Inr True by (subst xbzrle_encode_loop.simps) simp
      next
        case (Continue k d' dst')
        then obtain cs where k: "i < k" "k \<le> length as" "d' \<le> dlen" "d < d'" "length dst' = dlen"
          and cs: "appends dst d cs dst'" "d' = d + length cs"
            "xbzrle_page (drop i (zip as bs)) = cs @ xbzrle_page (drop k (zip as bs))"
          using round Inr by auto
        have lt: "length as - k < length as - i" using k by arith
        obtain out' where "xbzrle_encode_loop as bs (length as) dlen k d' dst' = Some (Inr out')"
          "encoded dst' d' (xbzrle_page (drop k (zip as bs))) dlen out'"
          using less.hyps [OF lt k(5,2,3)] k(1) by blast
        then show ?thesis
          using Inr Continue True cs encoded_prefix [of dst' d cs _ dlen out' dst]
          by (subst xbzrle_encode_loop.simps) simp
      qed
    qed
  qed
qed

section \<open>The decoder\<close>

lemma take_drop_nth:
  assumes "take (length xs) (drop p ys) = xs" "k < length xs"
  shows "p + k < length ys" "ys ! (p + k) = xs ! k"
proof -
  have "length xs \<le> length ys - p" using assms(1) by (metis length_drop length_take min.cobounded1)
  then show *: "p + k < length ys" using assms(2) by linarith
  then show "ys ! (p + k) = xs ! k" using arg_cong [OF assms(1), of "\<lambda>zs. zs ! k"] assms(2) by simp
qed

lemma and_0x80: "b AND 0x80 = 0 \<longleftrightarrow> \<not> bit b 7" for b :: u8
  using and_exp_eq_0_iff_not_bit [of b 7] by simp

lemma and_0x7f: "n AND 0x7f = take_bit 7 n" "b AND 0x7f = take_bit 7 b" for n :: nat and b :: u8
  by (simp_all add: take_bit_eq_mask mask_eq_exp_minus_1)

lemma uleb128_decode_uleb:
  assumes "n \<le> 0x3fff" "take (length (uleb n)) (drop p inp) = uleb n"
  shows "uleb128_decode_small inp p = Inr (Some (length (uleb n), n))"
proof (cases "n < 0x80")
  case True
  have "p < length inp" "inp ! p = of_nat n"
    using take_drop_nth [OF assms(2), of 0] True by (simp_all add: uleb_def)
  moreover have "\<not> bit n 7" using True by (simp add: bit_iff_odd)
  then have "(of_nat n :: u8) AND 0x80 = 0" by (simp add: and_0x80 bit_of_nat_iff)
  moreover have "unat (of_nat n :: u8) = n" using True by (intro unat_of_nat_small) simp
  ultimately show ?thesis using True by (simp add: uleb128_decode_small_def uleb_def)
next
  case False
  let ?b = "of_nat (n AND 0x7f) OR 0x80 :: u8" and ?c = "of_nat (drop_bit 7 n) :: u8"
  have at: "p < length inp" "inp ! p = ?b" "p + 1 < length inp" "inp ! (p + 1) = ?c"
    using take_drop_nth [OF assms(2), of 0] take_drop_nth [OF assms(2), of 1] False by (simp_all add: uleb_def)
  have "?b AND 0x80 \<noteq> 0" using bit_push_bit_iff [of 7 "1 :: u8" 7] by (simp add: and_0x80 bit_simps)
  moreover have c: "drop_bit 7 n < 128" using assms(1) by (simp add: drop_bit_eq_div)
  then have "\<not> bit (drop_bit 7 n) 7" by (simp add: bit_iff_odd)
  then have "?c AND 0x80 = 0" by (simp add: and_0x80 bit_of_nat_iff)
  moreover have "unat ?c = drop_bit 7 n" using c by (intro unat_of_nat_small) simp
  moreover have "?b AND 0x7f = of_nat (take_bit 7 n)"
    unfolding and_0x7f
  proof (rule bit_word_eqI)
    fix k :: nat
    assume "k < LENGTH(8)"
    then show "bit (take_bit 7 (of_nat (take_bit 7 n) OR 0x80 :: u8)) k = bit (of_nat (take_bit 7 n) :: u8) k"
      using bit_push_bit_iff [of 7 "1 :: u8" k] by (auto simp: bit_simps)
  qed
  moreover have "unat (of_nat (take_bit 7 n) :: u8) = take_bit 7 n"
    using take_bit_nat_less_exp [of 7 n] by (intro unat_of_nat_small) simp
  moreover have "take_bit 7 n OR push_bit 7 (drop_bit 7 n) = n"
  proof (rule bit_eqI)
    fix m :: nat
    show "bit (take_bit 7 n OR push_bit 7 (drop_bit 7 n)) m = bit n m"
      by (cases "m < 7") (auto simp: bit_simps)
  qed
  ultimately show ?thesis using False at by (simp add: uleb128_decode_small_def uleb_def)
qed

lemma take_append_split:
  assumes "take m xs = ys @ zs"
  shows "take (length ys) xs = ys" "take (m - length ys) (drop (length ys) xs) = zs" "length ys \<le> m"
proof -
  show le: "length ys \<le> m" using arg_cong [OF assms, of length] by simp
  have "take (length ys) (take m xs) = ys" by (simp add: assms)
  then show "take (length ys) xs = ys" using le by (simp add: min_def)
  have "drop (length ys) (take m xs) = zs" by (simp add: assms)
  then show "take (m - length ys) (drop (length ys) xs) = zs" by (simp add: drop_take)
qed

text \<open>Decoding the next two runs of a page that is new up to \<open>i\<close> and old behind it.\<close>

lemma decode_round_page:
  assumes len: "length bs = length as" "length as \<le> 0x3fff" "slen \<le> length src"
    and z: "run True as bs p j" "ends True as bs j" and nz: "run False as bs j k" "j < k"
    and src: "take (slen - i) (drop i src) = uleb (j - p) @ uleb (k - j) @ take (k - j) (drop j bs) @ rest"
    and first: "i = 0 \<or> p < j"
  shows "\<exists>i'. xbzrle_decode_round src slen (length as) i p (take p bs @ drop p as)
      = Inr (Continue i' k (take k bs @ drop k as)) \<and> i < i' \<and> i' \<le> slen \<and> take (slen - i') (drop i' src) = rest"
proof -
  have ord: "p \<le> j" "j \<le> length as" "j \<le> k" "k \<le> length as" using z nz by (simp_all add: run_def)
  have small: "j - p \<le> 0x3fff" "k - j \<le> 0x3fff" using len(2) ord by linarith+
  let ?z = "uleb (j - p)" and ?n = "uleb (k - j)" and ?nz = "take (k - j) (drop j bs)"
  let ?i1 = "i + length ?z" and ?dst = "take p bs @ drop p as"
  let ?i2 = "?i1 + length ?n"
  have nz_len: "length ?nz = k - j" using ord len by simp
  note 1 = take_append_split [OF src]
  have src1: "take (slen - ?i1) (drop ?i1 src) = ?n @ ?nz @ rest" using 1(2) by (simp add: add.commute)
  note 2 = take_append_split [OF src1]
  have src2: "take (slen - ?i2) (drop ?i2 src) = ?nz @ rest" using 2(2) by (simp add: add.commute add.left_commute)
  note 3 = take_append_split [OF src2]
  have fits: "?i2 + (k - j) \<le> slen" using 3(3) nz(2) unfolding nz_len by arith
  have dec1: "uleb128_decode_small src i = Inr (Some (length ?z, j - p))"
    by (rule uleb128_decode_uleb [OF small(1) 1(1)])
  have dec2: "uleb128_decode_small src ?i1 = Inr (Some (length ?n, k - j))"
    by (rule uleb128_decode_uleb [OF small(2) 2(1)])
  have same: "take j bs @ drop j as = ?dst"
  proof (rule nth_equalityI)
    fix m
    assume "m < length (take j bs @ drop j as)"
    then show "(take j bs @ drop j as) ! m = ?dst ! m"
      using z(1) len(1) ord by (auto simp: nth_append run_def)
  qed (use ord len in simp)
  have rd: "buf_read src ?i2 (k - j) = Inr ?nz" using 3(1) nz_len fits len(3) by (simp add: buf_read_def)
  have "take k bs = take j bs @ ?nz" using ord by (metis le_add_diff_inverse take_add)
  then have "buf_write (take j bs @ drop j as) j ?nz = Inr (take k bs @ drop k as)"
    using ord len by (simp add: buf_write_def)
  then have wr: "buf_write ?dst j ?nz = Inr (take k bs @ drop k as)" by (simp only: same)
  have room: "\<not> slen - i < 2" "\<not> slen - ?i1 < 2"
    using fits length_uleb(1) [of "j - p"] length_uleb(1) [of "k - j"] nz(2) by linarith+
  have "xbzrle_decode_round src slen (length as) i p ?dst = Inr (Continue (?i2 + (k - j)) k (take k bs @ drop k as))"
    using room dec1 dec2 first fits ord nz(2) rd wr by (auto simp: xbzrle_decode_round_def Let_def)
  moreover have "take (slen - (?i2 + (k - j))) (drop (?i2 + (k - j)) src) = rest"
    using 3(2) nz_len by (simp add: add.commute add.left_commute)
  ultimately show ?thesis using fits length_uleb(1) [of "j - p"] by (intro exI [of _ "?i2 + (k - j)"]) auto
qed

lemma decode_loop_page:
  assumes len: "length bs = length as" "length as \<le> 0x3fff" "slen \<le> length src"
  shows "take (slen - i) (drop i src) = xbzrle_page (drop p (zip as bs)) \<Longrightarrow> i \<le> slen \<Longrightarrow> p \<le> length as \<Longrightarrow>
    i = 0 \<or> ends False as bs p \<Longrightarrow>
    \<exists>r. xbzrle_decode_loop src slen (length as) i p (take p bs @ drop p as) = Some (Inr (r, bs)) \<and> 0 \<le> r"
proof (induction "slen - i" arbitrary: i p rule: less_induct)
  case less
  obtain j where z: "run True as bs p j" "ends True as bs j"
    using xbzrle_zrun_run [OF len(1) less.prems(3)] by blast
  then have pj: "p \<le> j" "j \<le> length as" by (simp_all add: run_def)
  obtain k where nz: "run False as bs j k" "ends False as bs k"
    using xbzrle_nzrun_run [OF len(1) pj(2)] by blast
  note page = run_page [OF len(1) z nz]
  show ?case
  proof (cases "j = length as")
    case True
    have "take p bs @ drop p as = bs"
      by (rule nth_equalityI) (use z(1) True len(1) less.prems(3) in \<open>auto simp: nth_append run_def\<close>)
    moreover have "\<not> i < slen" using less.prems(1) True len(3) unfolding page by auto
    ultimately show ?thesis by (subst xbzrle_decode_loop.simps) simp
  next
    case False
    then have "j < length as" "as ! j \<noteq> bs ! j" using pj z(2) by (auto simp: ends_def)
    then have "j < k" using nz by (cases "j = k") (auto simp: run_def ends_def)
    have first: "i = 0 \<or> p < j"
      using less.prems(4) \<open>as ! j \<noteq> bs ! j\<close> \<open>j < length as\<close> pj by (cases "p = j") (auto simp: ends_def)
    have src: "take (slen - i) (drop i src) = uleb (j - p) @ uleb (k - j) @ take (k - j) (drop j bs)
        @ xbzrle_page (drop k (zip as bs))" using less.prems(1) False unfolding page by simp
    then have "i < slen" using length_uleb(1) [of "j - p"] by (cases "i < slen") auto
    obtain i' where r: "xbzrle_decode_round src slen (length as) i p (take p bs @ drop p as)
        = Inr (Continue i' k (take k bs @ drop k as))" "i < i'" "i' \<le> slen"
      "take (slen - i') (drop i' src) = xbzrle_page (drop k (zip as bs))"
      using decode_round_page [OF len z nz(1) \<open>j < k\<close> src first] by blast
    have "slen - i' < slen - i" using r \<open>i < slen\<close> by arith
    then have "\<exists>r. xbzrle_decode_loop src slen (length as) i' k (take k bs @ drop k as) = Some (Inr (r, bs)) \<and> 0 \<le> r"
      using less.hyps r(3,4) nz by (simp add: run_def)
    then show ?thesis using r(1) \<open>i < slen\<close> by (subst xbzrle_decode_loop.simps) simp
  qed
qed

text \<open>On any input a round stays in both buffers and reads at least one byte.\<close>

lemma uleb128_decode_reads:
  assumes "p + 2 \<le> length inp"
  shows "\<exists>r. uleb128_decode_small inp p = Inr r \<and> (\<forall>n count. r = Some (n, count) \<longrightarrow> 0 < n \<and> n \<le> 2)"
  using assms by (auto simp: uleb128_decode_small_def)

lemma decode_round_safe:
  assumes "slen \<le> length src" "length dst = dlen" "d \<le> dlen"
  shows "case xbzrle_decode_round src slen dlen i d dst of
      Inl e \<Rightarrow> False
    | Inr (Return r dst') \<Rightarrow> r = -1 \<and> length dst' = dlen
    | Inr (Continue i' d' dst') \<Rightarrow> i < i' \<and> i' \<le> slen \<and> d' \<le> dlen \<and> length dst' = dlen"
proof (cases "slen - i < 2")
  case True
  then show ?thesis using assms by (simp add: xbzrle_decode_round_def)
next
  case False
  obtain r where 1: "uleb128_decode_small src i = Inr r" "\<And>n count. r = Some (n, count) \<Longrightarrow> 0 < n \<and> n \<le> 2"
    using uleb128_decode_reads [of i src] False assms(1) by fastforce
  show ?thesis
  proof (cases r)
    case None
    then show ?thesis using 1 False assms by (simp add: xbzrle_decode_round_def)
  next
    case (Some nc)
    then obtain n count where r: "r = Some (n, count)" by (cases nc) simp
    with 1(2) have n: "0 < n" "n \<le> 2" by simp_all
    show ?thesis
    proof (cases "i \<noteq> 0 \<and> count = 0 \<or> d + count > dlen \<or> slen - (i + n) < 2")
      case True
      then show ?thesis using 1 r False assms by (auto simp: xbzrle_decode_round_def Let_def)
    next
      case False2: False
      then obtain r' where 2: "uleb128_decode_small src (i + n) = Inr r'"
        "\<And>n count. r' = Some (n, count) \<Longrightarrow> 0 < n \<and> n \<le> 2"
        using uleb128_decode_reads [of "i + n" src] assms(1) by fastforce
      show ?thesis
      proof (cases r')
        case None
        then show ?thesis using 1 2 r False False2 assms by (auto simp: xbzrle_decode_round_def Let_def)
      next
        case (Some nc')
        then obtain n' count' where r': "r' = Some (n', count')" by (cases nc') simp
        have "xbzrle_decode_round src slen dlen i d dst =
          (if count' = 0 \<or> d + count + count' > dlen \<or> i + n + n' + count' > slen then Inr (Return (-1) dst)
           else res_bind (buf_read src (i + n + n') count') (\<lambda>bs. res_bind (buf_write dst (d + count) bs) (\<lambda>dst.
             Inr (Continue (i + n + n' + count') (d + count + count') dst))))"
          using 1 2 r r' False False2 by (auto simp: xbzrle_decode_round_def Let_def)
        moreover have "length (take count' (drop (i + n + n') src)) = count'" if "i + n + n' + count' \<le> slen"
          using that assms(1) by simp
        ultimately show ?thesis using assms n by (auto simp: buf_read_def buf_write_def)
      qed
    qed
  qed
qed

lemma decode_loop_safe:
  assumes "slen \<le> length src"
  shows "length dst = dlen \<Longrightarrow> d \<le> dlen \<Longrightarrow>
    \<exists>r dst'. xbzrle_decode_loop src slen dlen i d dst = Some (Inr (r, dst')) \<and> length dst' = dlen
      \<and> - 1 \<le> r \<and> r \<le> int dlen"
proof (induction "slen - i" arbitrary: i d dst rule: less_induct)
  case less
  show ?case
  proof (cases "i < slen")
    case False
    then show ?thesis using less.prems by (subst xbzrle_decode_loop.simps) simp
  next
    case True
    note round = decode_round_safe [OF assms less.prems, of i]
    show ?thesis
    proof (cases "xbzrle_decode_round src slen dlen i d dst")
      case (Inl e)
      then show ?thesis using round by simp
    next
      case (Inr out)
      show ?thesis
      proof (cases out)
        case (Return r dst')
        then show ?thesis using round Inr True by (subst xbzrle_decode_loop.simps) simp
      next
        case (Continue i' d' dst')
        then have c: "i < i'" "length dst' = dlen" "d' \<le> dlen" using round Inr by simp_all
        then have "slen - i' < slen - i" using True by arith
        from less.hyps [OF this c(2,3)] show ?thesis
          using Inr Continue True by (subst xbzrle_decode_loop.simps) simp
      qed
    qed
  qed
qed

section \<open>Properties\<close>

text \<open>A page that may be encoded: the sizes agree, and the assertion of the encoder holds.\<close>

definition pages_ok :: "u64 \<Rightarrow> u8 list \<Rightarrow> u64 \<Rightarrow> u8 list \<Rightarrow> bool" where
  "pages_ok old_ptr old_buf new_ptr new_buf \<longleftrightarrow> length new_buf = length old_buf \<and> length old_buf \<le> 0x3fff
    \<and> length old_buf mod 8 = 0 \<and> old_ptr mod 8 = 0 \<and> new_ptr mod 8 = 0"

lemma mod_8_or: "(a OR b) mod 8 = (a mod 8) OR (b mod 8)" for a b :: u64
  using take_bit_or [of 3 a b] by (simp add: take_bit_eq_mod)

lemma encode_buffer_page:
  assumes "pages_ok old_ptr old_buf new_ptr new_buf"
  shows "\<exists>out. xbzrle_encode_buffer old_ptr old_buf new_ptr new_buf (length old_buf) dst (length dst) = Some (Inr out)
    \<and> encoded dst 0 (xbzrle_page (zip old_buf new_buf)) (length dst) out"
proof -
  have "(of_nat (length old_buf) :: u64) mod 8 = of_nat (length old_buf mod 8)"
    using take_bit_of_nat [of 3 "length old_buf", where 'a = u64] by (simp add: take_bit_eq_mod)
  then have "(old_ptr OR new_ptr OR of_nat (length old_buf)) mod 8 = 0"
    using assms by (simp add: mod_8_or pages_ok_def)
  then show ?thesis
    using encode_loop_page [of new_buf old_buf dst "length dst" 0 0] assms
    by (simp add: xbzrle_encode_buffer_def pages_ok_def)
qed

text \<open>
  C4. The word-wise encoder is equivalent to the bytewise description of the format: it never reads or
  writes outside of its buffers, and either it writes exactly the runs that a bytewise scan of the two
  pages finds, and returns their length, or it returns -1, and then the encoding and two more bytes do
  not fit into the buffer.
\<close>

theorem xbzrle_encodes_runs:
  assumes "pages_ok old_ptr old_buf new_ptr new_buf"
  shows "\<exists>r dst'. xbzrle_encode_buffer old_ptr old_buf new_ptr new_buf (length old_buf) dst (length dst)
      = Some (Inr (r, dst')) \<and> length dst' = length dst
    \<and> (let page = xbzrle_page (zip old_buf new_buf) in
       if r = -1 then length dst < length page + 2
       else r = int (length page) \<and> take (length page) dst' = page)"
proof -
  obtain r dst' where "xbzrle_encode_buffer old_ptr old_buf new_ptr new_buf (length old_buf) dst (length dst)
      = Some (Inr (r, dst'))"
    and "encoded dst 0 (xbzrle_page (zip old_buf new_buf)) (length dst) (r, dst')"
    using encode_buffer_page [OF assms, of dst] by auto
  then show ?thesis
    by (intro exI [of _ r] exI [of _ dst']) (simp add: encoded_def appends_def Let_def split: if_splits)
qed

theorem xbzrle_encodes_runs_witness:
  "pages_ok 0x1000 [1, 2, 3, 4, 5, 6, 7, 8] 0x2000 [1, 2, 9, 4, 5, 6, 7, 8]
    \<and> (\<exists>dst'. xbzrle_encode_buffer 0x1000 [1, 2, 3, 4, 5, 6, 7, 8] 0x2000 [1, 2, 9, 4, 5, 6, 7, 8] 8
        (replicate 8 0) 8 = Some (Inr (3, dst')) \<and> take 3 dst' = [2, 1, 9])"
proof -
  let ?old = "[1, 2, 3, 4, 5, 6, 7, 8] :: u8 list" and ?new = "[1, 2, 9, 4, 5, 6, 7, 8] :: u8 list"
  have ok: "pages_ok 0x1000 ?old 0x2000 ?new" by code_simp
  have len: "length ?old = 8" "length (replicate 8 (0 :: u8)) = 8" by simp_all
  moreover have "xbzrle_page (zip ?old ?new) = [2, 1, 9]" by code_simp
  moreover obtain r dst' where "xbzrle_encode_buffer 0x1000 ?old 0x2000 ?new 8 (replicate 8 0) 8 = Some (Inr (r, dst'))"
    and "let page = xbzrle_page (zip ?old ?new) in
      if r = -1 then 8 < length page + 2 else r = int (length page) \<and> take (length page) dst' = page"
    using xbzrle_encodes_runs [OF ok, of "replicate 8 0"] unfolding len by blast
  ultimately have "r = 3" "take 3 dst' = [2, 1, 9]" by (cases "r = -1"; simp add: numeral_3_eq_3)+
  then show ?thesis
    using ok \<open>xbzrle_encode_buffer 0x1000 ?old 0x2000 ?new 8 (replicate 8 0) 8 = Some (Inr (r, dst'))\<close> by blast
qed

text \<open>
  C5. The decoder inverts the encoder: when the encoder does not report an overflow, decoding what it
  wrote into a copy of the old page gives the new page.
\<close>

theorem xbzrle_roundtrip:
  assumes "pages_ok old_ptr old_buf new_ptr new_buf"
    and "xbzrle_encode_buffer old_ptr old_buf new_ptr new_buf (length old_buf) dst (length dst) = Some (Inr (r, dst'))"
    and "r \<noteq> -1"
  shows "\<exists>d. xbzrle_decode_buffer dst' (nat r) old_buf (length old_buf) = Some (Inr (d, new_buf)) \<and> 0 \<le> d"
proof -
  let ?page = "xbzrle_page (zip old_buf new_buf)"
  have "encoded dst 0 ?page (length dst) (r, dst')" using encode_buffer_page [OF assms(1), of dst] assms(2) by auto
  then have "r = int (length ?page)" "take (length ?page) dst' = ?page" "length ?page \<le> length dst'"
    using assms(3) by (auto simp: encoded_def appends_def)
  then show ?thesis
    using decode_loop_page [of new_buf old_buf "length ?page" dst' 0 0] assms(1)
    by (simp add: xbzrle_decode_buffer_def pages_ok_def)
qed

theorem xbzrle_roundtrip_witness:
  "\<exists>dst' d. xbzrle_encode_buffer 0 (replicate 16 0) 0 (replicate 15 0 @ [7]) 16 (replicate 16 0) 16
      = Some (Inr (3, dst')) \<and> xbzrle_decode_buffer dst' 3 (replicate 16 0) 16 = Some (Inr (d, replicate 15 0 @ [7]))"
proof -
  let ?old = "replicate 16 0 :: u8 list" and ?new = "replicate 15 0 @ [7] :: u8 list"
  have ok: "pages_ok 0 ?old 0 ?new" by code_simp
  have page: "xbzrle_page (zip ?old ?new) = [15, 1, 7]" by code_simp
  obtain out where "xbzrle_encode_buffer 0 ?old 0 ?new (length ?old) (replicate 16 0) (length (replicate 16 (0 :: u8)))
      = Some (Inr out)" "encoded (replicate 16 0) 0 [15, 1, 7] 16 out"
    using encode_buffer_page [OF ok, of "replicate 16 0"] unfolding page by auto
  moreover obtain r dst' where "out = (r, dst')" by (cases out)
  moreover from calculation have "r = 3" by (simp add: encoded_def split: if_splits)
  ultimately have enc: "xbzrle_encode_buffer 0 ?old 0 ?new (length ?old) (replicate 16 0) (length (replicate 16 (0 :: u8)))
      = Some (Inr (3, dst'))" by simp
  from xbzrle_roundtrip [OF ok enc] enc show ?thesis by auto
qed

text \<open>
  C16. The decoder is safe on input from an untrusted stream: whatever the bytes are, it ends, reads and
  writes inside of its buffers, and returns -1 or a length of at most the page.
\<close>

theorem xbzrle_decode_safe:
  assumes "slen \<le> length src"
  shows "\<exists>r dst'. xbzrle_decode_buffer src slen dst (length dst) = Some (Inr (r, dst')) \<and> length dst' = length dst
    \<and> - 1 \<le> r \<and> r \<le> int (length dst)"
  using decode_loop_safe [OF assms, of dst "length dst" 0 0] by (simp add: xbzrle_decode_buffer_def)

theorem xbzrle_decode_safe_witness:
  "(2 :: nat) \<le> length [0xff :: u8, 0x7f] \<and> (\<exists>r dst'. xbzrle_decode_buffer [0xff, 0x7f] 2 [0] 1 = Some (Inr (r, dst')) \<and> length dst' = 1)"
  using xbzrle_decode_safe [of 2 "[0xff, 0x7f]" "[0]"] by auto

end
