(* ===== verification/Page_Cache.thy ===== *)
theory Page_Cache
  imports Xbox_Prelude
begin

text \<open>
  The cache of sent pages (\<open>src/page_cache.c\<close>) that a migration encodes its deltas against, with the
  rounding of its size (\<open>src/util/cutils.c\<close>, \<open>src/include/qemu-common.h\<close>). The cache is direct mapped: an
  address has one slot, and a new page replaces what the slot held. A page is the address that the
  allocator returned and the bytes there; the results of the allocator are arguments. The locale
  \<open>lossy_cache\<close> is the contract that the migration relies on, and the cache is its interpretation.
\<close>

section \<open>Sizes\<close>

definition is_power_of_2 :: "u64 \<Rightarrow> bool" where
  "is_power_of_2 value = (if value = 0 then False else value AND (value - 1) = 0)"

definition clz64 :: "u64 \<Rightarrow> nat" where
  "clz64 val = length (takeWhile (\<lambda>i. \<not> bit val i) (rev [0..<64]))"

text \<open>\<open>pow2floor\<close> is called with positive numbers; for zero the shift of the source is not defined.\<close>

text \<open>For zero the shift by 64 is undefined in C and zero here; the callers pass a positive number of pages.\<close>

definition pow2floor :: "u64 \<Rightarrow> u64" where
  "pow2floor value = (if is_power_of_2 value then value else drop_bit (clz64 value) 0x8000000000000000)"

section \<open>The cache\<close>

record CacheItem =
  it_addr :: u64
  it_age :: u64
  it_data :: "(u64 \<times> u8 list) option"

record PageCache =
  page_cache :: "CacheItem list"
  page_size :: nat
  max_num_items :: u64
  max_item_age :: u64
  num_items :: u64

text \<open>\<open>cache_init\<close>, with the success of its two allocations; \<open>None\<close> stands for \<open>NULL\<close>.\<close>

definition cache_init :: "bool \<Rightarrow> bool \<Rightarrow> u64 \<Rightarrow> nat \<Rightarrow> PageCache option" where
  "cache_init got_cache got_items num_pages psize =
     (if sint num_pages \<le> 0 then None
      else if \<not> got_cache then None
      else let num_pages = (if \<not> is_power_of_2 num_pages then pow2floor num_pages else num_pages) in
        if \<not> got_items then None
        else Some \<lparr>page_cache = replicate (unat num_pages) \<lparr>it_addr = -1, it_age = 0, it_data = None\<rparr>,
               page_size = psize, max_num_items = num_pages, max_item_age = 0, num_items = 0\<rparr>)"

definition cache_get_cache_pos :: "PageCache \<Rightarrow> u64 \<Rightarrow> nat res" where
  "cache_get_cache_pos cache address =
     res_bind (assert_res (max_num_items cache \<noteq> 0)) (\<lambda>_.
     if page_size cache = 0 then Inl Division_by_zero
     else Inr (unat ((address div of_nat (page_size cache)) AND (max_num_items cache - 1))))"

definition cache_get_by_addr :: "PageCache \<Rightarrow> u64 \<Rightarrow> CacheItem res" where
  "cache_get_by_addr cache addr =
     res_bind (cache_get_cache_pos cache addr) (\<lambda>pos. arr_get (page_cache cache) pos)"

definition cache_is_cached :: "PageCache \<Rightarrow> u64 \<Rightarrow> bool res" where
  "cache_is_cached cache addr = res_bind (cache_get_by_addr cache addr) (\<lambda>it. Inr (it_addr it = addr))"

definition get_cached_data :: "PageCache \<Rightarrow> u64 \<Rightarrow> (u64 \<times> u8 list) option res" where
  "get_cached_data cache addr = res_bind (cache_get_by_addr cache addr) (\<lambda>it. Inr (it_data it))"

text \<open>A write through the pointer that \<open>get_cached_data\<close> returned.\<close>

definition put_cached_data :: "PageCache \<Rightarrow> u64 \<Rightarrow> u8 list \<Rightarrow> PageCache res" where
  "put_cached_data cache addr bs =
     res_bind (cache_get_cache_pos cache addr) (\<lambda>pos.
     res_bind (arr_get (page_cache cache) pos) (\<lambda>it.
     case it_data it of None \<Rightarrow> Inl Out_of_bounds
     | Some (ptr, old) \<Rightarrow> res_bind (buf_write old 0 bs) (\<lambda>data.
         Inr (cache\<lparr>page_cache := (page_cache cache)[pos := it\<lparr>it_data := Some (ptr, data)\<rparr>]\<rparr>))))"

text \<open>\<open>cache_insert\<close>, with what the allocator would return; -1 when it returns nothing.\<close>

definition cache_insert :: "u64 option \<Rightarrow> PageCache \<Rightarrow> u64 \<Rightarrow> u8 list \<Rightarrow> (int \<times> PageCache) res" where
  "cache_insert got cache addr pdata =
     res_bind (cache_get_cache_pos cache addr) (\<lambda>pos.
     res_bind (arr_get (page_cache cache) pos) (\<lambda>it.
     case (case it_data it of None \<Rightarrow> got | Some (ptr, old) \<Rightarrow> Some ptr) of
       None \<Rightarrow> Inr (-1, cache)
     | Some ptr \<Rightarrow>
         let cache = (if it_data it = None then cache\<lparr>num_items := num_items cache + 1\<rparr> else cache) in
         res_bind (buf_read pdata 0 (page_size cache)) (\<lambda>bs.
         let age = max_item_age cache + 1;
             it = \<lparr>it_addr = addr, it_age = age, it_data = Some (ptr, bs)\<rparr> in
         Inr (0, cache\<lparr>max_item_age := age, page_cache := (page_cache cache)[pos := it]\<rparr>))))"

text \<open>\<open>cache_resize\<close> moves each item to its slot of the new size; of two items for a slot the younger stays.\<close>

definition resize_item :: "CacheItem \<Rightarrow> PageCache \<Rightarrow> PageCache res" where
  "resize_item old_it new_cache =
     (if it_addr old_it \<noteq> -1 then
        res_bind (cache_get_cache_pos new_cache (it_addr old_it)) (\<lambda>pos.
        res_bind (arr_get (page_cache new_cache) pos) (\<lambda>new_it.
        if it_data new_it \<noteq> None \<and> it_age new_it \<ge> it_age old_it then Inr new_cache
        else let new_cache = (if it_data new_it = None then new_cache\<lparr>num_items := num_items new_cache + 1\<rparr>
                              else new_cache) in
             Inr (new_cache\<lparr>page_cache := (page_cache new_cache)[pos :=
               new_it\<lparr>it_data := it_data old_it, it_age := it_age old_it, it_addr := it_addr old_it\<rparr>]\<rparr>)))
      else Inr new_cache)"

definition cache_resize :: "bool \<Rightarrow> bool \<Rightarrow> PageCache \<Rightarrow> u64 \<Rightarrow> (u64 \<times> PageCache) res" where
  "cache_resize got_cache got_items cache new_num_pages =
     (if pow2floor new_num_pages = max_num_items cache then Inr (max_num_items cache, cache)
      else case cache_init got_cache got_items new_num_pages (page_size cache) of
        None \<Rightarrow> Inr (-1, cache)
      | Some new_cache \<Rightarrow>
          res_bind (fold_res resize_item (page_cache cache) new_cache) (\<lambda>new_cache.
          let cache = cache\<lparr>page_cache := page_cache new_cache, max_num_items := max_num_items new_cache,
                num_items := num_items new_cache\<rparr> in
          Inr (max_num_items cache, cache)))"

section \<open>The contract\<close>

text \<open>
  What a client of the cache relies on: a page that was stored is found, and a page that is found is the
  last one that was stored for its address. The cache may forget pages.
\<close>

locale lossy_cache =
  fixes ok :: "'c \<Rightarrow> bool"
    and lookup :: "'c \<Rightarrow> 'k \<Rightarrow> 'v option"
    and valid_key :: "'k \<Rightarrow> bool"
    and valid_page :: "'c \<Rightarrow> 'v \<Rightarrow> bool"
    and store :: "'k \<Rightarrow> 'v \<Rightarrow> 'c \<Rightarrow> 'c \<Rightarrow> bool"
  assumes store_ok: "ok c \<Longrightarrow> valid_key k \<Longrightarrow> valid_page c v \<Longrightarrow> store k v c c' \<Longrightarrow> ok c'"
    and store_same: "ok c \<Longrightarrow> valid_key k \<Longrightarrow> valid_page c v \<Longrightarrow> store k v c c' \<Longrightarrow> lookup c' k = Some v"
    and store_other: "ok c \<Longrightarrow> valid_key k \<Longrightarrow> valid_page c v \<Longrightarrow> store k v c c' \<Longrightarrow> j \<noteq> k \<Longrightarrow>
      lookup c' j = None \<or> lookup c' j = lookup c j"
begin

text \<open>Every page in the cache is the page that the other side has.\<close>

definition coherent :: "'c \<Rightarrow> ('k \<Rightarrow> 'v) \<Rightarrow> bool" where
  "coherent c peer \<longleftrightarrow> (\<forall>k v. valid_key k \<longrightarrow> lookup c k = Some v \<longrightarrow> peer k = v)"

lemma coherent_store:
  assumes "ok c" "valid_key k" "valid_page c v" "store k v c c'" "coherent c peer"
  shows "coherent c' (peer(k := v))"
  unfolding coherent_def
proof (intro allI impI)
  fix j w
  assume j: "valid_key j" "lookup c' j = Some w"
  show "(peer(k := v)) j = w"
  proof (cases "j = k")
    case True
    then show ?thesis using j store_same [OF assms(1-4)] by simp
  next
    case False
    then have "lookup c j = Some w" using j(2) store_other [OF assms(1-4) False] by auto
    then show ?thesis using False assms(5) j(1) by (simp add: coherent_def)
  qed
qed

lemma coherent_same: "coherent c peer \<Longrightarrow> valid_key k \<Longrightarrow> lookup c k = Some v \<Longrightarrow> peer(k := v) = peer"
  by (auto simp: coherent_def)

end

section \<open>The cache meets the contract\<close>

text \<open>What the allocator promises of an address it returns.\<close>

definition aligned :: "u64 \<Rightarrow> bool" where
  "aligned ptr \<longleftrightarrow> ptr mod 8 = 0"

definition slot :: "PageCache \<Rightarrow> u64 \<Rightarrow> nat" where
  "slot c a = unat ((a div of_nat (page_size c)) AND (max_num_items c - 1))"

definition item_ok :: "PageCache \<Rightarrow> nat \<Rightarrow> CacheItem \<Rightarrow> bool" where
  "item_ok c pos it \<longleftrightarrow> (case it_data it of None \<Rightarrow> it_addr it = -1
     | Some (ptr, bs) \<Rightarrow> aligned ptr \<and> length bs = page_size c \<and> slot c (it_addr it) = pos)"

definition cache_ok :: "PageCache \<Rightarrow> bool" where
  "cache_ok c \<longleftrightarrow> max_num_items c \<noteq> 0 \<and> length (page_cache c) = unat (max_num_items c) \<and> page_size c \<noteq> 0
     \<and> (\<forall>pos < length (page_cache c). item_ok c pos (page_cache c ! pos))"

definition lookup_item :: "PageCache \<Rightarrow> u64 \<Rightarrow> (u64 \<times> u8 list) option" where
  "lookup_item c a = (let it = page_cache c ! slot c a in if it_addr it = a then it_data it else None)"

definition lookup :: "PageCache \<Rightarrow> u64 \<Rightarrow> u8 list option" where
  "lookup c a = map_option snd (lookup_item c a)"

text \<open>The two ways in which the migration stores a page.\<close>

definition store :: "u64 \<Rightarrow> u8 list \<Rightarrow> PageCache \<Rightarrow> PageCache \<Rightarrow> bool" where
  "store a bs c c' \<longleftrightarrow> (\<exists>got. (\<forall>ptr. got = Some ptr \<longrightarrow> aligned ptr) \<and> cache_insert got c a bs = Inr (0, c'))
     \<or> lookup c a \<noteq> None \<and> put_cached_data c a bs = Inr c'"

lemma slot_less:
  assumes "cache_ok c"
  shows "slot c a < length (page_cache c)"
proof -
  let ?m = "max_num_items c"
  have "(a div of_nat (page_size c)) AND (?m - 1) \<le> ?m - 1" by (rule word_and_le1)
  moreover have "0 < unat ?m" using assms by (simp add: cache_ok_def unat_gt_0)
  then have "?m - 1 < ?m" using assms by (simp add: cache_ok_def word_less_nat_alt unat_minus_one)
  ultimately have "(a div of_nat (page_size c)) AND (?m - 1) < ?m" by (rule order.strict_trans1)
  then show ?thesis using assms by (simp add: cache_ok_def slot_def word_less_nat_alt)
qed

lemma cache_pos: "cache_ok c \<Longrightarrow> cache_get_cache_pos c a = Inr (slot c a)"
  by (simp add: cache_get_cache_pos_def cache_ok_def slot_def)

lemma cache_by_addr: "cache_ok c \<Longrightarrow> cache_get_by_addr c a = Inr (page_cache c ! slot c a)"
  by (simp add: cache_get_by_addr_def cache_pos slot_less)

lemma item_at: "cache_ok c \<Longrightarrow> item_ok c (slot c a) (page_cache c ! slot c a)"
  using slot_less [of c a] by (simp add: cache_ok_def)

lemma cached_iff:
  assumes "cache_ok c" "a \<noteq> -1"
  shows "cache_is_cached c a = Inr (lookup c a \<noteq> None)"
    and "lookup_item c a = Some pb \<Longrightarrow> get_cached_data c a = Inr (Some pb)"
proof -
  let ?it = "page_cache c ! slot c a"
  show "cache_is_cached c a = Inr (lookup c a \<noteq> None)"
    using assms item_at [OF assms(1), of a]
    by (auto simp: cache_is_cached_def cache_by_addr lookup_def lookup_item_def item_ok_def Let_def split: option.splits)
  show "get_cached_data c a = Inr (Some pb)" if "lookup_item c a = Some pb"
    using that assms(1) by (auto simp: get_cached_data_def cache_by_addr lookup_item_def Let_def split: if_splits)
qed

text \<open>Replacing the item in the slot of an address.\<close>

lemma slot_update [simp]: "slot (c\<lparr>page_cache := xs\<rparr>) = slot c" "slot (c\<lparr>max_item_age := n\<rparr>) = slot c"
  "slot (c\<lparr>num_items := m\<rparr>) = slot c"
  by (simp_all add: slot_def [abs_def])

lemma put_item:
  assumes c: "cache_ok c" and xs: "page_cache c' = (page_cache c)[slot c a := it]"
    and it: "it_addr it = a" "it_data it = Some (ptr, bs)" "length bs = page_size c" "aligned ptr"
    and same: "page_size c' = page_size c" "max_num_items c' = max_num_items c"
  shows "cache_ok c'" "lookup_item c' a = Some (ptr, bs)"
    and "b \<noteq> a \<Longrightarrow> lookup_item c' b = (if slot c b = slot c a then None else lookup_item c b)"
proof -
  have sl: "slot c' = slot c" using same by (simp add: slot_def [abs_def])
  have lt: "slot c a < length (page_cache c)" by (rule slot_less [OF c])
  have "item_ok c' pos (page_cache c' ! pos)" if "pos < length (page_cache c')" for pos
  proof (cases "pos = slot c a")
    case True
    then show ?thesis using xs it lt sl same by (simp add: item_ok_def)
  next
    case False
    then have "item_ok c pos (page_cache c' ! pos)" using c xs that by (simp add: cache_ok_def)
    then show ?thesis using sl same by (auto simp: item_ok_def split: option.splits)
  qed
  then show "cache_ok c'" using c xs same by (simp add: cache_ok_def)
  show "lookup_item c' a = Some (ptr, bs)" using xs it lt sl by (simp add: lookup_item_def)
  show "lookup_item c' b = (if slot c b = slot c a then None else lookup_item c b)" if "b \<noteq> a"
    using xs it lt sl that by (simp add: lookup_item_def Let_def)
qed

lemma cache_insert_eq:
  assumes "cache_ok c" "length bs = page_size c"
  shows "cache_insert got c a bs =
    (case (case it_data (page_cache c ! slot c a) of None \<Rightarrow> got | Some (ptr, old) \<Rightarrow> Some ptr) of
       None \<Rightarrow> Inr (-1, c)
     | Some ptr \<Rightarrow> Inr (0, c\<lparr>num_items := num_items c + of_bool (it_data (page_cache c ! slot c a) = None),
         max_item_age := max_item_age c + 1, page_cache := (page_cache c)[slot c a :=
           \<lparr>it_addr = a, it_age = max_item_age c + 1, it_data = Some (ptr, bs)\<rparr>]\<rparr>))"
  using assms slot_less [OF assms(1), of a]
  by (auto simp: cache_insert_def cache_pos buf_read_def Let_def split: option.splits)

lemma cache_insert_item:
  assumes c: "cache_ok c" "length bs = page_size c" "\<And>ptr. got = Some ptr \<Longrightarrow> aligned ptr"
    and ins: "cache_insert got c a bs = Inr (0, c')"
  shows "\<exists>ptr. page_cache c' = (page_cache c)[slot c a := \<lparr>it_addr = a, it_age = max_item_age c + 1, it_data = Some (ptr, bs)\<rparr>]
    \<and> aligned ptr \<and> page_size c' = page_size c \<and> max_num_items c' = max_num_items c"
  using ins item_at [OF c(1), of a] c(3)
  by (auto simp: cache_insert_eq [OF c(1,2)] item_ok_def split: option.splits)

lemma put_cached_item:
  assumes c: "cache_ok c" "length bs = page_size c" and found: "lookup_item c a = Some (ptr, old)"
  shows "put_cached_data c a bs = Inr (c\<lparr>page_cache := (page_cache c)[slot c a :=
      (page_cache c ! slot c a)\<lparr>it_data := Some (ptr, bs)\<rparr>]\<rparr>)" "aligned ptr" "it_addr (page_cache c ! slot c a) = a"
  using found item_at [OF c(1), of a] slot_less [OF c(1), of a] c
  by (auto simp: put_cached_data_def cache_pos lookup_item_def item_ok_def buf_write_def Let_def split: if_splits)

interpretation pages: lossy_cache cache_ok lookup "\<lambda>a. a \<noteq> -1" "\<lambda>c bs. length bs = page_size c" store
proof
  fix c a bs c' b
  assume c: "cache_ok c" "a \<noteq> -1" "length bs = page_size c" and st: "store a bs c c'"
  have "\<exists>it ptr. page_cache c' = (page_cache c)[slot c a := it] \<and> it_addr it = a \<and> it_data it = Some (ptr, bs)
      \<and> aligned ptr \<and> page_size c' = page_size c \<and> max_num_items c' = max_num_items c"
    using st unfolding store_def
  proof (elim disjE exE conjE)
    fix got
    assume "\<forall>ptr. got = Some ptr \<longrightarrow> aligned ptr" "cache_insert got c a bs = Inr (0, c')"
    then show ?thesis using cache_insert_item [OF c(1,3), of got a c'] by fastforce
  next
    assume "lookup c a \<noteq> None" and put: "put_cached_data c a bs = Inr c'"
    then obtain ptr old where "lookup_item c a = Some (ptr, old)" by (auto simp: lookup_def)
    from put_cached_item [OF c(1,3) this] put show ?thesis by force
  qed
  then obtain it ptr where it: "page_cache c' = (page_cache c)[slot c a := it]" "it_addr it = a"
    "it_data it = Some (ptr, bs)" "aligned ptr" "page_size c' = page_size c" "max_num_items c' = max_num_items c"
    by blast
  note put = put_item [OF c(1) it(1,2,3) c(3) it(4-)]
  show "cache_ok c'" by (rule put)
  show "lookup c' a = Some bs" using put(2) by (simp add: lookup_def)
  show "lookup c' b = None \<or> lookup c' b = lookup c b" if "b \<noteq> a" using put(3) [OF that] by (simp add: lookup_def)
qed

section \<open>New sizes\<close>

text \<open>\<open>pow2floor\<close> is the largest power of two up to its argument.\<close>

lemma clz64_bit:
  assumes "v \<noteq> 0"
  shows "clz64 v < 64" "bit v (63 - clz64 v)" "\<And>i. 63 - clz64 v < i \<Longrightarrow> \<not> bit v i"
proof -
  let ?xs = "rev [0..<64]" and ?P = "\<lambda>i. \<not> bit v i"
  have nth: "?xs ! j = 63 - j" if "j < 64" for j using that by (subst rev_nth) simp_all
  obtain n where n: "bit v n" using assms by (metis bit_0_eq bit_eq_iff bot_apply bot_bool_def)
  then have "n < 64" using bit_imp_le_length [of v n] by simp
  then have "n \<in> set ?xs" by simp
  then have "takeWhile ?P ?xs \<noteq> ?xs" using n by (metis takeWhile_eq_all_conv)
  then have lt: "clz64 v < length ?xs"
    unfolding clz64_def by (metis length_takeWhile_le nat_less_le takeWhile_eq_take take_all_iff)
  then show "clz64 v < 64" by simp
  have "\<not> ?P (?xs ! clz64 v)" using lt unfolding clz64_def by (rule nth_length_takeWhile)
  then show "bit v (63 - clz64 v)" using lt nth [of "clz64 v"] by simp
  show "\<not> bit v i" if "63 - clz64 v < i" for i
  proof
    assume b: "bit v i"
    then have "i < 64" using bit_imp_le_length [of v i] by simp
    then have "63 - i < clz64 v" "?xs ! (63 - i) = i" using that nth [of "63 - i"] by simp_all
    then have "i \<in> set (takeWhile ?P ?xs)"
      unfolding clz64_def using takeWhile_nth [of "63 - i" ?P ?xs] nth_mem [of "63 - i" "takeWhile ?P ?xs"] by simp
    with b show False by (auto dest: set_takeWhileD)
  qed
qed

lemma pow2floor_pos: "v \<noteq> 0 \<Longrightarrow> pow2floor v \<noteq> 0"
proof -
  assume v: "v \<noteq> 0"
  have "bit (drop_bit (clz64 v) (push_bit 63 1 :: u64)) (63 - clz64 v)"
    using clz64_bit(1) [OF v] by (simp add: bit_simps)
  then have "drop_bit (clz64 v) (0x8000000000000000 :: u64) \<noteq> 0" by auto
  with v show ?thesis by (simp add: pow2floor_def)
qed

lemma cache_init_ok:
  assumes "cache_init got_cache got_items n psize = Some c" "psize \<noteq> 0"
  shows "cache_ok c" "lookup c a = None" "page_size c = psize"
proof -
  let ?n = "if \<not> is_power_of_2 n then pow2floor n else n"
  have c: "c = \<lparr>page_cache = replicate (unat ?n) \<lparr>it_addr = -1, it_age = 0, it_data = None\<rparr>,
      page_size = psize, max_num_items = ?n, max_item_age = 0, num_items = 0\<rparr>" and "n \<noteq> 0"
    using assms(1) by (auto simp: cache_init_def Let_def split: if_splits)
  then have "?n \<noteq> 0" using pow2floor_pos by auto
  then show ok: "cache_ok c" using c assms(2) by (simp add: cache_ok_def item_ok_def)
  show "lookup c a = None" using slot_less [OF ok, of a] c by (simp add: lookup_def lookup_item_def)
  show "page_size c = psize" using c by simp
qed

text \<open>Resizing forgets pages but mixes none up.\<close>

lemma resize_items:
  assumes c: "cache_ok c" "set its \<subseteq> set (page_cache c)"
  shows "cache_ok n \<Longrightarrow> page_size n = page_size c \<Longrightarrow>
    (\<And>a pb. lookup_item n a = Some pb \<Longrightarrow> a \<noteq> -1 \<Longrightarrow> lookup_item c a = Some pb) \<Longrightarrow>
    \<exists>n'. fold_res resize_item its n = Inr n' \<and> cache_ok n' \<and> page_size n' = page_size c
      \<and> (\<forall>a pb. lookup_item n' a = Some pb \<longrightarrow> a \<noteq> -1 \<longrightarrow> lookup_item c a = Some pb)"
  using c(2)
proof (induction its arbitrary: n)
  case (Cons it its)
  obtain pos where pos: "pos < length (page_cache c)" "page_cache c ! pos = it"
    using Cons.prems(4) by (auto simp: in_set_conv_nth)
  then have it: "item_ok c pos it" using c(1) by (auto simp: cache_ok_def)
  have "\<exists>n1. resize_item it n = Inr n1 \<and> cache_ok n1 \<and> page_size n1 = page_size c
      \<and> (\<forall>a pb. lookup_item n1 a = Some pb \<longrightarrow> a \<noteq> -1 \<longrightarrow> lookup_item c a = Some pb)"
  proof (cases "it_addr it = -1")
    case True
    then show ?thesis using Cons.prems by (simp add: resize_item_def)
  next
    case False
    then obtain ptr bs where d: "it_data it = Some (ptr, bs)" "aligned ptr" "length bs = page_size c" "slot c (it_addr it) = pos"
      using it by (auto simp: item_ok_def split: option.splits)
    then have here: "lookup_item c (it_addr it) = Some (ptr, bs)" using pos by (simp add: lookup_item_def)
    let ?new = "page_cache n ! slot n (it_addr it)"
    show ?thesis
    proof (cases "it_data ?new \<noteq> None \<and> it_age ?new \<ge> it_age it")
      case True
      then show ?thesis
        using False Cons.prems slot_less [OF Cons.prems(1)] by (simp add: resize_item_def cache_pos)
    next
      case old: False
      let ?n1 = "(if it_data ?new = None then n\<lparr>num_items := num_items n + 1\<rparr> else n)
        \<lparr>page_cache := (page_cache n)[slot n (it_addr it) :=
          ?new\<lparr>it_data := it_data it, it_age := it_age it, it_addr := it_addr it\<rparr>]\<rparr>"
      have step: "resize_item it n = Inr ?n1"
        using False old slot_less [OF Cons.prems(1)] by (auto simp: resize_item_def cache_pos [OF Cons.prems(1)] Let_def)
      note put = put_item [of n ?n1 "it_addr it" "?new\<lparr>it_data := it_data it, it_age := it_age it, it_addr := it_addr it\<rparr>" ptr bs]
      have ok: "cache_ok ?n1" "lookup_item ?n1 (it_addr it) = Some (ptr, bs)"
        using Cons.prems(1,2) d by (intro put; simp)+
      have "lookup_item c a = Some pb" if "lookup_item ?n1 a = Some pb" "a \<noteq> -1" for a pb
      proof (cases "a = it_addr it")
        case True
        then show ?thesis using that ok(2) here by simp
      next
        case False
        then have "lookup_item ?n1 a = (if slot n a = slot n (it_addr it) then None else lookup_item n a)"
          using Cons.prems(1,2) d by (intro put(3)) simp_all
        then have "lookup_item n a = Some pb" using that(1) by (metis option.distinct(1))
        then show ?thesis using that(2) by (rule Cons.prems(3))
      qed
      then show ?thesis using step ok Cons.prems(2) by (intro exI [of _ ?n1]) auto
    qed
  qed
  then obtain n1 where "resize_item it n = Inr n1" "cache_ok n1" "page_size n1 = page_size c"
    "\<forall>a pb. lookup_item n1 a = Some pb \<longrightarrow> a \<noteq> -1 \<longrightarrow> lookup_item c a = Some pb" by blast
  with Cons.IH [of n1] Cons.prems(4) show ?case by simp
qed simp

lemma cache_resize_ok:
  assumes "cache_ok c"
  shows "\<exists>r c'. cache_resize got_cache got_items c n = Inr (r, c') \<and> cache_ok c' \<and> page_size c' = page_size c
    \<and> (\<forall>a. a \<noteq> -1 \<longrightarrow> lookup c' a = None \<or> lookup c' a = lookup c a)"
proof (cases "pow2floor n = max_num_items c \<or> cache_init got_cache got_items n (page_size c) = None")
  case True
  then show ?thesis using assms by (auto simp: cache_resize_def)
next
  case False
  then obtain new where new: "cache_init got_cache got_items n (page_size c) = Some new" by auto
  have "page_size c \<noteq> 0" using assms by (simp add: cache_ok_def)
  note init = cache_init_ok [OF new this]
  obtain n' where n': "fold_res resize_item (page_cache c) new = Inr n'" "cache_ok n'" "page_size n' = page_size c"
    "\<forall>a pb. lookup_item n' a = Some pb \<longrightarrow> a \<noteq> -1 \<longrightarrow> lookup_item c a = Some pb"
    using resize_items [OF assms order.refl init(1,3)] init(2) by (auto simp: lookup_def)
  let ?c' = "c\<lparr>page_cache := page_cache n', max_num_items := max_num_items n', num_items := num_items n'\<rparr>"
  have sl: "slot ?c' = slot n'" using n'(3) by (simp add: slot_def [abs_def])
  have "cache_ok ?c'" using n'(2,3) sl by (auto simp: cache_ok_def item_ok_def split: option.splits)
  moreover have "lookup ?c' a = None \<or> lookup ?c' a = lookup c a" if "a \<noteq> -1" for a
  proof -
    have "lookup_item ?c' a = lookup_item n' a" using sl by (simp add: lookup_item_def)
    then show ?thesis using n'(4) that by (cases "lookup_item n' a") (auto simp: lookup_def)
  qed
  ultimately show ?thesis using False new n'(1) by (auto simp: cache_resize_def Let_def)
qed

text \<open>\<open>get_cached_data\<close> does not look at the address of the item it finds.\<close>

lemma get_cached_data_other:
  "cache_ok c \<Longrightarrow> slot c a = slot c b \<Longrightarrow> lookup_item c b = Some pb \<Longrightarrow> get_cached_data c a = Inr (Some pb)"
  by (auto simp: get_cached_data_def cache_by_addr lookup_item_def Let_def split: if_splits)

end
