(* ===== verification/Spec2Isabelle.thy ===== *)
theory Spec2Isabelle
  imports Swizzle RC4 XXHash Bootloader_SMC XCode NV2A_Draws MCPX_APU Xbox_IRQ LPC47M157 XBZRLE Page_Cache
begin

text \<open>
  Verification of the Xbox machine of XQEMU, a fork of QEMU 2.0. The machine is an x86 PC with unusual parts: a boot ROM
  inside of the south bridge that runs a small bytecode (X-codes) and hides itself, a system management controller (SMC)
  on an SMBus that resets the console unless the boot loader answers its challenge, and the graphics processor NV2A, to which
  the guest talks through a push buffer in memory. The theories follow these parts; every definition that models code
  carries the name the code has, where HOL allows it.

  \<^bold>\<open>Conventions.\<close> Machine integers are words of their width. A C function that can fail an assertion, index
  outside of an array, divide by zero, shift by more than the width or exit returns \<open>fault + 'a\<close>
  (\<open>Xbox_Prelude\<close>); \<open>res_ok\<close>, \<open>res_all\<close> and \<open>res_safe\<close> state that a result is not such a fault and satisfies a
  predicate. State is passed explicitly as records. A loop whose end depends on a device or on guest data is a partial function into
  \<open>option\<close>, in which \<open>None\<close> is a loop that never ends; where the development states that such code returns, it proves
  that the value is \<open>Some\<close>. No definition uses fuel. Threads and timers of the host are inductive step relations.

  \<^bold>\<open>Theories.\<close>

  \<^item> \<open>Xbox_Prelude\<close>: faults, arrays, memories, little-endian loads and stores, lemmas on words. \<open>Bitfields\<close>: \<open>ffs\<close> and the
    macros \<open>GET_MASK\<close> and \<open>SET_MASK\<close>; the locale \<open>bitfield\<close> is the contract of a contiguous field, interpreted at the
    masks of the NV2A.
  \<^item> \<open>Swizzle\<close> (\<open>hw/xbox/swizzle.h\<close>): texture swizzling; the offset is a bijection, and copying to and from the swizzled
    layout restores the image.
  \<^item> \<open>RC4\<close> (\<open>hw/xbox/rc4.h\<close>) and \<open>XXHash\<close> (\<open>hw/xbox/xxhash.c\<close>): the cipher's round trip; the streaming digest equals the
    one-shot digest for every way to cut the message (locales \<open>stream_cipher\<close> and \<open>streaming_digest\<close>).
  \<^item> \<open>I2C\<close> (\<open>hw/i2c/core.c\<close>), \<open>SMBus\<close> (\<open>hw/i2c/smbus.c\<close>), \<open>SMBus_Devices\<close> (\<open>hw/i2c/smbus_eeprom.c\<close>,
    \<open>hw/xbox/smbus_cx25871.c\<close>, \<open>hw/xbox/smbus_adm1032.c\<close>) and \<open>SMC\<close> (\<open>hw/xbox/smbus_xbox_smc.c\<close>): the bus, the protocol
    state machine and its devices. The commands of the master refine an abstract transaction on the device; the
    EEPROM stores; the SMC's accesses fail exactly where they assert; its watchdog resets the console unless
    the challenge was answered.
  \<^item> \<open>IO_Access\<close> (\<open>memory.c\<close>, \<open>ioport.c\<close>), \<open>AMD_SMBus\<close> (\<open>hw/xbox/amd_smbus.c\<close>) and \<open>Xbox_SMBus\<close> (\<open>hw/xbox/xbox_pci.c\<close>):
    port accesses and the SMBus host controller with the console's devices; no sequence of port accesses leaves a buffer.
  \<^item> \<open>Bootloader_SMC\<close> and \<open>Boot_CPU\<close> (\<open>hw/xbox/bootloader.c\<close>), \<open>X86_CPU\<close> (\<open>target-i386\<close>): the boot loader's
    handshake with the SMC ends and stops the watchdog; its page tables translate every address as intended.
  \<^item> \<open>Xbox_Memory\<close> (\<open>hw/xbox/xbox.c\<close>, \<open>exec.c\<close>), \<open>MCPX_ROM\<close> (\<open>hw/xbox/mcpx_rom.c\<close>, \<open>hw/xbox/mcpx.c\<close>) and \<open>XCode\<close>: the flash
    mirrors, the boot ROM and the X-code interpreter, which refines a big-step semantics of assembled programs and
    can not read the ROM.
  \<^item> \<open>NV2A_State\<close>, \<open>NV2A_Registers\<close>, \<open>NV2A_Pusher\<close>, \<open>NV2A_Regs\<close>, \<open>NV2A_Clock\<close>, \<open>NV2A_MMIO\<close> and \<open>NV2A_Puller\<close>
    (\<open>hw/xbox/nv2a_gpu.c\<close>, \<open>hw/xbox/nv2a_gpu_registers.h\<close>): the graphics processor up to the drawing engine. The
    pusher decodes push buffers into the commands they encode; registers read back; accesses stay in the device's arrays;
    the interrupt line follows the units; the puller executes commands in order while there is only one.
  \<^item> \<open>NV2A_Names\<close>, \<open>NV2A_GL\<close>, \<open>NV2A_Methods\<close>, \<open>NV2A_Engine\<close> and \<open>NV2A_Draws\<close> (\<open>hw/xbox/nv2a_gpu.c\<close>,
    \<open>hw/xbox/nv2a_gpu_methods.h\<close>): the methods of the graphics classes, the settings that a draw sends to OpenGL, and the
    draws. A draw finds the settings of the registers; methods stay in the arrays of the state; an invariant of the device
    holds in every reachable state of the guest and the threads; the copy of rectangles and the upload of programs do
    what their names say. \<open>NV2A_Draws\<close> also shows where the code fails to.
  \<^item> \<open>MCPX_APU\<close> (\<open>hw/xbox/mcpx_apu.c\<close>): the audio processor. Its commands insert into lists of voices in guest memory; a
    frame walks the lists and ends when they are proper lists.
  \<^item> \<open>Xbox_IRQ\<close> (\<open>hw/xbox/xbox_pci.c\<close>, \<open>hw/pci/pci.c\<close>): the interrupt pins of the PCI devices, their counters on the bus and
    the routing of the LPC bridge; the inputs of the interrupt controller follow the pins while no two lines share one.
  \<^item> \<open>LPC47M157\<close> (\<open>hw/xbox/lpc47m157.c\<close>, \<open>hw/isa/isa-bus.c\<close>): the Super I/O chip; which accesses fail, and that the
    configuration sequence connects a serial port.
  \<^item> \<open>XBZRLE\<close> (\<open>xbzrle.c\<close>, \<open>util/cutils.c\<close>) and \<open>Page_Cache\<close> (\<open>page_cache.c\<close>): the page deltas of a migration and the cache
    they are taken against. The word-wise encoder finds the runs of the format, the decoder inverts it and is safe on
    every input; the cache meets the contract of the locale \<open>lossy_cache\<close>, also when it is resized.

  \<^bold>\<open>Interaction.\<close> The guest's accesses reach the devices as functions on their states: port accesses through \<open>IO_Access\<close> to
  the SMBus controller, which runs transactions of \<open>SMBus\<close> on the devices through \<open>I2C\<close>; register accesses of the NV2A through
  \<open>NV2A_MMIO\<close>. The boot loader is a client of the SMBus ports, the X-code interpreter of memory and of a bus of ports that is its
  argument. The pusher runs inside of a register write and is one step; a puller's step ends where the thread
  takes a lock or waits, and spurious wake-ups of its condition variables are steps.

  \<^bold>\<open>Arguments.\<close> Code that is not in the repository or that is not modelled is an argument: the caches of textures, render
  targets and shader programs that a draw consults (\<open>draw_ops\<close>), the ports of the VGA core (\<open>vga_ops\<close>), the virtual clock, the
  results of the allocator, the console's ports under the X-codes and the second stage of the boot ROM. Hypotheses on them are
  named (\<open>ops_safe\<close>, \<open>smooth_engine\<close>) and witnesses instantiate them. \<open>NV2A_Puller\<close> takes the drawing engine as an argument with
  the hypothesis \<open>engine_keeps_ok\<close>; \<open>NV2A_Engine\<close> proves it for the modelled engine. Calls of OpenGL are a trace of the calls
  and their arguments. The host is little-endian, with a \<open>long\<close> of eight bytes.

  \<^bold>\<open>Not modelled.\<close> The caches of textures, pixels, render targets and programs and the translation of shaders, which produce
  objects and programs for the host's OpenGL. The processor's instruction translator, the block, network, audio, USB and user
  interface layers, and the devices and guest processors of other machines, which the console does not use. The kernel loading
  of the boot loader, which includes files that the repository does not hold. The creation of device objects, tracing and debug
  output. The console's network device, AC97 controller, ACPI and game pad, which are stubs or wrap cores of QEMU, and the arcade
  board, which opens host files. Of a migration, everything around the pages: the search for dirty pages, the handshakes and
  the states of the devices.
\<close>

end
